(* ===== verification/Rcp_Prelude.thy ===== *)
theory Rcp_Prelude
  imports Main "HOL-Library.Sublist"
begin

text \<open>
  Shared vocabulary of the development: Go strings as byte lists with the functions of the
  packages \<^verbatim>\<open>strings\<close> and \<^verbatim>\<open>strconv\<close> the sources call, 64-bit integers, results with errors,
  and the lemma collections the component theories use.

  A Go string is a sequence of bytes; here it is a \<^typ>\<open>string\<close>, whose characters are bytes.
  Functions that work on runes (white space, letter case) are written on the UTF-8 encoding of
  the runes they treat specially.
\<close>

named_theorems go_defs \<open>definitions of the Go library functions, for evaluation\<close>

type_synonym bytes = string

subsection \<open>Results\<close>

text \<open>A Go function returning \<^verbatim>\<open>(T, error)\<close> is a function into \<open>'e + 'a\<close>.\<close>

abbreviation Err :: "'e \<Rightarrow> 'e + 'a" where "Err \<equiv> Inl"
abbreviation Ok :: "'a \<Rightarrow> 'e + 'a" where "Ok \<equiv> Inr"

fun is_ok :: "'e + 'a \<Rightarrow> bool" where
  "is_ok (Inl _) = False"
| "is_ok (Inr _) = True"

lemma is_ok_iff: "is_ok r \<longleftrightarrow> (\<exists>x. r = Ok x)"
  by (cases r) auto

lemma not_is_ok_iff: "\<not> is_ok r \<longleftrightarrow> (\<exists>e. r = Err e)"
  by (cases r) auto

text \<open>The sequence \<^verbatim>\<open>x, err := r; if err != nil { return err }; ...\<close>.\<close>

definition rbind :: "'e + 'a \<Rightarrow> ('a \<Rightarrow> 'e + 'b) \<Rightarrow> 'e + 'b" where
  "rbind r f = (case r of Inl e \<Rightarrow> Inl e | Inr x \<Rightarrow> f x)"

lemma rbind_simps [simp]: "rbind (Inl e) f = Inl e" "rbind (Inr x) f = f x"
  by (simp_all add: rbind_def)

lemma rbind_Ok: "rbind r f = Ok y \<longleftrightarrow> (\<exists>x. r = Ok x \<and> f x = Ok y)"
  by (cases r) auto

lemma rbind_OkE:
  assumes "rbind r f = Ok y"
  obtains x where "r = Ok x" "f x = Ok y"
  using assms by (auto simp: rbind_Ok)

text \<open>The three outcomes of a lookup that may fail and may find nothing.\<close>

lemma lookup_cases:
  obtains (err) e where "r = Err e" | (none) "r = Ok None" | (some) x where "r = Ok (Some x)"
proof (cases r)
  case (Inr z)
  then show thesis using that by (cases z) auto
qed (use that in blast)

subsection \<open>64-bit integers\<close>

text \<open>The value a Go \<^verbatim>\<open>int\<close> (64 bits on the deployment targets) takes when \<open>x\<close> overflows.\<close>

definition wrap64 :: "int \<Rightarrow> int" where
  "wrap64 x = (x + 2 ^ 63) mod 2 ^ 64 - 2 ^ 63"

definition max_int64 :: int where "max_int64 = 2 ^ 63 - 1"

lemma wrap64_id: "- (2 ^ 63) \<le> x \<Longrightarrow> x < 2 ^ 63 \<Longrightarrow> wrap64 x = x"
  by (simp add: wrap64_def)

lemma wrap64_range: "- (2 ^ 63) \<le> wrap64 x \<and> wrap64 x < 2 ^ 63"
  using pos_mod_bound [of "2 ^ 64 :: int" "x + 2 ^ 63"] by (simp add: wrap64_def)

text \<open>Go's integer division truncates towards zero.\<close>

definition quot :: "int \<Rightarrow> int \<Rightarrow> int" where
  "quot a b = sgn a * sgn b * (\<bar>a\<bar> div \<bar>b\<bar>)"

lemma quot_nonneg: "0 \<le> a \<Longrightarrow> 0 < b \<Longrightarrow> quot a b = a div b"
  by (cases "a = 0") (auto simp: quot_def sgn_if)

lemma quot_neg: "a < 0 \<Longrightarrow> 0 < b \<Longrightarrow> quot a b \<le> 0"
  by (auto simp: quot_def sgn_if pos_imp_zdiv_nonneg_iff)

subsection \<open>Bytes\<close>

definition byte :: "char \<Rightarrow> nat" where
  "byte c = of_char c"

definition in_range :: "char \<Rightarrow> char \<Rightarrow> char \<Rightarrow> bool" where
  "in_range lo hi c \<longleftrightarrow> byte lo \<le> byte c \<and> byte c \<le> byte hi"

definition is_digit :: "char \<Rightarrow> bool" where
  "is_digit c \<longleftrightarrow> in_range CHR ''0'' CHR ''9'' c"

definition is_lower :: "char \<Rightarrow> bool" where
  "is_lower c \<longleftrightarrow> in_range CHR ''a'' CHR ''z'' c"

definition is_upper :: "char \<Rightarrow> bool" where
  "is_upper c \<longleftrightarrow> in_range CHR ''A'' CHR ''Z'' c"

definition lower_char :: "char \<Rightarrow> char" where
  "lower_char c = (if is_upper c then char_of (byte c + 32) else c)"

definition upper_char :: "char \<Rightarrow> char" where
  "upper_char c = (if is_lower c then char_of (byte c - 32) else c)"

lemmas char_class_defs = byte_def in_range_def is_digit_def is_lower_def is_upper_def
  lower_char_def upper_char_def

declare char_class_defs [go_defs]

lemma byte_inject [simp]: "byte c = byte d \<longleftrightarrow> c = d"
  by (simp add: byte_def)

lemma byte_char_of [simp]: "n < 256 \<Longrightarrow> byte (char_of n) = n"
  by (simp add: byte_def of_char_of)

lemma lower_char_idem [simp]: "lower_char (lower_char c) = lower_char c"
  by (auto simp: lower_char_def is_upper_def in_range_def, simp add: byte_def)


subsection \<open>The package strings\<close>

definition HasPrefix :: "bytes \<Rightarrow> bytes \<Rightarrow> bool" where
  "HasPrefix s p \<longleftrightarrow> take (length p) s = p"

definition HasSuffix :: "bytes \<Rightarrow> bytes \<Rightarrow> bool" where
  "HasSuffix s p \<longleftrightarrow> HasPrefix (rev s) (rev p)"

definition TrimPrefix :: "bytes \<Rightarrow> bytes \<Rightarrow> bytes" where
  "TrimPrefix s p = (if HasPrefix s p then drop (length p) s else s)"

definition TrimSuffix :: "bytes \<Rightarrow> bytes \<Rightarrow> bytes" where
  "TrimSuffix s p = (if HasSuffix s p then take (length s - length p) s else s)"

lemma HasPrefix_iff: "HasPrefix s p \<longleftrightarrow> (\<exists>t. s = p @ t)"
  unfolding HasPrefix_def by (metis append_eq_conv_conj append_take_drop_id)

lemma HasPrefix_self [simp]: "HasPrefix (p @ t) p"
  by (auto simp: HasPrefix_iff)

lemma HasSuffix_iff: "HasSuffix s p \<longleftrightarrow> (\<exists>t. s = t @ p)"
  unfolding HasSuffix_def HasPrefix_iff by (metis rev_append rev_rev_ident)

lemma TrimPrefix_append [simp]: "TrimPrefix (p @ t) p = t"
  by (simp add: TrimPrefix_def)

lemma TrimSuffix_append [simp]: "TrimSuffix (t @ p) p = t"
  by (auto simp: TrimSuffix_def HasSuffix_iff)

text \<open>The UTF-8 encodings of the runes for which \<^verbatim>\<open>unicode.IsSpace\<close> holds.\<close>

definition space_seqs :: "nat list list" where
  "space_seqs = [[9], [10], [11], [12], [13], [32], [0xC2, 0x85], [0xC2, 0xA0],
     [0xE1, 0x9A, 0x80], [0xE2, 0x80, 0x80], [0xE2, 0x80, 0x81], [0xE2, 0x80, 0x82],
     [0xE2, 0x80, 0x83], [0xE2, 0x80, 0x84], [0xE2, 0x80, 0x85], [0xE2, 0x80, 0x86],
     [0xE2, 0x80, 0x87], [0xE2, 0x80, 0x88], [0xE2, 0x80, 0x89], [0xE2, 0x80, 0x8A],
     [0xE2, 0x80, 0xA8], [0xE2, 0x80, 0xA9], [0xE2, 0x80, 0xAF], [0xE2, 0x81, 0x9F],
     [0xE3, 0x80, 0x80]]"

text \<open>The number of bytes of the white-space rune that \<open>s\<close> starts with, or 0.\<close>

definition space_len :: "nat list list \<Rightarrow> bytes \<Rightarrow> nat" where
  "space_len seqs s = (case filter (\<lambda>q. take (length q) (map byte s) = q) seqs of
     [] \<Rightarrow> 0 | q # _ \<Rightarrow> length q)"

function trim_front :: "nat list list \<Rightarrow> bytes \<Rightarrow> bytes" where
  "trim_front seqs s = (if s = [] \<or> space_len seqs s = 0 then s
     else trim_front seqs (drop (space_len seqs s) s))"
  by pat_completeness auto
termination
  by (relation "measure (\<lambda>(_, s). length s)") auto

declare trim_front.simps [simp del]

definition TrimSpace :: "bytes \<Rightarrow> bytes" where
  "TrimSpace s = rev (trim_front (map rev space_seqs) (rev (trim_front space_seqs s)))"

lemma trim_front_suffix: "suffix (trim_front q s) s"
proof (induction q s rule: trim_front.induct)
  case (1 q s)
  show ?case
  proof (cases "s = [] \<or> space_len q s = 0")
    case True then show ?thesis by (subst trim_front.simps) simp
  next
    case False
    then have "suffix (trim_front q (drop (space_len q s) s)) (drop (space_len q s) s)"
      using 1 by simp
    then have "suffix (trim_front q (drop (space_len q s) s)) s"
      using suffix_drop suffix_order.order_trans by blast
    with False show ?thesis by (subst trim_front.simps) simp
  qed
qed

lemma trim_front_fixed: "trim_front q s = [] \<or> space_len q (trim_front q s) = 0"
proof (induction q s rule: trim_front.induct)
  case (1 q s) then show ?case by (subst (1 2) trim_front.simps) auto
qed

lemma trim_front_id: "space_len q s = 0 \<Longrightarrow> trim_front q s = s"
  by (subst trim_front.simps) simp

lemma trim_front_Nil [simp]: "trim_front q [] = []"
  by (subst trim_front.simps) simp

lemma trim_front_idem [simp]: "trim_front q (trim_front q s) = trim_front q s"
  using trim_front_fixed [of q s] by (auto simp: trim_front_id)

lemma TrimSpace_infix: "\<exists>a b. s = a @ TrimSpace s @ b"
proof -
  obtain a where a: "s = a @ trim_front space_seqs s"
    using trim_front_suffix [of space_seqs s] by (auto simp: suffix_def)
  obtain b where "rev (trim_front space_seqs s) = b @ rev (TrimSpace s)"
    using trim_front_suffix [of "map rev space_seqs" "rev (trim_front space_seqs s)"]
    by (auto simp: suffix_def TrimSpace_def)
  then have "trim_front space_seqs s = TrimSpace s @ rev b"
    by (metis rev_append rev_rev_ident)
  with a show ?thesis by metis
qed

lemma TrimSpace_length: "length (TrimSpace s) \<le> length s"
proof -
  obtain a b where "s = a @ TrimSpace s @ b" using TrimSpace_infix by blast
  then have "length s = length a + (length (TrimSpace s) + length b)"
    by (metis length_append)
  then show ?thesis by simp
qed

lemma TrimSpace_set: "set (TrimSpace s) \<subseteq> set s"
proof -
  obtain a b where "s = a @ TrimSpace s @ b" using TrimSpace_infix by blast
  then have "set s = set a \<union> (set (TrimSpace s) \<union> set b)" by (metis set_append)
  then show ?thesis by blast
qed

lemma TrimSpace_Nil [simp]: "TrimSpace [] = []"
  by (simp add: TrimSpace_def)

lemma space_len_0_iff:
  assumes "[] \<notin> set q"
  shows "space_len q s = 0 \<longleftrightarrow> (\<forall>p\<in>set q. take (length p) (map byte s) \<noteq> p)"
proof (cases "filter (\<lambda>p. take (length p) (map byte s) = p) q")
  case Nil
  then show ?thesis by (auto simp: space_len_def filter_empty_conv)
next
  case (Cons p ps)
  then have "p \<in> set q" "take (length p) (map byte s) = p"
    by (metis (mono_tags, lifting) filter_eq_ConsD in_set_conv_decomp)+
  moreover from this assms have "p \<noteq> []" by auto
  ultimately show ?thesis using Cons by (auto simp: space_len_def)
qed

lemma space_len_append:
  assumes "[] \<notin> set q" and "space_len q (s @ t) = 0"
  shows "space_len q s = 0"
proof -
  have "take (length p) (map byte s) = p \<Longrightarrow> take (length p) (map byte (s @ t)) = p" for p
  proof -
    assume eq: "take (length p) (map byte s) = p"
    then have "length p \<le> length s" by (metis length_map length_take min.cobounded1)
    with eq show ?thesis by simp
  qed
  with assms show ?thesis unfolding space_len_0_iff [OF assms(1)] by blast
qed

lemma space_seqs_nonempty: "[] \<notin> set space_seqs"
  by (simp add: space_seqs_def)

lemma TrimSpace_idem [simp]: "TrimSpace (TrimSpace s) = TrimSpace s"
proof -
  let ?l = "trim_front space_seqs s"
  obtain b where "rev ?l = b @ rev (TrimSpace s)"
    using trim_front_suffix [of "map rev space_seqs" "rev ?l"]
    by (auto simp: suffix_def TrimSpace_def)
  then have l: "?l = TrimSpace s @ rev b" by (metis rev_append rev_rev_ident)
  have "TrimSpace s = [] \<or> space_len space_seqs (TrimSpace s) = 0"
    using trim_front_fixed [of space_seqs s] space_len_append [OF space_seqs_nonempty] l
    by (metis append_is_Nil_conv)
  then have "trim_front space_seqs (TrimSpace s) = TrimSpace s"
    by (auto simp: trim_front_id)
  then show ?thesis by (simp add: TrimSpace_def)
qed

text \<open>Text between printable ASCII characters is left alone.\<close>

definition printable :: "char \<Rightarrow> bool" where
  "printable c \<longleftrightarrow> 33 \<le> byte c \<and> byte c \<le> 126"

lemma space_len_printable: "printable (hd s) \<Longrightarrow> s \<noteq> [] \<Longrightarrow> space_len space_seqs s = 0"
  unfolding space_len_0_iff [OF space_seqs_nonempty]
  by (cases s) (auto simp: printable_def space_seqs_def)

lemma rev_space_seqs_nonempty: "[] \<notin> set (map rev space_seqs)"
  by (simp add: space_seqs_def)

lemma space_len_rev_printable: "printable (hd s) \<Longrightarrow> s \<noteq> [] \<Longrightarrow> space_len (map rev space_seqs) s = 0"
  unfolding space_len_0_iff [OF rev_space_seqs_nonempty]
  by (cases s) (auto simp: printable_def space_seqs_def)

lemma TrimSpace_clean:
  assumes "s \<noteq> []" and "printable (hd s)" and "printable (last s)"
  shows "TrimSpace s = s"
proof -
  have "trim_front space_seqs s = s"
    using assms by (simp add: trim_front_id space_len_printable)
  moreover have "trim_front (map rev space_seqs) (rev s) = rev s"
    using assms by (intro trim_front_id space_len_rev_printable) (auto simp: hd_rev)
  ultimately show ?thesis by (simp add: TrimSpace_def)
qed

lemmas trim_eval = TrimSpace_clean printable_def byte_def

text \<open>
  \<^verbatim>\<open>ToLower\<close>: the ASCII letters, and the two runes outside ASCII whose lower case is an ASCII
  letter (the Kelvin sign and the dotted capital I). Other non-ASCII runes are copied; the sources
  compare results with ASCII strings only, which this does not affect.
\<close>

fun ToLower :: "bytes \<Rightarrow> bytes" where
  "ToLower [] = []"
| "ToLower (a # s) =
     (if HasPrefix (a # s) (map char_of [0xE2, 0x84, 0xAA :: nat])
      then CHR ''k'' # ToLower (drop 2 s)
      else if HasPrefix (a # s) (map char_of [0xC4, 0xB0 :: nat]) then CHR ''i'' # ToLower (drop 1 s)
      else lower_char a # ToLower s)"

fun TrimLeft :: "char \<Rightarrow> bytes \<Rightarrow> bytes" where
  "TrimLeft c s = dropWhile (\<lambda>x. x = c) s"

fun TrimRight :: "char \<Rightarrow> bytes \<Rightarrow> bytes" where
  "TrimRight c s = rev (dropWhile (\<lambda>x. x = c) (rev s))"

text \<open>\<^verbatim>\<open>Split(s, sep)\<close> and \<^verbatim>\<open>Cut(s, sep)\<close> for a separator of one byte.\<close>

fun split_on :: "char \<Rightarrow> bytes \<Rightarrow> bytes list" where
  "split_on c [] = [[]]"
| "split_on c (a # s) = (if a = c then [] # split_on c s
     else (case split_on c s of [] \<Rightarrow> [[a]] | w # ws \<Rightarrow> (a # w) # ws))"

definition Cut :: "char \<Rightarrow> bytes \<Rightarrow> bytes \<times> bytes \<times> bool" where
  "Cut c s = (let w = takeWhile (\<lambda>x. x \<noteq> c) s; r = dropWhile (\<lambda>x. x \<noteq> c) s in
     if r = [] then (s, [], False) else (w, tl r, True))"

lemma split_on_nonempty [simp]: "split_on c s \<noteq> []"
  by (induction s) (auto split: list.splits)

lemma split_on_no_sep: "w \<in> set (split_on c s) \<Longrightarrow> c \<notin> set w"
  by (induction s arbitrary: w) (auto split: list.splits if_splits)

lemma split_on_set: "w \<in> set (split_on c s) \<Longrightarrow> set w \<subseteq> set s"
  by (induction s arbitrary: w) (auto split: if_splits list.splits, blast+)

lemma split_on_cover: "x \<in> set s \<Longrightarrow> x = c \<or> (\<exists>w\<in>set (split_on c s). x \<in> set w)"
  by (induction s) (auto split: list.splits)

text \<open>\<^verbatim>\<open>strings.Join\<close>, and that it undoes \<^verbatim>\<open>strings.Split\<close>.\<close>

fun join_with :: "bytes \<Rightarrow> bytes list \<Rightarrow> bytes" where
  "join_with sep [] = []"
| "join_with sep [w] = w"
| "join_with sep (w # ws) = w @ sep @ join_with sep ws"

lemma join_with_Cons: "ws \<noteq> [] \<Longrightarrow> join_with sep (w # ws) = w @ sep @ join_with sep ws"
  by (cases ws) auto

lemma join_split_on: "join_with [c] (split_on c s) = s"
proof (induction s)
  case (Cons a s)
  obtain w ws where eq: "split_on c s = w # ws"
    using split_on_nonempty [of c s] by (cases "split_on c s") auto
  have "join_with [c] ((a # w) # ws) = a # join_with [c] (w # ws)"
    by (cases ws) auto
  with Cons eq show ?case by (simp add: join_with_Cons)
qed simp

lemma Cut_found: "Cut c s = (w, r, True) \<Longrightarrow> s = w @ c # r \<and> c \<notin> set w"
proof -
  assume "Cut c s = (w, r, True)"
  then have w: "w = takeWhile (\<lambda>x. x \<noteq> c) s" and ne: "dropWhile (\<lambda>x. x \<noteq> c) s \<noteq> []"
    and r: "r = tl (dropWhile (\<lambda>x. x \<noteq> c) s)"
    by (simp_all add: Cut_def Let_def split: if_splits)
  from hd_dropWhile [OF ne] r ne have "dropWhile (\<lambda>x. x \<noteq> c) s = c # r"
    by (metis list.collapse)
  then have "s = w @ c # r" using takeWhile_dropWhile_id w by metis
  moreover have "c \<notin> set w" using w by (auto dest: set_takeWhileD)
  ultimately show ?thesis ..
qed

lemma first_sep:
  assumes "a @ c # b = a' @ c # b'" and "c \<notin> set a" and "c \<notin> set a'"
  shows "a = a' \<and> b = b'"
proof -
  have "takeWhile (\<lambda>x. x \<noteq> c) (w @ c # v) = w" if "c \<notin> set w" for w v
    using that by (induction w) auto
  with assms have "a = a'" by metis
  with assms(1) show ?thesis by simp
qed

lemma Cut_missing: "Cut c s = (w, r, False) \<Longrightarrow> w = s \<and> r = [] \<and> c \<notin> set s"
  by (auto simp: Cut_def Let_def split: if_splits)

definition Contains :: "bytes \<Rightarrow> bytes \<Rightarrow> bool" where
  "Contains s p \<longleftrightarrow> list_ex (\<lambda>i. HasPrefix (drop i s) p) [0..<Suc (length s)]"

lemma Contains_iff: "Contains s p \<longleftrightarrow> (\<exists>a b. s = a @ p @ b)"
proof
  assume "Contains s p"
  then obtain i t where "drop i s = p @ t"
    by (auto simp: Contains_def HasPrefix_iff list_ex_iff simp del: upt_Suc)
  then have "s = take i s @ p @ t" by (metis append_take_drop_id)
  then show "\<exists>a b. s = a @ p @ b" by blast
next
  assume "\<exists>a b. s = a @ p @ b"
  then obtain a b where s: "s = a @ p @ b" by blast
  then have "HasPrefix (drop (length a) s) p" by simp
  then show "Contains s p"
    unfolding Contains_def list_ex_iff using s by (intro bexI [of _ "length a"]) auto
qed

subsection \<open>The packages strconv and encoding\<close>

text \<open>\<^verbatim>\<open>strconv.Atoi\<close>: an optional sign, at least one digit, and a value in the 64-bit range.\<close>

definition digit_val :: "char \<Rightarrow> int" where
  "digit_val c = int (byte c) - 48"

definition decimal :: "bytes \<Rightarrow> int" where
  "decimal s = foldl (\<lambda>n c. 10 * n + digit_val c) 0 s"

definition Atoi :: "bytes \<Rightarrow> int option" where
  "Atoi s = (let (neg, ds) = (case s of [] \<Rightarrow> (False, [])
       | c # t \<Rightarrow> if c = CHR ''-'' then (True, t) else if c = CHR ''+'' then (False, t) else (False, s));
       n = (if neg then - decimal ds else decimal ds) in
     if ds = [] \<or> \<not> list_all is_digit ds then None
     else if - (2 ^ 63) \<le> n \<and> n < 2 ^ 63 then Some n else None)"

lemma Atoi_range: "Atoi s = Some n \<Longrightarrow> - (2 ^ 63) \<le> n \<and> n < 2 ^ 63"
  unfolding Atoi_def Let_def by (auto split: prod.splits if_splits)

subsection \<open>HTTP responses\<close>

text \<open>
  A handler answers with a status and a body. \<open>ErrMsg m\<close> is \<^verbatim>\<open>api.ErrorResponse{Error: m}\<close>;
  \<open>ErrText e\<close> is the same with the text \<^verbatim>\<open>err.Error()\<close> of the error value \<open>e\<close>.
\<close>

datatype ('e, 'a) body = NoBody | ErrMsg bytes | ErrText 'e | Json 'a

type_synonym ('e, 'a) response = "nat \<times> ('e, 'a) body"

definition unauthorized :: "('e, 'a) response" where
  "unauthorized = (401, ErrMsg ''unauthorized'')"

text \<open>An OpenStack call fails with a status code the client could map, or otherwise.\<close>

datatype os_err = StatusError nat bytes | OtherErr bytes

definition hasStatusCode :: "os_err \<Rightarrow> nat \<Rightarrow> bool" where
  "hasStatusCode e expected = (case e of StatusError c _ \<Rightarrow> c = expected | OtherErr _ \<Rightarrow> False)"

definition isNotFoundError :: "os_err \<Rightarrow> bool" where
  "isNotFoundError e = hasStatusCode e 404"

definition isConflictError :: "os_err \<Rightarrow> bool" where
  "isConflictError e = hasStatusCode e 409"

fun firstNonEmpty :: "bytes list \<Rightarrow> bytes" where
  "firstNonEmpty [] = []"
| "firstNonEmpty (v # vs) = (if TrimSpace v \<noteq> [] then TrimSpace v else firstNonEmpty vs)"

lemma firstNonEmpty_Nil: "firstNonEmpty vs = [] \<longleftrightarrow> (\<forall>v\<in>set vs. TrimSpace v = [])"
  by (induction vs) auto

subsection \<open>Further library functions\<close>

text \<open>\<^verbatim>\<open>net.SplitHostPort\<close>.\<close>

definition SplitHostPort :: "bytes \<Rightarrow> (bytes \<times> bytes) option" where
  "SplitHostPort s = (if CHR '':'' \<notin> set s then None else
     let port = rev (takeWhile (\<lambda>c. c \<noteq> CHR '':'') (rev s));
         i = length s - length port - 1 in
     if hd s = CHR ''['' then
       (let e = length (takeWhile (\<lambda>c. c \<noteq> CHR '']'') s) in
        if e = length s \<or> e + 1 \<noteq> i then None
        else if CHR ''['' \<in> set (drop 1 s) \<or> CHR '']'' \<in> set (drop (e + 1) s) then None
        else Some (take (e - 1) (drop 1 s), port))
     else if CHR '':'' \<in> set (take i s) \<or> CHR ''['' \<in> set s \<or> CHR '']'' \<in> set s then None
     else Some (take i s, port))"

lemma SplitHostPort_plain:
  assumes "CHR '':'' \<notin> set h" "CHR '':'' \<notin> set p"
    and "CHR ''['' \<notin> set (h @ p)" "CHR '']'' \<notin> set (h @ p)"
  shows "SplitHostPort (h @ CHR '':'' # p) = Some (h, p)"
proof -
  have "takeWhile (\<lambda>c. c \<noteq> CHR '':'') (rev (h @ CHR '':'' # p)) = rev p"
    using assms(2) takeWhile_append2 [of "rev p" "\<lambda>c. c \<noteq> CHR '':''" "CHR '':'' # rev h"]
    by (auto simp: in_set_conv_decomp)
  moreover have "hd (h @ CHR '':'' # p) \<noteq> CHR ''[''" using assms(3) by (cases h) auto
  ultimately show ?thesis using assms by (simp add: SplitHostPort_def Let_def)
qed

text \<open>\<^verbatim>\<open>hex.DecodeString\<close>: an even number of hexadecimal digits.\<close>

definition hex_val :: "char \<Rightarrow> nat option" where
  "hex_val c = (if is_digit c then Some (byte c - 48)
     else if in_range CHR ''a'' CHR ''f'' c then Some (byte c - 87)
     else if in_range CHR ''A'' CHR ''F'' c then Some (byte c - 55) else None)"

fun hex_DecodeString :: "bytes \<Rightarrow> bytes option" where
  "hex_DecodeString [] = Some []"
| "hex_DecodeString [a] = None"
| "hex_DecodeString (a # b # s) = (case (hex_val a, hex_val b, hex_DecodeString s) of
     (Some x, Some y, Some r) \<Rightarrow> Some (char_of (16 * x + y) # r) | _ \<Rightarrow> None)"

definition hex_digit :: "nat \<Rightarrow> char" where
  "hex_digit n = (if n < 10 then char_of (48 + n) else char_of (87 + n))"

fun hex_EncodeToString :: "bytes \<Rightarrow> bytes" where
  "hex_EncodeToString [] = []"
| "hex_EncodeToString (c # s) = hex_digit (byte c div 16) # hex_digit (byte c mod 16)
     # hex_EncodeToString s"

lemma hex_val_digit: "n < 16 \<Longrightarrow> hex_val (hex_digit n) = Some n"
  by (auto simp: hex_val_def hex_digit_def is_digit_def in_range_def) (auto simp: byte_def)

lemma byte_bound: "byte c < 256"
  by (simp add: byte_def)

lemma hex_roundtrip: "hex_DecodeString (hex_EncodeToString s) = Some s"
proof (induction s)
  case (Cons c s)
  have "byte c div 16 < 16" "byte c mod 16 < 16" using byte_bound [of c] by auto
  then show ?case using Cons by (simp add: hex_val_digit, simp add: byte_def)
qed simp

text \<open>\<^verbatim>\<open>strings.EqualFold\<close> against an ASCII string: besides letter case, the long s and the Kelvin
  sign fold to ASCII letters.\<close>

fun fold_case :: "bytes \<Rightarrow> bytes" where
  "fold_case [] = []"
| "fold_case (a # s) =
     (if HasPrefix (a # s) (map char_of [0xE2, 0x84, 0xAA :: nat]) then CHR ''k'' # fold_case (drop 2 s)
      else if HasPrefix (a # s) (map char_of [0xC5, 0xBF :: nat]) then CHR ''s'' # fold_case (drop 1 s)
      else lower_char a # fold_case s)"

definition EqualFold :: "bytes \<Rightarrow> bytes \<Rightarrow> bool" where
  "EqualFold s t \<longleftrightarrow> fold_case s = fold_case t"

subsection \<open>Times\<close>

text \<open>The zero value of a Go time, the first of January of the year 1, in nanoseconds of Unix time.\<close>

definition zero_time :: int where
  "zero_time = - 62135596800 * 10 ^ 9"

subsection \<open>Fields\<close>

text \<open>\<^verbatim>\<open>strings.Fields\<close>: the words between runs of white space.\<close>

fun take_word :: "bytes \<Rightarrow> bytes \<times> bytes" where
  "take_word [] = ([], [])"
| "take_word (a # s) = (if space_len space_seqs (a # s) > 0 then ([], a # s)
     else (case take_word s of (w, r) \<Rightarrow> (a # w, r)))"

lemma take_word_length: "take_word s = (w, r) \<Longrightarrow> length r \<le> length s"
  by (induction s arbitrary: w r) (auto split: if_splits prod.splits simp: le_SucI)

lemma take_word_append: "take_word s = (w, r) \<Longrightarrow> s = w @ r"
  by (induction s arbitrary: w r) (auto split: if_splits prod.splits)

function Fields :: "bytes \<Rightarrow> bytes list" where
  "Fields s = (let t = trim_front space_seqs s in
     if t = [] then [] else (case take_word t of (w, r) \<Rightarrow> w # Fields r))"
  by pat_completeness auto
termination
proof (relation "measure length", goal_cases)
  case (2 s t w r)
  have le: "length t \<le> length s"
    using trim_front_suffix [of space_seqs s] 2(1) by (auto dest: suffix_length_le)
  from 2(2) obtain a u where t: "t = a # u" by (cases t) auto
  have "space_len space_seqs t = 0" using trim_front_fixed [of space_seqs s] 2(1,2) by auto
  then have "length r < length t" using 2(3) take_word_length [of u] unfolding t
    by (auto split: prod.splits simp: le_imp_less_Suc)
  with le show ?case by simp
qed simp

declare Fields.simps [simp del]

subsection \<open>Base64\<close>

text \<open>\<^verbatim>\<open>base64.RawURLEncoding\<close>: six bits a character, no padding.\<close>

definition b64_char :: "nat \<Rightarrow> char" where
  "b64_char n = ''ABCDEFGHIJKLMNOPQRSTUVWXYZabcdefghijklmnopqrstuvwxyz0123456789-_'' ! (n mod 64)"

fun RawURLEncoding :: "bytes \<Rightarrow> bytes" where
  "RawURLEncoding (a # b # c # s) = (let n = byte a * 65536 + byte b * 256 + byte c in
     [b64_char (n div 262144), b64_char (n div 4096), b64_char (n div 64), b64_char n]
       @ RawURLEncoding s)"
| "RawURLEncoding [a, b] = (let n = byte a * 256 + byte b in
     [b64_char (n div 1024), b64_char (n div 16), b64_char (4 * n)])"
| "RawURLEncoding [a] = [b64_char (byte a div 4), b64_char (16 * byte a)]"
| "RawURLEncoding [] = []"

text \<open>
  \<^verbatim>\<open>base64.RawURLEncoding.DecodeString\<close>: line ends are skipped, a character outside the alphabet
  or a single left-over character is an error, and left-over bits are dropped.
\<close>

definition b64_val :: "char \<Rightarrow> nat option" where
  "b64_val c = (if is_upper c then Some (byte c - 65) else if is_lower c then Some (byte c - 71)
     else if is_digit c then Some (byte c + 4) else if c = CHR ''-'' then Some 62
     else if c = CHR ''_'' then Some 63 else None)"

fun b64_groups :: "nat list \<Rightarrow> bytes option" where
  "b64_groups (a # b # c # d # s) = (let n = a * 262144 + b * 4096 + c * 64 + d in
     map_option (\<lambda>r. [char_of (n div 65536), char_of (n div 256 mod 256), char_of (n mod 256)] @ r) (b64_groups s))"
| "b64_groups [a, b, c] = (let n = a * 4096 + b * 64 + c in Some [char_of (n div 1024), char_of (n div 4 mod 256)])"
| "b64_groups [a, b] = Some [char_of ((a * 64 + b) div 16)]"
| "b64_groups [a] = None"
| "b64_groups [] = Some []"

definition RawURLDecoding :: "bytes \<Rightarrow> bytes option" where
  "RawURLDecoding s = (let cs = filter (\<lambda>c. byte c \<noteq> 10 \<and> byte c \<noteq> 13) s in
     if list_all (\<lambda>c. b64_val c \<noteq> None) cs then b64_groups (map (\<lambda>c. the (b64_val c)) cs) else None)"

lemma b64_val_alphabet:
  "map b64_val ''ABCDEFGHIJKLMNOPQRSTUVWXYZabcdefghijklmnopqrstuvwxyz0123456789-_'' = map Some [0..<64]"
  "list_all (\<lambda>c. byte c \<notin> {10, 13}) ''ABCDEFGHIJKLMNOPQRSTUVWXYZabcdefghijklmnopqrstuvwxyz0123456789-_''"
proof -
  have "[0..<64] = [0, 1, 2, 3, 4, 5, 6, 7, 8, 9, 10, 11, 12, 13, 14, 15, 16, 17, 18, 19, 20, 21, 22, 23, 24,
      25, 26, 27, 28, 29, 30, 31, 32, 33, 34, 35, 36, 37, 38, 39, 40, 41, 42, 43, 44, 45, 46,
      47, 48, 49, 50, 51, 52, 53, 54, 55, 56, 57, 58, 59, 60, 61, 62, 63]" by code_simp
  then show "map b64_val ''ABCDEFGHIJKLMNOPQRSTUVWXYZabcdefghijklmnopqrstuvwxyz0123456789-_'' = map Some [0..<64]"
    by (simp add: b64_val_def is_upper_def is_lower_def is_digit_def in_range_def byte_def)
qed (simp add: byte_def)

lemma b64_val_char: "b64_val (b64_char n) = Some (n mod 64)" "byte (b64_char n) \<noteq> 10" "byte (b64_char n) \<noteq> 13"
proof -
  define al where "al = ''ABCDEFGHIJKLMNOPQRSTUVWXYZabcdefghijklmnopqrstuvwxyz0123456789-_''"
  have len: "length al = 64" by (simp add: al_def)
  have c: "b64_char n = al ! (n mod 64)" by (simp add: b64_char_def al_def)
  have "map b64_val al ! (n mod 64) = map Some [0..<64] ! (n mod 64)"
    using b64_val_alphabet(1) by (simp only: al_def)
  then show "b64_val (b64_char n) = Some (n mod 64)" by (simp add: c len)
  have "b64_char n \<in> set al" by (simp add: c len)
  then show "byte (b64_char n) \<noteq> 10" "byte (b64_char n) \<noteq> 13"
    using b64_val_alphabet(2) unfolding al_def list_all_iff by blast+
qed

lemma RawURLEncoding_chars: "c \<in> set (RawURLEncoding s) \<Longrightarrow> \<exists>n. c = b64_char n"
  by (induction s rule: RawURLEncoding.induct) (auto simp: Let_def)

lemma quad_digits: "n < 16777216 \<Longrightarrow> (n div 262144 mod 64) * 262144 + (n div 4096 mod 64) * 4096
    + (n div 64 mod 64) * 64 + n mod 64 = (n :: nat)"
proof -
  assume n: "n < 16777216"
  have x: "(n div 64) * 64 + n mod 64 = n" by (rule div_mult_mod_eq)
  have y: "(n div 4096) * 64 + n div 64 mod 64 = n div 64"
    using div_mult_mod_eq [of "n div 64" 64] by (simp add: div_mult2_eq [symmetric])
  have z: "(n div 262144) * 64 + n div 4096 mod 64 = n div 4096"
    using div_mult_mod_eq [of "n div 4096" 64] by (simp add: div_mult2_eq [symmetric])
  have "n div 262144 mod 64 = n div 262144" using n by (simp add: less_mult_imp_div_less)
  then have "(n div 262144 mod 64) * 262144 + (n div 4096 mod 64) * 4096
      = ((n div 262144) * 64 + n div 4096 mod 64) * 4096" by simp
  then have "(n div 262144 mod 64) * 262144 + (n div 4096 mod 64) * 4096 + (n div 64 mod 64) * 64
      = n div 4096 * 4096 + (n div 64 mod 64) * 64" unfolding z by (simp only:)
  also have "\<dots> = ((n div 4096) * 64 + n div 64 mod 64) * 64" by (simp add: algebra_simps)
  finally have "(n div 262144 mod 64) * 262144 + (n div 4096 mod 64) * 4096 + (n div 64 mod 64) * 64
      = ((n div 4096) * 64 + n div 64 mod 64) * 64" .
  then show ?thesis unfolding y by (simp only: x)
qed

lemma byte_step: "c < (256 :: nat) \<Longrightarrow> (k * 256 + c) div 256 = k \<and> (k * 256 + c) mod 256 = c"
  by simp

lemma triple_bytes:
  assumes "a < 256" "b < 256" "c < (256 :: nat)"
  shows "(a * 65536 + b * 256 + c) div 65536 = a" "(a * 65536 + b * 256 + c) div 256 mod 256 = b"
    "(a * 65536 + b * 256 + c) mod 256 = c"
proof -
  have n: "a * 65536 + b * 256 + c = (a * 256 + b) * 256 + c" by simp
  have d: "(a * 65536 + b * 256 + c) div 65536 = (a * 65536 + b * 256 + c) div 256 div 256"
    by (simp add: div_mult2_eq [symmetric])
  show "(a * 65536 + b * 256 + c) div 65536 = a" "(a * 65536 + b * 256 + c) div 256 mod 256 = b"
    "(a * 65536 + b * 256 + c) mod 256 = c"
    unfolding d unfolding n using byte_step [OF assms(3), of "a * 256 + b"] byte_step [OF assms(2), of a]
    by metis+
qed

lemma char_of_byte: "char_of (byte c) = c"
  by (simp add: byte_def)

lemma b64_groups_encode: "b64_groups (map (\<lambda>c. the (b64_val c)) (RawURLEncoding s)) = Some s"
proof (induction s rule: RawURLEncoding.induct)
  case (1 a b c s)
  have lt: "byte a < 256" "byte b < 256" "byte c < 256" by (rule byte_bound)+
  then have "byte a * 65536 + byte b * 256 + byte c < 16777216" by linarith
  from quad_digits [OF this] triple_bytes [OF lt] 1 show ?case
    by (simp add: Let_def b64_val_char char_of_byte del: char_of_mod_256)
next
  case (2 a b)
  have lt: "byte a < 256" "byte b < 256" by (rule byte_bound)+
  define n where "n = byte a * 256 + byte b"
  have d: "4 * n div 4096 = n div 1024" "4 * n div 64 = n div 16" "4 * n div 262144 = 0"
    "4 * n div 1024 = n div 256" "4 * n div 4 = n"
    using lt by (simp_all add: n_def)
  have e: "n div 1024 mod 64 * 4096 + n div 16 mod 64 * 64 + 4 * n mod 64 = 4 * n"
    using lt quad_digits [of "4 * n"] unfolding d by (simp add: n_def)
  have "n div 256 = byte a" "n mod 256 = byte b" using byte_step [OF lt(2), of "byte a"] by (auto simp: n_def)
  then show ?case
    by (simp add: Let_def b64_val_char n_def [symmetric] e d char_of_byte del: char_of_mod_256)
next
  case (3 a)
  have lt: "byte a < 256" by (rule byte_bound)
  have d: "16 * byte a div 64 = byte a div 4" by simp
  have e: "byte a div 4 * 64 + 16 * byte a mod 64 = 16 * byte a"
    using div_mult_mod_eq [of "16 * byte a" 64] unfolding d .
  have "byte a div 4 mod 64 = byte a div 4" using lt by (simp add: less_mult_imp_div_less)
  then show ?case by (simp add: Let_def b64_val_char char_of_byte e)
qed simp

lemma RawURL_roundtrip: "RawURLDecoding (RawURLEncoding s) = Some s"
proof -
  have "filter (\<lambda>c. byte c \<noteq> 10 \<and> byte c \<noteq> 13) (RawURLEncoding s) = RawURLEncoding s"
    using RawURLEncoding_chars b64_val_char by (fastforce simp: filter_id_conv)
  moreover have "list_all (\<lambda>c. b64_val c \<noteq> None) (RawURLEncoding s)"
    using RawURLEncoding_chars b64_val_char(1) by (fastforce simp: list_all_iff)
  ultimately show ?thesis by (simp add: RawURLDecoding_def b64_groups_encode)
qed

subsection \<open>Signed requests\<close>

text \<open>
  The contract between two programs with a shared secret: one signs what it sends, the other checks. The provider
  accepts exactly the hexadecimal code of its own HMAC, under a secret that is fit for use; the client sends that
  code of the HMAC under its secret.
\<close>

locale signed_channel =
  fixes mac :: "bytes \<Rightarrow> bytes \<Rightarrow> bytes"
    and sign :: "bytes \<Rightarrow> bytes \<Rightarrow> bytes"
    and verify :: "bytes \<Rightarrow> bytes \<Rightarrow> bytes \<Rightarrow> bool"
    and fit :: "bytes \<Rightarrow> bool"
  assumes sign_hex: "sign secret content = hex_EncodeToString (mac secret content)"
    and verify_iff: "verify secret content sig \<longleftrightarrow> fit secret \<and> hex_DecodeString sig = Some (mac secret content)"
begin

lemma verify_sign: "verify secret content (sign other content') \<longleftrightarrow> fit secret \<and> mac other content' = mac secret content"
  by (simp add: verify_iff sign_hex hex_roundtrip)

lemma verify_signed: "fit secret \<Longrightarrow> verify secret content (sign secret content)"
  by (simp add: verify_sign)

text \<open>A signature is accepted for one content and secret only, as far as the HMAC tells them apart.\<close>

lemma verify_unique: "verify secret content sig \<Longrightarrow> verify secret' content' sig \<Longrightarrow> mac secret content = mac secret' content'"
  by (simp add: verify_iff)

end

end
