(* ===== verification/Ent_Db.thy ===== *)
theory Ent_Db
  imports Rcp_Prelude
begin

text \<open>
  The relational store the repositories of \<^verbatim>\<open>internal/domain\<close> share. The tables and their
  constraints are those declared in \<^verbatim>\<open>internal/schema\<close>: primary keys, unique columns, the unique
  (name, owner) indexes, and the foreign keys (no action on delete, except that deleting a key pair
  clears the column of its instances). Foreign keys are enforced, as the deployed DSN does with
  \<^verbatim>\<open>foreign_keys(1)\<close>.

  UUIDs are natural numbers; \<open>seq\<close> is the next one \<^verbatim>\<open>uuid.New\<close> returns. \<open>clock\<close> is what
  \<^verbatim>\<open>time.Now\<close> returns, in nanoseconds. \<open>faults\<close> says for each coming statement whether the driver
  fails (\<open>Some msg\<close>: the statement has no effect and returns that error) or not; an empty list
  means that no further statement fails. Theorems about the services quantify over all fault
  lists.
\<close>

subsection \<open>Rows\<close>

record user_row =
  u_id :: nat
  u_email :: bytes
  u_name :: bytes
  u_google_id :: bytes
  u_google_access_token :: bytes
  u_google_refresh_token :: bytes
  u_google_token_expiry :: int
  u_current_refresh_jti :: "bytes option"
  u_created_at :: int

record keypair_row =
  k_id :: nat
  k_openstack_name :: bytes
  k_fingerprint :: bytes
  k_public_key :: bytes
  k_created_at :: int
  k_owner :: nat

record instance_row =
  i_id :: nat
  i_openstack_id :: bytes
  i_name :: bytes
  i_status :: bytes
  i_image_id :: bytes
  i_flavor_id :: bytes
  i_key_name :: bytes
  i_note :: bytes
  i_provider_created_at :: int
  i_created_at :: int
  i_keypair :: "nat option"
  i_owner :: nat

record container_row =
  c_id :: nat
  c_openstack_name :: nat
  c_name :: bytes
  c_created_at :: int
  c_owner :: nat

record app_row =
  a_id :: nat
  a_host :: bytes
  a_created_at :: int
  a_instance :: nat

record function_row =
  f_id :: nat
  f_name :: bytes
  f_wasm :: bytes
  f_language :: bytes
  f_data_mode :: bool
  f_source :: bytes
  f_key_hash :: bytes
  f_key_created_at :: "int option"
  f_key_expires_at :: "int option"
  f_created_at :: int
  f_updated_at :: int
  f_owner :: nat

record db =
  users :: "user_row list"
  key_pairs :: "keypair_row list"
  instances :: "instance_row list"
  containers :: "container_row list"
  apps :: "app_row list"
  function_tbl :: "function_row list"
  seq :: nat
  clock :: int
  faults :: "bytes option list"

subsection \<open>Schema constraints\<close>

definition users_wf :: "db \<Rightarrow> bool" where
  "users_wf d \<longleftrightarrow> distinct (map u_id (users d)) \<and> distinct (map u_email (users d))
     \<and> distinct (map u_google_id (users d))"

definition key_pairs_wf :: "db \<Rightarrow> bool" where
  "key_pairs_wf d \<longleftrightarrow> distinct (map k_id (key_pairs d)) \<and> distinct (map k_openstack_name (key_pairs d))
     \<and> list_all (\<lambda>k. k_owner k \<in> set (map u_id (users d))) (key_pairs d)"

definition instances_wf :: "db \<Rightarrow> bool" where
  "instances_wf d \<longleftrightarrow> distinct (map i_id (instances d)) \<and> distinct (map i_openstack_id (instances d))
     \<and> list_all (\<lambda>i. i_owner i \<in> set (map u_id (users d))) (instances d)
     \<and> list_all (\<lambda>i. pred_option (\<lambda>k. k \<in> set (map k_id (key_pairs d))) (i_keypair i)) (instances d)"

definition containers_wf :: "db \<Rightarrow> bool" where
  "containers_wf d \<longleftrightarrow> distinct (map c_id (containers d))
     \<and> distinct (map c_openstack_name (containers d))
     \<and> distinct (map (\<lambda>c. (c_name c, c_owner c)) (containers d))
     \<and> list_all (\<lambda>c. c_owner c \<in> set (map u_id (users d))) (containers d)"

definition apps_wf :: "db \<Rightarrow> bool" where
  "apps_wf d \<longleftrightarrow> distinct (map a_id (apps d)) \<and> distinct (map a_host (apps d))
     \<and> distinct (map a_instance (apps d))
     \<and> list_all (\<lambda>a. a_instance a \<in> set (map i_id (instances d))) (apps d)"

definition functions_wf :: "db \<Rightarrow> bool" where
  "functions_wf d \<longleftrightarrow> distinct (map f_id (function_tbl d))
     \<and> distinct (map (\<lambda>f. (f_name f, f_owner f)) (function_tbl d))
     \<and> list_all (\<lambda>f. f_owner f \<in> set (map u_id (users d))) (function_tbl d)
     \<and> list_all (\<lambda>f. f_name f \<noteq> [] \<and> f_wasm f \<noteq> []) (function_tbl d)"

definition db_wf :: "db \<Rightarrow> bool" where
  "db_wf d \<longleftrightarrow> users_wf d \<and> key_pairs_wf d \<and> instances_wf d \<and> containers_wf d \<and> apps_wf d
     \<and> functions_wf d"

lemmas table_wf_defs = users_wf_def key_pairs_wf_def instances_wf_def containers_wf_def
  apps_wf_def functions_wf_def

subsection \<open>Statements\<close>

datatype db_err = Driver bytes | Constraint | NotFound | NotSingular

type_synonym 'a dbop = "db \<Rightarrow> (db_err + 'a) \<times> db"

text \<open>Take the outcome of the next statement off the fault list.\<close>

definition tick :: "db \<Rightarrow> bytes option \<times> db" where
  "tick d = (case faults d of [] \<Rightarrow> (None, d) | f # fs \<Rightarrow> (f, d\<lparr>faults := fs\<rparr>))"

text \<open>A query reads the tables; a write is applied when the constraints hold afterwards.\<close>

definition query :: "(db \<Rightarrow> db_err + 'a) \<Rightarrow> 'a dbop" where
  "query q d = (case tick d of (Some e, d') \<Rightarrow> (Err (Driver e), d') | (None, d') \<Rightarrow> (q d', d'))"

definition exec :: "(db \<Rightarrow> 'a \<times> db) \<Rightarrow> 'a dbop" where
  "exec w d = (case tick d of
     (Some e, d') \<Rightarrow> (Err (Driver e), d')
   | (None, d') \<Rightarrow> (case w d' of (r, d'') \<Rightarrow>
       if db_wf d'' then (Ok r, d'') else (Err Constraint, d')))"

text \<open>\<^verbatim>\<open>Query().Where(p).All\<close> and \<^verbatim>\<open>Query().Where(p).Only\<close>.\<close>

definition all_rows :: "'r list \<Rightarrow> ('r \<Rightarrow> bool) \<Rightarrow> db_err + 'r list" where
  "all_rows rs p = Ok (filter p rs)"

definition only_row :: "'r list \<Rightarrow> ('r \<Rightarrow> bool) \<Rightarrow> db_err + 'r" where
  "only_row rs p = (case filter p rs of [] \<Rightarrow> Err NotFound | [r] \<Rightarrow> Ok r | _ \<Rightarrow> Err NotSingular)"

text \<open>\<^verbatim>\<open>Update().Where(p).Set...\<close> on the rows of a table.\<close>

definition update_rows :: "('r \<Rightarrow> bool) \<Rightarrow> ('r \<Rightarrow> 'r) \<Rightarrow> 'r list \<Rightarrow> 'r list" where
  "update_rows p f rs = map (\<lambda>r. if p r then f r else r) rs"

text \<open>Two stores with the same tables; they may differ in the clock, the UUIDs and the faults.\<close>

definition same_tables :: "db \<Rightarrow> db \<Rightarrow> bool" where
  "same_tables d e \<longleftrightarrow> users d = users e \<and> key_pairs d = key_pairs e \<and> instances d = instances e
     \<and> containers d = containers e \<and> apps d = apps e \<and> function_tbl d = function_tbl e"

lemma same_tables_refl [simp]: "same_tables d d"
  by (simp add: same_tables_def)

lemma same_tables_trans [trans]: "same_tables a b \<Longrightarrow> same_tables b c \<Longrightarrow> same_tables a c"
  by (simp add: same_tables_def)

lemma same_tables_wf: "same_tables d e \<Longrightarrow> db_wf d = db_wf e"
  by (simp add: same_tables_def db_wf_def table_wf_defs)

lemma tick_tables [simp]: "tick d = (r, d') \<Longrightarrow> same_tables d d'"
  by (auto simp: tick_def same_tables_def split: list.splits)

lemma tick_wf: "tick d = (r, d') \<Longrightarrow> db_wf d' = db_wf d"
  using same_tables_wf tick_tables by blast

lemma query_tables: "query q d = (r, d') \<Longrightarrow> same_tables d d'"
  by (auto simp: query_def split: prod.splits option.splits)

lemma query_wf: "query q d = (r, d') \<Longrightarrow> db_wf d' = db_wf d"
  using same_tables_wf query_tables by blast

lemma query_ok: "query q d = (Ok x, d') \<Longrightarrow> q d' = Ok x"
  by (auto simp: query_def split: prod.splits option.splits)

lemma exec_wf: "exec w d = (r, d') \<Longrightarrow> db_wf d \<Longrightarrow> db_wf d'"
  by (auto simp: exec_def tick_wf split: prod.splits option.splits if_splits)

lemma exec_err: "exec w d = (Err e, d') \<Longrightarrow> same_tables d d'"
  by (auto simp: exec_def split: prod.splits option.splits if_splits)

lemma exec_ok:
  assumes "exec w d = (Ok x, d')"
  obtains e where "same_tables d e" "w e = (x, d')" "db_wf d'"
  using assms tick_tables
  by (fastforce simp: exec_def split: prod.splits option.splits if_splits)

lemma only_row_Ok: "only_row rs p = Ok r \<Longrightarrow> r \<in> set rs \<and> p r"
proof -
  assume "only_row rs p = Ok r"
  then have "filter p rs = [r]"
    by (auto simp: only_row_def split: list.splits)
  then have "r \<in> set (filter p rs)" by simp
  then show ?thesis by simp
qed

lemma only_row_NotFound: "only_row rs p = Err NotFound \<longleftrightarrow> (\<forall>r\<in>set rs. \<not> p r)"
proof (cases "filter p rs")
  case Nil
  then show ?thesis by (auto simp: only_row_def filter_empty_conv)
next
  case (Cons r rs')
  then have "r \<in> set rs \<and> p r" by (metis filter_eq_ConsD in_set_conv_decomp)
  moreover from Cons have "only_row rs p \<noteq> Err NotFound"
    by (simp add: only_row_def split: list.splits)
  ultimately show ?thesis by blast
qed

text \<open>A column with distinct values determines the row, so \<open>Only\<close> on it never sees two rows.\<close>

lemma distinct_map_filter_le1:
  assumes "distinct (map g rs)" and "\<forall>r. p r \<longrightarrow> g r = v"
  shows "length (filter p rs) \<le> 1"
proof -
  have "distinct (map g (filter p rs))" using assms(1) by (rule distinct_map_filter)
  moreover have "set (map g (filter p rs)) \<subseteq> {v}" using assms(2) by auto
  ultimately have "length (map g (filter p rs)) \<le> card {v}"
    by (metis card_mono distinct_card finite.emptyI finite.insertI)
  then show ?thesis by simp
qed

lemma unique_filter:
  assumes "distinct (map g rs)" and "\<forall>r. p r \<longrightarrow> g r = v" and "r \<in> set rs" and "p r"
  shows "filter p rs = [r]"
proof -
  have "r \<in> set (filter p rs)" using assms by simp
  moreover have "length (filter p rs) \<le> 1"
    using distinct_map_filter_le1 [OF assms(1,2)] .
  ultimately show ?thesis
    by (metis One_nat_def empty_iff le_Suc_eq le_zero_eq length_0_conv length_Suc_conv
        list.set(1) set_ConsD)
qed

lemma only_row_unique:
  assumes "distinct (map g rs)" and "\<forall>r. p r \<longrightarrow> g r = v" and "r \<in> set rs" and "p r"
  shows "only_row rs p = Ok r"
  using unique_filter [OF assms] by (simp add: only_row_def)

subsection \<open>Repository operations\<close>

text \<open>
  The shape the \<^verbatim>\<open>Find...\<close> methods of the repositories share: \<^verbatim>\<open>Only\<close>, with
  \<^verbatim>\<open>ent.IsNotFound\<close> turned into a nil result.
\<close>

definition find_opt :: "(db \<Rightarrow> 'r list) \<Rightarrow> ('r \<Rightarrow> bool) \<Rightarrow> (db \<Rightarrow> 'r \<Rightarrow> 'v) \<Rightarrow> 'v option dbop" where
  "find_opt tbl p conv d = (case query (\<lambda>d. only_row (tbl d) p) d of
     (Ok r, d') \<Rightarrow> (Ok (Some (conv d' r)), d')
   | (Err NotFound, d') \<Rightarrow> (Ok None, d')
   | (Err e, d') \<Rightarrow> (Err e, d'))"

lemma find_opt_tables: "find_opt tbl p conv d = (r, d') \<Longrightarrow> same_tables d d'"
  using query_tables by (fastforce simp: find_opt_def split: prod.splits sum.splits db_err.splits)

lemma find_opt_Some:
  assumes "find_opt tbl p conv d = (Ok (Some v), d')"
  obtains r where "r \<in> set (tbl d')" "p r" "v = conv d' r"
  using assms by (auto simp: find_opt_def split: prod.splits sum.splits db_err.splits
      dest!: query_ok only_row_Ok)

lemma find_opt_None:
  assumes "find_opt tbl p conv d = (Ok None, d')"
  shows "\<forall>r\<in>set (tbl d'). \<not> p r"
proof -
  have "query (\<lambda>d. only_row (tbl d) p) d = (Err NotFound, d')"
    using assms by (auto simp: find_opt_def split: prod.splits sum.splits db_err.splits)
  then have "only_row (tbl d') p = Err NotFound"
    by (auto simp: query_def split: prod.splits option.splits)
  then show ?thesis by (simp add: only_row_NotFound)
qed

text \<open>
  The contract of a repository of things owned by users and known to them by a name
  (key pairs, instances, containers, functions): what the repository holds, as a set of
  (owner, name, value), and how finding and deleting behave on it.
\<close>

locale owned_repo =
  fixes rows :: "db \<Rightarrow> (nat \<times> bytes \<times> 'v) set"
    and find :: "nat \<Rightarrow> bytes \<Rightarrow> 'v option dbop"
    and del :: "nat \<Rightarrow> bytes \<Rightarrow> unit dbop"
  assumes rows_tables: "same_tables d d' \<Longrightarrow> rows d' = rows d"
    and find_tables: "find own name d = (r, d') \<Longrightarrow> same_tables d d'"
    and find_Some: "find own name d = (Ok (Some v), d') \<Longrightarrow> (own, name, v) \<in> rows d'"
    and find_None: "find own name d = (Ok None, d') \<Longrightarrow> (own, name, v) \<notin> rows d'"
    and del_wf: "del own name d = (q, d') \<Longrightarrow> db_wf d \<Longrightarrow> db_wf d'"
    and del_err: "del own name d = (Err e, d') \<Longrightarrow> same_tables d d'"
    and del_ok: "del own name d = (Ok u, d') \<Longrightarrow>
      rows d' = {x \<in> rows d. \<not> (fst x = own \<and> fst (snd x) = name)}"
begin

lemma find_wf: "find own name d = (r, d') \<Longrightarrow> db_wf d' = db_wf d"
  using find_tables same_tables_wf by blast

lemma find_rows: "find own name d = (r, d') \<Longrightarrow> rows d' = rows d"
  using find_tables rows_tables by blast

lemma del_removes: "del own name d = (Ok u, d') \<Longrightarrow> (own, name, v) \<notin> rows d'"
  using del_ok by fastforce

lemma del_keeps:
  "del own name d = (r, d') \<Longrightarrow> x \<in> rows d \<Longrightarrow> fst x \<noteq> own \<or> fst (snd x) \<noteq> name \<Longrightarrow> x \<in> rows d'"
  using del_ok rows_tables [OF del_err] by (cases r) auto

lemma del_subset: "del own name d = (r, d') \<Longrightarrow> rows d' \<subseteq> rows d"
  using del_ok rows_tables [OF del_err] by (cases r) auto

text \<open>A deleted thing cannot be found, unless a statement fails.\<close>

lemma find_after_del:
  assumes "del own name d = (Ok u, d1)" and "find own name d1 = (r, d2)"
  shows "r = Ok None \<or> (\<exists>e. r = Err e)"
proof (cases r)
  case (Inr o')
  show ?thesis
  proof (cases o')
    case (Some v)
    then have "(own, name, v) \<in> rows d2" using assms(2) Inr find_Some by blast
    then have "(own, name, v) \<in> rows d1" using find_rows assms(2) by blast
    then show ?thesis using del_removes assms(1) by blast
  qed (simp add: Inr)
qed simp

end

end
