(* ===== verification/Console_Store.thy ===== *)
theory Console_Store
  imports Rcp_Prelude "HOL-Library.Multiset"
begin

text \<open>
  The store of web-console sessions and ephemeral SSH keys,
  \<^verbatim>\<open>internal/domain/access/console_session.go\<close>, and the liveness check of a running console,
  \<^verbatim>\<open>console_liveness.go\<close>. Every operation runs under the store's mutex, so a history of the store
  is a sequence of operations. The times returned by \<^verbatim>\<open>time.Now\<close> and the random bytes are
  arguments; \<^verbatim>\<open>'sig\<close> stands for \<^verbatim>\<open>ssh.Signer\<close>.
\<close>

subsection \<open>State\<close>

record 'sig consoleSession =
  cs_Token :: bytes
  cs_OwnerID :: nat
  cs_InstanceID :: bytes
  cs_Host :: bytes
  cs_Username :: bytes
  cs_Signer :: 'sig
  cs_AuthorizedKey :: bytes
  cs_ExpiresAt :: int

type_synonym authorizedKeyScope = "bytes \<times> bytes"

text \<open>The inner maps of \<^verbatim>\<open>authorizedKeys\<close> are association lists, because the code ranges over them.\<close>

record 'sig consoleSessionStore =
  ttl :: int
  sessions :: "bytes \<rightharpoonup> 'sig consoleSession"
  authorizedKeys :: "authorizedKeyScope \<rightharpoonup> (bytes \<times> int) list"

definition newConsoleSessionStore :: "int \<Rightarrow> 'sig consoleSessionStore" where
  "newConsoleSessionStore t = \<lparr>ttl = t, sessions = Map.empty, authorizedKeys = Map.empty\<rparr>"

subsection \<open>Operations\<close>

definition drop_expired :: "int \<Rightarrow> (bytes \<times> int) list \<Rightarrow> (bytes \<times> int) list" where
  "drop_expired now ks = filter (\<lambda>(_, e). \<not> e < now) ks"

definition put_key :: "bytes \<Rightarrow> int \<Rightarrow> (bytes \<times> int) list \<Rightarrow> (bytes \<times> int) list" where
  "put_key k e ks = (k, e) # filter (\<lambda>(k', _). k' \<noteq> k) ks"

definition deleteExpiredLocked :: "int \<Rightarrow> 'sig consoleSessionStore \<Rightarrow> 'sig consoleSessionStore" where
  "deleteExpiredLocked now s = s
     \<lparr>sessions := (\<lambda>t. case sessions s t of None \<Rightarrow> None
        | Some c \<Rightarrow> if cs_ExpiresAt c < now then None else Some c),
      authorizedKeys := (\<lambda>sc. case authorizedKeys s sc of None \<Rightarrow> None
        | Some ks \<Rightarrow> if drop_expired now ks = [] then None else Some (drop_expired now ks))\<rparr>"

definition addAuthorizedKeyLocked ::
    "'sig consoleSession \<Rightarrow> 'sig consoleSessionStore \<Rightarrow> 'sig consoleSessionStore" where
  "addAuthorizedKeyLocked c s = (let sc = (cs_InstanceID c, cs_Username c);
       ks = (case authorizedKeys s sc of None \<Rightarrow> [] | Some ks \<Rightarrow> ks) in
     s\<lparr>authorizedKeys := (authorizedKeys s)(sc \<mapsto> put_key (cs_AuthorizedKey c) (cs_ExpiresAt c) ks)\<rparr>)"

text \<open>\<open>rnd\<close> is what \<^verbatim>\<open>rand.Read\<close> gives: 32 bytes, or a failure.\<close>

definition randomToken :: "bytes option \<Rightarrow> bytes option" where
  "randomToken rnd = map_option RawURLEncoding rnd"

definition Create :: "bytes option \<Rightarrow> int \<Rightarrow> int \<Rightarrow> 'sig consoleSession \<Rightarrow> 'sig consoleSessionStore
    \<Rightarrow> 'sig consoleSession option \<times> 'sig consoleSessionStore" where
  "Create rnd t1 t2 c s = (case randomToken rnd of None \<Rightarrow> (None, s)
     | Some token \<Rightarrow>
         let c = c\<lparr>cs_Token := token, cs_ExpiresAt := t1 + ttl s\<rparr>;
             s = deleteExpiredLocked t2 s;
             s = s\<lparr>sessions := (sessions s)(token \<mapsto> c)\<rparr>
         in (Some c, addAuthorizedKeyLocked c s))"

definition Take :: "int \<Rightarrow> bytes \<Rightarrow> 'sig consoleSessionStore
    \<Rightarrow> 'sig consoleSession option \<times> 'sig consoleSessionStore" where
  "Take now token s = (let s = deleteExpiredLocked now s in
     case sessions s token of None \<Rightarrow> (None, s)
     | Some c \<Rightarrow> let s = s\<lparr>sessions := (sessions s)(token := None)\<rparr> in
         if cs_ExpiresAt c < now then (None, s) else (Some c, s))"

text \<open>
  The code ranges over the map in an unspecified order: \<open>perm\<close> is that order, a permutation of
  the keys.
\<close>

definition AuthorizedKeys :: "(bytes list \<Rightarrow> bytes list) \<Rightarrow> int \<Rightarrow> bytes \<Rightarrow> bytes
    \<Rightarrow> 'sig consoleSessionStore \<Rightarrow> bytes \<times> 'sig consoleSessionStore" where
  "AuthorizedKeys perm now instanceID username s = (let s = deleteExpiredLocked now s in
     case authorizedKeys s (instanceID, username) of None \<Rightarrow> ([], s)
     | Some ks \<Rightarrow> if ks = [] then ([], s)
         else (concat (map (\<lambda>k. k @ [CHR 0x0A]) (perm (map fst ks))), s))"

definition DeleteAuthorizedKey :: "bytes \<Rightarrow> bytes \<Rightarrow> bytes \<Rightarrow> 'sig consoleSessionStore
    \<Rightarrow> 'sig consoleSessionStore" where
  "DeleteAuthorizedKey instanceID username key s = (let sc = (instanceID, username) in
     case authorizedKeys s sc of None \<Rightarrow> s
     | Some ks \<Rightarrow> if ks = [] then s
         else let ks = filter (\<lambda>(k, _). k \<noteq> key) ks in
           s\<lparr>authorizedKeys := (authorizedKeys s)(sc := if ks = [] then None else Some ks)\<rparr>)"

definition AddAuthorizedKey :: "int \<Rightarrow> int \<Rightarrow> bytes \<Rightarrow> bytes \<Rightarrow> bytes \<Rightarrow> 'sig consoleSessionStore
    \<Rightarrow> 'sig consoleSessionStore" where
  "AddAuthorizedKey t1 t2 instanceID username key s = (let s = deleteExpiredLocked t1 s;
       sc = (instanceID, username);
       ks = (case authorizedKeys s sc of None \<Rightarrow> [] | Some ks \<Rightarrow> ks) in
     s\<lparr>authorizedKeys := (authorizedKeys s)(sc \<mapsto> put_key key (t2 + ttl s) ks)\<rparr>)"

lemmas store_op_defs = Create_def Take_def AuthorizedKeys_def DeleteAuthorizedKey_def
  AddAuthorizedKey_def

subsection \<open>Observations and the invariant of the store\<close>

text \<open>The inner maps have one entry per key and no scope is left with an empty map.\<close>

definition store_wf :: "'sig consoleSessionStore \<Rightarrow> bool" where
  "store_wf s \<longleftrightarrow> (\<forall>sc ks. authorizedKeys s sc = Some ks \<longrightarrow> ks \<noteq> [] \<and> distinct (map fst ks))"

definition key_expiry :: "'sig consoleSessionStore \<Rightarrow> authorizedKeyScope \<Rightarrow> bytes \<Rightarrow> int option" where
  "key_expiry s sc k = (case authorizedKeys s sc of None \<Rightarrow> None | Some ks \<Rightarrow> map_of ks k)"

definition unexpired :: "int \<Rightarrow> int option \<Rightarrow> int option" where
  "unexpired now x = (case x of None \<Rightarrow> None | Some e \<Rightarrow> if e < now then None else Some e)"

lemma map_of_drop_expired:
  "distinct (map fst ks) \<Longrightarrow> map_of (drop_expired now ks) k = unexpired now (map_of ks k)"
  by (induction ks) (auto simp: drop_expired_def unexpired_def map_of_eq_None_iff split: option.splits)

lemma distinct_drop_expired: "distinct (map fst ks) \<Longrightarrow> distinct (map fst (drop_expired now ks))"
  by (simp add: drop_expired_def distinct_map_filter)

lemma map_of_filter_key:
  "map_of (filter (\<lambda>(k', _). k' \<noteq> k) ks) x = (if x = k then None else map_of ks x)"
  by (induction ks) auto

lemma map_of_put_key [simp]: "map_of (put_key k e ks) = (map_of ks)(k \<mapsto> e)"
  by (rule ext) (auto simp: put_key_def map_of_filter_key)

lemma distinct_put_key: "distinct (map fst ks) \<Longrightarrow> distinct (map fst (put_key k e ks))"
  by (auto simp: put_key_def distinct_map_filter)

lemma put_key_nonempty [simp]: "put_key k e ks \<noteq> []"
  by (simp add: put_key_def)

lemma expire_key:
  assumes "store_wf s"
  shows "key_expiry (deleteExpiredLocked now s) sc k = unexpired now (key_expiry s sc k)"
proof (cases "authorizedKeys s sc")
  case None
  then show ?thesis by (simp add: key_expiry_def deleteExpiredLocked_def unexpired_def)
next
  case (Some ks)
  with assms have "distinct (map fst ks)" unfolding store_wf_def by blast
  then have "map_of (drop_expired now ks) k = unexpired now (map_of ks k)"
    by (rule map_of_drop_expired)
  with Some show ?thesis by (auto simp: key_expiry_def deleteExpiredLocked_def)
qed

lemma expire_session:
  "sessions (deleteExpiredLocked now s) t = (case sessions s t of None \<Rightarrow> None
     | Some c \<Rightarrow> if cs_ExpiresAt c < now then None else Some c)"
  by (simp add: deleteExpiredLocked_def)

lemma expire_wf: "store_wf s \<Longrightarrow> store_wf (deleteExpiredLocked now s)"
  by (auto simp: store_wf_def deleteExpiredLocked_def distinct_drop_expired split: option.splits if_splits)

lemma expire_ttl [simp]: "ttl (deleteExpiredLocked now s) = ttl s"
  by (simp add: deleteExpiredLocked_def)

lemma add_key_wf:
  "store_wf s \<Longrightarrow> store_wf (s\<lparr>authorizedKeys := (authorizedKeys s)(sc \<mapsto>
     put_key k e (case authorizedKeys s sc of None \<Rightarrow> [] | Some ks \<Rightarrow> ks))\<rparr>)"
  by (auto simp: store_wf_def distinct_put_key split: option.splits)

lemma add_key_expiry:
  "key_expiry (s\<lparr>authorizedKeys := (authorizedKeys s)(sc \<mapsto>
     put_key k e (case authorizedKeys s sc of None \<Rightarrow> [] | Some ks \<Rightarrow> ks))\<rparr>) sc' k'
   = (if sc' = sc \<and> k' = k then Some e else key_expiry s sc' k')"
  by (auto simp: key_expiry_def split: option.splits)

lemma addLocked [simp]:
  "store_wf s \<Longrightarrow> store_wf (addAuthorizedKeyLocked c s)"
  "sessions (addAuthorizedKeyLocked c s) = sessions s"
  "ttl (addAuthorizedKeyLocked c s) = ttl s"
  by (simp_all add: addAuthorizedKeyLocked_def Let_def add_key_wf)

lemma addLocked_expiry:
  "key_expiry (addAuthorizedKeyLocked c s) sc k
   = (if sc = (cs_InstanceID c, cs_Username c) \<and> k = cs_AuthorizedKey c then Some (cs_ExpiresAt c)
      else key_expiry s sc k)"
  by (simp add: addAuthorizedKeyLocked_def Let_def add_key_expiry)

lemma delete_key_wf: "store_wf s \<Longrightarrow> store_wf (DeleteAuthorizedKey i u k s)"
  by (auto simp: store_wf_def DeleteAuthorizedKey_def Let_def distinct_map_filter split: option.splits)

lemma delete_key_expiry:
  "key_expiry (DeleteAuthorizedKey i u k s) sc' k'
   = (if sc' = (i, u) \<and> k' = k then None else key_expiry s sc' k')"
proof (cases "authorizedKeys s (i, u)")
  case (Some ks)
  have "filter (\<lambda>(k', _). k' \<noteq> k) ks = [] \<Longrightarrow> k' \<noteq> k \<Longrightarrow> map_of ks k' = None"
    using map_of_filter_key [of k ks k'] by simp
  with Some show ?thesis
    by (auto simp: key_expiry_def DeleteAuthorizedKey_def Let_def map_of_filter_key)
qed (auto simp: key_expiry_def DeleteAuthorizedKey_def)

lemma Create_Some:
  assumes "Create rnd t1 t2 c s = (Some c', s')"
  obtains tok where "c' = c\<lparr>cs_Token := tok, cs_ExpiresAt := t1 + ttl s\<rparr>"
    and "sessions s' tok = Some c'"
    and "key_expiry s' (cs_InstanceID c, cs_Username c) (cs_AuthorizedKey c) = Some (t1 + ttl s)"
  using assms by (auto simp: Create_def Let_def addLocked_expiry split: option.splits)

lemma Create_None: "Create rnd t1 t2 c s = (None, s') \<Longrightarrow> s' = s"
  by (auto simp: Create_def Let_def split: option.splits)

subsection \<open>Histories\<close>

datatype 'sig store_op =
    OpCreate "bytes option" int int "'sig consoleSession"
  | OpTake int bytes
  | OpKeys int bytes bytes
  | OpDelete bytes bytes bytes
  | OpAdd int int bytes bytes bytes

fun apply_op :: "'sig store_op \<Rightarrow> 'sig consoleSessionStore \<Rightarrow> 'sig consoleSessionStore" where
  "apply_op (OpCreate rnd t1 t2 c) s = snd (Create rnd t1 t2 c s)"
| "apply_op (OpTake now tok) s = snd (Take now tok s)"
| "apply_op (OpKeys now i u) s = snd (AuthorizedKeys (\<lambda>ks. ks) now i u s)"
| "apply_op (OpDelete i u k) s = DeleteAuthorizedKey i u k s"
| "apply_op (OpAdd t1 t2 i u k) s = AddAuthorizedKey t1 t2 i u k s"

text \<open>The operations of a history, latest first.\<close>

fun run_ops :: "'sig store_op list \<Rightarrow> 'sig consoleSessionStore \<Rightarrow> 'sig consoleSessionStore" where
  "run_ops [] s = s"
| "run_ops (x # xs) s = apply_op x (run_ops xs s)"

text \<open>
  What a client of the store sees, with expiry left out: the session a token currently stands for,
  and until when a key is authorized for a scope. Both are read off the history alone.
\<close>

fun issued :: "int \<Rightarrow> 'sig store_op list \<Rightarrow> bytes \<Rightarrow> 'sig consoleSession option" where
  "issued life [] tok = None"
| "issued life (OpCreate rnd t1 t2 c # xs) tok = (if randomToken rnd = Some tok
     then Some (c\<lparr>cs_Token := tok, cs_ExpiresAt := t1 + life\<rparr>) else issued life xs tok)"
| "issued life (OpTake now tok' # xs) tok = (if tok' = tok then None else issued life xs tok)"
| "issued life (_ # xs) tok = issued life xs tok"

fun granted :: "int \<Rightarrow> 'sig store_op list \<Rightarrow> authorizedKeyScope \<Rightarrow> bytes \<Rightarrow> int option" where
  "granted life [] sc k = None"
| "granted life (OpCreate rnd t1 t2 c # xs) sc k = (if rnd \<noteq> None
       \<and> sc = (cs_InstanceID c, cs_Username c) \<and> k = cs_AuthorizedKey c
     then Some (t1 + life) else granted life xs sc k)"
| "granted life (OpAdd t1 t2 i u k' # xs) sc k = (if sc = (i, u) \<and> k = k' then Some (t2 + life)
     else granted life xs sc k)"
| "granted life (OpDelete i u k' # xs) sc k = (if sc = (i, u) \<and> k = k' then None
     else granted life xs sc k)"
| "granted life (_ # xs) sc k = granted life xs sc k"

text \<open>The clock readings of an operation.\<close>

fun readings :: "'sig store_op \<Rightarrow> int list" where
  "readings (OpCreate _ t1 t2 _) = [t1, t2]"
| "readings (OpTake t _) = [t]"
| "readings (OpKeys t _ _) = [t]"
| "readings (OpDelete _ _ _) = []"
| "readings (OpAdd t1 t2 _ _ _) = [t1, t2]"

definition before :: "'sig store_op list \<Rightarrow> int \<Rightarrow> bool" where
  "before xs now \<longleftrightarrow> (\<forall>x\<in>set xs. \<forall>t\<in>set (readings x). t \<le> now)"

text \<open>
  The store agrees with the history up to expiry: what it holds was issued, and what was issued and
  is not expired at \<open>now\<close> it holds.
\<close>

definition agrees :: "('a \<Rightarrow> int) \<Rightarrow> int \<Rightarrow> 'a option \<Rightarrow> 'a option \<Rightarrow> bool" where
  "agrees ex now concrete abstr \<longleftrightarrow> (\<forall>x. concrete = Some x \<longrightarrow> abstr = Some x)
     \<and> (\<forall>x. abstr = Some x \<and> now \<le> ex x \<longrightarrow> concrete = Some x)"

lemma agrees_Some [simp]: "agrees ex now (Some x) (Some x)"
  by (simp add: agrees_def)

lemma agrees_None [simp]: "agrees ex now None None"
  by (simp add: agrees_def)

lemma agrees_Some_iff: "agrees ex now (Some x) y \<longleftrightarrow> y = Some x"
  unfolding agrees_def by blast

lemma agrees_None_iff: "agrees ex now None y \<longleftrightarrow> (case y of None \<Rightarrow> True | Some e \<Rightarrow> ex e < now)"
  by (cases y) (simp_all add: agrees_def not_le)

lemmas agrees_iffs = agrees_Some_iff agrees_None_iff

lemma agrees_expire:
  "agrees ex now x y \<Longrightarrow> t \<le> now \<Longrightarrow>
   agrees ex now (case x of None \<Rightarrow> None | Some e \<Rightarrow> if ex e < t then None else Some e) y"
  by (cases x) (auto simp: agrees_iffs)

lemma agrees_unexpired:
  "agrees (\<lambda>e. e) now x y \<Longrightarrow> t \<le> now \<Longrightarrow> agrees (\<lambda>e. e) now (unexpired t x) y"
  by (cases x) (auto simp: agrees_iffs unexpired_def)

definition tracks :: "int \<Rightarrow> 'sig store_op list \<Rightarrow> int \<Rightarrow> 'sig consoleSessionStore \<Rightarrow> bool" where
  "tracks life xs now s \<longleftrightarrow> ttl s = life \<and> store_wf s
     \<and> (\<forall>tok. agrees cs_ExpiresAt now (sessions s tok) (issued life xs tok))
     \<and> (\<forall>sc k. agrees (\<lambda>e. e) now (key_expiry s sc k) (granted life xs sc k))"

lemma tracks_expire:
  "tracks life xs now s \<Longrightarrow> t \<le> now \<Longrightarrow> tracks life xs now (deleteExpiredLocked t s)"
  by (simp add: tracks_def expire_wf expire_session expire_key agrees_expire agrees_unexpired)

lemma key_expiry_sessions [simp]: "key_expiry (s\<lparr>sessions := m\<rparr>) = key_expiry s"
  by (intro ext) (simp add: key_expiry_def)

lemma store_wf_sessions [simp]: "store_wf (s\<lparr>sessions := m\<rparr>) = store_wf s"
  by (simp add: store_wf_def)

lemma tracks_create:
  assumes "tracks life xs now s" and "t2 \<le> now"
  shows "tracks life (OpCreate rnd t1 t2 c # xs) now (snd (Create rnd t1 t2 c s))"
proof (cases "randomToken rnd")
  case None
  with assms show ?thesis by (auto simp: Create_def tracks_def randomToken_def)
next
  case (Some tok)
  let ?c = "c\<lparr>cs_Token := tok, cs_ExpiresAt := t1 + ttl s\<rparr>"
  let ?d = "deleteExpiredLocked t2 s"
  let ?e = "?d\<lparr>sessions := (sessions ?d)(tok \<mapsto> ?c)\<rparr>"
  have d: "tracks life xs now ?d" using assms by (rule tracks_expire)
  then have "store_wf ?e" by (simp add: tracks_def)
  with d show ?thesis using Some
    by (auto simp: Create_def Let_def tracks_def addLocked_expiry randomToken_def)
qed

lemma tracks_take:
  assumes "tracks life xs now s" and "t \<le> now"
  shows "tracks life (OpTake t tok # xs) now (snd (Take t tok s))"
proof (cases "sessions (deleteExpiredLocked t s) tok")
  case None
  then have "snd (Take t tok s) = deleteExpiredLocked t s" by (simp add: Take_def Let_def)
  with None show ?thesis using tracks_expire [OF assms] by (simp add: tracks_def)
next
  case (Some c)
  let ?d = "deleteExpiredLocked t s"
  have "snd (Take t tok s) = ?d\<lparr>sessions := (sessions ?d)(tok := None)\<rparr>"
    using Some by (simp add: Take_def Let_def)
  then show ?thesis using tracks_expire [OF assms] by (simp add: tracks_def)
qed

lemma tracks_add:
  assumes "tracks life xs now s" and "t1 \<le> now"
  shows "tracks life (OpAdd t1 t2 i u k # xs) now (AddAuthorizedKey t1 t2 i u k s)"
  using tracks_expire [OF assms]
  by (auto simp: AddAuthorizedKey_def Let_def tracks_def add_key_wf add_key_expiry)

lemma tracks_delete:
  "tracks life xs now s \<Longrightarrow> tracks life (OpDelete i u k # xs) now (DeleteAuthorizedKey i u k s)"
  by (auto simp: tracks_def delete_key_wf delete_key_expiry)
    (auto simp: DeleteAuthorizedKey_def Let_def split: option.splits)

lemma tracks_keys:
  assumes "tracks life xs now s" and "t \<le> now"
  shows "tracks life (OpKeys t i u # xs) now (snd (AuthorizedKeys p t i u s))"
  using tracks_expire [OF assms]
  by (auto simp: AuthorizedKeys_def Let_def tracks_def split: option.splits)

lemmas tracks_ops = tracks_create tracks_take tracks_add tracks_delete tracks_keys

lemma tracks_run: "before xs now \<Longrightarrow> tracks life xs now (run_ops xs (newConsoleSessionStore life))"
proof (induction xs)
  case Nil
  show ?case by (simp add: tracks_def newConsoleSessionStore_def store_wf_def key_expiry_def)
next
  case (Cons x xs)
  then have "tracks life xs now (run_ops xs (newConsoleSessionStore life))"
    and "\<forall>t\<in>set (readings x). t \<le> now" by (auto simp: before_def)
  then show ?case by (cases x) (auto intro: tracks_ops)
qed

lemma take_result:
  "fst (Take now tok s) = (case sessions s tok of None \<Rightarrow> None
     | Some c \<Rightarrow> if cs_ExpiresAt c < now then None else Some c)"
  by (simp add: Take_def Let_def expire_session split: option.splits)

lemma keys_result:
  assumes "store_wf s" and perm: "\<forall>ks. mset (perm ks) = mset ks"
  obtains L where "distinct L"
    and "set L = {k. \<exists>e. key_expiry s (i, u) k = Some e \<and> now \<le> e}"
    and "fst (AuthorizedKeys perm now i u s) = concat (map (\<lambda>k. k @ [CHR 0x0A]) L)"
proof -
  let ?d = "deleteExpiredLocked now s"
  have ke: "key_expiry ?d (i, u) k = Some e \<longleftrightarrow> key_expiry s (i, u) k = Some e \<and> now \<le> e" for k e
    by (auto simp: expire_key [OF assms(1)] unexpired_def split: option.splits)
  show ?thesis
  proof (cases "authorizedKeys ?d (i, u)")
    case None
    with ke show ?thesis by (intro that [of "[]"]) (auto simp: AuthorizedKeys_def Let_def key_expiry_def)
  next
    case (Some ks)
    then have ks: "ks \<noteq> []" "distinct (map fst ks)"
      using expire_wf [OF assms(1), of now] unfolding store_wf_def by blast+
    have "distinct (perm (map fst ks))" "set (perm (map fst ks)) = set (map fst ks)"
      using perm ks(2) by (metis mset_eq_imp_distinct_iff, metis mset_eq_setD)
    moreover have "set (map fst ks) = {k. \<exists>e. key_expiry ?d (i, u) k = Some e}"
      using Some ks(2) by (force simp: key_expiry_def map_of_eq_Some_iff)
    ultimately show ?thesis using Some ks(1) ke
      by (intro that [of "perm (map fst ks)"]) (auto simp: AuthorizedKeys_def Let_def)
  qed
qed

text \<open>
  C4. A console token is good once and until it expires: whatever operations ran on the store
  before (at times not after \<open>now\<close>), \<open>Take\<close> returns a session exactly when the token was issued
  for it, was not taken since, and has not expired.
\<close>

theorem Take_history:
  assumes "before xs now"
  shows "fst (Take now tok (run_ops xs (newConsoleSessionStore life))) = Some c
    \<longleftrightarrow> issued life xs tok = Some c \<and> now \<le> cs_ExpiresAt c"
proof -
  have "agrees cs_ExpiresAt now (sessions (run_ops xs (newConsoleSessionStore life)) tok)
      (issued life xs tok)"
    using tracks_run [OF assms, of life] by (simp add: tracks_def)
  then show ?thesis
    by (cases "sessions (run_ops xs (newConsoleSessionStore life)) tok")
      (auto simp: take_result agrees_iffs)
qed

definition example_session :: "unit consoleSession" where
  "example_session = \<lparr>cs_Token = [], cs_OwnerID = 1, cs_InstanceID = ''vm'', cs_Host = ''10.0.0.5'',
     cs_Username = ''ubuntu'', cs_Signer = (), cs_AuthorizedKey = ''ssh-ed25519 A'', cs_ExpiresAt = 0\<rparr>"

theorem Take_history_witness:
  "before [OpTake 7 ''QUI'', OpCreate (Some ''AB'') 5 5 example_session] 9
   \<and> fst (Take 9 ''QUI'' (run_ops [OpTake 7 ''QUI'', OpCreate (Some ''AB'') 5 5 example_session]
       (newConsoleSessionStore 120))) = None"
proof -
  let ?xs = "[OpTake 7 ''QUI'', OpCreate (Some ''AB'') 5 5 example_session]"
  have b: "before ?xs 9" by (simp add: before_def)
  moreover have "issued 120 ?xs ''QUI'' = None" by simp
  ultimately show ?thesis using Take_history [OF b, of "''QUI''" 120] by (metis option.exhaust option.distinct(1))
qed

text \<open>
  C5. The keys served to a VM's sshd are exactly the live grants: for every history of the store and
  every map iteration order, \<open>AuthorizedKeys\<close> returns one line for each key that was last granted
  (by a console session or by the gateway) and not deleted since, for this instance and user, and
  whose lifetime is not over.
\<close>

theorem AuthorizedKeys_history:
  assumes "before xs now" and "\<forall>ks. mset (perm ks) = mset ks"
  shows "\<exists>L. distinct L
    \<and> set L = {k. \<exists>e. granted life xs (i, u) k = Some e \<and> now \<le> e}
    \<and> fst (AuthorizedKeys perm now i u (run_ops xs (newConsoleSessionStore life)))
        = concat (map (\<lambda>k. k @ [CHR 0x0A]) L)"
proof -
  let ?s = "run_ops xs (newConsoleSessionStore life)"
  have t: "store_wf ?s" "\<And>k. agrees (\<lambda>e. e) now (key_expiry ?s (i, u) k) (granted life xs (i, u) k)"
    using tracks_run [OF assms(1), of life] by (simp_all add: tracks_def)
  then have "key_expiry ?s (i, u) k = Some e \<and> now \<le> e
      \<longleftrightarrow> granted life xs (i, u) k = Some e \<and> now \<le> e" for k e
    unfolding agrees_def by blast
  then have "{k. \<exists>e. key_expiry ?s (i, u) k = Some e \<and> now \<le> e}
      = {k. \<exists>e. granted life xs (i, u) k = Some e \<and> now \<le> e}" by simp
  moreover obtain L where "distinct L"
    and "set L = {k. \<exists>e. key_expiry ?s (i, u) k = Some e \<and> now \<le> e}"
    and "fst (AuthorizedKeys perm now i u ?s) = concat (map (\<lambda>k. k @ [CHR 0x0A]) L)"
    using keys_result [OF t(1) assms(2)] by blast
  ultimately show ?thesis by (intro exI [of _ L]) simp
qed

theorem AuthorizedKeys_history_witness:
  "before [OpAdd 3 3 ''vm'' ''root'' ''K2'', OpCreate (Some ''AB'') 1 1 example_session] 60
   \<and> (\<exists>L. distinct L
    \<and> set L = {k. \<exists>e. granted 120 [OpAdd 3 3 ''vm'' ''root'' ''K2'',
         OpCreate (Some ''AB'') 1 1 example_session] (''vm'', ''root'') k = Some e \<and> 60 \<le> e}
    \<and> fst (AuthorizedKeys (\<lambda>ks. rev ks) 60 ''vm'' ''root''
         (run_ops [OpAdd 3 3 ''vm'' ''root'' ''K2'', OpCreate (Some ''AB'') 1 1 example_session]
           (newConsoleSessionStore 120))) = concat (map (\<lambda>k. k @ [CHR 0x0A]) L))"
proof -
  have b: "before [OpAdd 3 3 ''vm'' ''root'' ''K2'', OpCreate (Some ''AB'') 1 1 example_session] 60"
    by (simp add: before_def)
  have p: "\<forall>ks::bytes list. mset (rev ks) = mset ks" by simp
  show ?thesis by (intro conjI b AuthorizedKeys_history [OF b p])
qed

subsection \<open>Liveness of a running console\<close>

datatype console_err = ErrConsoleIdle | ErrConsoleLifetime | ErrProbe bytes

text \<open>A probe of the relay is run at each check; its outcome is part of the check's input.\<close>

record consoleLiveness =
  cl_started :: int
  cl_idleTimeout :: int
  cl_maxLifetime :: int
  cl_lastActive :: int

definition touch :: "int \<Rightarrow> consoleLiveness \<Rightarrow> consoleLiveness" where
  "touch now l = l\<lparr>cl_lastActive := now\<rparr>"

definition newConsoleLiveness :: "int \<Rightarrow> int \<Rightarrow> int \<Rightarrow> consoleLiveness" where
  "newConsoleLiveness now idle maxLife = touch now
     \<lparr>cl_started = now, cl_idleTimeout = idle, cl_maxLifetime = maxLife, cl_lastActive = 0\<rparr>"

text \<open>
  The keepalive probe: the outcome of the request over SSH, or of the context if that ends first; the goroutine that
  waits for the reply has room in its channel and ends with it.
\<close>

datatype probe_select = ReplyFirst "bytes option" | ContextFirst bytes

fun sshKeepaliveProbe :: "probe_select \<Rightarrow> bytes option" where
  "sshKeepaliveProbe (ReplyFirst err) = err"
| "sshKeepaliveProbe (ContextFirst err) = Some err"

fun first_failure :: "bytes option list \<Rightarrow> console_err option" where
  "first_failure [] = None"
| "first_failure (None # ps) = first_failure ps"
| "first_failure (Some e # ps) = Some (ErrProbe e)"

definition liveness_check :: "bytes option list \<Rightarrow> int \<Rightarrow> consoleLiveness \<Rightarrow> console_err option" where
  "liveness_check probes now l =
     (if now - cl_started l \<ge> cl_maxLifetime l then Some ErrConsoleLifetime
      else if now - cl_lastActive l \<ge> cl_idleTimeout l then Some ErrConsoleIdle
      else first_failure probes)"

text \<open>
  The relay and its watcher as a sequence of events: a read or write of \<open>n\<close> bytes by the client
  transport (\<open>trackedConsole\<close>), a tick of the watcher's timer with the outcomes of the probes, and
  the end of the relay. The result is the cause the watcher cancels the relay with.
\<close>

datatype console_event = Transfer int nat | Tick int "bytes option list" | RelayDone

fun trackedTransfer :: "int \<Rightarrow> nat \<Rightarrow> consoleLiveness \<Rightarrow> consoleLiveness" where
  "trackedTransfer now n l = (if n > 0 then touch now l else l)"

fun watchConsole :: "console_event list \<Rightarrow> consoleLiveness \<Rightarrow> console_err option" where
  "watchConsole [] l = None"
| "watchConsole (RelayDone # es) l = None"
| "watchConsole (Transfer now n # es) l = watchConsole es (trackedTransfer now n l)"
| "watchConsole (Tick now probes # es) l = (case liveness_check probes now l of
     Some e \<Rightarrow> Some e | None \<Rightarrow> watchConsole es l)"

lemma liveness_check_lifetime:
  "liveness_check ps now l = Some e \<longleftrightarrow>
     (now - cl_started l \<ge> cl_maxLifetime l \<and> e = ErrConsoleLifetime)
   \<or> (now - cl_started l < cl_maxLifetime l \<and> now - cl_lastActive l \<ge> cl_idleTimeout l
        \<and> e = ErrConsoleIdle)
   \<or> (now - cl_started l < cl_maxLifetime l \<and> now - cl_lastActive l < cl_idleTimeout l
        \<and> first_failure ps = Some e)"
  by (auto simp: liveness_check_def)

text \<open>
  C6. No console outlives its lifetime unnoticed: if the relay has not ended by itself, the watcher
  has cancelled it once its timer has ticked at a time at or past the maximum lifetime, however
  much traffic there was.
\<close>

theorem watchConsole_lifetime:
  assumes "RelayDone \<notin> set es" and "Tick now ps \<in> set es"
    and "cl_maxLifetime l \<le> now - cl_started l"
  shows "watchConsole es l \<noteq> None"
  using assms
proof (induction es l rule: watchConsole.induct)
  case (4 t probes es l)
  then show ?case by (auto simp: liveness_check_def split: option.splits)
qed (auto simp: touch_def)

theorem watchConsole_lifetime_witness:
  "watchConsole [Transfer 95 4, Tick 100 [None]] (newConsoleLiveness 0 30 100) \<noteq> None"
  using watchConsole_lifetime [of "[Transfer 95 4, Tick 100 [None]]" 100 "[None]" "newConsoleLiveness 0 30 100"]
  by (simp add: newConsoleLiveness_def touch_def)

end
