(* ===== verification/Access_Service.thy ===== *)
theory Access_Service
  imports Ent_Db Console_Store
begin

text \<open>
  Key pairs and web-console sessions: \<^verbatim>\<open>internal/domain/access\<close> (\<^verbatim>\<open>repository.go\<close>,
  \<^verbatim>\<open>service.go\<close>, the request handlers of \<^verbatim>\<open>handler.go\<close>, the address extraction of
  \<^verbatim>\<open>client.go\<close>, \<^verbatim>\<open>ssh_service.go\<close>). The OpenStack client is a record of functions on an
  abstract world \<open>'w\<close>; \<^verbatim>\<open>ssh.ParseAuthorizedKey\<close> succeeding is a predicate.
\<close>

subsection \<open>Types\<close>

record KeyPair =
  kp_Name :: bytes
  kp_Fingerprint :: bytes
  kp_PublicKey :: bytes

record ConsoleInstance =
  ci_ID :: bytes
  ci_Name :: bytes
  ci_FixedIP :: bytes
  ci_FloatingIP :: bytes

record CreateKeyPairRequest =
  ck_Name :: bytes
  ck_PublicKey :: bytes

record EphemeralAuthorizedKeyRequest =
  ek_InstanceID :: bytes
  ek_Username :: bytes
  ek_AuthorizedKey :: bytes

datatype cause = DbCause db_err | OsCause os_err | RandCause

datatype access_err = ErrNameRequired | ErrPublicKeyRequired | ErrInvalidSSHKeyFormat
  | ErrKeyPairAlreadyExists | ErrKeyPairNotFound | ErrInvalidKeyPairRequest os_err
  | ErrKeyPairAccessDenied os_err | ErrKeyPairOperationFailed cause | ErrKeyPairDeleteFailed cause
  | ErrConsoleInstanceIDRequired | ErrConsoleInstanceNotFound | ErrConsoleInstanceNoIP
  | ErrConsoleOperationFailed cause

record 'w keyPairClient =
  kc_CreateKeyPair :: "bytes \<Rightarrow> bytes \<Rightarrow> 'w \<Rightarrow> (os_err + KeyPair) \<times> 'w"
  kc_DeleteKeyPair :: "bytes \<Rightarrow> 'w \<Rightarrow> os_err option \<times> 'w"
  kc_GetInstance :: "bytes \<Rightarrow> 'w \<Rightarrow> (os_err + ConsoleInstance) \<times> 'w"

subsection \<open>Repository\<close>

definition row_to_KeyPair :: "keypair_row \<Rightarrow> KeyPair" where
  "row_to_KeyPair r = \<lparr>kp_Name = k_openstack_name r, kp_Fingerprint = k_fingerprint r,
     kp_PublicKey = k_public_key r\<rparr>"

definition SaveKeyPair :: "nat \<Rightarrow> KeyPair \<Rightarrow> unit dbop" where
  "SaveKeyPair ownerID kp = exec (\<lambda>d. ((), d\<lparr>key_pairs := key_pairs d @ [\<lparr>k_id = seq d,
     k_openstack_name = kp_Name kp, k_fingerprint = kp_Fingerprint kp,
     k_public_key = kp_PublicKey kp, k_created_at = clock d, k_owner = ownerID\<rparr>],
     seq := Suc (seq d)\<rparr>))"

text \<open>Deleting key pairs clears the key-pair column of the instances that refer to them.\<close>

definition KeyPair_DeleteByName :: "nat \<Rightarrow> bytes \<Rightarrow> unit dbop" where
  "KeyPair_DeleteByName ownerID name = exec (\<lambda>d.
     let gone = (\<lambda>k. k_openstack_name k = name \<and> k_owner k = ownerID);
         ids = map k_id (filter gone (key_pairs d)) in
     ((), d\<lparr>key_pairs := filter (\<lambda>k. \<not> gone k) (key_pairs d),
            instances := update_rows (\<lambda>i. case i_keypair i of None \<Rightarrow> False | Some k \<Rightarrow> k \<in> set ids)
              (\<lambda>i. i\<lparr>i_keypair := None\<rparr>) (instances d)\<rparr>))"

definition KeyPair_ListByOwner :: "nat \<Rightarrow> KeyPair list dbop" where
  "KeyPair_ListByOwner ownerID d =
     (case query (\<lambda>d. all_rows (key_pairs d) (\<lambda>k. k_owner k = ownerID)) d of
        (Err e, d') \<Rightarrow> (Err e, d')
      | (Ok kps, d') \<Rightarrow> (Ok (map row_to_KeyPair kps), d'))"

definition KeyPair_FindByName :: "nat \<Rightarrow> bytes \<Rightarrow> KeyPair option dbop" where
  "KeyPair_FindByName ownerID name = find_opt key_pairs
     (\<lambda>k. k_openstack_name k = name \<and> k_owner k = ownerID) (\<lambda>_. row_to_KeyPair)"

definition FindConsoleTarget :: "nat \<Rightarrow> bytes \<Rightarrow> ConsoleInstance option dbop" where
  "FindConsoleTarget ownerID openstackID = find_opt instances
     (\<lambda>i. i_openstack_id i = openstackID \<and> i_owner i = ownerID)
     (\<lambda>_ i. \<lparr>ci_ID = i_openstack_id i, ci_Name = i_name i, ci_FixedIP = [], ci_FloatingIP = []\<rparr>)"

definition keypair_set :: "db \<Rightarrow> (nat \<times> bytes \<times> KeyPair) set" where
  "keypair_set d = (\<lambda>k. (k_owner k, k_openstack_name k, row_to_KeyPair k)) ` set (key_pairs d)"

interpretation kpr: owned_repo keypair_set KeyPair_FindByName KeyPair_DeleteByName
proof
  fix d d' own name and v :: KeyPair and r e u
  show "same_tables d d' \<Longrightarrow> keypair_set d' = keypair_set d"
    by (simp add: keypair_set_def same_tables_def)
  show "KeyPair_FindByName own name d = (r, d') \<Longrightarrow> same_tables d d'"
    unfolding KeyPair_FindByName_def by (rule find_opt_tables)
  show "KeyPair_FindByName own name d = (Ok (Some v), d') \<Longrightarrow> (own, name, v) \<in> keypair_set d'"
    unfolding KeyPair_FindByName_def by (auto simp: keypair_set_def elim!: find_opt_Some)
  show "KeyPair_FindByName own name d = (Ok None, d') \<Longrightarrow> (own, name, v) \<notin> keypair_set d'"
    unfolding KeyPair_FindByName_def by (auto simp: keypair_set_def dest!: find_opt_None)
next
  fix d d' own name q e and u :: unit
  show "KeyPair_DeleteByName own name d = (q, d') \<Longrightarrow> db_wf d \<Longrightarrow> db_wf d'"
    unfolding KeyPair_DeleteByName_def by (rule exec_wf)
  show "KeyPair_DeleteByName own name d = (Err e, d') \<Longrightarrow> same_tables d d'"
    unfolding KeyPair_DeleteByName_def by (rule exec_err)
  show "keypair_set d' = {x \<in> keypair_set d. \<not> (fst x = own \<and> fst (snd x) = name)}"
    if "KeyPair_DeleteByName own name d = (Ok u, d')"
    using that unfolding KeyPair_DeleteByName_def
    by (elim exec_ok) (auto simp: keypair_set_def same_tables_def Let_def)
qed

subsection \<open>Key-pair operations of the service\<close>

text \<open>
  An operation that uses the database and the cloud returns its result with both. \<open>valid_key\<close> says
  whether \<^verbatim>\<open>ssh.ParseAuthorizedKey\<close> accepts a key.
\<close>

definition normalizeKeyPairError :: "os_err \<Rightarrow> access_err" where
  "normalizeKeyPairError e =
     (if hasStatusCode e 400 then ErrInvalidKeyPairRequest e
      else if hasStatusCode e 403 then ErrKeyPairAccessDenied e
      else ErrKeyPairOperationFailed (OsCause e))"

definition CreateKeyPair :: "'w keyPairClient \<Rightarrow> (bytes \<Rightarrow> bool) \<Rightarrow> nat \<Rightarrow> CreateKeyPairRequest
    \<Rightarrow> db \<times> 'w \<Rightarrow> (access_err + KeyPair) \<times> db \<times> 'w" where
  "CreateKeyPair client valid_key ownerID req = (\<lambda>(d, w).
     let name = TrimSpace (ck_Name req); publicKey = TrimSpace (ck_PublicKey req) in
     if name = [] then (Err ErrNameRequired, d, w)
     else if publicKey = [] then (Err ErrPublicKeyRequired, d, w)
     else if \<not> valid_key publicKey then (Err ErrInvalidSSHKeyFormat, d, w)
     else case KeyPair_FindByName ownerID name d of
       (Err e, d) \<Rightarrow> (Err (ErrKeyPairOperationFailed (DbCause e)), d, w)
     | (Ok (Some _), d) \<Rightarrow> (Err ErrKeyPairAlreadyExists, d, w)
     | (Ok None, d) \<Rightarrow> (case kc_CreateKeyPair client name publicKey w of
         (Err e, w) \<Rightarrow> (if isConflictError e then (Err ErrKeyPairAlreadyExists, d, w)
            else (Err (normalizeKeyPairError e), d, w))
       | (Ok kp, w) \<Rightarrow> (case SaveKeyPair ownerID kp d of
           (Err e, d) \<Rightarrow> (case kc_DeleteKeyPair client (kp_Name kp) w of
              (_, w) \<Rightarrow> (Err (ErrKeyPairOperationFailed (DbCause e)), d, w))
         | (Ok _, d) \<Rightarrow> (Ok kp, d, w))))"

definition ListKeyPairs :: "nat \<Rightarrow> db \<Rightarrow> (access_err + KeyPair list) \<times> db" where
  "ListKeyPairs ownerID d = (case KeyPair_ListByOwner ownerID d of
     (Err e, d) \<Rightarrow> (Err (ErrKeyPairOperationFailed (DbCause e)), d)
   | (Ok kps, d) \<Rightarrow> (Ok kps, d))"

definition GetKeyPair :: "nat \<Rightarrow> bytes \<Rightarrow> db \<Rightarrow> (access_err + KeyPair) \<times> db" where
  "GetKeyPair ownerID name d = (case KeyPair_FindByName ownerID name d of
     (Err e, d) \<Rightarrow> (Err (ErrKeyPairOperationFailed (DbCause e)), d)
   | (Ok None, d) \<Rightarrow> (Err ErrKeyPairNotFound, d)
   | (Ok (Some kp), d) \<Rightarrow> (Ok kp, d))"

definition DeleteKeyPair :: "'w keyPairClient \<Rightarrow> nat \<Rightarrow> bytes \<Rightarrow> db \<times> 'w
    \<Rightarrow> (access_err + unit) \<times> db \<times> 'w" where
  "DeleteKeyPair client ownerID name = (\<lambda>(d, w).
     case KeyPair_FindByName ownerID name d of
       (Err e, d) \<Rightarrow> (Err (ErrKeyPairOperationFailed (DbCause e)), d, w)
     | (Ok None, d) \<Rightarrow> (Err ErrKeyPairNotFound, d, w)
     | (Ok (Some _), d) \<Rightarrow> (case kc_DeleteKeyPair client name w of
         (err, w) \<Rightarrow> (case err of
            Some e \<Rightarrow> if \<not> isNotFoundError e then (Err (ErrKeyPairDeleteFailed (OsCause e)), d, w)
              else (case KeyPair_DeleteByName ownerID name d of
                (Err e, d) \<Rightarrow> (Err (ErrKeyPairDeleteFailed (DbCause e)), d, w)
              | (Ok _, d) \<Rightarrow> (Ok (), d, w))
          | None \<Rightarrow> (case KeyPair_DeleteByName ownerID name d of
                (Err e, d) \<Rightarrow> (Err (ErrKeyPairDeleteFailed (DbCause e)), d, w)
              | (Ok _, d) \<Rightarrow> (Ok (), d, w)))))"

subsection \<open>Console sessions and ephemeral keys\<close>

record ('w, 'sig) access_state =
  as_db :: db
  as_cloud :: 'w
  as_store :: "'sig consoleSessionStore"

text \<open>
  \<open>gen\<close> is the outcome of \<^verbatim>\<open>generateEphemeralSSHKey\<close> (a signer and the marshalled public key, or
  a failure); \<open>rnd\<close>, \<open>t1\<close> and \<open>t2\<close> are the random bytes and clock readings of the store's \<open>Create\<close>.
\<close>

definition generateEphemeralSSHKey :: "('sig \<times> bytes) option \<Rightarrow> ('sig \<times> bytes) option" where
  "generateEphemeralSSHKey gen = map_option (\<lambda>(sg, key). (sg, TrimSpace key)) gen"

definition console_url :: "bytes \<Rightarrow> bytes \<Rightarrow> bytes" where
  "console_url basePath token =
     TrimRight CHR ''/'' basePath @ ''/access'' @ ''/console/ws'' @ ''?token='' @ token"

definition CreateConsoleSession :: "'w keyPairClient \<Rightarrow> ('sig \<times> bytes) option \<Rightarrow> bytes option
    \<Rightarrow> int \<Rightarrow> int \<Rightarrow> nat \<Rightarrow> bytes \<Rightarrow> bytes \<Rightarrow> bytes \<Rightarrow> ('w, 'sig) access_state
    \<Rightarrow> (access_err + bytes \<times> int) \<times> ('w, 'sig) access_state" where
  "CreateConsoleSession client gen rnd t1 t2 ownerID instanceID req_Username basePath st =
     (let instanceID = TrimSpace instanceID;
          username = (if TrimSpace req_Username = [] then ''ubuntu'' else TrimSpace req_Username) in
      if instanceID = [] then (Err ErrConsoleInstanceIDRequired, st)
      else case FindConsoleTarget ownerID instanceID (as_db st) of (target, d) \<Rightarrow>
        let st = st\<lparr>as_db := d\<rparr> in
        (case target of
          Err e \<Rightarrow> (Err (ErrConsoleOperationFailed (DbCause e)), st)
        | Ok None \<Rightarrow> (Err ErrConsoleInstanceNotFound, st)
        | Ok (Some _) \<Rightarrow> (case kc_GetInstance client instanceID (as_cloud st) of (got, w) \<Rightarrow>
            let st = st\<lparr>as_cloud := w\<rparr> in
            (case got of
              Err e \<Rightarrow> if isNotFoundError e then (Err ErrConsoleInstanceNotFound, st)
                else (Err (ErrConsoleOperationFailed (OsCause e)), st)
            | Ok inst \<Rightarrow>
                let host = firstNonEmpty [ci_FixedIP inst, ci_FloatingIP inst] in
                if host = [] then (Err ErrConsoleInstanceNoIP, st)
                else (case generateEphemeralSSHKey gen of
                  None \<Rightarrow> (Err (ErrConsoleOperationFailed RandCause), st)
                | Some (signer, authorizedKey) \<Rightarrow>
                    (case Create rnd t1 t2 \<lparr>cs_Token = [], cs_OwnerID = ownerID,
                        cs_InstanceID = instanceID, cs_Host = host, cs_Username = username,
                        cs_Signer = signer, cs_AuthorizedKey = authorizedKey, cs_ExpiresAt = 0\<rparr>
                        (as_store st) of
                      (None, s) \<Rightarrow> (Err (ErrConsoleOperationFailed RandCause), st\<lparr>as_store := s\<rparr>)
                    | (Some session, s) \<Rightarrow> (Ok (console_url basePath (cs_Token session),
                        cs_ExpiresAt session), st\<lparr>as_store := s\<rparr>)))))))"

definition AddEphemeralAuthorizedKey :: "(bytes \<Rightarrow> bool) \<Rightarrow> int \<Rightarrow> int \<Rightarrow> EphemeralAuthorizedKeyRequest
    \<Rightarrow> 'sig consoleSessionStore \<Rightarrow> (access_err + unit) \<times> 'sig consoleSessionStore" where
  "AddEphemeralAuthorizedKey valid_key t1 t2 req s =
     (let instanceID = TrimSpace (ek_InstanceID req);
          username = (if TrimSpace (ek_Username req) = [] then ''ubuntu''
            else TrimSpace (ek_Username req));
          key = TrimSpace (ek_AuthorizedKey req) in
      if instanceID = [] then (Err ErrConsoleInstanceIDRequired, s)
      else if key = [] then (Err ErrPublicKeyRequired, s)
      else if \<not> valid_key key then (Err ErrInvalidSSHKeyFormat, s)
      else (Ok (), AddAuthorizedKey t1 t2 instanceID username key s))"

definition DeleteEphemeralAuthorizedKey :: "EphemeralAuthorizedKeyRequest
    \<Rightarrow> 'sig consoleSessionStore \<Rightarrow> 'sig consoleSessionStore" where
  "DeleteEphemeralAuthorizedKey req s =
     (let username = (if TrimSpace (ek_Username req) = [] then ''ubuntu''
            else TrimSpace (ek_Username req)) in
      DeleteAuthorizedKey (TrimSpace (ek_InstanceID req)) username (TrimSpace (ek_AuthorizedKey req)) s)"

definition svc_AuthorizedKeys :: "(bytes list \<Rightarrow> bytes list) \<Rightarrow> int \<Rightarrow> bytes \<Rightarrow> bytes
    \<Rightarrow> 'sig consoleSessionStore \<Rightarrow> bytes \<times> 'sig consoleSessionStore" where
  "svc_AuthorizedKeys perm now instanceID username s =
     AuthorizedKeys perm now (TrimSpace instanceID) (TrimSpace username) s"

subsection \<open>What the service promises\<close>

text \<open>
  What the service relies on of the cloud: \<open>keys w\<close> are the names of the key pairs that exist there,
  creating adds the requested name, which was free, deleting removes it, and a failing call changes
  nothing.
\<close>

definition lawful_keypair_client :: "'w keyPairClient \<Rightarrow> ('w \<Rightarrow> bytes set) \<Rightarrow> bool" where
  "lawful_keypair_client client keys \<longleftrightarrow>
     (\<forall>n p w kp w'. kc_CreateKeyPair client n p w = (Ok kp, w')
        \<longrightarrow> kp_Name kp = n \<and> n \<notin> keys w \<and> keys w' = insert n (keys w))
   \<and> (\<forall>n p w e w'. kc_CreateKeyPair client n p w = (Err e, w') \<longrightarrow> keys w' = keys w)
   \<and> (\<forall>n w w'. kc_DeleteKeyPair client n w = (None, w') \<longrightarrow> keys w' = keys w - {n})
   \<and> (\<forall>n w e w'. kc_DeleteKeyPair client n w = (Some e, w') \<longrightarrow> keys w' = keys w)"

text \<open>A small cloud with these laws, for the witnesses: a list of names with room for ten.\<close>

definition tiny_client :: "bytes list keyPairClient" where
  "tiny_client = \<lparr>
     kc_CreateKeyPair = (\<lambda>n p w. if n \<in> set w then (Err (StatusError 409 ''exists''), w)
       else (Ok \<lparr>kp_Name = n, kp_Fingerprint = ''fp'', kp_PublicKey = p\<rparr>, n # w)),
     kc_DeleteKeyPair = (\<lambda>n w. if n \<in> set w then (None, filter (\<lambda>x. x \<noteq> n) w)
       else (Some (StatusError 404 ''gone''), w)),
     kc_GetInstance = (\<lambda>i w. (Ok \<lparr>ci_ID = i, ci_Name = ''vm'', ci_FixedIP = ''10.0.0.7'',
       ci_FloatingIP = []\<rparr>, w))\<rparr>"

lemma tiny_client_lawful: "lawful_keypair_client tiny_client set"
  by (auto simp: lawful_keypair_client_def tiny_client_def split: if_splits)

definition one_user_db :: db where
  "one_user_db = \<lparr>users = [\<lparr>u_id = 1, u_email = ''a@x'', u_name = ''A'', u_google_id = ''g'',
       u_google_access_token = [], u_google_refresh_token = [], u_google_token_expiry = 0,
       u_current_refresh_jti = None, u_created_at = 0\<rparr>],
     key_pairs = [], instances = [], containers = [], apps = [], function_tbl = [], seq = 5,
     clock = 100, faults = []\<rparr>"

lemma one_user_db_wf: "db_wf one_user_db"
  by (simp add: one_user_db_def db_wf_def table_wf_defs)

lemma SaveKeyPair_ok:
  "SaveKeyPair own kp d = (Ok u, d') \<Longrightarrow>
   keypair_set d' = insert (own, kp_Name kp, kp) (keypair_set d)"
  unfolding SaveKeyPair_def
  by (elim exec_ok) (auto simp: keypair_set_def same_tables_def row_to_KeyPair_def)

lemma SaveKeyPair_err: "SaveKeyPair own kp d = (Err e, d') \<Longrightarrow> keypair_set d' = keypair_set d"
  unfolding SaveKeyPair_def by (rule kpr.rows_tables) (rule exec_err)

lemma SaveKeyPair_wf: "SaveKeyPair own kp d = (r, d') \<Longrightarrow> db_wf d \<Longrightarrow> db_wf d'"
  unfolding SaveKeyPair_def by (rule exec_wf)

text \<open>What \<open>CreateKeyPair\<close> did, case by case.\<close>

lemma CreateKeyPair_cases:
  assumes "CreateKeyPair client valid own req (d, w) = (r, d', w')"
  obtains (early) e where "r = Err e" "keypair_set d' = keypair_set d" "w' = w"
    | (cloud) e e1 where "r = Err e" "keypair_set d' = keypair_set d"
        "kc_CreateKeyPair client (TrimSpace (ck_Name req)) (TrimSpace (ck_PublicKey req)) w = (Err e1, w')"
    | (undone) e kp w1 c where "r = Err e" "keypair_set d' = keypair_set d"
        "kc_CreateKeyPair client (TrimSpace (ck_Name req)) (TrimSpace (ck_PublicKey req)) w = (Ok kp, w1)"
        "kc_DeleteKeyPair client (kp_Name kp) w1 = (c, w')"
    | (created) kp where "r = Ok kp" "keypair_set d' = insert (own, kp_Name kp, kp) (keypair_set d)"
        "kc_CreateKeyPair client (TrimSpace (ck_Name req)) (TrimSpace (ck_PublicKey req)) w = (Ok kp, w')"
proof -
  note unf = CreateKeyPair_def Let_def
  show ?thesis
  proof (cases "TrimSpace (ck_Name req) = [] \<or> TrimSpace (ck_PublicKey req) = []
      \<or> \<not> valid (TrimSpace (ck_PublicKey req))")
    case True
    with assms show ?thesis by (auto intro!: early simp: unf split: if_splits)
  next
    case False
    obtain f d1 where f: "KeyPair_FindByName own (TrimSpace (ck_Name req)) d = (f, d1)" by force
    note k = kpr.find_rows [OF f]
    show ?thesis
    proof (cases "f = Ok None")
      case False
      with assms f k \<open>\<not> (_ \<or> _)\<close> show ?thesis
        by (cases f) (auto intro!: early simp: unf split: option.splits)
    next
      case True
      obtain c w1 where c: "kc_CreateKeyPair client (TrimSpace (ck_Name req))
          (TrimSpace (ck_PublicKey req)) w = (c, w1)" by force
      show ?thesis
      proof (cases c)
        case (Inl e)
        with assms f k c True \<open>\<not> (_ \<or> _)\<close> show ?thesis
          by (auto intro!: cloud simp: unf split: if_splits)
      next
        case (Inr kp)
        obtain v d2 where v: "SaveKeyPair own kp d1 = (v, d2)" by force
        show ?thesis
          using assms f k c v Inr True \<open>\<not> (_ \<or> _)\<close>
          by (cases v) (auto intro: undone created simp: unf SaveKeyPair_ok SaveKeyPair_err
              split: prod.splits)
      qed
    qed
  qed
qed

text \<open>
  C3. Creating a key pair leaves no orphan: a success records exactly the key pair that now exists
  in the cloud, for the caller; a failure leaves the database and the cloud as they were, unless the
  compensating delete of the key pair just created failed as well.
\<close>

theorem CreateKeyPair_no_orphan:
  assumes "lawful_keypair_client client keys"
    and "CreateKeyPair client valid own req (d, w) = (r, d', w')"
  shows "case r of
      Ok kp \<Rightarrow> keypair_set d' = insert (own, kp_Name kp, kp) (keypair_set d)
        \<and> kp_Name kp = TrimSpace (ck_Name req) \<and> keys w' = insert (kp_Name kp) (keys w)
    | Err e \<Rightarrow> keypair_set d' = keypair_set d
        \<and> (keys w' = keys w
           \<or> (\<exists>w1 e1. kc_DeleteKeyPair client (TrimSpace (ck_Name req)) w1 = (Some e1, w')))"
  using assms(2)
proof (cases rule: CreateKeyPair_cases)
  case (undone e kp w1 c)
  with assms(1) have "kp_Name kp = TrimSpace (ck_Name req)" "keys w1 = insert (kp_Name kp) (keys w)"
    "kp_Name kp \<notin> keys w"
    by (auto simp: lawful_keypair_client_def)
  with undone assms(1) show ?thesis
    by (cases c) (auto simp: lawful_keypair_client_def)
qed (use assms(1) in \<open>auto simp: lawful_keypair_client_def\<close>)

definition example_create :: "(access_err + KeyPair) \<times> db \<times> bytes list" where
  "example_create = CreateKeyPair tiny_client (\<lambda>_. True) 1
     \<lparr>ck_Name = '' k '', ck_PublicKey = ''ssh-ed25519 A''\<rparr> (one_user_db, [])"

lemma example_create_result: "fst example_create
    = Ok \<lparr>kp_Name = ''k'', kp_Fingerprint = ''fp'', kp_PublicKey = ''ssh-ed25519 A''\<rparr>"
  by code_simp

theorem CreateKeyPair_no_orphan_witness:
  "keypair_set (fst (snd example_create)) = insert (1, ''k'', \<lparr>kp_Name = ''k'', kp_Fingerprint = ''fp'',
     kp_PublicKey = ''ssh-ed25519 A''\<rparr>) (keypair_set one_user_db)
   \<and> set (snd (snd example_create)) = {''k''}"
proof -
  have eq: "CreateKeyPair tiny_client (\<lambda>_. True) 1
      \<lparr>ck_Name = '' k '', ck_PublicKey = ''ssh-ed25519 A''\<rparr> (one_user_db, [])
    = (fst example_create, fst (snd example_create), snd (snd example_create))"
    by (simp only: example_create_def prod.collapse)
  show ?thesis
    using CreateKeyPair_no_orphan [OF tiny_client_lawful eq] unfolding example_create_result by simp
qed

text \<open>
  A user can delete only their own key pairs: when the caller has no key pair of that name, the
  call reports it and neither the database nor the cloud changes. When the call succeeds, that key
  pair is gone from the database and every other one is still there.
\<close>

theorem DeleteKeyPair_owned:
  assumes "DeleteKeyPair client own name (d, w) = (r, d', w')"
  shows "((\<forall>v. (own, name, v) \<notin> keypair_set d) \<longrightarrow>
            w' = w \<and> same_tables d d' \<and> r \<noteq> Ok ())
       \<and> (r = Ok () \<longrightarrow> keypair_set d' = {x \<in> keypair_set d. \<not> (fst x = own \<and> fst (snd x) = name)})
       \<and> (r \<noteq> Ok () \<longrightarrow> keypair_set d' = keypair_set d)"
proof -
  obtain f d1 where f: "KeyPair_FindByName own name d = (f, d1)" by force
  obtain c w1 where c: "kc_DeleteKeyPair client name w = (c, w1)" by force
  obtain v d2 where v: "KeyPair_DeleteByName own name d1 = (v, d2)" by force
  note k = kpr.find_rows [OF f] kpr.find_tables [OF f]
  have err: "v = Err e \<Longrightarrow> keypair_set d2 = keypair_set d1" for e
    using v kpr.del_err kpr.rows_tables by blast
  have ok: "v = Ok u \<Longrightarrow> keypair_set d2 = {x \<in> keypair_set d1. \<not> (fst x = own \<and> fst (snd x) = name)}" for u
    using v kpr.del_ok by blast
  show ?thesis
  proof (cases f rule: lookup_cases)
    case (some x)
    then have "(own, name, x) \<in> keypair_set d" using f k kpr.find_Some by metis
    with assms f c v k some err ok show ?thesis
      by (auto simp: DeleteKeyPair_def split: option.splits if_splits sum.splits)
  qed (use assms f k in \<open>auto simp: DeleteKeyPair_def\<close>)
qed

theorem DeleteKeyPair_owned_witness:
  "fst (DeleteKeyPair tiny_client 1 ''nokey'' (one_user_db, [''nokey''])) \<noteq> Ok ()
   \<and> snd (snd (DeleteKeyPair tiny_client 1 ''nokey'' (one_user_db, [''nokey'']))) = [''nokey'']"
  using DeleteKeyPair_owned [of tiny_client 1 "''nokey''" one_user_db "[''nokey'']"
      "fst (DeleteKeyPair tiny_client 1 ''nokey'' (one_user_db, [''nokey'']))"
      "fst (snd (DeleteKeyPair tiny_client 1 ''nokey'' (one_user_db, [''nokey''])))"
      "snd (snd (DeleteKeyPair tiny_client 1 ''nokey'' (one_user_db, [''nokey''])))"]
  by (simp add: keypair_set_def one_user_db_def)

text \<open>
  A console session is created only for an instance the caller owns: on success the database has
  that instance under the caller, and the store holds, under the token in the returned URL, a session
  of this owner, instance, user and key that expires with the returned time. A failure leaves the
  store as it was. The tables never change.
\<close>

theorem CreateConsoleSession_owned:
  assumes "CreateConsoleSession client gen rnd t1 t2 own instanceID uname base st = (r, st')"
  shows "same_tables (as_db st) (as_db st') \<and> (case r of
      Err e \<Rightarrow> as_store st' = as_store st
    | Ok (url, expires) \<Rightarrow>
        (\<exists>i \<in> set (instances (as_db st)). i_openstack_id i = TrimSpace instanceID \<and> i_owner i = own)
      \<and> expires = t1 + ttl (as_store st)
      \<and> (\<exists>tok c key. url = console_url base tok \<and> sessions (as_store st') tok = Some c
           \<and> map_option snd (generateEphemeralSSHKey gen) = Some key
           \<and> cs_OwnerID c = own \<and> cs_InstanceID c = TrimSpace instanceID \<and> cs_Host c \<noteq> []
           \<and> cs_AuthorizedKey c = key \<and> cs_ExpiresAt c = expires
           \<and> key_expiry (as_store st') (cs_InstanceID c, cs_Username c) key = Some expires))"
proof -
  obtain f d1 where f: "FindConsoleTarget own (TrimSpace instanceID) (as_db st) = (f, d1)" by force
  have tab: "same_tables (as_db st) d1"
    using f unfolding FindConsoleTarget_def by (rule find_opt_tables)
  have own: "f = Ok (Some x) \<Longrightarrow>
      \<exists>i \<in> set (instances (as_db st)). i_openstack_id i = TrimSpace instanceID \<and> i_owner i = own" for x
    using f tab unfolding FindConsoleTarget_def by (auto simp: same_tables_def elim!: find_opt_Some)
  obtain g w1 where g: "kc_GetInstance client (TrimSpace instanceID) (as_cloud st) = (g, w1)" by force
  show ?thesis
  proof (cases f rule: lookup_cases)
    case (some x)
    show ?thesis
    proof (cases g)
      case (Inl e)
      with assms f g tab some show ?thesis
        by (auto simp: CreateConsoleSession_def Let_def split: if_splits)
    next
      case (Inr inst)
      let ?u = "if TrimSpace uname = [] then ''ubuntu'' else TrimSpace uname"
      let ?c = "\<lambda>sg key. \<lparr>cs_Token = [], cs_OwnerID = own, cs_InstanceID = TrimSpace instanceID,
        cs_Host = firstNonEmpty [ci_FixedIP inst, ci_FloatingIP inst], cs_Username = ?u,
        cs_Signer = sg, cs_AuthorizedKey = key, cs_ExpiresAt = 0\<rparr>"
      show ?thesis
      proof (cases "TrimSpace instanceID = [] \<or> firstNonEmpty [ci_FixedIP inst, ci_FloatingIP inst] = []
          \<or> generateEphemeralSSHKey gen = None")
        case True
        with assms f g tab some Inr show ?thesis
          by (auto simp: CreateConsoleSession_def Let_def split: if_splits)
      next
        case False
        then obtain sg key where k: "generateEphemeralSSHKey gen = Some (sg, key)" by auto
        obtain c' s' where c: "Create rnd t1 t2 (?c sg key) (as_store st) = (c', s')" by force
        have "(r, st') = (case c' of None \<Rightarrow> (Err (ErrConsoleOperationFailed RandCause),
              st\<lparr>as_db := d1, as_cloud := w1, as_store := s'\<rparr>)
            | Some se \<Rightarrow> (Ok (console_url base (cs_Token se), cs_ExpiresAt se),
              st\<lparr>as_db := d1, as_cloud := w1, as_store := s'\<rparr>))"
          using assms f g some Inr False k c
          by (simp add: CreateConsoleSession_def Let_def split: option.splits del: firstNonEmpty.simps)
        then show ?thesis
        proof (cases c')
          case (Some se)
          from Create_Some [OF c [unfolded Some]] obtain tok where
            "se = (?c sg key)\<lparr>cs_Token := tok, cs_ExpiresAt := t1 + ttl (as_store st)\<rparr>"
            "sessions s' tok = Some se"
            "key_expiry s' (TrimSpace instanceID, ?u) key = Some (t1 + ttl (as_store st))" by auto
          with \<open>(r, st') = _\<close> Some tab own [OF some] k False show ?thesis
            by (simp del: firstNonEmpty.simps) (rule exI [of _ tok], simp del: firstNonEmpty.simps)
        next
          case None
          with c have "s' = as_store st" by (simp add: Create_None)
          with \<open>(r, st') = _\<close> None tab show ?thesis by simp
        qed
      qed
    qed
  qed (use assms f tab in \<open>auto simp: CreateConsoleSession_def Let_def split: if_splits\<close>)
qed

definition example_vm_db :: db where
  "example_vm_db = one_user_db\<lparr>instances := [\<lparr>i_id = 3, i_openstack_id = ''vm-1'', i_name = ''web'',
     i_status = ''ACTIVE'', i_image_id = [], i_flavor_id = [], i_key_name = [], i_note = [],
     i_provider_created_at = 0, i_created_at = 0, i_keypair = None, i_owner = 1\<rparr>]\<rparr>"

definition example_console :: "(access_err + bytes \<times> int) \<times> (bytes list, unit) access_state" where
  "example_console = CreateConsoleSession tiny_client (Some ((), ''ssh-ed25519 A'')) (Some ''AB'') 10 10 1
     ''vm-1'' [] ''wss://h/api/''
     \<lparr>as_db = example_vm_db, as_cloud = [], as_store = newConsoleSessionStore 120\<rparr>"

lemma example_console_result:
  "fst example_console = Ok (''wss://h/api/access/console/ws?token=QUI'', 130)"
proof -
  have "TrimSpace ''vm-1'' = ''vm-1''" "TrimSpace ''10.0.0.7'' = ''10.0.0.7''"
    "console_url ''wss://h/api/'' ''QUI'' = ''wss://h/api/access/console/ws?token=QUI''"
    "RawURLEncoding ''AB'' = ''QUI''"
    by (simp_all add: trim_eval console_url_def b64_char_def)
  then show ?thesis
    by (simp add: example_console_def CreateConsoleSession_def FindConsoleTarget_def find_opt_def
        query_def tick_def example_vm_db_def one_user_db_def only_row_def tiny_client_def
        generateEphemeralSSHKey_def Create_def randomToken_def newConsoleSessionStore_def Let_def
        del: RawURLEncoding.simps)
qed

theorem CreateConsoleSession_owned_witness:
  "\<exists>tok c. sessions (as_store (snd example_console)) tok = Some c \<and> cs_OwnerID c = 1
     \<and> cs_InstanceID c = TrimSpace ''vm-1'' \<and> cs_ExpiresAt c = 130"
proof -
  have eq: "CreateConsoleSession tiny_client (Some ((), ''ssh-ed25519 A'')) (Some ''AB'') 10 10 1
     ''vm-1'' [] ''wss://h/api/''
     \<lparr>as_db = example_vm_db, as_cloud = [], as_store = newConsoleSessionStore 120\<rparr>
    = (fst example_console, snd example_console)"
    by (simp only: example_console_def prod.collapse)
  show ?thesis
    using CreateConsoleSession_owned [OF eq] unfolding example_console_result by auto
qed

subsection \<open>Request handlers\<close>

text \<open>
  The gin handlers. The authenticated owner (\<^verbatim>\<open>api.OwnerID\<close>) and the decoded request body
  (\<^verbatim>\<open>ShouldBindJSON\<close>) are optional arguments: \<open>None\<close> when there is none.
\<close>

definition h_ListKeyPairs :: "nat option \<Rightarrow> db \<Rightarrow> (access_err, KeyPair list) response \<times> db" where
  "h_ListKeyPairs owner d = (case owner of None \<Rightarrow> (unauthorized, d)
   | Some ownerID \<Rightarrow> (case ListKeyPairs ownerID d of
       (Err e, d) \<Rightarrow> ((500, ErrText e), d) | (Ok kps, d) \<Rightarrow> ((200, Json kps), d)))"

definition h_GetKeyPair :: "nat option \<Rightarrow> bytes \<Rightarrow> db \<Rightarrow> (access_err, KeyPair) response \<times> db" where
  "h_GetKeyPair owner name d = (case owner of None \<Rightarrow> (unauthorized, d)
   | Some ownerID \<Rightarrow> (case GetKeyPair ownerID name d of
       (Err e, d) \<Rightarrow> if e = ErrKeyPairNotFound then ((404, ErrText e), d) else ((500, ErrText e), d)
     | (Ok kp, d) \<Rightarrow> ((200, Json kp), d)))"

definition h_DeleteKeyPair :: "'w keyPairClient \<Rightarrow> nat option \<Rightarrow> bytes \<Rightarrow> db \<times> 'w
    \<Rightarrow> (access_err, unit) response \<times> db \<times> 'w" where
  "h_DeleteKeyPair client owner name st = (case owner of None \<Rightarrow> (unauthorized, st)
   | Some ownerID \<Rightarrow> (case DeleteKeyPair client ownerID name st of
       (Err e, st) \<Rightarrow> if e = ErrKeyPairNotFound then ((404, ErrText e), st) else ((500, ErrText e), st)
     | (Ok _, st) \<Rightarrow> ((204, NoBody), st)))"

fun create_error_response :: "access_err \<Rightarrow> (access_err, 'a) response" where
  "create_error_response ErrNameRequired = (400, ErrText ErrNameRequired)"
| "create_error_response ErrPublicKeyRequired = (400, ErrText ErrPublicKeyRequired)"
| "create_error_response ErrInvalidSSHKeyFormat = (400, ErrText ErrInvalidSSHKeyFormat)"
| "create_error_response (ErrInvalidKeyPairRequest _) = (400, ErrMsg ''invalid keypair request'')"
| "create_error_response (ErrKeyPairAccessDenied _) = (403, ErrMsg ''keypair access denied'')"
| "create_error_response ErrKeyPairAlreadyExists = (409, ErrText ErrKeyPairAlreadyExists)"
| "create_error_response (ErrKeyPairOperationFailed _) = (500, ErrMsg ''failed to create keypair'')"
| "create_error_response _ = (500, ErrMsg ''internal server error'')"

definition h_CreateKeyPair :: "'w keyPairClient \<Rightarrow> (bytes \<Rightarrow> bool) \<Rightarrow> nat option
    \<Rightarrow> CreateKeyPairRequest option \<Rightarrow> db \<times> 'w \<Rightarrow> (access_err, KeyPair) response \<times> db \<times> 'w" where
  "h_CreateKeyPair client valid_key owner bound st = (case owner of None \<Rightarrow> (unauthorized, st)
   | Some ownerID \<Rightarrow> (case bound of None \<Rightarrow> ((400, ErrMsg ''Invalid request body''), st)
     | Some req \<Rightarrow> (case CreateKeyPair client valid_key ownerID req st of
         (Err e, st) \<Rightarrow> (create_error_response e, st) | (Ok kp, st) \<Rightarrow> ((201, Json kp), st))))"

fun console_error_response :: "access_err \<Rightarrow> (access_err, 'a) response" where
  "console_error_response ErrConsoleInstanceIDRequired = (400, ErrText ErrConsoleInstanceIDRequired)"
| "console_error_response ErrConsoleInstanceNotFound = (404, ErrText ErrConsoleInstanceNotFound)"
| "console_error_response ErrConsoleInstanceNoIP = (409, ErrText ErrConsoleInstanceNoIP)"
| "console_error_response _ = (500, ErrMsg ''failed to create console session'')"

definition h_CreateConsoleSession :: "'w keyPairClient \<Rightarrow> ('sig \<times> bytes) option \<Rightarrow> bytes option
    \<Rightarrow> int \<Rightarrow> int \<Rightarrow> nat option \<Rightarrow> bytes option \<Rightarrow> bytes \<Rightarrow> bytes \<Rightarrow> ('w, 'sig) access_state
    \<Rightarrow> (access_err, bytes \<times> int) response \<times> ('w, 'sig) access_state" where
  "h_CreateConsoleSession client gen rnd t1 t2 owner bound param_id base st =
     (case owner of None \<Rightarrow> (unauthorized, st)
      | Some ownerID \<Rightarrow> (case bound of None \<Rightarrow> ((400, ErrMsg ''Invalid request body''), st)
        | Some uname \<Rightarrow>
           (case CreateConsoleSession client gen rnd t1 t2 ownerID param_id uname base st of
              (Err e, st) \<Rightarrow> (console_error_response e, st)
            | (Ok res, st) \<Rightarrow> ((201, Json res), st))))"

text \<open>
  Requests of the SSH gateway are signed with the shared secret. \<open>mac\<close> is HMAC-SHA256 and
  \<open>decode\<close> is \<^verbatim>\<open>json.Unmarshal\<close>; \<open>sent\<close> is the body, of which at most 64 KiB are read.
\<close>

definition verifyInternalHMAC :: "(bytes \<Rightarrow> bytes \<Rightarrow> bytes) \<Rightarrow> bytes \<Rightarrow> bytes \<Rightarrow> bytes \<Rightarrow> bool" where
  "verifyInternalHMAC mac secret content gotHex = (if secret = [] then False
     else case hex_DecodeString gotHex of None \<Rightarrow> False | Some got \<Rightarrow> mac secret content = got)"

definition readSignedJSON :: "(bytes \<Rightarrow> bytes \<Rightarrow> bytes) \<Rightarrow> (bytes \<Rightarrow> 'q option) \<Rightarrow> bytes \<Rightarrow> bytes option
    \<Rightarrow> bytes \<Rightarrow> (access_err, unit) response + 'q" where
  "readSignedJSON mac decode secret sent sig =
     (case map_option (take 65536) sent of
        None \<Rightarrow> Err (400, ErrMsg ''failed to read request body'')
      | Some content \<Rightarrow> if \<not> verifyInternalHMAC mac secret content sig
          then Err (401, ErrMsg ''invalid signature'')
          else (case decode content of None \<Rightarrow> Err (400, ErrMsg ''Invalid request body'')
            | Some q \<Rightarrow> Ok q))"

definition h_AddEphemeralAuthorizedKey :: "(bytes \<Rightarrow> bytes \<Rightarrow> bytes)
    \<Rightarrow> (bytes \<Rightarrow> EphemeralAuthorizedKeyRequest option) \<Rightarrow> (bytes \<Rightarrow> bool) \<Rightarrow> bytes \<Rightarrow> int \<Rightarrow> int
    \<Rightarrow> bytes option \<Rightarrow> bytes \<Rightarrow> 'sig consoleSessionStore
    \<Rightarrow> (access_err, unit) response \<times> 'sig consoleSessionStore" where
  "h_AddEphemeralAuthorizedKey mac decode valid_key secret t1 t2 sent sig s =
     (case readSignedJSON mac decode secret sent sig of
        Err resp \<Rightarrow> (resp, s)
      | Ok req \<Rightarrow> (case AddEphemeralAuthorizedKey valid_key t1 t2 req s of
          (Ok _, s) \<Rightarrow> ((201, NoBody), s)
        | (Err e, s) \<Rightarrow> ((if e \<in> {ErrConsoleInstanceIDRequired, ErrPublicKeyRequired, ErrInvalidSSHKeyFormat}
            then (400, ErrText e) else (500, ErrMsg ''failed to register ephemeral key'')), s)))"

definition h_DeleteEphemeralAuthorizedKey :: "(bytes \<Rightarrow> bytes \<Rightarrow> bytes)
    \<Rightarrow> (bytes \<Rightarrow> EphemeralAuthorizedKeyRequest option) \<Rightarrow> bytes \<Rightarrow> bytes option \<Rightarrow> bytes
    \<Rightarrow> 'sig consoleSessionStore \<Rightarrow> (access_err, unit) response \<times> 'sig consoleSessionStore" where
  "h_DeleteEphemeralAuthorizedKey mac decode secret sent sig s =
     (case readSignedJSON mac decode secret sent sig of
        Err resp \<Rightarrow> (resp, s)
      | Ok req \<Rightarrow> ((204, NoBody), DeleteEphemeralAuthorizedKey req s))"

lemma readSignedJSON_Ok:
  "readSignedJSON mac decode secret sent sig = Ok q \<Longrightarrow>
   secret \<noteq> [] \<and> (\<exists>content. sent = Some content
     \<and> hex_DecodeString sig = Some (mac secret (take 65536 content)) \<and> decode (take 65536 content) = Some q)"
  by (auto simp: readSignedJSON_def verifyInternalHMAC_def split: option.splits if_splits)

text \<open>
  C7. The endpoints that add or remove ephemeral keys change the store only for a request whose
  signature is the MAC of its body under a non-empty secret, and the key they add is then granted
  for the store's lifetime and no other key's grant changes. (The clean-up of expired keys, which
  any operation does, apart.)
\<close>

theorem ephemeral_key_endpoint_signed:
  assumes "store_wf s"
    and "h_AddEphemeralAuthorizedKey mac decode valid_key secret t1 t2 sent sig s = (resp, s')"
  shows "(s' \<noteq> s \<longrightarrow> secret \<noteq> [] \<and> (\<exists>content req. sent = Some content
            \<and> hex_DecodeString sig = Some (mac secret (take 65536 content))
            \<and> decode (take 65536 content) = Some req \<and> resp = (201, NoBody)
            \<and> valid_key (TrimSpace (ek_AuthorizedKey req))))
     \<and> (resp = (201, NoBody) \<longrightarrow> (\<exists>i u key. key_expiry s' (i, u) key = Some (t2 + ttl s)
            \<and> i \<noteq> [] \<and> u \<noteq> [] \<and> valid_key key
            \<and> (\<forall>sc k. (sc, k) \<noteq> ((i, u), key) \<longrightarrow> key_expiry s' sc k = unexpired t1 (key_expiry s sc k))))"
proof (cases "readSignedJSON mac decode secret sent sig")
  case (Inl r)
  then have "fst r \<noteq> 201"
    by (auto simp: readSignedJSON_def split: option.splits if_splits)
  with Inl assms(2) show ?thesis by (auto simp: h_AddEphemeralAuthorizedKey_def)
next
  case (Inr req)
  note q = readSignedJSON_Ok [OF Inr]
  let ?i = "TrimSpace (ek_InstanceID req)" and ?k = "TrimSpace (ek_AuthorizedKey req)"
  let ?u = "if TrimSpace (ek_Username req) = [] then ''ubuntu'' else TrimSpace (ek_Username req)"
  show ?thesis
  proof (cases "?i = [] \<or> ?k = [] \<or> \<not> valid_key ?k")
    case True
    with Inr assms(2) show ?thesis
      by (auto simp: h_AddEphemeralAuthorizedKey_def AddEphemeralAuthorizedKey_def Let_def split: if_splits)
  next
    case False
    with Inr assms(2) have r: "resp = (201, NoBody)" "s' = AddAuthorizedKey t1 t2 ?i ?u ?k s"
      by (auto simp: h_AddEphemeralAuthorizedKey_def AddEphemeralAuthorizedKey_def Let_def)
    have "key_expiry s' sc k = (if sc = (?i, ?u) \<and> k = ?k then Some (t2 + ttl s)
        else unexpired t1 (key_expiry s sc k))" for sc k
      unfolding r by (simp add: AddAuthorizedKey_def Let_def add_key_expiry expire_key [OF assms(1)])
    moreover have "?u \<noteq> []" by simp
    ultimately have "\<exists>i u key. key_expiry s' (i, u) key = Some (t2 + ttl s) \<and> i \<noteq> [] \<and> u \<noteq> []
        \<and> valid_key key \<and> (\<forall>sc k. (sc, k) \<noteq> ((i, u), key) \<longrightarrow>
             key_expiry s' sc k = unexpired t1 (key_expiry s sc k))"
      using False by (intro exI [of _ ?i] exI [of _ ?u] exI [of _ ?k]) simp
    then show ?thesis using r(1) q False by blast
  qed
qed

definition example_request :: EphemeralAuthorizedKeyRequest where
  "example_request = \<lparr>ek_InstanceID = ''vm-1'', ek_Username = [], ek_AuthorizedKey = ''ssh-ed25519 A''\<rparr>"

definition example_add :: "(access_err, unit) response \<times> unit consoleSessionStore" where
  "example_add = h_AddEphemeralAuthorizedKey (\<lambda>k m. k @ m) (\<lambda>_. Some example_request) (\<lambda>_. True)
     ''s'' 10 10 (Some ''{'') ''737b'' (newConsoleSessionStore 120)"

theorem ephemeral_key_endpoint_signed_witness:
  "fst example_add = (201, NoBody)
   \<and> (\<exists>i u key. key_expiry (snd example_add) (i, u) key = Some 130 \<and> i \<noteq> [] \<and> u \<noteq> [])"
proof -
  have wf: "store_wf (newConsoleSessionStore 120 :: unit consoleSessionStore)"
    by (simp add: store_wf_def newConsoleSessionStore_def)
  have "TrimSpace ''vm-1'' = ''vm-1''" "TrimSpace ''ssh-ed25519 A'' = ''ssh-ed25519 A''"
    by (simp_all add: trim_eval)
  moreover have "hex_DecodeString ''737b'' = Some ''s{''"
    by (simp add: hex_val_def is_digit_def in_range_def byte_def char_of_def bit_0)
  ultimately have ok: "fst example_add = (201, NoBody)"
    by (simp add: example_add_def h_AddEphemeralAuthorizedKey_def readSignedJSON_def
        verifyInternalHMAC_def AddEphemeralAuthorizedKey_def example_request_def Let_def
        del: hex_DecodeString.simps)
  have eq: "h_AddEphemeralAuthorizedKey (\<lambda>k m. k @ m) (\<lambda>_. Some example_request) (\<lambda>_. True)
     ''s'' 10 10 (Some ''{'') ''737b'' (newConsoleSessionStore 120) = (fst example_add, snd example_add)"
    by (simp add: example_add_def)
  have "ttl (newConsoleSessionStore 120 :: unit consoleSessionStore) = 120"
    by (simp add: newConsoleSessionStore_def)
  with ephemeral_key_endpoint_signed [OF wf eq, THEN conjunct2, THEN mp, OF ok] ok show ?thesis
    by fastforce
qed

subsection \<open>Addresses of a server\<close>

text \<open>
  \<open>addresses\<close> are the decoded address lists of the networks, in the order the code's map iteration
  visits them.
\<close>

record serverAddress =
  sa_Address :: bytes
  sa_Type :: bytes

fun scan_addresses :: "serverAddress list \<Rightarrow> bytes \<times> bytes \<Rightarrow> bytes \<times> bytes" where
  "scan_addresses [] acc = acc"
| "scan_addresses (a # as) (fixedIP, floatingIP) =
     (let ip = TrimSpace (sa_Address a); ty = TrimSpace (sa_Type a) in
      if ip = [] then scan_addresses as (fixedIP, floatingIP)
      else if ty = ''fixed'' then scan_addresses as (if fixedIP = [] then ip else fixedIP, floatingIP)
      else if ty = ''floating''
      then scan_addresses as (fixedIP, if floatingIP = [] then ip else floatingIP)
      else scan_addresses as (fixedIP, floatingIP))"

definition extractServerIPs :: "serverAddress list list \<Rightarrow> bytes \<Rightarrow> bytes \<times> bytes" where
  "extractServerIPs addresses accessIPv4 = (case scan_addresses (concat addresses) ([], []) of
     (fixedIP, floatingIP) \<Rightarrow>
       (fixedIP, if floatingIP = [] then TrimSpace accessIPv4 else floatingIP))"

definition ips_of_type :: "bytes \<Rightarrow> serverAddress list \<Rightarrow> bytes list" where
  "ips_of_type ty as = filter (\<lambda>ip. ip \<noteq> [])
     (map (\<lambda>a. TrimSpace (sa_Address a)) (filter (\<lambda>a. TrimSpace (sa_Type a) = ty) as))"

lemma scan_addresses_first:
  "scan_addresses as (fx, fl) =
     ((if fx \<noteq> [] then fx else case ips_of_type ''fixed'' as of [] \<Rightarrow> [] | ip # _ \<Rightarrow> ip),
      (if fl \<noteq> [] then fl else case ips_of_type ''floating'' as of [] \<Rightarrow> [] | ip # _ \<Rightarrow> ip))"
  by (induction as arbitrary: fx fl) (auto simp: ips_of_type_def Let_def)

text \<open>The code takes the first usable address of each kind.\<close>

lemma extractServerIPs_first:
  "extractServerIPs addresses a4 =
     ((case ips_of_type ''fixed'' (concat addresses) of [] \<Rightarrow> [] | ip # _ \<Rightarrow> ip),
      (case ips_of_type ''floating'' (concat addresses) of [] \<Rightarrow> TrimSpace a4 | ip # _ \<Rightarrow> ip))"
proof -
  have "ips_of_type t as = ip # ips \<Longrightarrow> ip \<noteq> []" for t as ip ips
    unfolding ips_of_type_def by (metis (mono_tags, lifting) filter_eq_ConsD)
  then show ?thesis
    by (auto simp: extractServerIPs_def scan_addresses_first split: list.splits)
qed

text \<open>\<^verbatim>\<open>HandleSSHCallback\<close> validates the three values before it notifies the gateway.\<close>

datatype ssh_callback_err = ErrInvalidNonce | ErrInvalidSSHCode | ErrInvalidEmail | ErrNotify bytes

definition HandleSSHCallback :: "(bytes \<Rightarrow> bytes \<Rightarrow> bytes \<Rightarrow> 'w \<Rightarrow> bytes option \<times> 'w) \<Rightarrow> bytes \<Rightarrow> bytes
    \<Rightarrow> bytes \<Rightarrow> 'w \<Rightarrow> ssh_callback_err option \<times> 'w" where
  "HandleSSHCallback Notify nonce code userEmail w =
     (if nonce = [] then (Some ErrInvalidNonce, w)
      else if code = [] then (Some ErrInvalidSSHCode, w)
      else if userEmail = [] then (Some ErrInvalidEmail, w)
      else case Notify nonce code userEmail w of (r, w) \<Rightarrow> (map_option ErrNotify r, w))"

end
