(* ===== verification/Ssh_Sessions.thy ===== *)
theory Ssh_Sessions
  imports Rcp_Prelude Console_Store "HOL-Library.AList"
begin

text \<open>
  The pending logins of the SSH gateway: \<^verbatim>\<open>cmd/ssh-gateway/sessions.go\<close>, the callback that waits
  for one (\<^verbatim>\<open>auth.go\<close>) and the handler that resolves one (\<^verbatim>\<open>notify.go\<close>).

  A \<^verbatim>\<open>*pendingSession\<close> is an address into a heap, because the code compares pointers. Where the
  code releases the mutex before it sends on or closes a channel, the operation is split in two, and
  the step relation below interleaves the parts of all goroutines. Sending on or closing a closed
  channel is a panic.
\<close>

subsection \<open>State\<close>

record resolution_chan =
  ch_buf :: "bytes option"
  ch_closed :: bool

record pendingSession =
  ps_Nonce :: bytes
  ps_Code :: bytes
  ps_codeAttempts :: nat
  ps_resolved :: resolution_chan

record sessionStore =
  ss_m :: "(bytes \<times> nat) list"
  ss_heap :: "nat \<Rightarrow> pendingSession option"
  ss_next :: nat
  ss_maxPending :: int

datatype session_err = ErrNonceUnknown | ErrNonceExpired | ErrCodeMismatch | ErrTooManyPending | ErrRand

definition newSessionStore :: "int \<Rightarrow> sessionStore" where
  "newSessionStore maxPending = \<lparr>ss_m = [], ss_heap = (\<lambda>_. None), ss_next = 0,
     ss_maxPending = (if maxPending \<le> 0 then 1024 else maxPending)\<rparr>"

subsection \<open>Operations\<close>

text \<open>\<^verbatim>\<open>fmt.Sprintf("%06d", n)\<close> for \<open>n\<close> below a million, \<open>n\<close> being what \<^verbatim>\<open>rand.Int\<close> drew.\<close>

definition randomCode :: "nat \<Rightarrow> bytes" where
  "randomCode n = map (\<lambda>i. char_of (48 + n div 10 ^ i mod 10)) [5, 4, 3, 2, 1, 0]"

text \<open>\<open>rnd\<close>: the 32 random bytes of the nonce; \<open>draw\<close>: the number drawn for the code.\<close>

definition session_New :: "bytes option \<Rightarrow> nat option \<Rightarrow> sessionStore \<Rightarrow> (session_err + nat) \<times> sessionStore" where
  "session_New rnd draw s = (case rnd of None \<Rightarrow> (Err ErrRand, s)
   | Some buf \<Rightarrow> (case draw of None \<Rightarrow> (Err ErrRand, s)
     | Some n \<Rightarrow>
        if ss_maxPending s \<le> int (length (ss_m s)) then (Err ErrTooManyPending, s)
        else let nonce = RawURLEncoding buf; p = ss_next s in
          (Ok p, s\<lparr>ss_m := AList.update nonce p (ss_m s),
             ss_heap := (ss_heap s)(p \<mapsto> \<lparr>ps_Nonce = nonce, ps_Code = randomCode n,
               ps_codeAttempts = 0, ps_resolved = \<lparr>ch_buf = None, ch_closed = False\<rparr>\<rparr>),
             ss_next := Suc p\<rparr>)))"

text \<open>Channel operations; \<open>None\<close> is a panic. The send is the non-blocking one of the code.\<close>

definition chan_send :: "bytes \<Rightarrow> resolution_chan \<Rightarrow> resolution_chan option" where
  "chan_send e c = (if ch_closed c then None
     else if ch_buf c = None then Some (c\<lparr>ch_buf := Some e\<rparr>) else Some c)"

definition chan_close :: "resolution_chan \<Rightarrow> resolution_chan option" where
  "chan_close c = (if ch_closed c then None else Some (c\<lparr>ch_closed := True\<rparr>))"

text \<open>Apply a channel operation to the session at \<open>p\<close>.\<close>

definition on_chan :: "(resolution_chan \<Rightarrow> resolution_chan option) \<Rightarrow> nat \<Rightarrow> sessionStore \<Rightarrow> sessionStore option" where
  "on_chan f p s = (case ss_heap s p of None \<Rightarrow> None
     | Some ps \<Rightarrow> (case f (ps_resolved ps) of None \<Rightarrow> None
        | Some c \<Rightarrow> Some (s\<lparr>ss_heap := (ss_heap s)(p \<mapsto> ps\<lparr>ps_resolved := c\<rparr>)\<rparr>)))"

text \<open>\<open>expireAfter\<close>, once the timer has fired: what it does under the mutex, and whether it goes on to
  close the channel.\<close>

definition expire_locked :: "nat \<Rightarrow> sessionStore \<Rightarrow> bool \<times> sessionStore" where
  "expire_locked p s = (case ss_heap s p of None \<Rightarrow> (False, s)
     | Some ps \<Rightarrow> if map_of (ss_m s) (ps_Nonce ps) = Some p
         then (True, s\<lparr>ss_m := AList.delete (ps_Nonce ps) (ss_m s)\<rparr>) else (False, s))"

definition expireAfter :: "nat \<Rightarrow> sessionStore \<Rightarrow> sessionStore option" where
  "expireAfter p s = (case expire_locked p s of
     (True, s) \<Rightarrow> on_chan chan_close p s | (False, s) \<Rightarrow> Some s)"

text \<open>
  \<open>Resolve\<close> under the mutex: its result, the session to send to afterwards, and the store; the
  whole is \<open>None\<close> when closing the channel panics.
\<close>

definition resolve_locked :: "bytes \<Rightarrow> bytes \<Rightarrow> sessionStore
    \<Rightarrow> (session_err option \<times> nat option \<times> sessionStore) option" where
  "resolve_locked nonce code s = (case map_of (ss_m s) nonce of
     None \<Rightarrow> Some (Some ErrNonceUnknown, None, s)
   | Some p \<Rightarrow> (case ss_heap s p of None \<Rightarrow> None
     | Some ps \<Rightarrow>
        if ps_Code ps \<noteq> code then
          let ps = ps\<lparr>ps_codeAttempts := Suc (ps_codeAttempts ps)\<rparr>;
              s = s\<lparr>ss_heap := (ss_heap s)(p \<mapsto> ps)\<rparr> in
          if ps_codeAttempts ps \<ge> 5
          then map_option (\<lambda>s. (Some ErrCodeMismatch, None, s))
                 (on_chan chan_close p (s\<lparr>ss_m := AList.delete nonce (ss_m s)\<rparr>))
          else Some (Some ErrCodeMismatch, None, s)
        else Some (None, Some p, s\<lparr>ss_m := AList.delete nonce (ss_m s)\<rparr>)))"

definition Resolve :: "bytes \<Rightarrow> bytes \<Rightarrow> bytes \<Rightarrow> sessionStore \<Rightarrow> (session_err option \<times> sessionStore) option" where
  "Resolve nonce code email s = (case resolve_locked nonce code s of
     None \<Rightarrow> None
   | Some (r, None, s) \<Rightarrow> Some (r, s)
   | Some (r, Some p, s) \<Rightarrow> map_option (\<lambda>s. (r, s)) (on_chan (chan_send email) p s))"

text \<open>
  \<open>Wait\<close> as seen at one moment: \<open>None\<close> while it blocks. \<open>fired\<close> says that the select takes the
  timer's branch; a receive takes the buffered value if there is one, also from a closed channel.
\<close>

definition Wait :: "bool \<Rightarrow> pendingSession \<Rightarrow> (session_err + bytes) option" where
  "Wait fired ps = (if fired then Some (Err ErrNonceExpired)
     else case ch_buf (ps_resolved ps) of Some e \<Rightarrow> Some (Ok e)
       | None \<Rightarrow> if ch_closed (ps_resolved ps) then Some (Err ErrNonceExpired) else None)"

subsection \<open>All goroutines together\<close>

text \<open>
  The state of the gateway: the store; the \<open>Resolve\<close> calls that have left the mutex and will send;
  the expiry goroutines that will close a channel; those whose timer has not fired; every
  (nonce, code, email) posted to the notify endpoint so far; and whether a goroutine has panicked.
\<close>

record gateway =
  gw_store :: sessionStore
  gw_sends :: "(nat \<times> bytes) list"
  gw_closes :: "nat list"
  gw_timers :: "nat list"
  gw_posted :: "(bytes \<times> bytes \<times> bytes) list"
  gw_panicked :: bool

definition gw_init :: "int \<Rightarrow> gateway" where
  "gw_init maxPending = \<lparr>gw_store = newSessionStore maxPending, gw_sends = [], gw_closes = [],
     gw_timers = [], gw_posted = [], gw_panicked = False\<rparr>"

definition with_store :: "sessionStore option \<Rightarrow> gateway \<Rightarrow> gateway" where
  "with_store o' g = (case o' of None \<Rightarrow> g\<lparr>gw_panicked := True\<rparr> | Some s \<Rightarrow> g\<lparr>gw_store := s\<rparr>)"

inductive gw_step :: "gateway \<Rightarrow> gateway \<Rightarrow> bool" where
  step_new: "session_New rnd draw (gw_store g) = (Ok p, s) \<Longrightarrow>
     gw_step g (g\<lparr>gw_store := s, gw_timers := p # gw_timers g\<rparr>)"
| step_resolve: "resolve_locked nonce code (gw_store g) = Some (r, act, s) \<Longrightarrow>
     gw_step g (g\<lparr>gw_store := s, gw_posted := (nonce, code, email) # gw_posted g,
       gw_sends := (case act of None \<Rightarrow> gw_sends g | Some p \<Rightarrow> (p, email) # gw_sends g)\<rparr>)"
| step_resolve_panic: "resolve_locked nonce code (gw_store g) = None \<Longrightarrow>
     gw_step g (g\<lparr>gw_panicked := True\<rparr>)"
| step_send: "(p, email) \<in> set (gw_sends g) \<Longrightarrow>
     gw_step g (with_store (on_chan (chan_send email) p (gw_store g))
       (g\<lparr>gw_sends := remove1 (p, email) (gw_sends g)\<rparr>))"
| step_expire: "p \<in> set (gw_timers g) \<Longrightarrow> expire_locked p (gw_store g) = (closing, s) \<Longrightarrow>
     gw_step g (g\<lparr>gw_store := s, gw_timers := remove1 p (gw_timers g),
       gw_closes := (if closing then p # gw_closes g else gw_closes g)\<rparr>)"
| step_close: "p \<in> set (gw_closes g) \<Longrightarrow>
     gw_step g (with_store (on_chan chan_close p (gw_store g))
       (g\<lparr>gw_closes := remove1 p (gw_closes g)\<rparr>))"

inductive gw_reachable :: "int \<Rightarrow> gateway \<Rightarrow> bool" for maxPending where
  reach_init: "gw_reachable maxPending (gw_init maxPending)"
| reach_step: "gw_reachable maxPending g \<Longrightarrow> gw_step g g' \<Longrightarrow> gw_reachable maxPending g'"

subsection \<open>Invariant\<close>

text \<open>
  The parts of the invariant, over the heap \<open>h\<close>, the map \<open>m\<close> and the posted triples \<open>P\<close>: a session
  in the map has an untouched channel; a session that a goroutine is about to send to or close has
  left the map and is open; values on their way to a channel, and in one, were posted for it.
\<close>

definition fresh_session :: "bytes \<Rightarrow> pendingSession \<Rightarrow> bool" where
  "fresh_session n ps \<longleftrightarrow> ps_Nonce ps = n \<and> ps_codeAttempts ps < 5
     \<and> \<not> ch_closed (ps_resolved ps) \<and> ch_buf (ps_resolved ps) = None"

definition live_part :: "(nat \<rightharpoonup> pendingSession) \<Rightarrow> (bytes \<rightharpoonup> nat) \<Rightarrow> bool" where
  "live_part h m \<longleftrightarrow> (\<forall>n p. m n = Some p \<longrightarrow> (\<exists>ps. h p = Some ps \<and> fresh_session n ps))"

definition acts_part :: "(nat \<rightharpoonup> pendingSession) \<Rightarrow> (bytes \<rightharpoonup> nat) \<Rightarrow> nat set \<Rightarrow> bool" where
  "acts_part h m A \<longleftrightarrow> (\<forall>p\<in>A. p \<notin> ran m \<and> (\<exists>ps. h p = Some ps \<and> \<not> ch_closed (ps_resolved ps)))"

definition posted_for :: "(nat \<rightharpoonup> pendingSession) \<Rightarrow> (bytes \<times> bytes \<times> bytes) set \<Rightarrow> nat \<Rightarrow> bytes \<Rightarrow> bool" where
  "posted_for h P p e \<longleftrightarrow> (\<exists>ps. h p = Some ps \<and> (ps_Nonce ps, ps_Code ps, e) \<in> P)"

definition bufs_part :: "(nat \<rightharpoonup> pendingSession) \<Rightarrow> (bytes \<times> bytes \<times> bytes) set \<Rightarrow> bool" where
  "bufs_part h P \<longleftrightarrow> (\<forall>p ps e. h p = Some ps \<and> ch_buf (ps_resolved ps) = Some e \<longrightarrow> posted_for h P p e)"

definition gw_inv :: "gateway \<Rightarrow> bool" where
  "gw_inv g \<longleftrightarrow> (let s = gw_store g; h = ss_heap s; m = map_of (ss_m s); P = set (gw_posted g) in
     \<not> gw_panicked g \<and> distinct (map fst (ss_m s)) \<and> int (length (ss_m s)) \<le> ss_maxPending s
     \<and> live_part h m \<and> distinct (map fst (gw_sends g) @ gw_closes g)
     \<and> acts_part h m (fst ` set (gw_sends g) \<union> set (gw_closes g))
     \<and> (\<forall>(p, e) \<in> set (gw_sends g). posted_for h P p e)
     \<and> bufs_part h P \<and> (\<forall>p. h p \<noteq> None \<longrightarrow> p < ss_next s))"

lemmas part_defs = live_part_def acts_part_def posted_for_def bufs_part_def fresh_session_def

lemma gw_inv_init: "gw_inv (gw_init maxPending)"
  by (simp add: gw_inv_def gw_init_def newSessionStore_def part_defs)

lemma length_update: "length (AList.update k v al) \<le> Suc (length al)"
  by (induction al) auto

lemmas alist_facts = delete_conv' update_conv' distinct_update distinct_delete length_delete_le

text \<open>Frame lemmas: what a change of the heap at one address keeps.\<close>

text \<open>The session at \<open>p\<close> keeps its nonce and code.\<close>

definition same_id :: "(nat \<rightharpoonup> pendingSession) \<Rightarrow> nat \<Rightarrow> pendingSession \<Rightarrow> bool" where
  "same_id h p ps' \<longleftrightarrow> (\<forall>ps. h p = Some ps \<longrightarrow> ps_Nonce ps' = ps_Nonce ps \<and> ps_Code ps' = ps_Code ps)"

lemma posted_frame: "posted_for h P q e \<Longrightarrow> same_id h p ps' \<Longrightarrow> P \<subseteq> P' \<Longrightarrow> posted_for (h(p \<mapsto> ps')) P' q e"
  by (auto simp: posted_for_def same_id_def)

lemma posted_mono: "posted_for h P q e \<Longrightarrow> P \<subseteq> P' \<Longrightarrow> posted_for h P' q e"
  by (auto simp: posted_for_def)

lemma bufs_frame:
  "bufs_part h P \<Longrightarrow> same_id h p ps' \<Longrightarrow> P \<subseteq> P' \<Longrightarrow>
   (\<And>e. ch_buf (ps_resolved ps') = Some e \<Longrightarrow> (ps_Nonce ps', ps_Code ps', e) \<in> P') \<Longrightarrow>
   bufs_part (h(p \<mapsto> ps')) P'"
  by (auto simp: bufs_part_def posted_for_def)

lemma bufs_mono: "bufs_part h P \<Longrightarrow> P \<subseteq> P' \<Longrightarrow> bufs_part h P'"
  unfolding bufs_part_def using posted_mono by blast

lemma live_frame: "live_part h m \<Longrightarrow> p \<notin> ran m \<Longrightarrow> live_part (h(p \<mapsto> ps')) m"
  unfolding live_part_def by (metis fun_upd_apply ranI)

lemma live_remove: "live_part h m \<Longrightarrow> live_part h (m(n := None))"
  by (auto simp: live_part_def)

lemma acts_frame: "acts_part h m A \<Longrightarrow> p \<notin> A \<Longrightarrow> acts_part (h(p \<mapsto> ps')) m A"
  by (auto simp: acts_part_def)

lemma acts_remove: "acts_part h m A \<Longrightarrow> acts_part h (m(n := None)) A"
  by (fastforce simp: acts_part_def ran_def)

lemma acts_new:
  assumes "acts_part h m A" and "h p = None"
  shows "acts_part (h(p \<mapsto> ps)) (m(n \<mapsto> p)) A"
proof -
  have "ran (m(n \<mapsto> p)) \<subseteq> insert p (ran m)" by (auto simp: ran_def split: if_splits)
  with assms show ?thesis unfolding acts_part_def by (metis fun_upd_apply insertE option.distinct(1) subsetD)
qed

lemma acts_subset: "acts_part h m A \<Longrightarrow> B \<subseteq> A \<Longrightarrow> acts_part h m B"
  by (auto simp: acts_part_def)

text \<open>An address is in the map under its own nonce only.\<close>

lemma live_nonce: "live_part h m \<Longrightarrow> m n = Some p \<Longrightarrow> h p = Some ps \<Longrightarrow> ps_Nonce ps = n"
  by (fastforce simp: live_part_def fresh_session_def)

lemma live_update:
  assumes "live_part h m" and "h p = Some ps" and "fresh_session (ps_Nonce ps) ps'"
  shows "live_part (h(p \<mapsto> ps')) m"
  unfolding live_part_def
proof (intro allI impI)
  fix n q assume q: "m n = Some q"
  show "\<exists>x. (h(p \<mapsto> ps')) q = Some x \<and> fresh_session n x"
    using assms live_nonce [OF assms(1) q] q unfolding live_part_def by (cases "q = p") auto
qed

lemma live_not_ran_remove: "live_part h m \<Longrightarrow> m n = Some p \<Longrightarrow> p \<notin> ran (m(n := None))"
  by (auto simp: ran_def live_part_def fresh_session_def split: if_splits)
    (metis (no_types, lifting) option.inject)

lemma inv_new:
  assumes "gw_inv g" and "session_New rnd draw (gw_store g) = (Ok p, s)"
  shows "gw_inv (g\<lparr>gw_store := s, gw_timers := p # gw_timers g\<rparr>)"
proof -
  let ?h = "ss_heap (gw_store g)" and ?m = "map_of (ss_m (gw_store g))"
  obtain nonce c where s: "p = ss_next (gw_store g)"
    "int (length (ss_m (gw_store g))) < ss_maxPending (gw_store g)"
    "s = (gw_store g)\<lparr>ss_m := AList.update nonce p (ss_m (gw_store g)),
      ss_heap := ?h(p \<mapsto> \<lparr>ps_Nonce = nonce, ps_Code = c,
        ps_codeAttempts = 0, ps_resolved = \<lparr>ch_buf = None, ch_closed = False\<rparr>\<rparr>),
      ss_next := Suc p\<rparr>"
    using assms(2) by (auto simp: session_New_def Let_def split: option.splits if_splits)
  let ?ps = "\<lparr>ps_Nonce = nonce, ps_Code = c, ps_codeAttempts = 0,
    ps_resolved = \<lparr>ch_buf = None, ch_closed = False\<rparr>\<rparr>"
  have parts: "live_part ?h ?m" "acts_part ?h ?m (fst ` set (gw_sends g) \<union> set (gw_closes g))"
    "bufs_part ?h (set (gw_posted g))" "\<forall>(q, e)\<in>set (gw_sends g). posted_for ?h (set (gw_posted g)) q e"
    and alloc: "\<forall>q. ?h q \<noteq> None \<longrightarrow> q < p"
    using assms(1) s(1) by (simp_all add: gw_inv_def Let_def)
  from alloc have fresh: "?h p = None" by blast
  then have id: "same_id ?h p ?ps" by (simp add: same_id_def)
  have "live_part (?h(p \<mapsto> ?ps)) (?m(nonce \<mapsto> p))"
    using parts(1) fresh by (fastforce simp: live_part_def fresh_session_def)
  moreover have "acts_part (?h(p \<mapsto> ?ps)) (?m(nonce \<mapsto> p)) (fst ` set (gw_sends g) \<union> set (gw_closes g))"
    by (rule acts_new [OF parts(2) fresh])
  moreover have "bufs_part (?h(p \<mapsto> ?ps)) (set (gw_posted g))"
    using bufs_frame [OF parts(3) id] by simp
  moreover have "\<forall>(q, e)\<in>set (gw_sends g). posted_for (?h(p \<mapsto> ?ps)) (set (gw_posted g)) q e"
    using parts(4) posted_frame [OF _ id subset_refl] by blast
  moreover have "int (length (AList.update nonce p (ss_m (gw_store g)))) \<le> ss_maxPending (gw_store g)"
    using length_update [of nonce p "ss_m (gw_store g)"] s(2) by linarith
  ultimately show ?thesis using assms(1) s(3) alloc
    by (simp add: gw_inv_def Let_def alist_facts less_Suc_eq)
qed

lemma gw_invD:
  assumes "gw_inv g"
  shows "live_part (ss_heap (gw_store g)) (map_of (ss_m (gw_store g)))"
    and "acts_part (ss_heap (gw_store g)) (map_of (ss_m (gw_store g)))
           (fst ` set (gw_sends g) \<union> set (gw_closes g))"
    and "bufs_part (ss_heap (gw_store g)) (set (gw_posted g))"
    and "\<forall>(q, e)\<in>set (gw_sends g). posted_for (ss_heap (gw_store g)) (set (gw_posted g)) q e"
    and "\<forall>q. ss_heap (gw_store g) q \<noteq> None \<longrightarrow> q < ss_next (gw_store g)"
    and "distinct (map fst (gw_sends g) @ gw_closes g)"
  using assms unfolding gw_inv_def Let_def by blast+

text \<open>The outcomes of \<open>resolve_locked\<close> in a state that satisfies the invariant.\<close>

lemma resolve_locked_cases [consumes 1, case_names unknown wrong locked_out accepted]:
  assumes "live_part (ss_heap s) (map_of (ss_m s))"
  obtains (unknown) "map_of (ss_m s) nonce = None"
      "resolve_locked nonce code s = Some (Some ErrNonceUnknown, None, s)"
    | (wrong) p ps where "map_of (ss_m s) nonce = Some p" "ss_heap s p = Some ps"
      "fresh_session nonce ps" "ps_Code ps \<noteq> code" "Suc (ps_codeAttempts ps) < 5"
      "resolve_locked nonce code s = Some (Some ErrCodeMismatch, None,
         s\<lparr>ss_heap := (ss_heap s)(p \<mapsto> ps\<lparr>ps_codeAttempts := Suc (ps_codeAttempts ps)\<rparr>)\<rparr>)"
    | (locked_out) p ps where "map_of (ss_m s) nonce = Some p" "ss_heap s p = Some ps"
      "fresh_session nonce ps" "ps_Code ps \<noteq> code" "Suc (ps_codeAttempts ps) = 5"
      "resolve_locked nonce code s = Some (Some ErrCodeMismatch, None,
         s\<lparr>ss_m := AList.delete nonce (ss_m s), ss_heap := (ss_heap s)(p \<mapsto>
            ps\<lparr>ps_codeAttempts := 5, ps_resolved := (ps_resolved ps)\<lparr>ch_closed := True\<rparr>\<rparr>)\<rparr>)"
    | (accepted) p ps where "map_of (ss_m s) nonce = Some p" "ss_heap s p = Some ps"
      "fresh_session nonce ps" "ps_Code ps = code"
      "resolve_locked nonce code s = Some (None, Some p, s\<lparr>ss_m := AList.delete nonce (ss_m s)\<rparr>)"
proof (cases "map_of (ss_m s) nonce")
  case None
  then show ?thesis using unknown by (simp add: resolve_locked_def)
next
  case (Some p)
  with assms obtain ps where ps: "ss_heap s p = Some ps" "fresh_session nonce ps"
    by (auto simp: live_part_def)
  consider "ps_Code ps = code" | "ps_Code ps \<noteq> code" "Suc (ps_codeAttempts ps) < 5"
    | "ps_Code ps \<noteq> code" "Suc (ps_codeAttempts ps) = 5"
    using ps(2) by (fastforce simp: fresh_session_def)
  then show ?thesis
  proof cases
    case 1
    with Some ps show ?thesis by (intro accepted) (auto simp: resolve_locked_def)
  next
    case 2
    with Some ps show ?thesis by (intro wrong) (auto simp: resolve_locked_def Let_def)
  next
    case 3
    with Some ps show ?thesis
      by (intro locked_out) (auto simp: resolve_locked_def Let_def on_chan_def chan_close_def fresh_session_def)
  qed
qed

lemma acts_not_live: "acts_part h m A \<Longrightarrow> m n = Some p \<Longrightarrow> p \<notin> A"
  by (auto simp: acts_part_def ran_def)

lemma inv_resolve:
  assumes inv: "gw_inv g" and "resolve_locked nonce code (gw_store g) = Some (r, act, s)"
  shows "gw_inv (g\<lparr>gw_store := s, gw_posted := (nonce, code, email) # gw_posted g,
     gw_sends := (case act of None \<Rightarrow> gw_sends g | Some p \<Rightarrow> (p, email) # gw_sends g)\<rparr>)"
proof -
  let ?h = "ss_heap (gw_store g)" and ?m = "map_of (ss_m (gw_store g))"
  let ?P = "insert (nonce, code, email) (set (gw_posted g))"
  note d = gw_invD [OF inv]
  have sub: "set (gw_posted g) \<subseteq> ?P" by blast
  have sends: "\<forall>(q, e)\<in>set (gw_sends g). posted_for ?h ?P q e" using d(4) posted_mono [OF _ sub] by blast
  from d(1) show ?thesis
  proof (cases rule: resolve_locked_cases [where nonce = nonce and code = code])
    case unknown
    with assms sends bufs_mono [OF d(3) sub] show ?thesis by (auto simp: gw_inv_def Let_def)
  next
    case (wrong p ps)
    let ?ps = "ps\<lparr>ps_codeAttempts := Suc (ps_codeAttempts ps)\<rparr>"
    have id: "same_id ?h p ?ps" using wrong by (simp add: same_id_def)
    have "live_part (?h(p \<mapsto> ?ps)) ?m"
      using live_update [OF d(1) wrong(2)] wrong by (simp add: fresh_session_def)
    moreover have "bufs_part (?h(p \<mapsto> ?ps)) ?P"
      using bufs_frame [OF d(3) id sub] wrong(3) by (simp add: fresh_session_def)
    moreover have "\<forall>(q, e)\<in>set (gw_sends g). posted_for (?h(p \<mapsto> ?ps)) ?P q e"
      using d(4) posted_frame [OF _ id sub] by blast
    ultimately show ?thesis
      using wrong inv assms(2) acts_frame [OF d(2) acts_not_live [OF d(2) wrong(1)]]
      by (auto simp: gw_inv_def Let_def)
  next
    case (locked_out p ps)
    let ?ps = "ps\<lparr>ps_codeAttempts := 5, ps_resolved := (ps_resolved ps)\<lparr>ch_closed := True\<rparr>\<rparr>"
    have id: "same_id ?h p ?ps" using locked_out by (simp add: same_id_def)
    have "live_part (?h(p \<mapsto> ?ps)) (?m(nonce := None))"
      by (rule live_frame [OF live_remove [OF d(1)] live_not_ran_remove [OF d(1) locked_out(1)]])
    moreover have "bufs_part (?h(p \<mapsto> ?ps)) ?P"
      using bufs_frame [OF d(3) id sub] locked_out(3) by (simp add: fresh_session_def)
    moreover have "\<forall>(q, e)\<in>set (gw_sends g). posted_for (?h(p \<mapsto> ?ps)) ?P q e"
      using d(4) posted_frame [OF _ id sub] by blast
    moreover have "int (length (AList.delete nonce (ss_m (gw_store g)))) \<le> ss_maxPending (gw_store g)"
      using inv length_delete_le [of nonce "ss_m (gw_store g)"] unfolding gw_inv_def Let_def by linarith
    ultimately show ?thesis
      using locked_out inv assms(2) acts_remove [OF acts_frame [OF d(2) acts_not_live [OF d(2) locked_out(1)]]]
      by (auto simp: gw_inv_def Let_def alist_facts)
  next
    case (accepted p ps)
    have out: "p \<notin> fst ` set (gw_sends g) \<union> set (gw_closes g)"
      by (rule acts_not_live [OF d(2) accepted(1)])
    have "acts_part ?h (?m(nonce := None)) (insert p (fst ` set (gw_sends g) \<union> set (gw_closes g)))"
      using acts_remove [OF d(2)] live_not_ran_remove [OF d(1) accepted(1)] accepted(2,3)
      by (auto simp: acts_part_def fresh_session_def)
    moreover have "posted_for ?h ?P p email"
      using accepted by (auto simp: posted_for_def fresh_session_def)
    moreover have "int (length (AList.delete nonce (ss_m (gw_store g)))) \<le> ss_maxPending (gw_store g)"
      using inv length_delete_le [of nonce "ss_m (gw_store g)"] unfolding gw_inv_def Let_def by linarith
    ultimately show ?thesis
      using accepted inv assms(2) sends bufs_mono [OF d(3) sub] live_remove [OF d(1)] out
      by (auto simp: gw_inv_def Let_def alist_facts)
  qed
qed

lemma resolve_no_panic: "gw_inv g \<Longrightarrow> resolve_locked nonce code (gw_store g) \<noteq> None"
  by (rule resolve_locked_cases [OF gw_invD(1), of g nonce code]) auto

lemma inv_expire:
  assumes inv: "gw_inv g" and "expire_locked p (gw_store g) = (closing, s)"
  shows "gw_inv (g\<lparr>gw_store := s, gw_timers := T,
     gw_closes := (if closing then p # gw_closes g else gw_closes g)\<rparr>)"
proof (cases closing)
  case False
  with assms(2) have "s = gw_store g"
    by (auto simp: expire_locked_def split: option.splits if_splits)
  with inv False show ?thesis by (simp add: gw_inv_def)
next
  case True
  let ?h = "ss_heap (gw_store g)" and ?m = "map_of (ss_m (gw_store g))"
  note d = gw_invD [OF inv]
  from True assms(2) obtain ps where ps: "?h p = Some ps" "?m (ps_Nonce ps) = Some p"
    "s = (gw_store g)\<lparr>ss_m := AList.delete (ps_Nonce ps) (ss_m (gw_store g))\<rparr>"
    by (auto simp: expire_locked_def split: option.splits if_splits)
  have out: "p \<notin> fst ` set (gw_sends g) \<union> set (gw_closes g)" by (rule acts_not_live [OF d(2) ps(2)])
  have "\<not> ch_closed (ps_resolved ps)"
    using d(1) ps(1,2) by (fastforce simp: live_part_def fresh_session_def)
  then have "acts_part ?h (?m(ps_Nonce ps := None)) (insert p (fst ` set (gw_sends g) \<union> set (gw_closes g)))"
    using acts_remove [OF d(2)] live_not_ran_remove [OF d(1) ps(2)] ps(1) by (auto simp: acts_part_def)
  moreover have "int (length (AList.delete (ps_Nonce ps) (ss_m (gw_store g)))) \<le> ss_maxPending (gw_store g)"
    using inv length_delete_le [of "ps_Nonce ps" "ss_m (gw_store g)"] unfolding gw_inv_def Let_def by linarith
  ultimately show ?thesis
    using inv True ps(3) out live_remove [OF d(1)] by (auto simp: gw_inv_def Let_def alist_facts)
qed

text \<open>A goroutine that was about to act on the channel at \<open>p\<close> does so: the channel is open.\<close>

lemma inv_act:
  assumes inv: "gw_inv g" and p: "p \<in> fst ` set (gw_sends g) \<union> set (gw_closes g)"
    and f: "\<And>c. \<not> ch_closed c \<Longrightarrow> \<exists>c'. f c = Some c'
      \<and> (\<forall>e. ch_buf c' = Some e \<longrightarrow> ch_buf c = Some e \<or> (p, e) \<in> set (gw_sends g))"
    and keep: "set S \<subseteq> set (gw_sends g)" "set C \<subseteq> set (gw_closes g)"
      "p \<notin> fst ` set S \<union> set C" "distinct (map fst S @ C)"
  shows "gw_inv (with_store (on_chan f p (gw_store g)) (g\<lparr>gw_sends := S, gw_closes := C\<rparr>))"
proof -
  let ?h = "ss_heap (gw_store g)" and ?m = "map_of (ss_m (gw_store g))"
  note d = gw_invD [OF inv]
  from p d(2) obtain ps where ps: "?h p = Some ps" "\<not> ch_closed (ps_resolved ps)" "p \<notin> ran ?m"
    by (auto simp: acts_part_def)
  from f [OF ps(2)] obtain c' where c: "f (ps_resolved ps) = Some c'"
    "\<forall>e. ch_buf c' = Some e \<longrightarrow> ch_buf (ps_resolved ps) = Some e \<or> (p, e) \<in> set (gw_sends g)" by blast
  let ?ps = "ps\<lparr>ps_resolved := c'\<rparr>"
  have id: "same_id ?h p ?ps" using ps by (simp add: same_id_def)
  have "(ps_Nonce ps, ps_Code ps, e) \<in> set (gw_posted g)" if "ch_buf c' = Some e" for e
    using c(2) that d(3,4) ps(1) unfolding bufs_part_def posted_for_def by fastforce
  then have "bufs_part (?h(p \<mapsto> ?ps)) (set (gw_posted g))"
    using bufs_frame [OF d(3) id] by simp
  moreover have "acts_part (?h(p \<mapsto> ?ps)) ?m (fst ` set S \<union> set C)"
    using acts_subset [OF d(2)] keep acts_frame by (metis Un_mono image_mono)
  moreover have "\<forall>(q, e)\<in>set S. posted_for (?h(p \<mapsto> ?ps)) (set (gw_posted g)) q e"
    using d(4) keep(1) posted_frame [OF _ id subset_refl] by blast
  ultimately show ?thesis
    using inv ps c(1) keep(4) live_frame [OF d(1) ps(3)] d(5)
    by (simp add: gw_inv_def Let_def with_store_def on_chan_def)
qed

lemma distinct_fst_remove1:
  "distinct (map fst S) \<Longrightarrow> (p, e) \<in> set S \<Longrightarrow> p \<notin> fst ` set (remove1 (p, e) S) \<and> distinct (map fst (remove1 (p, e) S))"
  by (induction S) (auto dest: set_remove1_subset [THEN subsetD] simp: rev_image_eqI)

lemma inv_send:
  assumes inv: "gw_inv g" and "(p, email) \<in> set (gw_sends g)"
  shows "gw_inv (with_store (on_chan (chan_send email) p (gw_store g))
     (g\<lparr>gw_sends := remove1 (p, email) (gw_sends g)\<rparr>))"
proof -
  let ?S = "remove1 (p, email) (gw_sends g)"
  have d: "distinct (map fst (gw_sends g))" "distinct (gw_closes g)"
    "fst ` set (gw_sends g) \<inter> set (gw_closes g) = {}" using gw_invD(6) [OF inv] by auto
  have S: "set ?S \<subseteq> set (gw_sends g)" "p \<notin> fst ` set ?S" "distinct (map fst ?S)"
    using distinct_fst_remove1 [OF d(1) assms(2)] set_remove1_subset by fastforce+
  have pin: "p \<in> fst ` set (gw_sends g)" using assms(2) by force
  then have "p \<notin> fst ` set ?S \<union> set (gw_closes g)" using S(2) d(3) by blast
  moreover have "fst ` set ?S \<inter> set (gw_closes g) = {}" using S(1) d(3) by blast
  then have "distinct (map fst ?S @ gw_closes g)" using S(3) d(2) by simp
  moreover have "\<And>c. \<not> ch_closed c \<Longrightarrow> \<exists>c'. chan_send email c = Some c'
      \<and> (\<forall>e. ch_buf c' = Some e \<longrightarrow> ch_buf c = Some e \<or> (p, e) \<in> set (gw_sends g))"
    using assms(2) by (auto simp: chan_send_def)
  moreover have "p \<in> fst ` set (gw_sends g) \<union> set (gw_closes g)" using pin by blast
  ultimately show ?thesis using inv_act [OF inv, of p "chan_send email" ?S "gw_closes g"] S(1) by simp
qed

lemma inv_close:
  assumes inv: "gw_inv g" and "p \<in> set (gw_closes g)"
  shows "gw_inv (with_store (on_chan chan_close p (gw_store g))
     (g\<lparr>gw_closes := remove1 p (gw_closes g)\<rparr>))"
proof -
  have "distinct (map fst (gw_sends g) @ gw_closes g)" using gw_invD(6) [OF inv] .
  then have "p \<notin> fst ` set (gw_sends g) \<union> set (remove1 p (gw_closes g))"
    "distinct (map fst (gw_sends g) @ remove1 p (gw_closes g))"
    "set (remove1 p (gw_closes g)) \<subseteq> set (gw_closes g)"
    using assms(2) by auto
  moreover have "\<And>c. \<not> ch_closed c \<Longrightarrow> \<exists>c'. chan_close c = Some c'
      \<and> (\<forall>e. ch_buf c' = Some e \<longrightarrow> ch_buf c = Some e \<or> (p, e) \<in> set (gw_sends g))"
    by (auto simp: chan_close_def)
  ultimately show ?thesis
    using inv_act [OF inv, of p chan_close "gw_sends g" "remove1 p (gw_closes g)"] assms(2) by simp
qed

lemma gw_inv_step:
  assumes "gw_step g g'" and inv: "gw_inv g"
  shows "gw_inv g'"
  using assms(1)
proof cases
  case step_new
  then show ?thesis using inv_new [OF inv] by simp
next
  case step_resolve
  then show ?thesis using inv_resolve [OF inv] by simp
next
  case step_resolve_panic
  then show ?thesis using resolve_no_panic [OF inv] by simp
next
  case step_send
  then show ?thesis using inv_send [OF inv] by simp
next
  case step_expire
  then show ?thesis using inv_expire [OF inv] by simp
next
  case step_close
  then show ?thesis using inv_close [OF inv] by simp
qed

lemma gw_inv_reachable: "gw_reachable maxPending g \<Longrightarrow> gw_inv g"
  by (induction rule: gw_reachable.induct) (auto intro: gw_inv_init gw_inv_step)

lemma maxPending_step: "gw_step g g' \<Longrightarrow> ss_maxPending (gw_store g') = ss_maxPending (gw_store g)"
  by (induction rule: gw_step.induct)
    (auto simp: session_New_def resolve_locked_def expire_locked_def on_chan_def with_store_def Let_def
      split: option.splits if_splits)

lemma maxPending_reachable:
  "gw_reachable maxPending g \<Longrightarrow> ss_maxPending (gw_store g) = (if maxPending \<le> 0 then 1024 else maxPending)"
  by (induction rule: gw_reachable.induct)
    (auto simp: gw_init_def newSessionStore_def dest: maxPending_step)

text \<open>
  C8. However the goroutines of the gateway interleave, none of them sends on or closes a closed
  channel; no more than the configured number of sessions is pending; and a waiting login receives
  an email only if the notify endpoint was given that email with this session's nonce and code.
\<close>

theorem gateway_logins_safe:
  assumes "gw_reachable maxPending g"
  shows "\<not> gw_panicked g
    \<and> int (length (ss_m (gw_store g))) \<le> (if maxPending \<le> 0 then 1024 else maxPending)
    \<and> (\<forall>p ps fired email. ss_heap (gw_store g) p = Some ps \<and> Wait fired ps = Some (Ok email)
         \<longrightarrow> (ps_Nonce ps, ps_Code ps, email) \<in> set (gw_posted g))"
proof -
  have inv: "gw_inv g" using assms by (rule gw_inv_reachable)
  have "ch_buf (ps_resolved ps) = Some email" if "Wait fired ps = Some (Ok email)" for fired ps email
    using that by (auto simp: Wait_def split: if_splits option.splits)
  with gw_invD(3) [OF inv] have "ss_heap (gw_store g) p = Some ps \<Longrightarrow> Wait fired ps = Some (Ok email)
      \<Longrightarrow> (ps_Nonce ps, ps_Code ps, email) \<in> set (gw_posted g)" for p ps fired email
    unfolding bufs_part_def posted_for_def by fastforce
  with inv maxPending_reachable [OF assms] show ?thesis unfolding gw_inv_def Let_def by auto
qed

theorem gateway_logins_safe_witness:
  "\<exists>g. gw_reachable 4 g \<and> gw_timers g = [0] \<and> \<not> gw_panicked g"
proof -
  let ?s = "snd (session_New (Some ''AB'') (Some 123456) (newSessionStore 4))"
  have "gw_step (gw_init 4) ((gw_init 4)\<lparr>gw_store := ?s, gw_timers := [0]\<rparr>)"
    using step_new [of "Some ''AB''" "Some 123456" "gw_init 4" 0 ?s]
    by (simp add: gw_init_def session_New_def newSessionStore_def Let_def)
  then have r: "gw_reachable 4 ((gw_init 4)\<lparr>gw_store := ?s, gw_timers := [0]\<rparr>)"
    using reach_init reach_step by blast
  with gateway_logins_safe [OF r] show ?thesis by (intro exI conjI) auto
qed

subsection \<open>Guessing the code\<close>

text \<open>A sequence of calls of \<open>Resolve\<close> with one nonce, and their results.\<close>

fun resolve_all :: "bytes \<Rightarrow> (bytes \<times> bytes) list \<Rightarrow> sessionStore
    \<Rightarrow> (session_err option list \<times> sessionStore) option" where
  "resolve_all nonce [] s = Some ([], s)"
| "resolve_all nonce ((code, email) # xs) s = (case Resolve nonce code email s of
     None \<Rightarrow> None | Some (r, s) \<Rightarrow> (case resolve_all nonce xs s of
       None \<Rightarrow> None | Some (rs, s) \<Rightarrow> Some (r # rs, s)))"

lemma live_part_single: "live_part h [n \<mapsto> p] \<longleftrightarrow> (\<exists>ps. h p = Some ps \<and> fresh_session n ps)"
  by (auto simp: live_part_def)

lemma Resolve_wrong:
  assumes "map_of (ss_m s) nonce = Some p" "ss_heap s p = Some ps" "fresh_session nonce ps"
    "ps_Code ps \<noteq> code" "Suc (ps_codeAttempts ps) < 5"
  shows "Resolve nonce code email s = Some (Some ErrCodeMismatch,
     s\<lparr>ss_heap := (ss_heap s)(p \<mapsto> ps\<lparr>ps_codeAttempts := Suc (ps_codeAttempts ps)\<rparr>)\<rparr>)"
  using assms by (simp add: Resolve_def resolve_locked_def Let_def)

lemma Resolve_locked_out:
  assumes "map_of (ss_m s) nonce = Some p" "ss_heap s p = Some ps" "fresh_session nonce ps"
    "ps_Code ps \<noteq> code" "Suc (ps_codeAttempts ps) = 5"
  shows "Resolve nonce code email s = Some (Some ErrCodeMismatch,
     s\<lparr>ss_m := AList.delete nonce (ss_m s), ss_heap := (ss_heap s)(p \<mapsto>
        ps\<lparr>ps_codeAttempts := 5, ps_resolved := (ps_resolved ps)\<lparr>ch_closed := True\<rparr>\<rparr>)\<rparr>)"
  using assms by (simp add: Resolve_def resolve_locked_def Let_def on_chan_def chan_close_def fresh_session_def)

lemma resolve_all_wrong:
  assumes "map_of (ss_m s) nonce = Some p" "ss_heap s p = Some ps" "fresh_session nonce ps"
    "\<forall>(k, e) \<in> set xs. k \<noteq> ps_Code ps" "xs \<noteq> []" "ps_codeAttempts ps + length xs = 5"
  shows "\<exists>s' ps'. resolve_all nonce xs s = Some (replicate (length xs) (Some ErrCodeMismatch), s')
     \<and> map_of (ss_m s') nonce = None \<and> ss_heap s' p = Some ps'
     \<and> Wait False ps' = Some (Err ErrNonceExpired)"
  using assms
proof (induction xs arbitrary: s ps)
  case (Cons x xs)
  obtain k e where x: "x = (k, e)" by force
  then have k: "ps_Code ps \<noteq> k" using Cons.prems(4) by auto
  show ?case
  proof (cases "xs = []")
    case True
    then have "Suc (ps_codeAttempts ps) = 5" using Cons.prems(6) by simp
    from Resolve_locked_out [OF Cons.prems(1-3) k this, of e] True x Cons.prems(3) show ?thesis
      by (simp add: alist_facts Wait_def fresh_session_def)
  next
    case False
    let ?ps = "ps\<lparr>ps_codeAttempts := Suc (ps_codeAttempts ps)\<rparr>"
    let ?s = "s\<lparr>ss_heap := (ss_heap s)(p \<mapsto> ?ps)\<rparr>"
    have lt: "Suc (ps_codeAttempts ps) < 5" using Cons.prems(6) False by (cases xs) auto
    have "\<exists>s' ps'. resolve_all nonce xs ?s = Some (replicate (length xs) (Some ErrCodeMismatch), s')
       \<and> map_of (ss_m s') nonce = None \<and> ss_heap s' p = Some ps'
       \<and> Wait False ps' = Some (Err ErrNonceExpired)"
      by (rule Cons.IH [where ps = ?ps])
        (use Cons.prems lt False in \<open>auto simp: fresh_session_def\<close>)
    then show ?thesis
      using Resolve_wrong [OF Cons.prems(1-3) k lt, of e] x by auto
  qed
qed simp

text \<open>
  A login survives at most four wrong codes: after a session is created, five calls of \<open>Resolve\<close>
  with wrong codes are all refused, and from then on the nonce is unknown, even with the right code,
  and the waiting login fails.
\<close>

theorem five_wrong_codes_end_login:
  assumes "session_New rnd draw s = (Ok p, s1)" and "ss_heap s1 p = Some ps"
    and "length xs = 5" and "\<forall>(k, e) \<in> set xs. k \<noteq> ps_Code ps"
  shows "\<exists>s2 ps2. resolve_all (ps_Nonce ps) xs s1 = Some (replicate 5 (Some ErrCodeMismatch), s2)
     \<and> (\<forall>code email. Resolve (ps_Nonce ps) code email s2 = Some (Some ErrNonceUnknown, s2))
     \<and> ss_heap s2 p = Some ps2 \<and> Wait False ps2 = Some (Err ErrNonceExpired)"
proof -
  have new: "map_of (ss_m s1) (ps_Nonce ps) = Some p" "fresh_session (ps_Nonce ps) ps"
    "ps_codeAttempts ps = 0"
    using assms(1,2) by (auto simp: session_New_def Let_def alist_facts fresh_session_def
        split: option.splits if_splits)
  have "xs \<noteq> []" "ps_codeAttempts ps + length xs = 5" using assms(3) new(3) by auto
  from resolve_all_wrong [OF new(1) assms(2) new(2) assms(4) this] assms(3) show ?thesis
    by (auto simp: Resolve_def resolve_locked_def)
qed

theorem five_wrong_codes_end_login_witness:
  "\<exists>s2 ps2. resolve_all ''QUI'' (replicate 5 (''000000'', ''a@x''))
      (snd (session_New (Some ''AB'') (Some 123456) (newSessionStore 4)))
      = Some (replicate 5 (Some ErrCodeMismatch), s2)
     \<and> (\<forall>code email. Resolve ''QUI'' code email s2 = Some (Some ErrNonceUnknown, s2))
     \<and> ss_heap s2 0 = Some ps2 \<and> Wait False ps2 = Some (Err ErrNonceExpired)"
proof -
  let ?s1 = "snd (session_New (Some ''AB'') (Some 123456) (newSessionStore 4))"
  let ?ps = "\<lparr>ps_Nonce = ''QUI'', ps_Code = randomCode 123456, ps_codeAttempts = 0,
    ps_resolved = \<lparr>ch_buf = None, ch_closed = False\<rparr>\<rparr>"
  have enc: "RawURLEncoding ''AB'' = ''QUI''" by (simp add: b64_char_def byte_def)
  have "session_New (Some ''AB'') (Some 123456) (newSessionStore 4) = (Ok 0, ?s1)"
    and "ss_heap ?s1 0 = Some ?ps"
    by (simp_all add: session_New_def newSessionStore_def Let_def enc del: RawURLEncoding.simps)
  moreover have "length (replicate 5 (''000000'', ''a@x'')) = 5" by simp
  moreover have "\<forall>(k, e) \<in> set (replicate 5 (''000000'', ''a@x'')). k \<noteq> ps_Code ?ps"
    by (simp add: randomCode_def char_of_def bit_0)
  ultimately show ?thesis
    using five_wrong_codes_end_login [of "Some ''AB''" "Some 123456" "newSessionStore 4" 0 ?s1 ?ps
        "replicate 5 (''000000'', ''a@x'')"] by simp
qed

subsection \<open>The notify endpoint\<close>

record NotifyRequest =
  nr_Nonce :: bytes
  nr_Code :: bytes
  nr_UserEmail :: bytes

definition verifyHMAC :: "(bytes \<Rightarrow> bytes \<Rightarrow> bytes) \<Rightarrow> bytes \<Rightarrow> bytes \<Rightarrow> bytes \<Rightarrow> bool" where
  "verifyHMAC mac secret content gotHex = (case hex_DecodeString gotHex of
     None \<Rightarrow> False | Some want \<Rightarrow> mac secret content = want)"

text \<open>
  \<^verbatim>\<open>ServeHTTP\<close>: the status it answers with, and the store. \<open>mac\<close> is HMAC-SHA256, \<open>decode\<close>
  \<^verbatim>\<open>json.Unmarshal\<close>; \<open>sent\<close> is the request body, \<open>None\<close> if reading it fails.
\<close>

definition notify_ServeHTTP :: "(bytes \<Rightarrow> bytes \<Rightarrow> bytes) \<Rightarrow> (bytes \<Rightarrow> NotifyRequest option) \<Rightarrow> bytes
    \<Rightarrow> bytes \<Rightarrow> bytes \<Rightarrow> bytes option \<Rightarrow> bytes \<Rightarrow> sessionStore \<Rightarrow> (nat \<times> sessionStore) option" where
  "notify_ServeHTTP mac decode secret path meth sent sig s =
     (if path \<noteq> ''/notify'' then Some (404, s)
      else if meth \<noteq> ''POST'' then Some (405, s)
      else case map_option (take 65536) sent of None \<Rightarrow> Some (400, s)
      | Some content \<Rightarrow>
         if \<not> verifyHMAC mac secret content sig then Some (401, s)
         else (case decode content of None \<Rightarrow> Some (400, s)
           | Some b \<Rightarrow> if nr_Nonce b = [] \<or> nr_Code b = [] \<or> nr_UserEmail b = [] then Some (400, s)
               else (case Resolve (nr_Nonce b) (nr_Code b) (nr_UserEmail b) s of
                 None \<Rightarrow> None
               | Some (None, s) \<Rightarrow> Some (200, s)
               | Some (Some e, s) \<Rightarrow> Some (if e = ErrNonceUnknown then 410
                   else if e = ErrCodeMismatch then 401 else 500, s))))"

text \<open>
  The notify endpoint answers 200 exactly when a signed, complete request names a pending
  session and its code; that session then leaves the store and its waiter receives the email of the
  request. Any request that is not properly signed leaves the store as it was.
\<close>

theorem notify_resolves_signed:
  assumes "live_part (ss_heap s) (map_of (ss_m s))"
    and "notify_ServeHTTP mac decode secret path meth sent sig s = Some (status, s')"
  shows "(status = 200 \<longleftrightarrow> path = ''/notify'' \<and> meth = ''POST'' \<and> (\<exists>content b p ps. sent = Some content
            \<and> hex_DecodeString sig = Some (mac secret (take 65536 content))
            \<and> decode (take 65536 content) = Some b
            \<and> nr_Nonce b \<noteq> [] \<and> nr_Code b \<noteq> [] \<and> nr_UserEmail b \<noteq> []
            \<and> map_of (ss_m s) (nr_Nonce b) = Some p \<and> ss_heap s p = Some ps \<and> ps_Code ps = nr_Code b
            \<and> map_of (ss_m s') (nr_Nonce b) = None
            \<and> map_option (Wait False) (ss_heap s' p) = Some (Some (Ok (nr_UserEmail b)))))
     \<and> ((\<forall>content. sent = Some content \<longrightarrow> hex_DecodeString sig \<noteq> Some (mac secret (take 65536 content)))
          \<longrightarrow> s' = s)"
proof (cases "path = ''/notify'' \<and> meth = ''POST'' \<and> (\<exists>content b. sent = Some content
     \<and> hex_DecodeString sig = Some (mac secret (take 65536 content)) \<and> decode (take 65536 content) = Some b
     \<and> nr_Nonce b \<noteq> [] \<and> nr_Code b \<noteq> [] \<and> nr_UserEmail b \<noteq> [])")
  case False
  with assms(2) have "status \<noteq> 200 \<and> s' = s"
    by (auto simp: notify_ServeHTTP_def verifyHMAC_def split: if_splits option.splits)
  with False show ?thesis by auto
next
  case True
  then obtain content b where b: "sent = Some content"
    "hex_DecodeString sig = Some (mac secret (take 65536 content))" "decode (take 65536 content) = Some b"
    "nr_Nonce b \<noteq> []" "nr_Code b \<noteq> []" "nr_UserEmail b \<noteq> []" by blast
  with True assms(2) have r: "(case Resolve (nr_Nonce b) (nr_Code b) (nr_UserEmail b) s of
      None \<Rightarrow> None | Some (None, s) \<Rightarrow> Some (200, s)
    | Some (Some e, s) \<Rightarrow> Some (if e = ErrNonceUnknown then 410
        else if e = ErrCodeMismatch then 401 else 500, s)) = Some (status, s')"
    by (simp add: notify_ServeHTTP_def verifyHMAC_def)
  from assms(1) show ?thesis
  proof (cases rule: resolve_locked_cases [where nonce = "nr_Nonce b" and code = "nr_Code b"])
    case (accepted p ps)
    then have "status = 200" "s' = s\<lparr>ss_m := AList.delete (nr_Nonce b) (ss_m s), ss_heap := (ss_heap s)(p \<mapsto>
        ps\<lparr>ps_resolved := (ps_resolved ps)\<lparr>ch_buf := Some (nr_UserEmail b)\<rparr>\<rparr>)\<rparr>"
      using r by (auto simp: Resolve_def on_chan_def chan_send_def fresh_session_def)
    with accepted b True show ?thesis by (auto simp: alist_facts Wait_def)
  qed (use r b True in \<open>auto simp: Resolve_def\<close>)
qed

definition example_pending :: sessionStore where
  "example_pending = \<lparr>ss_m = [(''n'', 0)], ss_heap = [0 \<mapsto> \<lparr>ps_Nonce = ''n'', ps_Code = ''123456'',
     ps_codeAttempts = 0, ps_resolved = \<lparr>ch_buf = None, ch_closed = False\<rparr>\<rparr>], ss_next = 1,
     ss_maxPending = 8\<rparr>"

definition example_notify :: NotifyRequest where
  "example_notify = \<lparr>nr_Nonce = ''n'', nr_Code = ''123456'', nr_UserEmail = ''a@x''\<rparr>"

theorem notify_resolves_signed_witness:
  "\<exists>s'. notify_ServeHTTP (\<lambda>k m. k @ m) (\<lambda>_. Some example_notify) ''s'' ''/notify'' ''POST'' (Some ''{'') ''737b''
      example_pending = Some (200, s')
    \<and> map_of (ss_m s') ''n'' = None
    \<and> map_option (Wait False) (ss_heap s' 0) = Some (Some (Ok ''a@x''))"
proof -
  have live: "live_part (ss_heap example_pending) (map_of (ss_m example_pending))"
    by (auto simp: example_pending_def live_part_def fresh_session_def split: if_splits)
  have hex: "hex_DecodeString ''737b'' = Some ''s{''"
    by (simp add: hex_val_def is_digit_def in_range_def byte_def char_of_def bit_0)
  then obtain s' where s': "notify_ServeHTTP (\<lambda>k m. k @ m) (\<lambda>_. Some example_notify) ''s'' ''/notify'' ''POST''
      (Some ''{'') ''737b'' example_pending = Some (200, s')"
    by (simp add: notify_ServeHTTP_def verifyHMAC_def Resolve_def resolve_locked_def on_chan_def
        chan_send_def example_pending_def example_notify_def del: hex_DecodeString.simps)
  from notify_resolves_signed [OF live s', THEN conjunct1] s' show ?thesis
    by (auto simp: example_notify_def example_pending_def)
qed

subsection \<open>The login callback\<close>

text \<open>
  \<^verbatim>\<open>kbdInteractiveAuthenticator\<close>: \<open>challenge\<close> is the outcome of sending the prompt (an error or
  nothing), \<open>waited\<close> what \<^verbatim>\<open>Wait\<close> returns for the new session. The permissions are the email and
  the nonce.
\<close>

datatype auth_err = ErrTooManyAuth | ErrAllocNonce | ErrChallenge bytes | ErrAuthTimeout | ErrWait session_err

definition formatAuthPrompt :: "bytes \<Rightarrow> bytes \<Rightarrow> bytes \<Rightarrow> bytes \<Rightarrow> bytes" where
  "formatAuthPrompt authURLBase nonce code timeout = (let nl = [CHR 0x0D, CHR 0x0A];
       authURL = authURLBase @ ''/ssh-auth?s='' @ nonce in
     ''RCP SSH browser authentication required.'' @ nl @ nl
     @ ''1. Open this URL in your browser:'' @ nl @ ''   '' @ authURL @ nl @ nl
     @ ''2. Enter this 6-digit code on the auth page: '' @ code @ nl @ nl
     @ ''Waiting for browser authentication. Timeout: '' @ timeout @ nl)"

definition kbdInteractiveAuthenticator :: "bytes option \<Rightarrow> nat option \<Rightarrow> bytes option
    \<Rightarrow> (nat \<Rightarrow> session_err + bytes) \<Rightarrow> sessionStore \<Rightarrow> (auth_err + bytes \<times> bytes) \<times> sessionStore" where
  "kbdInteractiveAuthenticator rnd draw challenge waited s = (case session_New rnd draw s of
     (Err e, s) \<Rightarrow> (Err (if e = ErrTooManyPending then ErrTooManyAuth else ErrAllocNonce), s)
   | (Ok p, s) \<Rightarrow> (case challenge of Some e \<Rightarrow> (Err (ErrChallenge e), s)
       | None \<Rightarrow> (case waited p of
           Err e \<Rightarrow> (Err (if e = ErrNonceExpired then ErrAuthTimeout else ErrWait e), s)
         | Ok email \<Rightarrow> (case ss_heap s p of None \<Rightarrow> (Err ErrAllocNonce, s)
             | Some ps \<Rightarrow> (Ok (email, ps_Nonce ps), s)))))"

text \<open>A login succeeds only as the email that \<open>Wait\<close> returned for the session made for it.\<close>

lemma kbdInteractive_email:
  "kbdInteractiveAuthenticator rnd draw challenge waited s = (Ok (email, nonce), s') \<Longrightarrow>
   \<exists>p ps. session_New rnd draw s = (Ok p, s') \<and> waited p = Ok email \<and> challenge = None
     \<and> ss_heap s' p = Some ps \<and> nonce = ps_Nonce ps"
  by (auto simp: kbdInteractiveAuthenticator_def split: prod.splits sum.splits option.splits)

text \<open>Every code is six digits.\<close>

lemma randomCode_digits: "length (randomCode n) = 6 \<and> list_all is_digit (randomCode n)"
proof -
  have "is_digit (char_of (48 + k mod 10))" for k :: nat
    by (simp add: is_digit_def in_range_def, simp add: byte_def)
  then show ?thesis by (simp add: randomCode_def)
qed

end
