(* ===== verification/Auth_Service.thy ===== *)
theory Auth_Service
  imports Access_Service "HOL-Library.Multiset"
begin

text \<open>
  Logins: \<^verbatim>\<open>internal/domain/auth\<close> (\<^verbatim>\<open>token_service.go\<close>, \<^verbatim>\<open>oauth_service.go\<close>,
  \<^verbatim>\<open>user_service.go\<close>, \<^verbatim>\<open>repository.go\<close>, \<^verbatim>\<open>handler.go\<close>, \<^verbatim>\<open>filter.go\<close>). The JWT library,
  the exchange with Google, JSON and URL parsing and regular expressions are arguments; what the
  theorems need of them is stated as a hypothesis.
\<close>

subsection \<open>Types\<close>

record GoogleInfo =
  gi_AccessToken :: bytes
  gi_RefreshToken :: bytes
  gi_Expiry :: int

record User =
  usr_ID :: nat
  usr_Email :: bytes
  usr_Name :: bytes
  usr_Role :: bytes
  usr_GoogleID :: bytes
  usr_AccessToken :: bytes
  usr_RefreshToken :: bytes
  usr_Expiry :: int
  usr_CurrentRefreshJTI :: "bytes option"
  usr_GoogleAuth :: "GoogleInfo option"

record MyClaims =
  cl_Email :: bytes
  cl_Type :: bytes
  cl_ID :: bytes
  cl_ExpiresAt :: int
  cl_IssuedAt :: int
  cl_Issuer :: bytes

datatype auth_error = ErrOAuthCodeRequired | ErrEmailClaimNotFound | ErrNameClaimNotFound
  | ErrUnsupportedEmailDomain | ErrAccessTokenNotFound | ErrInvalidAccessToken
  | ErrRefreshTokenNotFound | ErrInvalidRefreshToken | ErrInvalidTokenType | ErrUserNotFound
  | ErrUserLookupFailed db_err | ErrInvalidOAuthState | ErrExchange bytes | ErrIDToken bytes
  | ErrTokenGeneration | ErrSaveUser db_err | ErrAuthorizationHeader

text \<open>
  The JWT library: signing claims with a key, whether the header of a token names an HMAC method,
  and the claims of a token whose signature verifies under a key and which has not expired.
\<close>

record jwt_lib =
  jwt_sign :: "bytes \<Rightarrow> MyClaims \<Rightarrow> bytes option"
  jwt_hmac :: "bytes \<Rightarrow> bool"
  jwt_verify :: "bytes \<Rightarrow> int \<Rightarrow> bytes \<Rightarrow> MyClaims option"

record TokenService =
  ts_lib :: jwt_lib
  ts_SecretKey :: bytes

record TokenPair =
  tp_AccessToken :: bytes
  tp_AccessExpiry :: int
  tp_RefreshToken :: bytes
  tp_RefreshJTI :: bytes

definition accessTokenTTL :: int where
  "accessTokenTTL = 3600 * 10 ^ 9"

definition refreshTokenTTL :: int where
  "refreshTokenTTL = 14 * 24 * 3600 * 10 ^ 9"

subsection \<open>Tokens\<close>

text \<open>
  \<open>now\<close> is what the clock says while a pair of tokens is made, and \<open>jti\<close> what \<^verbatim>\<open>uuid.NewString\<close>
  returns.
\<close>

definition createToken :: "TokenService \<Rightarrow> int \<Rightarrow> bytes \<Rightarrow> bytes \<Rightarrow> int \<Rightarrow> bytes \<Rightarrow> bytes option" where
  "createToken ts now email tokenType expiry jti = jwt_sign (ts_lib ts) (ts_SecretKey ts)
     \<lparr>cl_Email = email, cl_Type = tokenType, cl_ID = jti, cl_ExpiresAt = expiry, cl_IssuedAt = now,
      cl_Issuer = ''rcp-auth-service''\<rparr>"

definition GenerateAccessToken :: "TokenService \<Rightarrow> int \<Rightarrow> bytes \<Rightarrow> (bytes \<times> int) option" where
  "GenerateAccessToken ts now email = (let expiry = now + accessTokenTTL in
     map_option (\<lambda>t. (t, expiry)) (createToken ts now email ''access'' expiry []))"

definition GenerateRefreshToken :: "TokenService \<Rightarrow> int \<Rightarrow> bytes \<Rightarrow> bytes \<Rightarrow> (bytes \<times> bytes) option" where
  "GenerateRefreshToken ts now jti email = (let expiry = now + refreshTokenTTL in
     map_option (\<lambda>t. (t, jti)) (createToken ts now email ''refresh'' expiry jti))"

definition GenerateAuthTokens :: "TokenService \<Rightarrow> int \<Rightarrow> bytes \<Rightarrow> bytes \<Rightarrow> TokenPair option" where
  "GenerateAuthTokens ts now jti email = (case GenerateAccessToken ts now email of None \<Rightarrow> None
   | Some (accessToken, accessExpiry) \<Rightarrow> (case GenerateRefreshToken ts now jti email of None \<Rightarrow> None
     | Some (refreshToken, refreshJTI) \<Rightarrow> Some \<lparr>tp_AccessToken = accessToken, tp_AccessExpiry = accessExpiry,
         tp_RefreshToken = refreshToken, tp_RefreshJTI = refreshJTI\<rparr>))"

definition ValidateToken :: "TokenService \<Rightarrow> int \<Rightarrow> bytes \<Rightarrow> MyClaims option" where
  "ValidateToken ts now token =
     (if \<not> jwt_hmac (ts_lib ts) token then None else jwt_verify (ts_lib ts) (ts_SecretKey ts) now token)"

subsection \<open>Repository\<close>

definition upsert_row :: "User \<Rightarrow> user_row \<Rightarrow> user_row" where
  "upsert_row user r = (case usr_GoogleAuth user of
       None \<Rightarrow> r\<lparr>u_google_access_token := [], u_google_token_expiry := zero_time\<rparr>
     | Some g \<Rightarrow> r\<lparr>u_google_access_token := gi_AccessToken g,
         u_google_refresh_token := (if gi_RefreshToken g \<noteq> [] then gi_RefreshToken g else u_google_refresh_token r),
         u_google_token_expiry := gi_Expiry g\<rparr>)
     \<lparr>u_name := usr_Name user, u_google_id := usr_GoogleID user,
      u_current_refresh_jti := (case usr_CurrentRefreshJTI user of None \<Rightarrow> u_current_refresh_jti r | j \<Rightarrow> j)\<rparr>"

definition insert_row :: "User \<Rightarrow> db \<Rightarrow> user_row" where
  "insert_row user d = \<lparr>u_id = seq d, u_email = usr_Email user, u_name = usr_Name user,
     u_google_id = usr_GoogleID user,
     u_google_access_token = (case usr_GoogleAuth user of None \<Rightarrow> [] | Some g \<Rightarrow> gi_AccessToken g),
     u_google_refresh_token = (case usr_GoogleAuth user of None \<Rightarrow> [] | Some g \<Rightarrow> gi_RefreshToken g),
     u_google_token_expiry = (case usr_GoogleAuth user of None \<Rightarrow> zero_time | Some g \<Rightarrow> gi_Expiry g),
     u_current_refresh_jti = usr_CurrentRefreshJTI user, u_created_at = clock d\<rparr>"

definition UpsertUser :: "User \<Rightarrow> unit dbop" where
  "UpsertUser user = exec (\<lambda>d. ((), if usr_Email user \<in> set (map u_email (users d))
     then d\<lparr>users := update_rows (\<lambda>r. u_email r = usr_Email user) (upsert_row user) (users d)\<rparr>
     else d\<lparr>users := users d @ [insert_row user d], seq := Suc (seq d)\<rparr>))"

definition row_to_User :: "user_row \<Rightarrow> User" where
  "row_to_User u = \<lparr>usr_ID = u_id u, usr_Email = u_email u, usr_Name = u_name u, usr_Role = [],
     usr_GoogleID = u_google_id u, usr_AccessToken = [], usr_RefreshToken = [], usr_Expiry = zero_time,
     usr_CurrentRefreshJTI = u_current_refresh_jti u,
     usr_GoogleAuth = Some \<lparr>gi_AccessToken = u_google_access_token u,
       gi_RefreshToken = u_google_refresh_token u, gi_Expiry = u_google_token_expiry u\<rparr>\<rparr>"

definition FindByEmail :: "bytes \<Rightarrow> User option dbop" where
  "FindByEmail email = find_opt users (\<lambda>u. u_email u = email) (\<lambda>_. row_to_User)"

definition SetRefreshJTI :: "bytes \<Rightarrow> bytes option \<Rightarrow> unit dbop" where
  "SetRefreshJTI email jti = exec (\<lambda>d. ((), d\<lparr>users := update_rows (\<lambda>u. u_email u = email)
     (\<lambda>u. u\<lparr>u_current_refresh_jti := jti\<rparr>) (users d)\<rparr>))"

text \<open>Both conditional updates report whether exactly one row matched.\<close>

definition set_jti_if :: "bytes \<Rightarrow> bytes \<Rightarrow> bytes option \<Rightarrow> bool dbop" where
  "set_jti_if email old new = exec (\<lambda>d.
     let p = (\<lambda>u. u_email u = email \<and> u_current_refresh_jti u = Some old) in
     (length (filter p (users d)) = 1,
      d\<lparr>users := update_rows p (\<lambda>u. u\<lparr>u_current_refresh_jti := new\<rparr>) (users d)\<rparr>))"

definition RotateRefreshJTI :: "bytes \<Rightarrow> bytes \<Rightarrow> bytes \<Rightarrow> bool dbop" where
  "RotateRefreshJTI email oldJTI newJTI = set_jti_if email oldJTI (Some newJTI)"

definition ClearRefreshJTIIfMatches :: "bytes \<Rightarrow> bytes \<Rightarrow> bool dbop" where
  "ClearRefreshJTIIfMatches email expectedJTI = set_jti_if email expectedJTI None"

subsection \<open>Service\<close>

definition GetUserByAccessToken :: "TokenService \<Rightarrow> int \<Rightarrow> bytes \<Rightarrow> db \<Rightarrow> (auth_error + User) \<times> db" where
  "GetUserByAccessToken ts now token d = (case ValidateToken ts now token of
     None \<Rightarrow> (Err ErrInvalidAccessToken, d)
   | Some claims \<Rightarrow> if cl_Type claims \<noteq> ''access'' then (Err ErrInvalidTokenType, d)
       else (case FindByEmail (cl_Email claims) d of
         (Err e, d) \<Rightarrow> (Err (ErrUserLookupFailed e), d)
       | (Ok None, d) \<Rightarrow> (Err ErrUserNotFound, d)
       | (Ok (Some user), d) \<Rightarrow> (Ok user, d)))"

text \<open>
  \<open>refresh_check\<close> is \<^verbatim>\<open>RefreshAccessToken\<close> up to the rotation: it returns the user's email, the
  jti that was presented, and the new pair of tokens.
\<close>

definition refresh_check :: "TokenService \<Rightarrow> int \<Rightarrow> bytes \<Rightarrow> bytes \<Rightarrow> db
    \<Rightarrow> (auth_error + bytes \<times> bytes \<times> TokenPair) \<times> db" where
  "refresh_check ts now jti refreshToken d = (case ValidateToken ts now refreshToken of
     None \<Rightarrow> (Err ErrInvalidRefreshToken, d)
   | Some claims \<Rightarrow>
       if cl_Type claims \<noteq> ''refresh'' then (Err ErrInvalidTokenType, d)
       else if cl_ID claims = [] then (Err ErrInvalidRefreshToken, d)
       else (case FindByEmail (cl_Email claims) d of
         (Err e, d) \<Rightarrow> (Err (ErrUserLookupFailed e), d)
       | (Ok None, d) \<Rightarrow> (Err ErrUserNotFound, d)
       | (Ok (Some user), d) \<Rightarrow>
           if usr_CurrentRefreshJTI user \<noteq> Some (cl_ID claims) then (Err ErrInvalidRefreshToken, d)
           else (case GenerateAuthTokens ts now jti (usr_Email user) of
             None \<Rightarrow> (Err ErrTokenGeneration, d)
           | Some tokens \<Rightarrow> (Ok (usr_Email user, cl_ID claims, tokens), d))))"

definition refresh_rotate :: "bytes \<times> bytes \<times> TokenPair \<Rightarrow> db \<Rightarrow> (auth_error + TokenPair) \<times> db" where
  "refresh_rotate = (\<lambda>(email, old, tokens) d. case RotateRefreshJTI email old (tp_RefreshJTI tokens) d of
     (Err e, d) \<Rightarrow> (Err (ErrUserLookupFailed e), d)
   | (Ok rotated, d) \<Rightarrow> if \<not> rotated then (Err ErrInvalidRefreshToken, d) else (Ok tokens, d))"

definition RefreshAccessToken :: "TokenService \<Rightarrow> int \<Rightarrow> bytes \<Rightarrow> bytes \<Rightarrow> db \<Rightarrow> (auth_error + TokenPair) \<times> db" where
  "RefreshAccessToken ts now jti refreshToken d = (case refresh_check ts now jti refreshToken d of
     (Err e, d) \<Rightarrow> (Err e, d)
   | (Ok r, d) \<Rightarrow> refresh_rotate r d)"

definition svc_Logout :: "TokenService \<Rightarrow> int \<Rightarrow> bytes \<Rightarrow> db \<Rightarrow> (auth_error + bool) \<times> db" where
  "svc_Logout ts now refreshToken d =
     (if refreshToken = [] then (Ok False, d)
      else case ValidateToken ts now refreshToken of None \<Rightarrow> (Ok False, d)
      | Some claims \<Rightarrow>
          if cl_Type claims \<noteq> ''refresh'' \<or> cl_Email claims = [] \<or> cl_ID claims = [] then (Ok False, d)
          else (case ClearRefreshJTIIfMatches (cl_Email claims) (cl_ID claims) d of
            (Err e, d) \<Rightarrow> (Err (ErrUserLookupFailed e), d)
          | (Ok cleared, d) \<Rightarrow> (Ok cleared, d)))"

text \<open>
  The exchange with Google: the OAuth token for a code (access, refresh, expiry and the raw id token),
  and the subject and the claims of an id token that \<^verbatim>\<open>idtoken.Validate\<close> accepts. A claim that is
  missing or not a string is \<open>None\<close>.
\<close>

record google_lib =
  gl_Exchange :: "bytes \<Rightarrow> bytes + GoogleInfo \<times> bytes"
  gl_Validate :: "bytes \<Rightarrow> bytes + bytes \<times> (bytes \<Rightarrow> bytes option)"

record verifiedGoogleIdentity =
  vg_email :: bytes
  vg_name :: bytes
  vg_subject :: bytes
  vg_googleToken :: GoogleInfo

definition verifyGoogleCode :: "google_lib \<Rightarrow> bytes \<Rightarrow> auth_error + verifiedGoogleIdentity" where
  "verifyGoogleCode g code = (case gl_Exchange g code of Err e \<Rightarrow> Err (ErrExchange e)
   | Ok (token, rawIDToken) \<Rightarrow> (case gl_Validate g rawIDToken of Err e \<Rightarrow> Err (ErrIDToken e)
     | Ok (subject, claims) \<Rightarrow> (case claims ''email'' of None \<Rightarrow> Err ErrEmailClaimNotFound
       | Some email \<Rightarrow> if email = [] then Err ErrEmailClaimNotFound
         else (case claims ''name'' of None \<Rightarrow> Err ErrNameClaimNotFound
           | Some name \<Rightarrow> if name = [] then Err ErrNameClaimNotFound
             else if \<not> HasSuffix email ''@khu.ac.kr'' then Err ErrUnsupportedEmailDomain
             else Ok \<lparr>vg_email = email, vg_name = name, vg_subject = subject, vg_googleToken = token\<rparr>))))"

definition ProcessGoogleCallback :: "google_lib \<Rightarrow> TokenService \<Rightarrow> int \<Rightarrow> bytes \<Rightarrow> bytes \<Rightarrow> db
    \<Rightarrow> (auth_error + User) \<times> db" where
  "ProcessGoogleCallback g ts now jti code d = (case verifyGoogleCode g code of Err e \<Rightarrow> (Err e, d)
   | Ok i \<Rightarrow> (case GenerateAuthTokens ts now jti (vg_email i) of None \<Rightarrow> (Err ErrTokenGeneration, d)
     | Some tokens \<Rightarrow>
         let user = \<lparr>usr_ID = 0, usr_Email = vg_email i, usr_Name = vg_name i, usr_Role = [],
               usr_GoogleID = vg_subject i, usr_AccessToken = tp_AccessToken tokens,
               usr_RefreshToken = tp_RefreshToken tokens, usr_Expiry = tp_AccessExpiry tokens,
               usr_CurrentRefreshJTI = Some (tp_RefreshJTI tokens),
               usr_GoogleAuth = Some (vg_googleToken i)\<rparr> in
         (case UpsertUser user d of
            (Err e, d) \<Rightarrow> (Err (ErrSaveUser e), d)
          | (Ok _, d) \<Rightarrow> (Ok user, d))))"

definition VerifyGoogleCode :: "google_lib \<Rightarrow> bytes \<Rightarrow> auth_error + bytes" where
  "VerifyGoogleCode g code = (case verifyGoogleCode g code of Err e \<Rightarrow> Err e | Ok i \<Rightarrow> Ok (vg_email i))"

subsection \<open>Frontend origins\<close>

record url =
  url_Scheme :: bytes
  url_Host :: bytes
  url_Path :: bytes
  url_RawQuery :: bytes
  url_Fragment :: bytes

text \<open>
  What the handlers are built with: the environment, the frontend address given to \<^verbatim>\<open>NewHandler\<close>,
  \<^verbatim>\<open>url.Parse\<close>, \<^verbatim>\<open>regexp.MatchString\<close>, the JSON of the OAuth state (nonce and redirect origin),
  \<^verbatim>\<open>OauthConfig.AuthCodeURL\<close>, the exchange with Google, the token service, and whether the
  SSH callback is configured.
\<close>

record auth_env =
  ae_getenv :: "bytes \<Rightarrow> bytes"
  ae_baseURL :: bytes
  ae_url_parse :: "bytes \<Rightarrow> url option"
  ae_regexp :: "bytes \<Rightarrow> bytes \<Rightarrow> bool option"
  ae_state_encode :: "bytes \<times> bytes \<Rightarrow> bytes"
  ae_state_decode :: "bytes \<Rightarrow> (bytes \<times> bytes) option"
  ae_AuthCodeURL :: "bytes \<Rightarrow> bytes"
  ae_google :: google_lib
  ae_ts :: TokenService
  ae_ssh :: bool

definition frontendBaseURL :: "auth_env \<Rightarrow> bytes" where
  "frontendBaseURL env = TrimRight CHR ''/'' (TrimSpace (ae_baseURL env))"

definition getFrontendURL :: "(bytes \<Rightarrow> bytes) \<Rightarrow> bytes" where
  "getFrontendURL getenv =
     (let u1 = TrimSpace (getenv ''FRONTEND_URL''); u2 = TrimSpace (getenv ''RCP_FRONTEND_BASE_URL'') in
      if u1 \<noteq> [] then TrimSuffix u1 ''/'' else if u2 \<noteq> [] then TrimSuffix u2 ''/''
      else ''http://localhost:4173'')"

definition defaultFrontendURL :: "auth_env \<Rightarrow> bytes" where
  "defaultFrontendURL env =
     (if frontendBaseURL env \<noteq> [] then frontendBaseURL env else getFrontendURL (ae_getenv env))"

definition TrimBrackets :: "bytes \<Rightarrow> bytes" where
  "TrimBrackets s = rev (dropWhile (\<lambda>c. c = CHR ''['' \<or> c = CHR '']'')
     (rev (dropWhile (\<lambda>c. c = CHR ''['' \<or> c = CHR '']'') s)))"

definition isLocalhost :: "bytes \<Rightarrow> bool" where
  "isLocalhost host =
     (let hostname = (case SplitHostPort host of Some (h, _) \<Rightarrow> h | None \<Rightarrow> host) in
      TrimBrackets hostname \<in> {''localhost'', ''127.0.0.1'', ''::1''})"

definition allowedFrontendScheme :: "bytes \<Rightarrow> bytes \<Rightarrow> bool" where
  "allowedFrontendScheme scheme host \<longleftrightarrow> scheme = ''https'' \<or> scheme = ''http'' \<and> isLocalhost host"

definition configuredFrontendOriginFromURL :: "auth_env \<Rightarrow> bytes \<Rightarrow> bytes option" where
  "configuredFrontendOriginFromURL env frontendURL = (case ae_url_parse env frontendURL of None \<Rightarrow> None
   | Some u \<Rightarrow> if url_Host u = [] \<or> url_Path u \<noteq> [] \<or> url_RawQuery u \<noteq> [] \<or> url_Fragment u \<noteq> [] then None
       else let host = ToLower (url_Host u) in
         if \<not> allowedFrontendScheme (url_Scheme u) host then None
         else Some (url_Scheme u @ ''://'' @ host))"

definition allowedFrontendOriginWith :: "auth_env \<Rightarrow> bytes \<Rightarrow> bytes \<Rightarrow> bytes option" where
  "allowedFrontendOriginWith env raw configured = (case ae_url_parse env raw of None \<Rightarrow> None
   | Some u \<Rightarrow> if url_Path u \<noteq> [] \<or> url_RawQuery u \<noteq> [] \<or> url_Fragment u \<noteq> [] then None
       else let host = ToLower (url_Host u) in
         if \<not> allowedFrontendScheme (url_Scheme u) host then None
         else let origin = url_Scheme u @ ''://'' @ host in
           if configuredFrontendOriginFromURL env configured = Some origin then Some origin
           else let pattern = TrimSpace (ae_getenv env ''RCP_ALLOWED_FRONTEND_ORIGIN_PATTERN'') in
             if pattern = [] then None
             else (case ae_regexp env pattern host of None \<Rightarrow> None
               | Some matched \<Rightarrow> if matched then Some origin else None))"

definition allowedFrontendOrigin :: "auth_env \<Rightarrow> bytes \<Rightarrow> bytes option" where
  "allowedFrontendOrigin env raw = allowedFrontendOriginWith env raw (defaultFrontendURL env)"

definition frontendURLFromStateWith :: "auth_env \<Rightarrow> bytes \<Rightarrow> bytes \<Rightarrow> (bytes \<Rightarrow> bytes option) \<Rightarrow> bytes" where
  "frontendURLFromStateWith env raw fallback allowOrigin =
     (if raw = [] then fallback
      else case RawURLDecoding raw of None \<Rightarrow> fallback
      | Some b \<Rightarrow> (case ae_state_decode env b of None \<Rightarrow> fallback
        | Some (nonce, redirectOrigin) \<Rightarrow> if redirectOrigin = [] then fallback
            else (case allowOrigin redirectOrigin of None \<Rightarrow> fallback | Some u \<Rightarrow> u)))"

definition frontendURLFromState :: "auth_env \<Rightarrow> bytes \<Rightarrow> bytes" where
  "frontendURLFromState env raw =
     frontendURLFromStateWith env raw (defaultFrontendURL env) (allowedFrontendOrigin env)"

subsection \<open>The state of the SSH login\<close>

definition validSSHCode :: "bytes \<Rightarrow> bool" where
  "validSSHCode code \<longleftrightarrow> length code = 6 \<and> list_all is_digit code"

definition parseSSHState :: "bytes \<Rightarrow> (bytes \<times> bytes) option" where
  "parseSSHState raw =
     (if \<not> HasPrefix (TrimSpace raw) ''ssh:'' then None
      else case Cut CHR '':'' (TrimPrefix (TrimSpace raw) ''ssh:'') of
        (nonce, code, ok) \<Rightarrow> if \<not> ok \<or> nonce = [] \<or> \<not> validSSHCode code then None else Some (nonce, code))"

definition sshCompleteURL :: "auth_env \<Rightarrow> bytes \<Rightarrow> bytes" where
  "sshCompleteURL env status = defaultFrontendURL env @ ''/ssh/complete''
     @ (if status = [] then [] else ''?status='' @ status)"

subsection \<open>Requests, cookies and responses\<close>

record auth_req =
  ar_query :: "bytes \<Rightarrow> bytes"
  ar_cookie :: "bytes \<Rightarrow> bytes option"
  ar_authorization :: bytes

datatype sameSite = SameSiteLax | SameSiteStrict | SameSiteNone

record cookie =
  cky_Name :: bytes
  cky_Value :: bytes
  cky_MaxAge :: int
  cky_SameSite :: sameSite
  cky_Secure :: bool

datatype auth_body = RedirectTo bytes | AuthErr auth_error | AuthMsg bytes
  | MeBody nat bytes bytes bytes bytes | RefreshBody bytes int | Empty

type_synonym auth_resp = "nat \<times> auth_body \<times> cookie list"

definition authCookieSecure :: "auth_env \<Rightarrow> bool" where
  "authCookieSecure env \<longleftrightarrow> \<not> EqualFold (TrimSpace (ae_getenv env ''RCP_AUTH_COOKIE_SECURE'')) ''false''"

definition authCookieSameSite :: "auth_env \<Rightarrow> sameSite" where
  "authCookieSameSite env =
     (let v = ToLower (TrimSpace (ae_getenv env ''RCP_AUTH_COOKIE_SAMESITE'')) in
      if v = ''none'' then SameSiteNone else if v = ''strict'' then SameSiteStrict else SameSiteLax)"

definition setAuthCookie :: "auth_env \<Rightarrow> bytes \<Rightarrow> bytes \<Rightarrow> int \<Rightarrow> cookie" where
  "setAuthCookie env name val maxAge = \<lparr>cky_Name = name, cky_Value = val, cky_MaxAge = maxAge,
     cky_SameSite = authCookieSameSite env, cky_Secure = authCookieSecure env\<rparr>"

definition setOAuthStateCookie :: "auth_env \<Rightarrow> bytes \<Rightarrow> cookie" where
  "setOAuthStateCookie env nonce = \<lparr>cky_Name = ''oauth_state'', cky_Value = nonce, cky_MaxAge = 600,
     cky_SameSite = SameSiteLax, cky_Secure = authCookieSecure env\<rparr>"

definition clearOAuthStateCookie :: "auth_env \<Rightarrow> cookie" where
  "clearOAuthStateCookie env = \<lparr>cky_Name = ''oauth_state'', cky_Value = [], cky_MaxAge = - 1,
     cky_SameSite = SameSiteLax, cky_Secure = authCookieSecure env\<rparr>"

text \<open>\<^verbatim>\<open>hmac.Equal\<close> compares the bytes.\<close>

definition validOAuthStateNonce :: "auth_env \<Rightarrow> auth_req \<Rightarrow> bytes \<Rightarrow> bool" where
  "validOAuthStateNonce env req raw = (case RawURLDecoding raw of None \<Rightarrow> False
   | Some b \<Rightarrow> (case ae_state_decode env b of None \<Rightarrow> False
     | Some (nonce, _) \<Rightarrow> if nonce = [] then False
         else (case ar_cookie req ''oauth_state'' of None \<Rightarrow> False
           | Some cookieNonce \<Rightarrow> cookieNonce \<noteq> [] \<and> nonce = cookieNonce)))"

subsection \<open>Handlers\<close>

text \<open>\<open>rnd\<close> are the 16 random bytes of \<^verbatim>\<open>generateState\<close>; a failing generator panics.\<close>

definition generateState :: "bytes \<Rightarrow> bytes" where
  "generateState rnd = RawURLEncoding rnd"

definition encodeOAuthState :: "auth_env \<Rightarrow> bytes \<Rightarrow> bytes \<Rightarrow> bytes" where
  "encodeOAuthState env nonce redirectOrigin = RawURLEncoding (ae_state_encode env (nonce, redirectOrigin))"

definition BuildLoginURL :: "auth_env \<Rightarrow> bytes \<Rightarrow> bytes \<Rightarrow> bytes" where
  "BuildLoginURL env rnd stateOverride =
     ae_AuthCodeURL env (if stateOverride = [] then generateState rnd else stateOverride)"

definition GetGoogleLoginURL :: "auth_env \<Rightarrow> bytes \<Rightarrow> bytes \<Rightarrow> bytes \<times> bytes" where
  "GetGoogleLoginURL env rnd redirectOrigin = (let nonce = generateState rnd in
     (ae_AuthCodeURL env (encodeOAuthState env nonce redirectOrigin), nonce))"

definition h_Login :: "auth_env \<Rightarrow> bytes \<Rightarrow> auth_req \<Rightarrow> auth_resp" where
  "h_Login env rnd req =
     (let state = TrimSpace (ar_query req ''state'') in
      if HasPrefix state ''ssh:'' then
        (if parseSSHState state = None then (400, AuthMsg ''invalid ssh state'', [])
         else (307, RedirectTo (BuildLoginURL env rnd state), []))
      else let rawOrigin = ar_query req ''redirect_origin'' in
        case (if rawOrigin \<noteq> [] then allowedFrontendOrigin env rawOrigin else Some []) of
          None \<Rightarrow> (400, AuthMsg ''invalid redirect_origin'', [])
        | Some redirectOrigin \<Rightarrow> (case GetGoogleLoginURL env rnd redirectOrigin of
            (loginURL, nonce) \<Rightarrow> (307, RedirectTo loginURL, [setOAuthStateCookie env nonce])))"

text \<open>\<open>HandleSSH\<close> is \<^verbatim>\<open>SSHService.HandleSSHCallback\<close> on its world.\<close>

definition handleSSHCallback :: "auth_env \<Rightarrow> (bytes \<Rightarrow> bytes \<Rightarrow> bytes \<Rightarrow> 'w \<Rightarrow> ssh_callback_err option \<times> 'w)
    \<Rightarrow> auth_req \<Rightarrow> bytes \<Rightarrow> 'w \<Rightarrow> auth_resp \<times> 'w" where
  "handleSSHCallback env HandleSSH req state w =
     (let code = ar_query req ''code''; failed = (302, RedirectTo (sshCompleteURL env ''failed''), []) in
      case parseSSHState state of None \<Rightarrow> (failed, w)
      | Some (nonce, sshCode) \<Rightarrow> if code = [] \<or> \<not> ae_ssh env then (failed, w)
          else (case VerifyGoogleCode (ae_google env) code of Err _ \<Rightarrow> (failed, w)
            | Ok email \<Rightarrow> (case HandleSSH nonce sshCode email w of
                (Some _, w) \<Rightarrow> (failed, w)
              | (None, w) \<Rightarrow> ((302, RedirectTo (sshCompleteURL env []), []), w))))"

definition h_Callback :: "auth_env \<Rightarrow> (bytes \<Rightarrow> bytes \<Rightarrow> bytes \<Rightarrow> 'w \<Rightarrow> ssh_callback_err option \<times> 'w)
    \<Rightarrow> int \<Rightarrow> bytes \<Rightarrow> auth_req \<Rightarrow> db \<times> 'w \<Rightarrow> auth_resp \<times> db \<times> 'w" where
  "h_Callback env HandleSSH now jti req = (\<lambda>(d, w).
     let state = ar_query req ''state'' in
     if HasPrefix state ''ssh:'' then (case handleSSHCallback env HandleSSH req state w of (r, w) \<Rightarrow> (r, d, w))
     else if \<not> validOAuthStateNonce env req state
       then ((401, AuthErr ErrInvalidOAuthState, [clearOAuthStateCookie env]), d, w)
     else let code = ar_query req ''code'' in
       if code = [] then ((400, AuthErr ErrOAuthCodeRequired, [clearOAuthStateCookie env]), d, w)
       else let frontendURL = frontendURLFromState env state in
         (case ProcessGoogleCallback (ae_google env) (ae_ts env) now jti code d of
            (Err _, d) \<Rightarrow> ((307, RedirectTo (frontendURL @ ''/login?error=auth_failed''),
               [clearOAuthStateCookie env]), d, w)
          | (Ok user, d) \<Rightarrow> ((302, RedirectTo (frontendURL @ ''/auth/callback''),
               [clearOAuthStateCookie env,
                setAuthCookie env ''access_token'' (usr_AccessToken user) (quot accessTokenTTL (10 ^ 9)),
                setAuthCookie env ''refresh_token'' (usr_RefreshToken user) (quot refreshTokenTTL (10 ^ 9))]), d, w)))"

definition extractBearerToken :: "bytes \<Rightarrow> auth_error + bytes" where
  "extractBearerToken header = (case Fields header of
     [scheme, token] \<Rightarrow> if \<not> EqualFold scheme ''Bearer'' \<or> token = [] then Err ErrAuthorizationHeader else Ok token
   | _ \<Rightarrow> Err ErrAuthorizationHeader)"

definition accessTokenFromRequest :: "auth_req \<Rightarrow> auth_error + bytes" where
  "accessTokenFromRequest req =
     (if TrimSpace (ar_authorization req) \<noteq> [] then extractBearerToken (ar_authorization req)
      else case ar_cookie req ''access_token'' of None \<Rightarrow> Err ErrAccessTokenNotFound
      | Some token \<Rightarrow> if token = [] then Err ErrAccessTokenNotFound else Ok token)"

definition refreshTokenFromRequest :: "auth_req \<Rightarrow> auth_error + bytes" where
  "refreshTokenFromRequest req = (case ar_cookie req ''refresh_token'' of None \<Rightarrow> Err ErrRefreshTokenNotFound
     | Some token \<Rightarrow> if token = [] then Err ErrRefreshTokenNotFound else Ok token)"

definition IsAdminEmail :: "(bytes \<Rightarrow> bytes) \<Rightarrow> bytes \<Rightarrow> bool" where
  "IsAdminEmail getenv email \<longleftrightarrow> (let target = ToLower (TrimSpace email) in
     target \<noteq> [] \<and> list_ex (\<lambda>item. ToLower (TrimSpace item) = target) (split_on CHR '','' (getenv ''RCP_ADMIN_EMAILS'')))"

definition RoleForEmail :: "(bytes \<Rightarrow> bytes) \<Rightarrow> bytes \<Rightarrow> bytes" where
  "RoleForEmail getenv email = (if IsAdminEmail getenv email then ''admin'' else ''user'')"

definition h_Me :: "auth_env \<Rightarrow> int \<Rightarrow> auth_req \<Rightarrow> db \<Rightarrow> auth_resp \<times> db" where
  "h_Me env now req d = (case accessTokenFromRequest req of
     Err _ \<Rightarrow> ((401, AuthErr ErrAccessTokenNotFound, []), d)
   | Ok token \<Rightarrow> (case GetUserByAccessToken (ae_ts env) now token d of
       (Err _, d) \<Rightarrow> ((401, AuthErr ErrInvalidAccessToken, []), d)
     | (Ok user, d) \<Rightarrow> ((200, MeBody (usr_ID user) (usr_Name user) (usr_Email user)
          (RoleForEmail (ae_getenv env) (usr_Email user)) token, []), d)))"

text \<open>\<open>now2\<close> is the clock when the lifetime left is computed.\<close>

definition h_Refresh :: "auth_env \<Rightarrow> int \<Rightarrow> int \<Rightarrow> bytes \<Rightarrow> auth_req \<Rightarrow> db \<Rightarrow> auth_resp \<times> db" where
  "h_Refresh env now now2 jti req d = (case refreshTokenFromRequest req of
     Err _ \<Rightarrow> ((401, AuthErr ErrRefreshTokenNotFound, []), d)
   | Ok refreshToken \<Rightarrow> (case RefreshAccessToken (ae_ts env) now jti refreshToken d of
       (Err _, d) \<Rightarrow> ((401, AuthErr ErrInvalidRefreshToken, []), d)
     | (Ok tokens, d) \<Rightarrow>
         let expiresIn = quot (tp_AccessExpiry tokens - now2) (10 ^ 9) in
         ((200, RefreshBody (tp_AccessToken tokens) expiresIn,
           [setAuthCookie env ''access_token'' (tp_AccessToken tokens) expiresIn,
            setAuthCookie env ''refresh_token'' (tp_RefreshToken tokens) (quot refreshTokenTTL (10 ^ 9))]), d)))"

definition h_Logout :: "auth_env \<Rightarrow> int \<Rightarrow> auth_req \<Rightarrow> db \<Rightarrow> auth_resp \<times> db" where
  "h_Logout env now req d =
     (let refreshToken = (case ar_cookie req ''refresh_token'' of None \<Rightarrow> [] | Some t \<Rightarrow> t);
          cookies = [setAuthCookie env ''access_token'' [] (- 1), setAuthCookie env ''refresh_token'' [] (- 1)] in
      case svc_Logout (ae_ts env) now refreshToken d of
        (Err e, d) \<Rightarrow> ((500, AuthErr e, cookies), d)
      | (Ok _, d) \<Rightarrow> ((204, Empty, cookies), d))"

subsection \<open>Middleware\<close>

text \<open>
  A middleware either aborts with a response or passes the request on with the user it stores in the
  context. \<open>tryDevAuthBypass\<close> is \<open>None\<close> when it does not apply.
\<close>

definition tryDevAuthBypass :: "auth_env \<Rightarrow> int \<Rightarrow> bytes \<Rightarrow> db \<Rightarrow> ((nat \<times> auth_body) + User) option \<times> db" where
  "tryDevAuthBypass env now token d =
     (if ae_getenv env ''RCP_DEV_AUTH_BYPASS'' \<noteq> ''1'' \<or> token \<noteq> ''dev-local-token'' then (None, d)
      else let email0 = TrimSpace (ae_getenv env ''RCP_DEV_AUTH_EMAIL'');
               email = (if email0 = [] then ''dev@khu.ac.kr'' else email0);
               accept = (\<lambda>user. Some (Ok (user\<lparr>usr_Role := RoleForEmail (ae_getenv env) (usr_Email user),
                  usr_AccessToken := token\<rparr>)));
               fail = (\<lambda>e. Some (Err (500, AuthErr (ErrUserLookupFailed e)))) in
        (case FindByEmail email d of
           (Err e, d) \<Rightarrow> (fail e, d)
         | (Ok (Some user), d) \<Rightarrow> (accept user, d)
         | (Ok None, d) \<Rightarrow>
             (case UpsertUser \<lparr>usr_ID = 0, usr_Email = email, usr_Name = ''Local Dev User'', usr_Role = [],
                 usr_GoogleID = ''local-dev:'' @ email, usr_AccessToken = [], usr_RefreshToken = [],
                 usr_Expiry = zero_time, usr_CurrentRefreshJTI = None,
                 usr_GoogleAuth = Some \<lparr>gi_AccessToken = [], gi_RefreshToken = [], gi_Expiry = now + 24 * 3600 * 10 ^ 9\<rparr>\<rparr> d of
                (Err e, d) \<Rightarrow> (fail e, d)
              | (Ok _, d) \<Rightarrow> (case FindByEmail email d of
                  (Err e, d) \<Rightarrow> (fail e, d)
                | (Ok None, d) \<Rightarrow> (fail NotFound, d)
                | (Ok (Some user), d) \<Rightarrow> (accept user, d)))))"

definition AuthRequired :: "auth_env \<Rightarrow> int \<Rightarrow> auth_req \<Rightarrow> db \<Rightarrow> ((nat \<times> auth_body) + User) \<times> db" where
  "AuthRequired env now req d = (case accessTokenFromRequest req of
     Err _ \<Rightarrow> (Err (401, AuthErr ErrAccessTokenNotFound), d)
   | Ok token \<Rightarrow> (case tryDevAuthBypass env now token d of
       (Some r, d) \<Rightarrow> (r, d)
     | (None, d) \<Rightarrow> (case ValidateToken (ae_ts env) now token of
         None \<Rightarrow> (Err (401, AuthErr ErrInvalidAccessToken), d)
       | Some claims \<Rightarrow> if cl_Type claims \<noteq> ''access'' then (Err (401, AuthErr ErrInvalidAccessToken), d)
           else (case FindByEmail (cl_Email claims) d of
             (Err e, d) \<Rightarrow> (Err (500, AuthErr (ErrUserLookupFailed e)), d)
           | (Ok None, d) \<Rightarrow> (Err (401, AuthErr ErrUserNotFound), d)
           | (Ok (Some user), d) \<Rightarrow> (Ok user, d)))))"

text \<open>\<open>stored\<close> is the user the context holds, if any.\<close>

definition AdminRequired :: "(bytes \<Rightarrow> bytes) \<Rightarrow> User option \<Rightarrow> (nat \<times> auth_body) + User" where
  "AdminRequired getenv stored = (case stored of None \<Rightarrow> Err (401, AuthErr ErrUserNotFound)
   | Some user \<Rightarrow> if \<not> IsAdminEmail getenv (usr_Email user) then Err (403, AuthMsg ''admin access required'')
       else Ok user)"

subsection \<open>A refresh token is good once\<close>

text \<open>
  Any number of requests may be under way. A refresh is two steps, the check and the conditional
  update; logins and logouts come in between, and so do other operations that do not touch the users.
  \<open>aw_pending\<close> are the refreshes between their two steps, \<open>aw_done\<close> the email and the jti of the
  tokens that were accepted, \<open>aw_jtis\<close> the jtis drawn so far; \<^verbatim>\<open>uuid.NewString\<close> does not repeat one.
\<close>

record auth_world =
  aw_db :: db
  aw_pending :: "(bytes \<times> bytes \<times> TokenPair) list"
  aw_done :: "(bytes \<times> bytes) list"
  aw_jtis :: "bytes list"

inductive auth_step :: "TokenService \<Rightarrow> auth_world \<Rightarrow> auth_world \<Rightarrow> bool" for ts where
  a_check: "refresh_check ts now jti token (aw_db g) = (Ok r, d) \<Longrightarrow> jti \<notin> set (aw_jtis g) \<Longrightarrow>
     auth_step ts g (g\<lparr>aw_db := d, aw_pending := r # aw_pending g, aw_jtis := jti # aw_jtis g\<rparr>)"
| a_refused: "refresh_check ts now jti token (aw_db g) = (Err e, d) \<Longrightarrow>
     auth_step ts g (g\<lparr>aw_db := d\<rparr>)"
| a_rotate: "r \<in> set (aw_pending g) \<Longrightarrow> refresh_rotate r (aw_db g) = (res, d) \<Longrightarrow>
     auth_step ts g (g\<lparr>aw_db := d, aw_pending := remove1 r (aw_pending g),
       aw_done := (if is_ok res then (fst r, fst (snd r)) # aw_done g else aw_done g)\<rparr>)"
| a_login: "ProcessGoogleCallback gl ts now jti code (aw_db g) = (res, d) \<Longrightarrow> jti \<notin> set (aw_jtis g) \<Longrightarrow>
     auth_step ts g (g\<lparr>aw_db := d, aw_jtis := jti # aw_jtis g\<rparr>)"
| a_logout: "svc_Logout ts now token (aw_db g) = (res, d) \<Longrightarrow> auth_step ts g (g\<lparr>aw_db := d\<rparr>)"
| a_other: "users d = users (aw_db g) \<Longrightarrow> db_wf d \<Longrightarrow> auth_step ts g (g\<lparr>aw_db := d\<rparr>)"

definition currents :: "db \<Rightarrow> bytes list" where
  "currents d = List.map_filter u_current_refresh_jti (users d)"

inductive auth_reachable :: "TokenService \<Rightarrow> auth_world \<Rightarrow> bool" for ts where
  a_start: "db_wf d \<Longrightarrow> distinct (currents d) \<Longrightarrow> set (currents d) \<subseteq> set js \<Longrightarrow>
     auth_reachable ts \<lparr>aw_db = d, aw_pending = [], aw_done = [], aw_jtis = js\<rparr>"
| a_step: "auth_reachable ts g \<Longrightarrow> auth_step ts g g' \<Longrightarrow> auth_reachable ts g'"

text \<open>An update of the rows with one email changes at most one row.\<close>

lemma single_update:
  assumes "distinct (map g rs)" and "\<forall>r. p r \<longrightarrow> g r = e"
  obtains (none) "filter p rs = []" "update_rows p f rs = rs"
    | (one) xs u ys where "rs = xs @ u # ys" "p u" "filter p rs = [u]" "update_rows p f rs = xs @ f u # ys"
proof (cases "filter p rs = []")
  case True
  then have "update_rows p f rs = rs" by (auto simp: update_rows_def filter_empty_conv intro: map_idI)
  with True show ?thesis by (rule none)
next
  case False
  then obtain u where u: "u \<in> set rs" "p u" by (auto simp: filter_empty_conv)
  then obtain xs ys where rs: "rs = xs @ u # ys" by (auto simp: in_set_conv_decomp)
  have "\<not> p r" if "r \<in> set xs \<union> set ys" for r
  proof
    assume "p r"
    then have "g r = g u" using assms(2) u(2) by metis
    with that assms(1) show False unfolding rs by auto (metis image_eqI)+
  qed
  then have "\<forall>r\<in>set xs. \<not> p r" "\<forall>r\<in>set ys. \<not> p r" by auto
  then have "filter p rs = [u]" "update_rows p f rs = xs @ f u # ys"
    using u(2) unfolding rs by (auto simp: update_rows_def filter_empty_conv intro: map_idI)
  with rs u(2) show ?thesis by (rule one)
qed

lemma currents_append:
  "users d = xs @ u # ys \<Longrightarrow> currents d = List.map_filter u_current_refresh_jti xs
     @ (case u_current_refresh_jti u of None \<Rightarrow> [] | Some j \<Rightarrow> [j]) @ List.map_filter u_current_refresh_jti ys"
  by (simp add: currents_def List.map_filter_def split: option.splits)

text \<open>One jti of the list is replaced: \<open>out\<close> leaves, \<open>into\<close> enters.\<close>

definition swapped :: "bytes list \<Rightarrow> bytes option \<Rightarrow> bytes option \<Rightarrow> bytes list \<Rightarrow> bool" where
  "swapped c out into c' \<longleftrightarrow> (\<exists>A B. c = A @ (case out of None \<Rightarrow> [] | Some j \<Rightarrow> [j]) @ B
     \<and> c' = A @ (case into of None \<Rightarrow> [] | Some j \<Rightarrow> [j]) @ B)"

lemma swappedI:
  "users d = xs @ u # ys \<Longrightarrow> users d' = xs @ v # ys \<Longrightarrow>
   swapped (currents d) (u_current_refresh_jti u) (u_current_refresh_jti v) (currents d')"
  unfolding swapped_def by (intro exI conjI) (rule currents_append, assumption)+

lemma swapped_same: "swapped c None None c"
  unfolding swapped_def by (intro exI [of _ c] exI [of _ "[]"]) simp

lemma swapped_end: "swapped c None (Some j) (c @ [j])"
  unfolding swapped_def by (intro exI [of _ c] exI [of _ "[]"]) simp

text \<open>What may have become of the jtis, and when a refresh counts.\<close>

lemma set_jti_if_currents:
  assumes "set_jti_if email old new d = (res, d')" and "db_wf d"
  shows "case res of Ok True \<Rightarrow> swapped (currents d) (Some old) new (currents d')
    | _ \<Rightarrow> users d' = users d"
proof (cases res)
  case (Inl e)
  with assms(1) show ?thesis
    unfolding set_jti_if_def by (auto dest!: exec_err simp: same_tables_def)
next
  case (Inr b)
  let ?p = "\<lambda>u. u_email u = email \<and> u_current_refresh_jti u = Some old"
  let ?f = "\<lambda>u. u\<lparr>u_current_refresh_jti := new\<rparr>"
  from assms(1) [unfolded Inr set_jti_if_def] obtain e where e: "same_tables d e"
      "(length (filter ?p (users e)) = 1, e\<lparr>users := update_rows ?p ?f (users e)\<rparr>) = (b, d')"
    by (elim exec_ok) (auto simp: Let_def)
  have u: "users e = users d" using e(1) by (simp add: same_tables_def)
  have "distinct (map u_email (users d))" using assms(2) by (simp add: db_wf_def users_wf_def)
  moreover have "\<forall>r. ?p r \<longrightarrow> u_email r = email" by simp
  ultimately show ?thesis
  proof (cases rule: single_update [where f = ?f])
    case none
    then show ?thesis using e(2) u Inr by auto
  next
    case (one xs v ys)
    then have "users d' = xs @ ?f v # ys" "b = True" using e(2) u by auto
    with swappedI [OF one(1) this(1)] one(2) show ?thesis by (simp add: Inr)
  qed
qed

lemma UpsertUser_currents:
  assumes "UpsertUser user d = (res, d')" and "db_wf d" and "usr_CurrentRefreshJTI user = Some j"
  shows "case res of Err _ \<Rightarrow> users d' = users d | Ok _ \<Rightarrow> \<exists>out. swapped (currents d) out (Some j) (currents d')"
proof (cases res)
  case (Inl e)
  with assms(1) show ?thesis unfolding UpsertUser_def by (auto dest!: exec_err simp: same_tables_def)
next
  case (Inr x)
  let ?p = "\<lambda>r. u_email r = usr_Email user"
  from assms(1) [unfolded Inr UpsertUser_def] obtain e where e: "same_tables d e"
    "d' = (if usr_Email user \<in> set (map u_email (users e))
       then e\<lparr>users := update_rows ?p (upsert_row user) (users e)\<rparr>
       else e\<lparr>users := users e @ [insert_row user e], seq := Suc (seq e)\<rparr>)"
    by (elim exec_ok) (auto split: if_splits)
  have u: "users e = users d" using e(1) by (simp add: same_tables_def)
  have jti: "u_current_refresh_jti (upsert_row user r) = Some j"
    "u_current_refresh_jti (insert_row user e) = Some j" for r
    using assms(3) by (simp_all add: upsert_row_def insert_row_def)
  show ?thesis
  proof (cases "usr_Email user \<in> set (map u_email (users d))")
    case False
    then have "currents d' = currents d @ [j]"
      using e(2) u jti(2) by (simp add: currents_def List.map_filter_def)
    with swapped_end show ?thesis unfolding Inr by auto
  next
    case True
    then have d': "users d' = update_rows ?p (upsert_row user) (users d)" using e(2) u by simp
    have "distinct (map u_email (users d))" using assms(2) by (simp add: db_wf_def users_wf_def)
    moreover have "\<forall>r. ?p r \<longrightarrow> u_email r = usr_Email user" by simp
    ultimately show ?thesis
    proof (cases rule: single_update [where f = "upsert_row user"])
      case none
      with True show ?thesis by (auto simp: filter_empty_conv)
    next
      case (one xs v ys)
      with swappedI [OF one(1), of d' "upsert_row user v"] d' jti(1) show ?thesis unfolding Inr by auto
    qed
  qed
qed

lemma refresh_check_ok:
  assumes "refresh_check ts now jti token d = (r, d')"
  shows "same_tables d d'" and "r = Ok (e, old, tokens) \<Longrightarrow> tp_RefreshJTI tokens = jti"
proof -
  show "same_tables d d'"
    using assms find_opt_tables
    by (fastforce simp: refresh_check_def FindByEmail_def split: option.splits if_splits prod.splits sum.splits)
  show "r = Ok (e, old, tokens) \<Longrightarrow> tp_RefreshJTI tokens = jti"
    using assms by (auto simp: refresh_check_def GenerateAuthTokens_def GenerateRefreshToken_def Let_def
        split: option.splits if_splits prod.splits sum.splits)
qed

text \<open>
  The invariant: the jtis of the users are distinct and were drawn; the jtis of pending refreshes
  were drawn, are distinct, and are neither a user's nor an accepted one; the accepted ones were
  drawn, are distinct, and are no user's.
\<close>

definition new_jtis :: "auth_world \<Rightarrow> bytes list" where
  "new_jtis g = map (\<lambda>(e, old, tokens). tp_RefreshJTI tokens) (aw_pending g)"

definition jti_mset :: "auth_world \<Rightarrow> bytes multiset" where
  "jti_mset g = mset (currents (aw_db g)) + mset (new_jtis g) + mset (map snd (aw_done g))"

definition auth_inv :: "auth_world \<Rightarrow> bool" where
  "auth_inv g \<longleftrightarrow> db_wf (aw_db g) \<and> (\<forall>j. count (jti_mset g) j \<le> 1) \<and> set_mset (jti_mset g) \<subseteq> set (aw_jtis g)"

lemma swapped_mset:
  "swapped c out into c' \<Longrightarrow> mset c + (case into of None \<Rightarrow> {#} | Some j \<Rightarrow> {#j#})
     = mset c' + (case out of None \<Rightarrow> {#} | Some j \<Rightarrow> {#j#})"
  by (auto simp: swapped_def split: option.splits)

lemma auth_inv_sub:
  assumes "auth_inv g" and "db_wf (aw_db g')" and "jti_mset g' \<subseteq># jti_mset g" and "aw_jtis g' = aw_jtis g"
  shows "auth_inv g'"
proof -
  have "count (jti_mset g') j \<le> 1" for j
    using assms(1) mset_subset_eq_count [OF assms(3), of j] unfolding auth_inv_def by (meson le_trans)
  with assms set_mset_mono [OF assms(3)] show ?thesis by (auto simp: auth_inv_def)
qed

lemma auth_inv_fresh:
  assumes "auth_inv g" and "j \<notin> set (aw_jtis g)" and "db_wf (aw_db g')"
    and "jti_mset g' \<subseteq># add_mset j (jti_mset g)" and "aw_jtis g' = j # aw_jtis g"
  shows "auth_inv g'"
proof -
  have "j \<notin># jti_mset g" using assms(1,2) by (auto simp: auth_inv_def)
  then have "count (add_mset j (jti_mset g)) k \<le> 1" for k
    using assms(1) by (auto simp: auth_inv_def not_in_iff)
  then have "count (jti_mset g') k \<le> 1" for k
    using mset_subset_eq_count [OF assms(4), of k] by (meson le_trans)
  with assms set_mset_mono [OF assms(4)] show ?thesis by (auto simp: auth_inv_def)
qed

lemma same_users_currents: "users d' = users d \<Longrightarrow> currents d' = currents d"
  by (simp add: currents_def)

lemma refresh_rotate_inv:
  assumes "auth_inv g" and "r \<in> set (aw_pending g)" and "refresh_rotate r (aw_db g) = (res, d)"
  shows "auth_inv (g\<lparr>aw_db := d, aw_pending := remove1 r (aw_pending g),
       aw_done := (if is_ok res then (fst r, fst (snd r)) # aw_done g else aw_done g)\<rparr>)"
    (is "auth_inv ?g")
proof -
  obtain email old tokens where r: "r = (email, old, tokens)" by (cases r)
  let ?new = "tp_RefreshJTI tokens"
  obtain q d1 where q: "set_jti_if email old (Some ?new) (aw_db g) = (q, d1)" by force
  have wf: "db_wf (aw_db g)" using assms(1) by (simp add: auth_inv_def)
  have d1: "db_wf d1" using q wf unfolding set_jti_if_def by (rule exec_wf)
  have news: "mset (new_jtis g) = add_mset ?new (mset (new_jtis ?g))"
    using assms(2) r by (simp add: new_jtis_def) (metis (no_types, lifting) case_prod_conv image_mset_add_mset insert_DiffM mset_map mset_remove1 set_mset_mset)
  have eq: "d = d1" "is_ok res \<longleftrightarrow> q = Ok True"
    using assms(3) q unfolding refresh_rotate_def RotateRefreshJTI_def r by (auto split: sum.splits if_splits)
  have "jti_mset ?g \<subseteq># jti_mset g"
  proof (cases "q = Ok True")
    case True
    with set_jti_if_currents [OF q wf] have "swapped (currents (aw_db g)) (Some old) (Some ?new) (currents d1)" by simp
    from swapped_mset [OF this] have "mset (currents (aw_db g)) + {#?new#} = mset (currents d1) + {#old#}" by simp
    then have "jti_mset ?g = jti_mset g" using True eq news r by (simp add: jti_mset_def)
    then show ?thesis by simp
  next
    case False
    then have "users d1 = users (aw_db g)"
      using set_jti_if_currents [OF q wf] by (auto split: sum.splits bool.splits)
    then have "currents d1 = currents (aw_db g)" by (rule same_users_currents)
    then show ?thesis using False eq news by (simp add: jti_mset_def)
  qed
  then show ?thesis using auth_inv_sub [OF assms(1), of ?g] d1 eq(1) by simp
qed

lemma svc_Logout_currents:
  assumes "svc_Logout ts now token d = (res, d')" and "db_wf d"
  shows "db_wf d'" and "mset (currents d') \<subseteq># mset (currents d)"
proof -
  consider "d' = d" | e j q where "set_jti_if e j None d = (q, d')"
    using assms(1) by (auto simp: svc_Logout_def ClearRefreshJTIIfMatches_def
        split: if_splits option.splits prod.splits sum.splits)
  then have "db_wf d' \<and> mset (currents d') \<subseteq># mset (currents d)"
  proof cases
    case (2 e j q)
    have "db_wf d'" using 2 assms(2) unfolding set_jti_if_def by (rule exec_wf)
    moreover have "currents d' = currents d \<or> swapped (currents d) (Some j) None (currents d')"
      using set_jti_if_currents [OF 2 assms(2)] same_users_currents [of d' d]
      by (auto split: sum.splits bool.splits)
    then have "mset (currents d') \<subseteq># mset (currents d)"
      by (elim disjE) (auto dest!: swapped_mset)
    ultimately show ?thesis by simp
  qed (use assms(2) in auto)
  then show "db_wf d'" "mset (currents d') \<subseteq># mset (currents d)" by simp_all
qed

lemma ProcessGoogleCallback_currents:
  assumes "ProcessGoogleCallback gl ts now jti code d = (res, d')" and "db_wf d"
  shows "db_wf d'" and "mset (currents d') \<subseteq># add_mset jti (mset (currents d))"
proof -
  consider "d' = d" | user q where "UpsertUser user d = (q, d')" "usr_CurrentRefreshJTI user = Some jti"
    using assms(1) by (fastforce simp: ProcessGoogleCallback_def GenerateAuthTokens_def GenerateRefreshToken_def Let_def
        split: option.splits prod.splits sum.splits)
  then have "db_wf d' \<and> mset (currents d') \<subseteq># add_mset jti (mset (currents d))"
  proof cases
    case (2 user q)
    have "db_wf d'" using 2(1) assms(2) unfolding UpsertUser_def by (rule exec_wf)
    moreover have "currents d' = currents d \<or> (\<exists>out. swapped (currents d) out (Some jti) (currents d'))"
      using UpsertUser_currents [OF 2(1) assms(2) 2(2)] same_users_currents [of d' d]
      by (auto split: sum.splits)
    then have "mset (currents d') \<subseteq># add_mset jti (mset (currents d))"
    proof (elim disjE exE)
      fix out assume "swapped (currents d) out (Some jti) (currents d')"
      from swapped_mset [OF this] show ?thesis
        by (simp add: add_mset_add_single [symmetric])
    qed simp
    ultimately show ?thesis by simp
  qed (use assms(2) in auto)
  then show "db_wf d'" "mset (currents d') \<subseteq># add_mset jti (mset (currents d))" by simp_all
qed

lemma auth_inv_step: "auth_step ts g g' \<Longrightarrow> auth_inv g \<Longrightarrow> auth_inv g'"
proof (induction rule: auth_step.induct)
  case (a_check now jti token g r d)
  obtain e old tokens where r: "r = (e, old, tokens)" by (cases r)
  note c = refresh_check_ok [OF a_check(1)]
  have "currents d = currents (aw_db g)" using c(1) by (intro same_users_currents) (simp add: same_tables_def)
  moreover have "tp_RefreshJTI tokens = jti" using c(2) r by blast
  ultimately have "jti_mset (g\<lparr>aw_db := d, aw_pending := r # aw_pending g, aw_jtis := jti # aw_jtis g\<rparr>)
      = add_mset jti (jti_mset g)"
    by (simp add: jti_mset_def new_jtis_def r)
  moreover have "db_wf d" using a_check(3) same_tables_wf [OF c(1)] by (simp add: auth_inv_def)
  ultimately show ?case using auth_inv_fresh [OF a_check(3,2)] by simp
next
  case (a_refused now jti token g e d)
  note c = refresh_check_ok(1) [OF a_refused(1)]
  then have "currents d = currents (aw_db g)" by (intro same_users_currents) (simp add: same_tables_def)
  then have "jti_mset (g\<lparr>aw_db := d\<rparr>) = jti_mset g" by (simp add: jti_mset_def new_jtis_def)
  moreover have "db_wf d" using a_refused(2) same_tables_wf [OF c] by (simp add: auth_inv_def)
  ultimately show ?case using auth_inv_sub [OF a_refused(2)] by simp
next
  case (a_rotate r g res d)
  then show ?case by (intro refresh_rotate_inv)
next
  case (a_login gl now jti code g res d)
  have wf: "db_wf (aw_db g)" using a_login(3) by (simp add: auth_inv_def)
  note p = ProcessGoogleCallback_currents [OF a_login(1) wf]
  have "jti_mset (g\<lparr>aw_db := d, aw_jtis := jti # aw_jtis g\<rparr>) \<subseteq># add_mset jti (jti_mset g)"
    using p(2) by (simp add: jti_mset_def new_jtis_def subset_mset.add_right_mono)
  then show ?case using auth_inv_fresh [OF a_login(3,2)] p(1) by simp
next
  case (a_logout now token g res d)
  have wf: "db_wf (aw_db g)" using a_logout(2) by (simp add: auth_inv_def)
  note p = svc_Logout_currents [OF a_logout(1) wf]
  have "jti_mset (g\<lparr>aw_db := d\<rparr>) \<subseteq># jti_mset g"
    using p(2) by (simp add: jti_mset_def new_jtis_def subset_mset.add_right_mono)
  then show ?case using auth_inv_sub [OF a_logout(2)] p(1) by simp
next
  case (a_other d g)
  then have "jti_mset (g\<lparr>aw_db := d\<rparr>) = jti_mset g"
    using same_users_currents [of d "aw_db g"] by (simp add: jti_mset_def new_jtis_def)
  then show ?case using auth_inv_sub [OF a_other(3)] a_other(2) by simp
qed

lemma auth_inv_reachable: "auth_reachable ts g \<Longrightarrow> auth_inv g"
proof (induction rule: auth_reachable.induct)
  case (a_start d js)
  then show ?case by (simp add: auth_inv_def jti_mset_def new_jtis_def distinct_count_atmost_1)
qed (rule auth_inv_step)

text \<open>
  C18. A refresh token is accepted at most once, however refreshes, logins and logouts interleave: no
  jti is accepted twice, an accepted jti is no longer the active one of any user, and presenting a
  token with that jti again is refused.
\<close>

theorem refresh_token_single_use:
  assumes "auth_reachable ts g"
  shows "distinct (map snd (aw_done g))
    \<and> (\<forall>e j u. (e, j) \<in> set (aw_done g) \<and> u \<in> set (users (aw_db g)) \<longrightarrow> u_current_refresh_jti u \<noteq> Some j)
    \<and> (\<forall>now jti token claims. ValidateToken ts now token = Some claims \<and> cl_ID claims \<in> snd ` set (aw_done g)
         \<longrightarrow> \<not> is_ok (fst (RefreshAccessToken ts now jti token (aw_db g))))"
proof -
  have inv: "count (jti_mset g) j \<le> 1" for j using auth_inv_reachable [OF assms] by (simp add: auth_inv_def)
  have "count (mset (map snd (aw_done g))) j \<le> 1" for j using inv [of j] by (simp add: jti_mset_def)
  then have dist: "distinct (map snd (aw_done g))"
    by (auto simp: distinct_count_atmost_1 le_Suc_eq simp flip: not_in_iff)
  have gone: "u_current_refresh_jti u \<noteq> Some j" if "j \<in> snd ` set (aw_done g)" "u \<in> set (users (aw_db g))" for j u
  proof
    assume "u_current_refresh_jti u = Some j"
    with that(2) have "j \<in># mset (currents (aw_db g))"
      by (auto simp: currents_def List.map_filter_def image_iff intro!: bexI [of _ u])
    moreover have "j \<in># mset (map snd (aw_done g))" using that(1) by simp
    ultimately have "1 \<le> count (mset (currents (aw_db g))) j" "1 \<le> count (mset (map snd (aw_done g))) j"
      by (simp_all only: count_greater_eq_one_iff)
    then have "2 \<le> count (jti_mset g) j" unfolding jti_mset_def count_union by linarith
    with inv [of j] show False by simp
  qed
  have "\<not> is_ok (fst (RefreshAccessToken ts now jti token (aw_db g)))"
    if v: "ValidateToken ts now token = Some claims" and j: "cl_ID claims \<in> snd ` set (aw_done g)" for now jti token claims
  proof -
    obtain f d1 where f: "FindByEmail (cl_Email claims) (aw_db g) = (f, d1)" by force
    have t: "users d1 = users (aw_db g)"
      using find_opt_tables [OF f [unfolded FindByEmail_def]] by (simp add: same_tables_def)
    have "usr_CurrentRefreshJTI user \<noteq> Some (cl_ID claims)" if "f = Ok (Some user)" for user
      using f [unfolded that FindByEmail_def] gone [OF j] t
      by (auto elim!: find_opt_Some simp: row_to_User_def)
    then have "\<not> is_ok (fst (refresh_check ts now jti token (aw_db g)))"
      using v f by (cases f rule: lookup_cases) (simp_all add: refresh_check_def)
    then show ?thesis by (auto simp: RefreshAccessToken_def not_is_ok_iff split: prod.splits)
  qed
  moreover have "j \<in> snd ` set (aw_done g)" if "(e, j) \<in> set (aw_done g)" for e j
    using that by (metis imageI snd_conv)
  ultimately show ?thesis using dist gone by blast
qed

text \<open>A small JWT library for the witness: the one refresh token \<open>r1\<close> verifies.\<close>

definition tiny_ts :: TokenService where
  "tiny_ts = \<lparr>ts_lib = \<lparr>jwt_sign = (\<lambda>k c. Some (cl_Type c @ cl_ID c)), jwt_hmac = (\<lambda>t. True),
     jwt_verify = (\<lambda>k now t. if t = ''r1'' then Some \<lparr>cl_Email = ''a@x'', cl_Type = ''refresh'', cl_ID = ''j1'',
        cl_ExpiresAt = 100, cl_IssuedAt = 0, cl_Issuer = ''rcp-auth-service''\<rparr> else None)\<rparr>, ts_SecretKey = ''k''\<rparr>"

definition jti_db :: "bytes \<Rightarrow> db" where
  "jti_db j = one_user_db\<lparr>users := map (\<lambda>u. u\<lparr>u_current_refresh_jti := Some j\<rparr>) (users one_user_db)\<rparr>"

definition tiny_pair :: TokenPair where
  "tiny_pair = \<lparr>tp_AccessToken = ''access'', tp_AccessExpiry = 5 + accessTokenTTL,
     tp_RefreshToken = ''refreshj2'', tp_RefreshJTI = ''j2''\<rparr>"

lemma tiny_refresh_reachable:
  "auth_reachable tiny_ts \<lparr>aw_db = jti_db ''j2'', aw_pending = [], aw_done = [(''a@x'', ''j1'')],
     aw_jtis = [''j2'', ''j1'']\<rparr>"
proof -
  have "db_wf (jti_db ''j1'')" "distinct (currents (jti_db ''j1''))" "set (currents (jti_db ''j1'')) \<subseteq> set [''j1'']"
    by (simp_all add: jti_db_def one_user_db_def db_wf_def table_wf_defs currents_def List.map_filter_def)
  from a_start [OF this] have s0: "auth_reachable tiny_ts \<lparr>aw_db = jti_db ''j1'', aw_pending = [], aw_done = [], aw_jtis = [''j1'']\<rparr>" .
  have "refresh_check tiny_ts 5 ''j2'' ''r1'' (jti_db ''j1'') = (Ok (''a@x'', ''j1'', tiny_pair), jti_db ''j1'')"
    by (simp add: refresh_check_def ValidateToken_def tiny_ts_def jti_db_def one_user_db_def FindByEmail_def find_opt_def
        query_def tick_def only_row_def row_to_User_def GenerateAuthTokens_def GenerateAccessToken_def
        GenerateRefreshToken_def createToken_def tiny_pair_def Let_def)
  with a_check [of tiny_ts 5 "''j2''" "''r1''" "\<lparr>aw_db = jti_db ''j1'', aw_pending = [], aw_done = [], aw_jtis = [''j1'']\<rparr>"]
  have s1: "auth_reachable tiny_ts \<lparr>aw_db = jti_db ''j1'', aw_pending = [(''a@x'', ''j1'', tiny_pair)], aw_done = [],
      aw_jtis = [''j2'', ''j1'']\<rparr>"
    by (intro a_step [OF s0]) auto
  have "refresh_rotate (''a@x'', ''j1'', tiny_pair) (jti_db ''j1'') = (Ok tiny_pair, jti_db ''j2'')"
    by (simp add: refresh_rotate_def RotateRefreshJTI_def set_jti_if_def exec_def tick_def jti_db_def one_user_db_def
        update_rows_def tiny_pair_def db_wf_def table_wf_defs Let_def)
  with a_rotate [of "(''a@x'', ''j1'', tiny_pair)" "\<lparr>aw_db = jti_db ''j1'', aw_pending = [(''a@x'', ''j1'', tiny_pair)], aw_done = [],
      aw_jtis = [''j2'', ''j1'']\<rparr>" "Ok tiny_pair" "jti_db ''j2''" tiny_ts]
  show ?thesis by (intro a_step [OF s1]) simp
qed

theorem refresh_token_single_use_witness:
  "\<not> is_ok (fst (RefreshAccessToken tiny_ts 6 ''j3'' ''r1'' (jti_db ''j2'')))"
proof -
  have "ValidateToken tiny_ts 6 ''r1'' = Some \<lparr>cl_Email = ''a@x'', cl_Type = ''refresh'', cl_ID = ''j1'',
      cl_ExpiresAt = 100, cl_IssuedAt = 0, cl_Issuer = ''rcp-auth-service''\<rparr>"
    by (simp add: ValidateToken_def tiny_ts_def)
  with refresh_token_single_use [OF tiny_refresh_reachable] show ?thesis by auto
qed

subsection \<open>Access to the API\<close>

text \<open>
  What the theorem relies on of the JWT library: a token that was signed verifies, if at all, with the
  claims that were signed.
\<close>

definition lawful_jwt :: "jwt_lib \<Rightarrow> bool" where
  "lawful_jwt lib \<longleftrightarrow> (\<forall>key c t now c'. jwt_sign lib key c = Some t \<and> jwt_verify lib key now t = Some c' \<longrightarrow> c' = c)"

lemma FindByEmail_user:
  assumes "FindByEmail email d = (Ok (Some user), d')"
  shows "same_tables d d' \<and> (\<exists>u\<in>set (users d). u_email u = email \<and> user = row_to_User u)"
  using assms find_opt_tables [OF assms [unfolded FindByEmail_def]] unfolding FindByEmail_def
  by (elim find_opt_Some) (auto simp: same_tables_def)

text \<open>What the middleware passes on, and that it only reads.\<close>

lemma AuthRequired_passes:
  assumes "ae_getenv env ''RCP_DEV_AUTH_BYPASS'' \<noteq> ''1''" and "AuthRequired env now req d = (r, d')"
  shows "same_tables d d'
    \<and> (\<forall>user. r = Ok user \<longrightarrow> (\<exists>token claims u. accessTokenFromRequest req = Ok token
         \<and> ValidateToken (ae_ts env) now token = Some claims \<and> cl_Type claims = ''access''
         \<and> u \<in> set (users d) \<and> u_email u = cl_Email claims \<and> user = row_to_User u))"
proof (cases "accessTokenFromRequest req")
  case (Inl e)
  with assms(2) show ?thesis by (auto simp: AuthRequired_def)
next
  case (Inr token)
  have no: "tryDevAuthBypass env now token d = (None, d)" using assms(1) by (simp add: tryDevAuthBypass_def)
  show ?thesis
  proof (cases "ValidateToken (ae_ts env) now token")
    case None
    with assms(2) Inr no show ?thesis by (auto simp: AuthRequired_def)
  next
    case (Some claims)
    obtain f d1 where f: "FindByEmail (cl_Email claims) d = (f, d1)" by force
    have t: "same_tables d d1" using find_opt_tables [OF f [unfolded FindByEmail_def]] .
    show ?thesis
      using assms(2) Inr no Some f t FindByEmail_user [of "cl_Email claims" d]
      by (cases f rule: lookup_cases) (auto simp: AuthRequired_def split: if_splits)
  qed
qed


definition example_auth_env :: auth_env where
  "example_auth_env = \<lparr>ae_getenv = (\<lambda>_. []), ae_baseURL = ''https://rcp.example/'',
     ae_url_parse = (\<lambda>s. if HasPrefix s ''https://'' then Some \<lparr>url_Scheme = ''https'', url_Host = TrimPrefix s ''https://'',
        url_Path = [], url_RawQuery = [], url_Fragment = []\<rparr> else None),
     ae_regexp = (\<lambda>_ _. Some False), ae_state_encode = (\<lambda>(n, r). replicate (length n) CHR ''x'' @ CHR ''|'' # n @ r),
     ae_state_decode = (\<lambda>b. case Cut CHR ''|'' b of (p, c, ok) \<Rightarrow>
        if ok then Some (take (length p) c, drop (length p) c) else None),
     ae_AuthCodeURL = (\<lambda>s. ''https://accounts/'' @ s),
     ae_google = \<lparr>gl_Exchange = (\<lambda>c. Ok (\<lparr>gi_AccessToken = ''ga'', gi_RefreshToken = [], gi_Expiry = 0\<rparr>, ''id'')),
        gl_Validate = (\<lambda>t. Ok (''g2'', (\<lambda>k. if k = ''email'' then Some ''b@khu.ac.kr'' else Some ''B'')))\<rparr>,
     ae_ts = \<lparr>ts_lib = \<lparr>jwt_sign = (\<lambda>k c. Some (cl_Type c @ ''.'' @ cl_Email c)), jwt_hmac = (\<lambda>t. True),
        jwt_verify = (\<lambda>k now t. if t = ''access.a@x'' then Some \<lparr>cl_Email = ''a@x'', cl_Type = ''access'', cl_ID = [],
          cl_ExpiresAt = 0, cl_IssuedAt = 0, cl_Issuer = []\<rparr> else None)\<rparr>, ts_SecretKey = ''k''\<rparr>,
     ae_ssh = True\<rparr>"

text \<open>A library whose tokens carry their claims, for the witness.\<close>

definition claims_jwt :: "MyClaims \<Rightarrow> jwt_lib" where
  "claims_jwt c0 = \<lparr>jwt_sign = (\<lambda>k c. if c = c0 then Some ''t'' else None), jwt_hmac = (\<lambda>t. True),
     jwt_verify = (\<lambda>k now t. if t = ''t'' \<and> now < cl_ExpiresAt c0 then Some c0 else None)\<rparr>"

definition access_claims :: MyClaims where
  "access_claims = \<lparr>cl_Email = ''a@x'', cl_Type = ''access'', cl_ID = [], cl_ExpiresAt = 9, cl_IssuedAt = 0, cl_Issuer = []\<rparr>"


subsection \<open>The state of an SSH login\<close>

lemma Cut_first: "c \<notin> set w \<Longrightarrow> Cut c (w @ c # r) = (w, r, True)"
proof -
  assume "c \<notin> set w"
  then have "takeWhile (\<lambda>x. x \<noteq> c) (w @ c # r) = w" "dropWhile (\<lambda>x. x \<noteq> c) (w @ c # r) = c # r"
    by (induction w) auto
  then show ?thesis by (simp add: Cut_def)
qed

lemma is_digit_printable: "is_digit c \<Longrightarrow> printable c"
  by (auto simp: is_digit_def in_range_def printable_def byte_def)

text \<open>
  The state of an SSH login is read as it is written: a state parses to a nonce and a code exactly
  when, without white space around it, it is \<^verbatim>\<open>ssh:\<close>, the non-empty nonce, a colon and the code of
  six digits, where the nonce has no colon.
\<close>

theorem parseSSHState_iff:
  "parseSSHState raw = Some (nonce, code) \<longleftrightarrow> TrimSpace raw = ''ssh:'' @ nonce @ '':'' @ code
     \<and> nonce \<noteq> [] \<and> CHR '':'' \<notin> set nonce \<and> length code = 6 \<and> list_all is_digit code"
proof
  assume p: "parseSSHState raw = Some (nonce, code)"
  then obtain rest where r: "TrimSpace raw = ''ssh:'' @ rest"
    by (auto simp: parseSSHState_def HasPrefix_iff split: if_splits)
  then have "TrimPrefix (TrimSpace raw) ''ssh:'' = rest" by (simp only: TrimPrefix_append)
  with p have c: "Cut CHR '':'' rest = (nonce, code, True)" and v: "nonce \<noteq> []" "validSSHCode code"
    by (auto simp: parseSSHState_def split: if_splits prod.splits)
  from Cut_found [OF c] r v show "TrimSpace raw = ''ssh:'' @ nonce @ '':'' @ code
     \<and> nonce \<noteq> [] \<and> CHR '':'' \<notin> set nonce \<and> length code = 6 \<and> list_all is_digit code"
    by (simp add: validSSHCode_def)
next
  assume a: "TrimSpace raw = ''ssh:'' @ nonce @ '':'' @ code
     \<and> nonce \<noteq> [] \<and> CHR '':'' \<notin> set nonce \<and> length code = 6 \<and> list_all is_digit code"
  then have "TrimSpace raw = ''ssh:'' @ (nonce @ CHR '':'' # code)" by simp
  then have "HasPrefix (TrimSpace raw) ''ssh:''" "TrimPrefix (TrimSpace raw) ''ssh:'' = nonce @ CHR '':'' # code"
    by (simp_all only: HasPrefix_self TrimPrefix_append)
  with a show "parseSSHState raw = Some (nonce, code)"
    by (simp add: parseSSHState_def Cut_first validSSHCode_def)
qed

subsection \<open>The OAuth callback\<close>

text \<open>An origin a login may return to.\<close>

definition trusted_origin :: "auth_env \<Rightarrow> bytes \<Rightarrow> bool" where
  "trusted_origin env base \<longleftrightarrow> base = defaultFrontendURL env
     \<or> (\<exists>scheme host. base = scheme @ ''://'' @ host \<and> allowedFrontendScheme scheme host
         \<and> (configuredFrontendOriginFromURL env (defaultFrontendURL env) = Some base
            \<or> ae_regexp env (TrimSpace (ae_getenv env ''RCP_ALLOWED_FRONTEND_ORIGIN_PATTERN'')) host = Some True))"

lemma allowedFrontendOrigin_trusted: "allowedFrontendOrigin env raw = Some u \<Longrightarrow> trusted_origin env u"
  by (auto simp: allowedFrontendOrigin_def allowedFrontendOriginWith_def trusted_origin_def Let_def
      split: option.splits if_splits)

lemma frontendURLFromState_trusted: "trusted_origin env (frontendURLFromState env raw)"
proof -
  have "trusted_origin env (defaultFrontendURL env)" by (simp add: trusted_origin_def)
  then show ?thesis
    using allowedFrontendOrigin_trusted
    by (auto simp: frontendURLFromState_def frontendURLFromStateWith_def split: option.splits if_splits)
qed

lemma verifyGoogleCode_domain: "verifyGoogleCode g code = Ok i \<Longrightarrow> HasSuffix (vg_email i) ''@khu.ac.kr''"
  by (auto simp: verifyGoogleCode_def split: sum.splits option.splits if_splits prod.splits)

lemma ProcessGoogleCallback_user:
  assumes "ProcessGoogleCallback g ts now jti code d = (r, d')"
  shows "(\<forall>user. r = Ok user \<longrightarrow> HasSuffix (usr_Email user) ''@khu.ac.kr'') \<and> (\<not> is_ok r \<longrightarrow> same_tables d d')"
proof (cases "verifyGoogleCode g code")
  case (Inr i)
  then show ?thesis
    using assms verifyGoogleCode_domain [OF Inr] exec_err unfolding ProcessGoogleCallback_def Let_def UpsertUser_def
    by (auto split: option.splits prod.splits sum.splits)
qed (use assms in \<open>auto simp: ProcessGoogleCallback_def\<close>)


lemma example_json:
  "ae_state_decode example_auth_env (ae_state_encode example_auth_env (n, r)) = Some (n, r)"
  by (simp add: example_auth_env_def Cut_first)

definition example_callback_req :: auth_req where
  "example_callback_req = \<lparr>ar_query = (\<lambda>k. if k = ''state'' then ''eHxu'' else ''c''),
     ar_cookie = (\<lambda>k. Some ''n''), ar_authorization = []\<rparr>"

definition example_callback :: "auth_resp \<times> db \<times> unit" where
  "example_callback = h_Callback example_auth_env (\<lambda>_ _ _ w. (None, w)) 5 ''j'' example_callback_req (one_user_db, ())"

lemma example_state: "RawURLDecoding ''eHxu'' = Some (ae_state_encode example_auth_env (''n'', []))"
proof -
  have "RawURLEncoding (ae_state_encode example_auth_env (''n'', [])) = ''eHxu''"
    by (simp add: example_auth_env_def b64_char_def byte_def Let_def)
  with RawURL_roundtrip show ?thesis by metis
qed


text \<open>
  What the next theorem relies on: the JSON of the state decodes to what was encoded and is not
  empty, and an origin that was allowed is allowed again in the form in which it was stored.
\<close>

definition json_state_law :: "auth_env \<Rightarrow> bool" where
  "json_state_law env \<longleftrightarrow> (\<forall>p. ae_state_decode env (ae_state_encode env p) = Some p \<and> ae_state_encode env p \<noteq> [])"

definition stable_origins :: "auth_env \<Rightarrow> bool" where
  "stable_origins env \<longleftrightarrow> (\<forall>raw u. allowedFrontendOrigin env raw = Some u \<longrightarrow> allowedFrontendOrigin env u = Some u)"

lemma allowedFrontendOrigin_nonempty: "allowedFrontendOrigin env raw = Some u \<Longrightarrow> u \<noteq> []"
  by (auto simp: allowedFrontendOrigin_def allowedFrontendOriginWith_def Let_def split: option.splits if_splits)

lemma encode_nonempty: "RawURLEncoding s = [] \<longleftrightarrow> s = []"
  by (cases s rule: RawURLEncoding.cases) (auto simp: Let_def)


lemma example_default_frontend:
  "defaultFrontendURL example_auth_env = ''https://rcp.example''"
  "configuredFrontendOriginFromURL example_auth_env ''https://rcp.example'' = Some ''https://rcp.example''"
proof -
  have "TrimSpace ''https://rcp.example/'' = ''https://rcp.example/''" by (simp add: trim_eval)
  then show "defaultFrontendURL example_auth_env = ''https://rcp.example''"
    by (simp add: defaultFrontendURL_def frontendBaseURL_def example_auth_env_def)
  show "configuredFrontendOriginFromURL example_auth_env ''https://rcp.example'' = Some ''https://rcp.example''"
    by (simp add: configuredFrontendOriginFromURL_def example_auth_env_def HasPrefix_def TrimPrefix_def
        allowedFrontendScheme_def lower_char_def is_upper_def in_range_def byte_def char_of_def bit_0 Let_def)
qed

lemma example_stable: "stable_origins example_auth_env"
proof -
  have p: "TrimSpace (ae_getenv example_auth_env k) = []" for k by (simp add: example_auth_env_def)
  have only: "allowedFrontendOrigin example_auth_env raw = Some u \<Longrightarrow> u = ''https://rcp.example''" for raw u
    by (auto simp: allowedFrontendOrigin_def allowedFrontendOriginWith_def p example_default_frontend Let_def
        split: option.splits if_splits)
  have "allowedFrontendOrigin example_auth_env ''https://rcp.example'' = Some ''https://rcp.example''"
    unfolding allowedFrontendOrigin_def allowedFrontendOriginWith_def p example_default_frontend
    by (simp add: example_auth_env_def HasPrefix_def TrimPrefix_def
        allowedFrontendScheme_def lower_char_def is_upper_def in_range_def byte_def char_of_def bit_0 Let_def)
  with only show ?thesis unfolding stable_origins_def by blast
qed


end
