(* ===== verification/Ssh_Login.thy ===== *)
theory Ssh_Login
  imports Ssh_Sessions Auth_Service
begin

text \<open>
  A login at the SSH gateway from end to end, over three programs' worth of code: the gateway shows a nonce
  and a code (\<^verbatim>\<open>cmd/ssh-gateway/sessions.go\<close>), the browser brings them to the OAuth callback of the API
  (\<^verbatim>\<open>internal/domain/auth/handler.go\<close>), which has the email verified by Google and tells the gateway over
  its Unix socket (\<^verbatim>\<open>internal/domain/access/ssh_service.go, ssh_client.go\<close>), where the notify handler
  resolves the session (\<^verbatim>\<open>cmd/ssh-gateway/notify.go\<close>).
\<close>

subsection \<open>The notify client\<close>

text \<open>
  \<open>encode\<close> is \<^verbatim>\<open>json.Marshal\<close>, \<open>mac\<close> HMAC-SHA256; \<open>Do path method body sig\<close> is the HTTP
  exchange over the socket, an error or the status of the answer.
\<close>

definition Notify :: "(bytes \<Rightarrow> bytes \<Rightarrow> bytes) \<Rightarrow> (NotifyRequest \<Rightarrow> bytes option) \<Rightarrow> bytes
    \<Rightarrow> (bytes \<Rightarrow> bytes \<Rightarrow> bytes \<Rightarrow> bytes \<Rightarrow> 'w \<Rightarrow> (bytes + nat) \<times> 'w)
    \<Rightarrow> bytes \<Rightarrow> bytes \<Rightarrow> bytes \<Rightarrow> 'w \<Rightarrow> bytes option \<times> 'w" where
  "Notify mac encode secret Do nonce code userEmail w =
     (case encode \<lparr>nr_Nonce = nonce, nr_Code = code, nr_UserEmail = userEmail\<rparr> of
       None \<Rightarrow> (Some ''marshal'', w)
     | Some content \<Rightarrow> (let sig = hex_EncodeToString (mac secret content) in
         case Do ''/notify'' ''POST'' content sig w of
           (Inl e, w) \<Rightarrow> (Some (''notify gateway: '' @ e), w)
         | (Inr status, w) \<Rightarrow> if status \<noteq> 200 then (Some ''notify gateway: status'', w) else (None, w)))"

text \<open>The other end of the socket: the notify handler on the sessions of the gateway.\<close>

definition gateway_Do :: "(bytes \<Rightarrow> bytes \<Rightarrow> bytes) \<Rightarrow> (bytes \<Rightarrow> NotifyRequest option) \<Rightarrow> bytes
    \<Rightarrow> bytes \<Rightarrow> bytes \<Rightarrow> bytes \<Rightarrow> bytes \<Rightarrow> sessionStore \<Rightarrow> (bytes + nat) \<times> sessionStore" where
  "gateway_Do mac decode secret path meth content sig s =
     (case notify_ServeHTTP mac decode secret path meth (Some content) sig s of
       None \<Rightarrow> (Inl ''connection lost'', s) | Some (status, s) \<Rightarrow> (Inr status, s))"

text \<open>A request that JSON carries: valid UTF-8, and not longer than the handler reads.\<close>

definition carries :: "(NotifyRequest \<Rightarrow> bytes option) \<Rightarrow> (bytes \<Rightarrow> NotifyRequest option) \<Rightarrow> NotifyRequest \<Rightarrow> bool" where
  "carries encode decode b \<longleftrightarrow> (case encode b of None \<Rightarrow> False
     | Some content \<Rightarrow> length content \<le> 65536 \<and> decode content = Some b)"

interpretation notify_link: signed_channel mac "\<lambda>secret content. hex_EncodeToString (mac secret content)" "verifyHMAC mac" "\<lambda>_. True" for mac
  by unfold_locales (auto simp: verifyHMAC_def split: option.splits)

lemma Notify_resolves:
  assumes "carries encode decode \<lparr>nr_Nonce = n, nr_Code = c, nr_UserEmail = e\<rparr>" "n \<noteq> []" "c \<noteq> []" "e \<noteq> []"
    and "Resolve n c e s = Some (r, s')"
  shows "Notify mac encode secret (gateway_Do mac decode secret) n c e s
    = (if r = None then None else Some ''notify gateway: status'', s')"
proof -
  obtain content where e: "encode \<lparr>nr_Nonce = n, nr_Code = c, nr_UserEmail = e\<rparr> = Some content" "length content \<le> 65536"
      "decode content = Some \<lparr>nr_Nonce = n, nr_Code = c, nr_UserEmail = e\<rparr>"
    using assms(1) by (auto simp: carries_def split: option.splits)
  show ?thesis
    using assms(2-5) by (cases r) (auto simp: Notify_def gateway_Do_def notify_ServeHTTP_def notify_link.verify_sign e)
qed

subsection \<open>What a resolution does to one waiting login\<close>

definition received :: "sessionStore \<Rightarrow> nat \<Rightarrow> (session_err + bytes) option" where
  "received s p = (case ss_heap s p of None \<Rightarrow> None | Some ps \<Rightarrow> Wait False ps)"

lemma Resolve_received:
  assumes live: "live_part (ss_heap s) (map_of (ss_m s))"
    and p: "map_of (ss_m s) nonce = Some p" "ss_heap s p = Some ps" "fresh_session nonce ps"
  obtains r s' where "Resolve n c e' s = Some (r, s')"
    and "received s' p = Some (Ok e) \<longleftrightarrow> n = nonce \<and> c = ps_Code ps \<and> e = e'"
    and "r = None \<longleftrightarrow> map_of (ss_m s) n \<noteq> None \<and> map_option ps_Code (ss_heap s (the (map_of (ss_m s) n))) = Some c"
  using live
proof (cases rule: resolve_locked_cases [where nonce = n and code = c])
  case unknown
  then show ?thesis using p by (intro that [of "Some ErrNonceUnknown" s])
    (auto simp: Resolve_def received_def Wait_def fresh_session_def)
next
  case (wrong q qs)
  then show ?thesis using p by (intro that [of "Some ErrCodeMismatch" "s\<lparr>ss_heap := (ss_heap s)(q \<mapsto> qs\<lparr>ps_codeAttempts := Suc (ps_codeAttempts qs)\<rparr>)\<rparr>"])
    (auto simp: Resolve_def received_def Wait_def fresh_session_def)
next
  case (locked_out q qs)
  then show ?thesis using p
    by (intro that [of "Some ErrCodeMismatch" "s\<lparr>ss_m := AList.delete n (ss_m s), ss_heap := (ss_heap s)(q \<mapsto>
            qs\<lparr>ps_codeAttempts := 5, ps_resolved := (ps_resolved qs)\<lparr>ch_closed := True\<rparr>\<rparr>)\<rparr>"])
      (auto simp: Resolve_def received_def Wait_def fresh_session_def)
next
  case (accepted q qs)
  then show ?thesis using p
    by (intro that [of None "s\<lparr>ss_m := AList.delete n (ss_m s), ss_heap := (ss_heap s)(q \<mapsto>
            qs\<lparr>ps_resolved := (ps_resolved qs)\<lparr>ch_buf := Some e'\<rparr>\<rparr>)\<rparr>"])
      (auto simp: Resolve_def received_def Wait_def fresh_session_def on_chan_def chan_send_def)
qed

lemma new_session:
  assumes "session_New (Some rnd) (Some draw) s = (Ok p, s')"
  shows "map_of (ss_m s') (RawURLEncoding rnd) = Some p"
    and "\<exists>ps. ss_heap s' p = Some ps \<and> fresh_session (RawURLEncoding rnd) ps \<and> ps_Code ps = randomCode draw"
  using assms by (auto simp: session_New_def Let_def update_conv' fresh_session_def split: if_splits)

lemma new_session_live:
  assumes "gw_reachable maxPending g" "session_New rnd draw (gw_store g) = (Ok p, s)"
  shows "live_part (ss_heap s) (map_of (ss_m s))"
proof -
  have "gw_reachable maxPending (g\<lparr>gw_store := s, gw_timers := p # gw_timers g\<rparr>)"
    using reach_step [OF assms(1) step_new [OF assms(2)]] .
  from gw_inv_reachable [OF this] show ?thesis by (simp add: gw_inv_def Let_def)
qed

subsection \<open>The whole login\<close>

text \<open>The callback of the API for an SSH state, on the sessions of the gateway.\<close>

lemma parseSSHState_parts: "parseSSHState raw = Some (n, c) \<Longrightarrow> n \<noteq> [] \<and> c \<noteq> []"
  by (auto simp: parseSSHState_def validSSHCode_def split: if_splits prod.splits)

lemma callback_received:
  assumes live: "live_part (ss_heap s) (map_of (ss_m s))"
    and p: "map_of (ss_m s) nonce = Some p" "ss_heap s p = Some ps" "fresh_session nonce ps"
    and carried: "\<And>n c e'. parseSSHState state = Some (n, c) \<Longrightarrow> VerifyGoogleCode (ae_google env) (ar_query req ''code'') = Ok e'
      \<Longrightarrow> carries encode decode \<lparr>nr_Nonce = n, nr_Code = c, nr_UserEmail = e'\<rparr>"
    and cb: "handleSSHCallback env (HandleSSHCallback (Notify mac encode secret (gateway_Do mac decode secret))) req state s
      = (resp, s')"
  shows "(received s' p = Some (Ok e) \<longleftrightarrow> parseSSHState state = Some (nonce, ps_Code ps) \<and> ar_query req ''code'' \<noteq> [] \<and> ae_ssh env
      \<and> VerifyGoogleCode (ae_google env) (ar_query req ''code'') = Ok e \<and> e \<noteq> [])
    \<and> (received s' p = Some (Ok e) \<longrightarrow> resp = (302, RedirectTo (sshCompleteURL env []), []))"
proof (cases "\<exists>n c e'. parseSSHState state = Some (n, c) \<and> ar_query req ''code'' \<noteq> [] \<and> ae_ssh env
      \<and> VerifyGoogleCode (ae_google env) (ar_query req ''code'') = Ok e' \<and> e' \<noteq> []")
  case False
  have "s' = s" using False cb
    by (auto simp: handleSSHCallback_def HandleSSHCallback_def Let_def split: option.splits prod.splits if_splits sum.splits
      dest: parseSSHState_parts)
  moreover have "received s p \<noteq> Some (Ok e)" using p by (simp add: received_def Wait_def fresh_session_def)
  ultimately show ?thesis using False by auto
next
  case True
  then obtain n c e' where t: "parseSSHState state = Some (n, c)" "ar_query req ''code'' \<noteq> []" "ae_ssh env"
      "VerifyGoogleCode (ae_google env) (ar_query req ''code'') = Ok e'" "e' \<noteq> []" by blast
  note nc = parseSSHState_parts [OF t(1)]
  obtain r s2 where R: "Resolve n c e' s = Some (r, s2)" "received s2 p = Some (Ok e) \<longleftrightarrow> n = nonce \<and> c = ps_Code ps \<and> e = e'"
      "r = None \<longleftrightarrow> map_of (ss_m s) n \<noteq> None \<and> map_option ps_Code (ss_heap s (the (map_of (ss_m s) n))) = Some c"
    using Resolve_received [OF live p, where n = n and c = c and e' = e' and e = e] by metis
  note N = Notify_resolves [OF carried [OF t(1,4)] conjunct1 [OF nc] conjunct2 [OF nc] t(5) R(1), of mac secret]
  have cb': "s' = s2" "resp = (if r = None then (302, RedirectTo (sshCompleteURL env []), [])
      else (302, RedirectTo (sshCompleteURL env ''failed''), []))"
    using cb nc t by (cases r; simp add: handleSSHCallback_def HandleSSHCallback_def N Let_def)+
  show ?thesis using R(2,3) t p by (auto simp: cb')
qed

text \<open>
  C1. An SSH login is exact from end to end. The gateway makes a pending login in any state its goroutines
  can reach; whatever request then comes to the callback of the API, the login receives an email exactly
  when the request's state names the nonce and the code of this very login and Google verifies the request's
  code for that email, and then the browser is told that the login is complete.
\<close>

theorem ssh_login_exact:
  assumes "gw_reachable maxPending g"
    and "session_New (Some rnd) (Some draw) (gw_store g) = (Ok p, s)"
    and "\<And>n c e'. parseSSHState (ar_query req ''state'') = Some (n, c)
      \<Longrightarrow> VerifyGoogleCode (ae_google env) (ar_query req ''code'') = Ok e'
      \<Longrightarrow> carries encode decode \<lparr>nr_Nonce = n, nr_Code = c, nr_UserEmail = e'\<rparr>"
    and "h_Callback env (HandleSSHCallback (Notify mac encode secret (gateway_Do mac decode secret))) now jti req (d, s)
      = (resp, d', s')"
  shows "(received s' p = Some (Ok e) \<longleftrightarrow> HasPrefix (ar_query req ''state'') ''ssh:''
      \<and> parseSSHState (ar_query req ''state'') = Some (RawURLEncoding rnd, randomCode draw)
      \<and> ar_query req ''code'' \<noteq> [] \<and> ae_ssh env \<and> VerifyGoogleCode (ae_google env) (ar_query req ''code'') = Ok e \<and> e \<noteq> [])
    \<and> (received s' p = Some (Ok e) \<longrightarrow> resp = (302, RedirectTo (sshCompleteURL env []), []) \<and> d' = d)"
proof -
  note live = new_session_live [OF assms(1,2)]
  obtain ps where ps: "map_of (ss_m s) (RawURLEncoding rnd) = Some p" "ss_heap s p = Some ps"
      "fresh_session (RawURLEncoding rnd) ps" "ps_Code ps = randomCode draw"
    using new_session [OF assms(2)] by blast
  show ?thesis
  proof (cases "HasPrefix (ar_query req ''state'') ''ssh:''")
    case False
    have "s' = s" using assms(4) False by (simp add: h_Callback_def Let_def split: if_splits prod.splits sum.splits)
    then show ?thesis using False ps by (simp add: received_def Wait_def fresh_session_def)
  next
    case True
    obtain r s2 where h: "handleSSHCallback env (HandleSSHCallback (Notify mac encode secret (gateway_Do mac decode secret)))
        req (ar_query req ''state'') s = (r, s2)" by (rule prod.exhaust)
    then have "resp = r" "s' = s2" "d' = d" using assms(4) True by (simp_all add: h_Callback_def Let_def)
    with callback_received [OF live ps(1-3) assms(3) h, where e = e] ps(4) True show ?thesis by simp
  qed
qed

definition example_ssh_req :: auth_req where
  "example_ssh_req = \<lparr>ar_query = (\<lambda>k. if k = ''state'' then ''ssh:eA:123456'' else ''c''),
     ar_cookie = (\<lambda>_. None), ar_authorization = []\<rparr>"

definition example_waiting :: sessionStore where
  "example_waiting = snd (session_New (Some ''x'') (Some 123456) (newSessionStore 4))"

definition example_login_body :: NotifyRequest where
  "example_login_body = \<lparr>nr_Nonce = ''eA'', nr_Code = ''123456'', nr_UserEmail = ''b@khu.ac.kr''\<rparr>"

lemma example_ssh_state: "parseSSHState ''ssh:eA:123456'' = Some (''eA'', ''123456'')"
proof -
  have t: "TrimSpace ''ssh:eA:123456'' = ''ssh:eA:123456''" by (simp add: trim_eval)
  show ?thesis unfolding parseSSHState_def t by code_simp
qed

lemma ssh_login_exact_witness:
  "received (snd (snd (h_Callback example_auth_env
      (HandleSSHCallback (Notify (\<lambda>k m. k @ m) (\<lambda>_. Some ''{'') ''s''
        (gateway_Do (\<lambda>k m. k @ m) (\<lambda>_. Some example_login_body) ''s''))) 5 ''j'' example_ssh_req (one_user_db, example_waiting)))) 0
    = Some (Ok ''b@khu.ac.kr'')"
proof -
  have nonce: "RawURLEncoding ''x'' = ''eA''" by (simp add: b64_char_def byte_def Let_def)
  have code: "randomCode 123456 = ''123456''" by (simp add: randomCode_def char_of_def bit_iff_odd)
  have new: "session_New (Some ''x'') (Some 123456) (gw_store (gw_init 4)) = (Ok 0, example_waiting)"
    by (simp add: gw_init_def example_waiting_def session_New_def newSessionStore_def Let_def)
  have google: "VerifyGoogleCode (ae_google example_auth_env) c = Ok ''b@khu.ac.kr''" for c
    by (simp add: VerifyGoogleCode_def verifyGoogleCode_def example_auth_env_def HasSuffix_def HasPrefix_def)
  have q: "ar_query example_ssh_req ''state'' = ''ssh:eA:123456''" "ar_query example_ssh_req ''code'' = ''c''"
    by (simp_all add: example_ssh_req_def)
  have "ae_ssh example_auth_env" by (simp add: example_auth_env_def)
  obtain resp d' s' where cb: "h_Callback example_auth_env
      (HandleSSHCallback (Notify (\<lambda>k m. k @ m) (\<lambda>_. Some ''{'') ''s''
        (gateway_Do (\<lambda>k m. k @ m) (\<lambda>_. Some example_login_body) ''s''))) 5 ''j'' example_ssh_req (one_user_db, example_waiting)
      = (resp, d', s')" by (rule prod_cases3)
  have carried: "carries (\<lambda>_. Some ''{'') (\<lambda>_. Some example_login_body) \<lparr>nr_Nonce = n, nr_Code = c, nr_UserEmail = e'\<rparr>"
    if "parseSSHState (ar_query example_ssh_req ''state'') = Some (n, c)"
      "VerifyGoogleCode (ae_google example_auth_env) (ar_query example_ssh_req ''code'') = Ok e'" for n c e'
    using that by (simp add: q example_ssh_state google carries_def example_login_body_def)
  from ssh_login_exact [OF reach_init new carried cb, of "''b@khu.ac.kr''"]
  have "received s' 0 = Some (Ok ''b@khu.ac.kr'')"
    using \<open>ae_ssh example_auth_env\<close> by (simp add: q nonce code example_ssh_state google HasPrefix_def del: RawURLEncoding.simps)
  then show ?thesis by (simp add: cb)
qed

end
