(* ===== verification/Json_Values.thy ===== *)
theory Json_Values
  imports Complex_Main Rcp_Prelude "HOL-Library.Char_ord" "HOL-Library.List_Lexorder"
begin

text \<open>
  Decoded JSON values, as gophercloud and \<^verbatim>\<open>encoding/json\<close> hand them over, and the decoding of
  string fields that \<^verbatim>\<open>json.Unmarshal\<close> does on a re-encoded value. A float is the number it
  stands for.
\<close>

datatype any = ANull | ABool bool | AStr bytes | AInt int | AFloat rat | AArr "any list"
  | AMap "(bytes \<times> any) list"

fun as_string :: "any option \<Rightarrow> bytes" where
  "as_string (Some (AStr s)) = s"
| "as_string _ = []"

text \<open>
  \<^verbatim>\<open>json.Marshal\<close> writes the entries of a map in the order of their keys, and \<^verbatim>\<open>json.Unmarshal\<close>
  stores each entry whose key equals the field's name up to letter case: null leaves the field as it
  is, a value that is not a string is a type error.
\<close>

fun store_string :: "any list \<Rightarrow> bytes \<Rightarrow> bytes option" where
  "store_string [] old = Some old"
| "store_string (ANull # vs) old = store_string vs old"
| "store_string (AStr s # vs) old = store_string vs s"
| "store_string (_ # vs) old = None"

definition string_field :: "bytes \<Rightarrow> (bytes \<times> any) list \<Rightarrow> bytes option" where
  "string_field name m =
     store_string (map snd (filter (\<lambda>(k, v). EqualFold k name) (sort_key fst m))) []"

end
