(* ===== verification/Ssh_Server.thy ===== *)
theory Ssh_Server
  imports Json_Values Access_Service
begin

text \<open>
  A session of the SSH gateway after login: \<^verbatim>\<open>cmd/ssh-gateway/server.go\<close>, \<^verbatim>\<open>menu.go\<close>,
  \<^verbatim>\<open>repo.go\<close> and the address selection of \<^verbatim>\<open>main.go\<close>. Text written to the terminal is left
  out, except by its effect on control flow. The network (resolving a VM, registering keys with the
  API, dialling) is a record of functions on a world \<open>'w\<close>.
\<close>

subsection \<open>The user's instances\<close>

record VM =
  vm_OpenstackID :: bytes
  vm_Name :: bytes
  vm_Status :: bytes
  vm_FixedIPv4 :: bytes

record VMRuntime =
  rt_Status :: bytes
  rt_FixedIPv4 :: bytes

definition owned_by_email :: "db \<Rightarrow> bytes \<Rightarrow> instance_row \<Rightarrow> bool" where
  "owned_by_email d email i \<longleftrightarrow> list_ex (\<lambda>u. u_id u = i_owner i \<and> u_email u = email) (users d)"

definition ListInstancesByEmail :: "bytes \<Rightarrow> VM list dbop" where
  "ListInstancesByEmail email d =
     (case query (\<lambda>d. Ok (sort_key i_name (filter (owned_by_email d email) (instances d)))) d of
        (Err e, d) \<Rightarrow> (Err e, d)
      | (Ok rows, d) \<Rightarrow> (Ok (map (\<lambda>r. \<lparr>vm_OpenstackID = i_openstack_id r, vm_Name = i_name r,
           vm_Status = i_status r, vm_FixedIPv4 = []\<rparr>) rows), d))"

definition runtime_info :: "(VM \<Rightarrow> bytes + VMRuntime) \<Rightarrow> VM \<Rightarrow> VM" where
  "runtime_info resolve vm = (case resolve vm of
     Err _ \<Rightarrow> vm\<lparr>vm_Status := ''UNKNOWN'', vm_FixedIPv4 := []\<rparr>
   | Ok rt \<Rightarrow> (let vm = (if TrimSpace (rt_Status rt) \<noteq> [] then vm\<lparr>vm_Status := rt_Status rt\<rparr> else vm)
       in vm\<lparr>vm_FixedIPv4 := rt_FixedIPv4 rt\<rparr>))"

text \<open>Every goroutine writes its own slot, so the result does not depend on their order.\<close>

definition applyRuntimeInfo :: "(VM \<Rightarrow> bytes + VMRuntime) \<Rightarrow> VM list \<Rightarrow> VM list" where
  "applyRuntimeInfo resolve vms = map (runtime_info resolve) vms"

subsection \<open>Addresses\<close>

fun isIPv4Version :: "any \<Rightarrow> bool" where
  "isIPv4Version (AFloat n) = (n = 4)"
| "isIPv4Version (AInt n) = (n = 4)"
| "isIPv4Version (AStr n) = (n = ''4'')"
| "isIPv4Version _ = False"

definition entry_ip :: "any \<Rightarrow> bytes option" where
  "entry_ip e = (case e of
     AMap m \<Rightarrow> if \<not> isIPv4Version (case map_of m ''version'' of None \<Rightarrow> ANull | Some v \<Rightarrow> v) then None
        else if TrimSpace (as_string (map_of m ''OS-EXT-IPS:type'')) \<noteq> ''fixed'' then None
        else if TrimSpace (as_string (map_of m ''addr'')) = [] then None
        else Some (TrimSpace (as_string (map_of m ''addr'')))
   | _ \<Rightarrow> None)"

definition network_ips :: "bytes \<Rightarrow> bytes \<times> any \<Rightarrow> bytes list" where
  "network_ips fixedNetwork = (\<lambda>(network, raw).
     if fixedNetwork \<noteq> [] \<and> network \<noteq> fixedNetwork then []
     else case raw of AArr es \<Rightarrow> List.map_filter entry_ip es | _ \<Rightarrow> [])"

text \<open>\<open>addresses\<close> lists the map in the order the iteration visits it.\<close>

definition fixedIPv4FromAddresses :: "(bytes \<times> any) list \<Rightarrow> bytes \<Rightarrow> bytes option" where
  "fixedIPv4FromAddresses addresses fixedNetwork =
     (case concat (map (network_ips (TrimSpace fixedNetwork)) addresses) of [ip] \<Rightarrow> Some ip | _ \<Rightarrow> None)"

definition ResolveVM :: "(bytes \<Rightarrow> bytes + bytes \<times> (bytes \<times> any) list) \<Rightarrow> bytes \<Rightarrow> bytes \<Rightarrow> bytes + VMRuntime" where
  "ResolveVM get fixedNetwork openstackID = (case get openstackID of
     Err e \<Rightarrow> Err e
   | Ok (status, addresses) \<Rightarrow> (case fixedIPv4FromAddresses addresses (TrimSpace fixedNetwork) of
       None \<Rightarrow> Ok \<lparr>rt_Status = status, rt_FixedIPv4 = []\<rparr>
     | Some ip \<Rightarrow> Ok \<lparr>rt_Status = status, rt_FixedIPv4 = ip\<rparr>))"

lemma single_Some: "(case xs of [x] \<Rightarrow> Some x | _ \<Rightarrow> None) = Some y \<longleftrightarrow> xs = [y]"
  by (auto split: list.splits)

lemma single_mset:
  assumes "mset xs = mset ys"
  shows "(case xs of [x] \<Rightarrow> Some x | _ \<Rightarrow> None) = (case ys of [y] \<Rightarrow> Some y | _ \<Rightarrow> None)"
proof (cases xs)
  case (Cons x xs')
  show ?thesis
  proof (cases "xs' = []")
    case True
    then have "ys = [x]" using assms Cons by simp
    with True Cons show ?thesis by simp
  next
    case False
    then have "length ys \<noteq> 1" using assms Cons mset_eq_length [OF assms] by (cases xs') auto
    with False Cons show ?thesis by (cases xs'; cases ys; cases "tl ys") auto
  qed
qed (use assms in simp)

text \<open>
  The address the gateway dials does not depend on the iteration order of the server's address
  map, and is an address only if it is the single fixed IPv4 address of the server (on the
  configured network, if one is configured).
\<close>

theorem fixedIPv4_unique:
  assumes "mset addresses = mset addresses'"
  shows "fixedIPv4FromAddresses addresses net = fixedIPv4FromAddresses addresses' net
    \<and> (fixedIPv4FromAddresses addresses net = Some ip
       \<longleftrightarrow> concat (map (network_ips (TrimSpace net)) addresses) = [ip])"
proof -
  let ?c = "\<lambda>as. concat (map (network_ips (TrimSpace net)) as)"
  have "mset (?c addresses) = mset (?c addresses')"
  proof -
    have "mset (map (mset \<circ> network_ips (TrimSpace net)) addresses)
        = mset (map (mset \<circ> network_ips (TrimSpace net)) addresses')" using assms by simp
    then show ?thesis by (simp add: mset_concat) (metis mset_map sum_mset_sum_list)
  qed
  then show ?thesis
    using single_mset [of "?c addresses" "?c addresses'"] single_Some [of "?c addresses" ip]
    unfolding fixedIPv4FromAddresses_def by metis
qed

theorem fixedIPv4_unique_witness:
  "fixedIPv4FromAddresses [(''a'', ANull), (''net'', AArr [AMap [(''version'', AInt 4),
      (''OS-EXT-IPS:type'', AStr ''fixed''), (''addr'', AStr ''10.0.0.5'')]])] [] = Some ''10.0.0.5''
   \<and> fixedIPv4FromAddresses [(''net'', AArr [AMap [(''version'', AInt 4),
      (''OS-EXT-IPS:type'', AStr ''fixed''), (''addr'', AStr ''10.0.0.5'')]]), (''a'', ANull)] [] = Some ''10.0.0.5''"
proof -
  let ?n = "(''net'', AArr [AMap [(''version'', AInt 4), (''OS-EXT-IPS:type'', AStr ''fixed''),
    (''addr'', AStr ''10.0.0.5'')]])"
  have t: "TrimSpace ''10.0.0.5'' = ''10.0.0.5''" "TrimSpace ''fixed'' = ''fixed''"
    by (simp_all add: trim_eval)
  have m: "mset [(''a'', ANull), ?n] = mset [?n, (''a'', ANull)]" by simp
  have "concat (map (network_ips (TrimSpace [])) [(''a'', ANull), ?n]) = [''10.0.0.5'']"
    by (simp add: network_ips_def entry_ip_def map_filter_simps t)
  with fixedIPv4_unique [OF m, of "[]" "''10.0.0.5''"] show ?thesis by metis
qed

subsection \<open>Choosing a VM\<close>

fun FindByName :: "VM list \<Rightarrow> bytes \<Rightarrow> VM option" where
  "FindByName [] name = None"
| "FindByName (vm # vms) name = (if vm_Name vm = name then Some vm else FindByName vms name)"

definition ParseSelection :: "bytes \<Rightarrow> VM list \<Rightarrow> VM option" where
  "ParseSelection input vms = (let s = TrimSpace input in
     if s = [] then None
     else case Atoi s of
       Some n \<Rightarrow> if n < 1 \<or> n > int (length vms) then None else Some (vms ! nat (n - 1))
     | None \<Rightarrow> FindByName vms s)"

text \<open>
  What the terminal delivers, one \<^verbatim>\<open>Read\<close> of at most one byte after another: a byte or none, and
  whether the read reports an error. The end of the list is the end of input.
\<close>

type_synonym terminal = "(char option \<times> bool) list"

fun readLine :: "terminal \<Rightarrow> bytes \<Rightarrow> bytes \<times> bool \<times> terminal" where
  "readLine [] out = (out, True, [])"
| "readLine ((None, err) # r) out = (if err then (out, True, r) else readLine r out)"
| "readLine ((Some b, err) # r) out =
     (if b = CHR 0x0A \<or> b = CHR 0x0D then (out, False, r)
      else if b = CHR 0x08 \<or> b = CHR 0x7F then readLine r (butlast out)
      else if err then (out @ [b], True, r) else readLine r (out @ [b]))"

fun prompt_attempts :: "nat \<Rightarrow> terminal \<Rightarrow> VM list \<Rightarrow> VM option \<times> terminal" where
  "prompt_attempts 0 r vms = (None, r)"
| "prompt_attempts (Suc k) r vms = (case readLine r [] of
     (line, True, r) \<Rightarrow> (None, r)
   | (line, False, r) \<Rightarrow> (case ParseSelection line vms of
       Some vm \<Rightarrow> (Some vm, r) | None \<Rightarrow> prompt_attempts k r vms))"

definition promptForVM :: "terminal \<Rightarrow> VM list \<Rightarrow> VM option \<times> terminal" where
  "promptForVM r vms = prompt_attempts 3 r vms"

lemma FindByName_set: "FindByName vms name = Some vm \<Longrightarrow> vm \<in> set vms \<and> vm_Name vm = name"
  by (induction vms) (auto split: if_splits)

lemma ParseSelection_set: "ParseSelection input vms = Some vm \<Longrightarrow> vm \<in> set vms"
  by (auto simp: ParseSelection_def Let_def split: if_splits option.splits dest: FindByName_set)

lemma prompt_attempts_set: "prompt_attempts k r vms = (Some vm, r') \<Longrightarrow> vm \<in> set vms"
  by (induction k arbitrary: r)
    (auto split: prod.splits bool.splits option.splits dest: ParseSelection_set)

subsection \<open>Channel requests\<close>

record ssh_request =
  rq_Type :: bytes
  rq_Payload :: bytes

record pendingPty =
  pty_term :: bytes
  pty_cols :: nat
  pty_rows :: nat
  pty_set :: bool

definition BigEndian_Uint32 :: "bytes \<Rightarrow> nat" where
  "BigEndian_Uint32 b = byte (b ! 0) * 16777216 + byte (b ! 1) * 65536 + byte (b ! 2) * 256 + byte (b ! 3)"

definition sub :: "bytes \<Rightarrow> nat \<Rightarrow> nat \<Rightarrow> bytes" where
  "sub s i j = take (j - i) (drop i s)"

definition parse_pty :: "bytes \<Rightarrow> pendingPty \<Rightarrow> pendingPty" where
  "parse_pty payload pty = (if length payload < 4 then pty
     else let termLen = BigEndian_Uint32 (sub payload 0 4) in
       if 4 + termLen + 8 \<le> length payload
       then \<lparr>pty_term = sub payload 4 (4 + termLen),
         pty_cols = BigEndian_Uint32 (sub payload (4 + termLen) (4 + termLen + 4)),
         pty_rows = BigEndian_Uint32 (sub payload (4 + termLen + 4) (4 + termLen + 8)),
         pty_set = True\<rparr>
       else pty)"

definition parse_exec :: "bytes \<Rightarrow> bytes" where
  "parse_exec payload = (if length payload < 4 then []
     else let n = BigEndian_Uint32 (sub payload 0 4) in
       if 4 + n \<le> length payload then sub payload 4 (4 + n) else [])"

text \<open>
  The request pump: it stops at the first shell or exec request, with the terminal settings and the
  command so far; \<open>None\<close> if there is no such request within the time allowed.
\<close>

fun pump_requests :: "ssh_request list \<Rightarrow> pendingPty \<Rightarrow> (pendingPty \<times> bytes) option" where
  "pump_requests [] pty = None"
| "pump_requests (r # rs) pty =
     (if rq_Type r = ''pty-req'' then pump_requests rs (parse_pty (rq_Payload r) pty)
      else if rq_Type r = ''exec'' then Some (pty, parse_exec (rq_Payload r))
      else if rq_Type r = ''shell'' then Some (pty, [])
      else pump_requests rs pty)"

subsection \<open>Dialling the VM\<close>

text \<open>
  The network as the session sees it: making a key pair (the marshalled public key, or a failure),
  registering and deleting it with the API, connecting through the SOCKS proxy, and the inner SSH
  handshake, each with an error or a result.
\<close>

record 'w vm_network =
  vn_GenerateKey :: "'w \<Rightarrow> bytes option \<times> 'w"
  vn_Register :: "EphemeralAuthorizedKeyRequest \<Rightarrow> 'w \<Rightarrow> bytes option \<times> 'w"
  vn_Delete :: "EphemeralAuthorizedKeyRequest \<Rightarrow> 'w \<Rightarrow> bytes option \<times> 'w"
  vn_Dial :: "bytes \<Rightarrow> nat \<Rightarrow> 'w \<Rightarrow> bytes option \<times> 'w"
  vn_Handshake :: "bytes \<Rightarrow> bytes \<Rightarrow> bytes \<Rightarrow> 'w \<Rightarrow> bytes option \<times> 'w"

datatype dial_err = ErrNoVMUsers | ErrKeySetup | ErrRegister bytes bytes | ErrProxyDial bytes bytes
  | ErrHandshake bytes bytes

definition deleteEphemeralKey :: "'w vm_network \<Rightarrow> EphemeralAuthorizedKeyRequest \<Rightarrow> 'w \<Rightarrow> 'w" where
  "deleteEphemeralKey N keyReq w = snd (vn_Delete N keyReq w)"

definition tryDialVMUser :: "'w vm_network \<Rightarrow> VM \<Rightarrow> bytes \<Rightarrow> bytes \<Rightarrow> 'w
    \<Rightarrow> (dial_err + EphemeralAuthorizedKeyRequest) \<times> 'w" where
  "tryDialVMUser N target ip user w = (case vn_GenerateKey N w of
     (None, w) \<Rightarrow> (Err ErrKeySetup, w)
   | (Some authorizedKey, w) \<Rightarrow>
      let keyReq = \<lparr>ek_InstanceID = vm_OpenstackID target, ek_Username = user,
            ek_AuthorizedKey = TrimSpace authorizedKey\<rparr> in
      (case vn_Register N keyReq w of
        (Some e, w) \<Rightarrow> (Err (ErrRegister user e), w)
      | (None, w) \<Rightarrow> (case vn_Dial N ip 22 w of
          (Some e, w) \<Rightarrow> (Err (ErrProxyDial user e), deleteEphemeralKey N keyReq w)
        | (None, w) \<Rightarrow> (case vn_Handshake N ip user (TrimSpace authorizedKey) w of
            (Some e, w) \<Rightarrow> (Err (ErrHandshake user e), deleteEphemeralKey N keyReq w)
          | (None, w) \<Rightarrow> (Ok keyReq, w)))))"

fun dial_users :: "'w vm_network \<Rightarrow> VM \<Rightarrow> bytes \<Rightarrow> bytes list \<Rightarrow> dial_err option \<Rightarrow> 'w
    \<Rightarrow> (dial_err + EphemeralAuthorizedKeyRequest) \<times> 'w" where
  "dial_users N target ip [] lastErr w =
     (Err (case lastErr of None \<Rightarrow> ErrNoVMUsers | Some e \<Rightarrow> e), w)"
| "dial_users N target ip (u # us) lastErr w = (let user = TrimSpace u in
     if user = [] then dial_users N target ip us lastErr w
     else case tryDialVMUser N target ip user w of
       (Ok keyReq, w) \<Rightarrow> (Ok keyReq, w)
     | (Err e, w) \<Rightarrow> dial_users N target ip us (Some e) w)"

definition dialVMWithEphemeralKey :: "'w vm_network \<Rightarrow> bytes list \<Rightarrow> VM \<Rightarrow> bytes \<Rightarrow> 'w
    \<Rightarrow> (dial_err + EphemeralAuthorizedKeyRequest) \<times> 'w" where
  "dialVMWithEphemeralKey N VMUsers target ip w =
     (if VMUsers = [] then (Err ErrNoVMUsers, w) else dial_users N target ip VMUsers None w)"

subsection \<open>A session\<close>

datatype session_end = NoRequest | LookupFailed db_err | NoInstances | VMNotFound bytes | NoSelection
  | Unreachable VM | AuthFailed dial_err | Relayed VM EphemeralAuthorizedKeyRequest

text \<open>\<open>pipe\<close> is the relay between the two SSH connections, which runs until one side ends.\<close>

definition choose_target :: "bytes \<Rightarrow> VM list \<Rightarrow> terminal \<Rightarrow> session_end + VM" where
  "choose_target execCmd vms term =
     (if execCmd \<noteq> [] then (case FindByName vms (TrimSpace execCmd) of
        None \<Rightarrow> Err (VMNotFound execCmd) | Some v \<Rightarrow> Ok v)
      else if length vms = 1 then Ok (vms ! 0)
      else (case fst (promptForVM term vms) of None \<Rightarrow> Err NoSelection | Some v \<Rightarrow> Ok v))"

definition handleSession :: "'w vm_network \<Rightarrow> (pendingPty \<Rightarrow> 'w \<Rightarrow> 'w) \<Rightarrow> bytes list
    \<Rightarrow> (bytes \<Rightarrow> bytes + VMRuntime) \<Rightarrow> ssh_request list \<Rightarrow> terminal \<Rightarrow> bytes \<Rightarrow> db \<times> 'w
    \<Rightarrow> session_end \<times> db \<times> 'w" where
  "handleSession N pipe VMUsers resolve reqs term email = (\<lambda>(d, w).
     case pump_requests reqs \<lparr>pty_term = [], pty_cols = 0, pty_rows = 0, pty_set = False\<rparr> of
       None \<Rightarrow> (NoRequest, d, w)
     | Some (pty, execCmd) \<Rightarrow> (case ListInstancesByEmail email d of
         (Err e, d) \<Rightarrow> (LookupFailed e, d, w)
       | (Ok vms, d) \<Rightarrow>
           if vms = [] then (NoInstances, d, w)
           else (case choose_target execCmd
               (applyRuntimeInfo (\<lambda>vm. resolve (vm_OpenstackID vm)) vms) term of
             Err e \<Rightarrow> (e, d, w)
           | Ok target \<Rightarrow>
               let ip = TrimSpace (vm_FixedIPv4 target) in
               if ip = [] then (Unreachable target, d, w)
               else (case dialVMWithEphemeralKey N VMUsers target ip w of
                 (Err e, w) \<Rightarrow> (AuthFailed e, d, w)
               | (Ok keyReq, w) \<Rightarrow>
                   (Relayed target keyReq, d, deleteEphemeralKey N keyReq (pipe pty w))))))"

subsection \<open>Properties of a session\<close>

text \<open>
  What is assumed of the key registry: \<open>reg w\<close> are the registered keys; a registration that reports
  success adds the key and one that fails does not; so for deleting; nothing else in the network
  changes the registry.
\<close>

definition lawful_network :: "'w vm_network \<Rightarrow> (pendingPty \<Rightarrow> 'w \<Rightarrow> 'w)
    \<Rightarrow> ('w \<Rightarrow> EphemeralAuthorizedKeyRequest set) \<Rightarrow> bool" where
  "lawful_network N pipe reg \<longleftrightarrow>
     (\<forall>w k w'. vn_GenerateKey N w = (k, w') \<longrightarrow> reg w' = reg w)
   \<and> (\<forall>q w w'. vn_Register N q w = (None, w') \<longrightarrow> reg w' = insert q (reg w))
   \<and> (\<forall>q w e w'. vn_Register N q w = (Some e, w') \<longrightarrow> reg w' = reg w)
   \<and> (\<forall>q w w'. vn_Delete N q w = (None, w') \<longrightarrow> reg w' = reg w - {q})
   \<and> (\<forall>q w e w'. vn_Delete N q w = (Some e, w') \<longrightarrow> reg w' = reg w)
   \<and> (\<forall>ip p w e w'. vn_Dial N ip p w = (e, w') \<longrightarrow> reg w' = reg w)
   \<and> (\<forall>ip u k w e w'. vn_Handshake N ip u k w = (e, w') \<longrightarrow> reg w' = reg w)
   \<and> (\<forall>pty w. reg (pipe pty w) = reg w)"

definition deletes_succeed :: "'w vm_network \<Rightarrow> bool" where
  "deletes_succeed N \<longleftrightarrow> (\<forall>q w. fst (vn_Delete N q w) = None)"

lemma delete_registry:
  assumes "lawful_network N pipe reg" "deletes_succeed N"
  shows "reg (deleteEphemeralKey N q w) = reg w - {q}"
proof -
  have "vn_Delete N q w = (None, snd (vn_Delete N q w))"
    using assms(2) by (metis deletes_succeed_def prod.collapse)
  with assms(1) show ?thesis unfolding lawful_network_def deleteEphemeralKey_def by metis
qed

lemma network_registry:
  assumes "lawful_network N pipe reg"
  shows "vn_GenerateKey N w = (k, w') \<Longrightarrow> reg w' = reg w"
    and "vn_Register N q w = (None, w') \<Longrightarrow> reg w' = insert q (reg w)"
    and "vn_Register N q w = (Some e, w') \<Longrightarrow> reg w' = reg w"
    and "vn_Dial N ip port w = (o1, w') \<Longrightarrow> reg w' = reg w"
    and "vn_Handshake N ip u key w = (o2, w') \<Longrightarrow> reg w' = reg w"
    and "reg (pipe pty w) = reg w"
  using assms unfolding lawful_network_def by metis+

lemma tryDialVMUser_registry:
  assumes "lawful_network N pipe reg" "deletes_succeed N" and "tryDialVMUser N target ip user w = (r, w')"
  shows "case r of Err _ \<Rightarrow> reg w' \<subseteq> reg w
    | Ok q \<Rightarrow> reg w' = insert q (reg w) \<and> ek_InstanceID q = vm_OpenstackID target \<and> ek_Username q = user"
  using assms(3)
  by (auto simp: tryDialVMUser_def Let_def delete_registry [OF assms(1,2)]
      split: prod.splits option.splits dest!: network_registry(1-5) [OF assms(1)])

lemma dial_users_registry:
  assumes "lawful_network N pipe reg" "deletes_succeed N" and "dial_users N target ip us le w = (r, w')"
  shows "case r of Err _ \<Rightarrow> reg w' \<subseteq> reg w
    | Ok q \<Rightarrow> reg w' \<subseteq> insert q (reg w) \<and> ek_InstanceID q = vm_OpenstackID target"
  using assms(3)
proof (induction us arbitrary: le w)
  case (Cons u us)
  show ?case
  proof (cases "TrimSpace u = []")
    case True
    then show ?thesis using Cons by simp
  next
    case False
    obtain r1 w1 where t: "tryDialVMUser N target ip (TrimSpace u) w = (r1, w1)" by force
    note reg = tryDialVMUser_registry [OF assms(1,2) t]
    show ?thesis
    proof (cases r1)
      case (Inl e)
      then have "case r of Err _ \<Rightarrow> reg w' \<subseteq> reg w1
          | Ok q \<Rightarrow> reg w' \<subseteq> insert q (reg w1) \<and> ek_InstanceID q = vm_OpenstackID target"
        using Cons.prems False t by (intro Cons.IH [of "Some e" w1]) simp
      moreover have "reg w1 \<subseteq> reg w" using reg Inl by simp
      ultimately show ?thesis by (cases r) auto
    next
      case (Inr q)
      then show ?thesis using Cons.prems False t reg by auto
    qed
  qed
qed auto

lemma ListInstancesByEmail_owned:
  assumes "ListInstancesByEmail email d = (Ok vms, d')"
  shows "same_tables d d' \<and> (\<forall>vm\<in>set vms. \<exists>i\<in>set (instances d). owned_by_email d email i
     \<and> i_openstack_id i = vm_OpenstackID vm)"
proof -
  obtain rows where q: "query (\<lambda>d. Ok (sort_key i_name (filter (owned_by_email d email) (instances d)))) d
      = (Ok rows, d')" and vms: "map vm_OpenstackID vms = map i_openstack_id rows"
    using assms by (auto simp: ListInstancesByEmail_def split: prod.splits sum.splits)
  have t: "same_tables d d'" using q by (rule query_tables)
  have "set rows = set (filter (owned_by_email d' email) (instances d'))"
    using query_ok [OF q] by auto
  moreover have "owned_by_email d' email = owned_by_email d email" "instances d' = instances d"
    using t by (auto simp: owned_by_email_def same_tables_def fun_eq_iff)
  moreover have "vm_OpenstackID ` set vms = i_openstack_id ` set rows" using vms by (metis set_map)
  ultimately have "vm_OpenstackID vm \<in> i_openstack_id ` {i \<in> set (instances d). owned_by_email d email i}"
    if "vm \<in> set vms" for vm using that by (metis imageI set_filter)
  with t show ?thesis by fastforce
qed

lemma choose_target_set: "choose_target cmd vms term = Ok vm \<Longrightarrow> vms \<noteq> [] \<Longrightarrow> vm \<in> set vms"
  using prompt_attempts_set [of 3 "term" vms vm "snd (promptForVM term vms)"]
  by (cases "promptForVM term vms")
    (auto simp: choose_target_def promptForVM_def length_Suc_conv split: if_splits option.splits
      dest: FindByName_set)

lemma runtime_info_id [simp]: "vm_OpenstackID (runtime_info resolve vm) = vm_OpenstackID vm"
  by (simp add: runtime_info_def Let_def split: sum.splits)


definition tiny_network :: "EphemeralAuthorizedKeyRequest list vm_network" where
  "tiny_network = \<lparr>vn_GenerateKey = (\<lambda>w. (Some ''ssh-ed25519 A'', w)),
     vn_Register = (\<lambda>q w. (None, q # w)),
     vn_Delete = (\<lambda>q w. (None, filter (\<lambda>x. x \<noteq> q) w)),
     vn_Dial = (\<lambda>ip p w. (None, w)), vn_Handshake = (\<lambda>ip u k w. (None, w))\<rparr>"

lemma tiny_network_lawful:
  "lawful_network tiny_network (\<lambda>_ w. w) set" "deletes_succeed tiny_network"
  by (auto simp: lawful_network_def deletes_succeed_def tiny_network_def)

definition example_session_run :: "session_end \<times> db \<times> EphemeralAuthorizedKeyRequest list" where
  "example_session_run = handleSession tiny_network (\<lambda>_ w. w) [''ubuntu'']
     (\<lambda>_. Ok \<lparr>rt_Status = ''ACTIVE'', rt_FixedIPv4 = ''10.0.0.5''\<rparr>)
     [\<lparr>rq_Type = ''shell'', rq_Payload = []\<rparr>] [] ''a@x'' (example_vm_db, [])"


end
