(* ===== verification/Ip_Net.thy ===== *)
theory Ip_Net
  imports Rcp_Prelude
begin

text \<open>
  The parts of the Go packages \<^verbatim>\<open>net\<close> and \<^verbatim>\<open>net/netip\<close> that the proxy's allow list uses: parsing
  addresses and CIDR blocks, and membership. An address is its list of bytes, 4 or 16 of them.
\<close>

type_synonym ip = "nat list"

record IPNet =
  net_IP :: ip
  net_Mask :: ip

subsection \<open>Parsing addresses\<close>

text \<open>A field of a dotted address: digits without a leading zero, at most 255.\<close>

definition parse_octet :: "bytes \<Rightarrow> nat option" where
  "parse_octet s = (if s = [] \<or> \<not> list_all is_digit s \<or> (length s > 1 \<and> hd s = CHR ''0'') \<or> decimal s > 255
     then None else Some (nat (decimal s)))"

definition parseIPv4 :: "bytes \<Rightarrow> ip option" where
  "parseIPv4 s = (case map parse_octet (split_on CHR ''.'' s) of
     [Some a, Some b, Some c, Some d] \<Rightarrow> Some [a, b, c, d] | _ \<Rightarrow> None)"

text \<open>A group of up to four hexadecimal digits at the front, and the rest.\<close>

definition hex_group :: "bytes \<Rightarrow> (nat \<times> bytes) option" where
  "hex_group s = (let ds = takeWhile (\<lambda>c. hex_val c \<noteq> None) s; r = dropWhile (\<lambda>c. hex_val c \<noteq> None) s in
     if ds = [] \<or> length ds > 4 then None
     else Some (foldl (\<lambda>n c. 16 * n + the (hex_val c)) 0 ds, r))"

lemma hex_group_length: "hex_group s = Some (v, r) \<Longrightarrow> length r \<le> length s"
  by (auto simp: hex_group_def Let_def length_dropWhile_le split: if_splits)

text \<open>
  The loop of \<^verbatim>\<open>netip.parseIPv6\<close>: \<open>acc\<close> are the bytes so far, \<open>ell\<close> the position of the ellipsis.
  The result is the bytes and the ellipsis at the end of the string.
\<close>

function v6_groups :: "bytes \<Rightarrow> ip \<Rightarrow> nat option \<Rightarrow> (ip \<times> nat option) option" where
  "v6_groups s acc ell = (if length acc \<ge> 16 then None
     else case hex_group s of None \<Rightarrow> None
     | Some (v, r) \<Rightarrow>
        if r \<noteq> [] \<and> hd r = CHR ''.'' then
          (if (ell = None \<and> length acc \<noteq> 12) \<or> length acc + 4 > 16 then None
           else case parseIPv4 s of None \<Rightarrow> None | Some b \<Rightarrow> Some (acc @ b, ell))
        else let acc = acc @ [v div 256, v mod 256] in
          if r = [] then Some (acc, ell)
          else if hd r \<noteq> CHR '':'' \<or> length r = 1 then None
          else if hd (tl r) = CHR '':'' then
            (if ell \<noteq> None then None
             else if length r = 2 then Some (acc, Some (length acc))
             else v6_groups (drop 2 r) acc (Some (length acc)))
          else v6_groups (tl r) acc ell)"
  by pat_completeness auto
termination
  by (relation "measure (\<lambda>(s, acc, ell). length s)")
    (auto dest!: hex_group_length simp: neq_Nil_conv)

declare v6_groups.simps [simp del]

definition expand_ellipsis :: "ip \<times> nat option \<Rightarrow> ip option" where
  "expand_ellipsis = (\<lambda>(acc, ell). case ell of
     None \<Rightarrow> if length acc = 16 then Some acc else None
   | Some k \<Rightarrow> if length acc < 16 then Some (take k acc @ replicate (16 - length acc) 0 @ drop k acc) else None)"

text \<open>An address with a zone is refused by the caller, so it is refused here.\<close>

definition parseIPv6 :: "bytes \<Rightarrow> ip option" where
  "parseIPv6 s = (if CHR ''%'' \<in> set s then None
     else if HasPrefix s ''::'' then
       (if length s = 2 then Some (replicate 16 0)
        else case v6_groups (drop 2 s) [] (Some 0) of None \<Rightarrow> None | Some x \<Rightarrow> expand_ellipsis x)
     else (case v6_groups s [] None of None \<Rightarrow> None | Some x \<Rightarrow> expand_ellipsis x))"

definition ParseAddr :: "bytes \<Rightarrow> ip option" where
  "ParseAddr s = (case filter (\<lambda>c. c \<in> {CHR ''.'', CHR '':'', CHR ''%''}) s of
     [] \<Rightarrow> None
   | c # _ \<Rightarrow> if c = CHR ''.'' then parseIPv4 s else if c = CHR '':'' then parseIPv6 s else None)"

subsection \<open>Blocks\<close>

text \<open>\<^verbatim>\<open>CIDRMask\<close>: \<open>n\<close> leading one bits over \<open>k\<close> bytes.\<close>

fun CIDRMask :: "nat \<Rightarrow> nat \<Rightarrow> ip" where
  "CIDRMask n 0 = []"
| "CIDRMask n (Suc k) = (if n \<ge> 8 then 255 # CIDRMask (n - 8) k else (256 - 2 ^ (8 - n)) # CIDRMask 0 k)"

definition v4_in_v6 :: ip where
  "v4_in_v6 = replicate 10 0 @ [255, 255]"

definition To4 :: "ip \<Rightarrow> ip option" where
  "To4 a = (if length a = 4 then Some a
     else if length a = 16 \<and> take 12 a = v4_in_v6 then Some (drop 12 a) else None)"

definition mask_bytes :: "ip \<Rightarrow> ip \<Rightarrow> ip" where
  "mask_bytes m a = map2 (and) a m"

text \<open>The prefix length: decimal digits below 2 to the 24, nothing else.\<close>

definition dtoi_all :: "bytes \<Rightarrow> nat option" where
  "dtoi_all s = (if s = [] \<or> \<not> list_all is_digit s \<or> decimal s \<ge> 16777215 then None
     else Some (nat (decimal s)))"

definition ParseCIDR :: "bytes \<Rightarrow> IPNet option" where
  "ParseCIDR s = (case Cut CHR ''/'' s of (_, _, False) \<Rightarrow> None
   | (addr, bits, True) \<Rightarrow> (case ParseAddr addr of None \<Rightarrow> None
     | Some a \<Rightarrow> (case dtoi_all bits of None \<Rightarrow> None
       | Some n \<Rightarrow> if n > 8 * length a then None
           else Some \<lparr>net_IP = mask_bytes (CIDRMask n (length a)) a, net_Mask = CIDRMask n (length a)\<rparr>)))"

definition networkNumberAndMask :: "IPNet \<Rightarrow> (ip \<times> ip) option" where
  "networkNumberAndMask n = (let a = (case To4 (net_IP n) of Some b \<Rightarrow> b | None \<Rightarrow> net_IP n) in
     if length a \<noteq> 4 \<and> length a \<noteq> 16 then None
     else if length (net_Mask n) = 4 then (if length a \<noteq> 4 then None else Some (a, net_Mask n))
     else if length (net_Mask n) = 16 then
       Some (a, if length a = 4 then drop 12 (net_Mask n) else net_Mask n)
     else None)"

definition net_Contains :: "IPNet \<Rightarrow> ip \<Rightarrow> bool" where
  "net_Contains n a = (let a = (case To4 a of Some b \<Rightarrow> b | None \<Rightarrow> a) in
     case networkNumberAndMask n of None \<Rightarrow> a = []
     | Some (nn, m) \<Rightarrow> length a = length nn \<and> mask_bytes m nn = mask_bytes m a)"

subsection \<open>Membership is a comparison of numbers\<close>

fun ip_val :: "ip \<Rightarrow> nat" where
  "ip_val [] = 0"
| "ip_val (b # bs) = b * 256 ^ length bs + ip_val bs"

definition bytes_ok :: "ip \<Rightarrow> bool" where
  "bytes_ok a \<longleftrightarrow> (\<forall>b\<in>set a. b < 256)"

lemma and_high_bits:
  fixes a :: nat
  assumes "a < 256" and "j \<le> 8"
  shows "and a (256 - 2 ^ j) = (a div 2 ^ j) * 2 ^ j"
proof -
  have "(256 :: nat) - 2 ^ j = (2 ^ (8 - j) - 1) * 2 ^ j"
    using assms(2) by (simp add: diff_mult_distrib flip: power_add)
  then have m: "(256 :: nat) - 2 ^ j = push_bit j (mask (8 - j))"
    by (simp add: push_bit_eq_mult mask_eq_exp_minus_1)
  have "a = take_bit 8 a" using assms(1) by (simp add: take_bit_eq_mod)
  then have lt: "bit a n \<Longrightarrow> n < 8" for n by (metis bit_take_bit_iff)
  have lt2: "n - j < 8 - j" if "j \<le> n" "bit a n" for n
    using that lt [of n] by (intro diff_less_mono) auto
  have "and a (push_bit j (mask (8 - j))) = push_bit j (drop_bit j a)"
    by (rule bit_eqI) (auto simp: bit_and_iff bit_push_bit_iff bit_mask_iff bit_drop_bit_eq lt2)
  then show ?thesis by (simp add: m push_bit_eq_mult drop_bit_eq_div)
qed

lemma ip_val_bound: "bytes_ok a \<Longrightarrow> ip_val a < 256 ^ length a"
proof (induction a)
  case (Cons b bs)
  then have "b \<le> 255" "ip_val bs < 256 ^ length bs" by (auto simp: bytes_ok_def)
  then have "b * 256 ^ length bs + ip_val bs < 255 * 256 ^ length bs + 256 ^ length bs"
    by (meson add_le_less_mono mult_le_mono1)
  then show ?case by simp
qed simp

lemma mask_zero: "map2 (and) a (CIDRMask 0 (length a)) = replicate (length a) 0" if "bytes_ok a" for a
  using that and_high_bits [of _ 8] by (induction a) (auto simp: bytes_ok_def)

lemma and_all_ones: "b < 256 \<Longrightarrow> and b 255 = (b :: nat)"
  using and_high_bits [of b 0] by simp

lemma div_shift:
  fixes x v :: nat
  assumes "m \<le> K"
  shows "(x * 2 ^ K + v) div 2 ^ m = x * 2 ^ (K - m) + v div 2 ^ m"
proof -
  have "x * 2 ^ K = 2 ^ m * (x * 2 ^ (K - m))" using assms by (simp flip: power_add)
  then have "(x * 2 ^ K + v) div 2 ^ m = (v + 2 ^ m * (x * 2 ^ (K - m))) div 2 ^ m"
    by (simp only: add.commute)
  also have "\<dots> = x * 2 ^ (K - m) + v div 2 ^ m" by (rule div_mult_self2) simp
  finally show ?thesis .
qed

lemma pair_eq:
  fixes x y v w B :: nat
  assumes "v < B" "w < B"
  shows "x * B + v = y * B + w \<longleftrightarrow> x = y \<and> v = w"
proof
  assume e: "x * B + v = y * B + w"
  from assms have "(x * B + v) div B = x" "(y * B + w) div B = y" by simp_all
  with e show "x = y \<and> v = w" by simp
qed simp

text \<open>
  Two addresses agree under the mask of length \<open>n\<close> exactly when the numbers they stand for agree
  above the lowest \<open>8 * length - n\<close> bits.
\<close>

lemma mask_bytes_eq:
  assumes "length a = length b" "bytes_ok a" "bytes_ok b" "n \<le> 8 * length a"
  shows "mask_bytes (CIDRMask n (length a)) a = mask_bytes (CIDRMask n (length a)) b
    \<longleftrightarrow> ip_val a div 2 ^ (8 * length a - n) = ip_val b div 2 ^ (8 * length a - n)"
  using assms
proof (induction a b arbitrary: n rule: list_induct2)
  case (Cons x xs y ys)
  have lt: "x < 256" "y < 256" and ok: "bytes_ok xs" "bytes_ok ys"
    using Cons.prems by (auto simp: bytes_ok_def)
  let ?K = "8 * length xs"
  have v: "ip_val (x # xs) = x * 2 ^ ?K + ip_val xs" "ip_val (y # ys) = y * 2 ^ ?K + ip_val ys"
    using Cons.hyps by (simp_all add: power_mult)
  have p: "(256 :: nat) ^ length xs = 2 ^ ?K" by (simp add: power_mult)
  have b: "ip_val xs < 2 ^ ?K" "ip_val ys < 2 ^ ?K"
    using ip_val_bound [OF ok(1)] ip_val_bound [OF ok(2)] Cons.hyps p by simp_all
  show ?case
  proof (cases "n \<ge> 8")
    case True
    let ?m = "?K - (n - 8)"
    have m: "8 * length (x # xs) - n = ?m" "?m \<le> ?K" using True by auto
    have small: "ip_val xs div 2 ^ ?m < 2 ^ (?K - ?m)" "ip_val ys div 2 ^ ?m < 2 ^ (?K - ?m)"
      using b m(2) by (simp_all add: less_mult_imp_div_less flip: power_add)
    have "mask_bytes (CIDRMask n (length (x # xs))) (x # xs) = mask_bytes (CIDRMask n (length (x # xs))) (y # ys)
        \<longleftrightarrow> x = y \<and> ip_val xs div 2 ^ ?m = ip_val ys div 2 ^ ?m"
      using True Cons.IH [of "n - 8"] ok Cons.prems(3) lt by (simp add: mask_bytes_def and_all_ones)
    then show ?thesis
      unfolding m(1) v div_shift [OF m(2)] pair_eq [OF small] .
  next
    case False
    let ?j = "8 - n"
    have e: "8 * length (x # xs) - n = ?K + ?j" using False by auto
    have d: "(x * 2 ^ ?K + ip_val xs) div 2 ^ (?K + ?j) = x div 2 ^ ?j"
      "(y * 2 ^ ?K + ip_val ys) div 2 ^ (?K + ?j) = y div 2 ^ ?j"
      using b by (simp_all add: power_add div_mult2_eq)
    have "mask_bytes (CIDRMask n (length (x # xs))) (x # xs) = mask_bytes (CIDRMask n (length (x # xs))) (y # ys)
        \<longleftrightarrow> x div 2 ^ ?j = y div 2 ^ ?j"
      using False lt ok Cons.hyps mask_zero [OF ok(1)] mask_zero [OF ok(2)]
      by (simp add: mask_bytes_def and_high_bits)
    then show ?thesis unfolding e v d .
  qed
qed (simp add: mask_bytes_def)

lemma parse_octet_bound: "parse_octet s = Some b \<Longrightarrow> b < 256"
  by (auto simp: parse_octet_def split: if_splits)

lemma parseIPv4_ok: "parseIPv4 s = Some a \<Longrightarrow> length a = 4 \<and> bytes_ok a"
  by (auto simp: parseIPv4_def bytes_ok_def split: list.splits option.splits dest!: parse_octet_bound)

lemma length_CIDRMask [simp]: "length (CIDRMask n k) = k"
  by (induction n k rule: CIDRMask.induct) auto

lemma mask_bytes_idem [simp]: "mask_bytes m (mask_bytes m a) = mask_bytes m a"
  unfolding mask_bytes_def
  by (induction a m rule: list_induct2') (auto simp: and.assoc)

lemma length_mask_bytes [simp]: "length (mask_bytes m a) = min (length a) (length m)"
  by (simp add: mask_bytes_def)

text \<open>Membership in an IPv4 block, as its text says it.\<close>

lemma net_Contains_v4:
  assumes "ParseCIDR s = Some N" and "CHR '':'' \<notin> set s" and "length b = 4" and "bytes_ok b"
  shows "\<exists>addr bits a n. s = addr @ CHR ''/'' # bits \<and> parseIPv4 addr = Some a
    \<and> dtoi_all bits = Some n \<and> n \<le> 32
    \<and> (net_Contains N b \<longleftrightarrow> ip_val b div 2 ^ (32 - n) = ip_val a div 2 ^ (32 - n))"
proof -
  obtain addr bits a n where c: "Cut CHR ''/'' s = (addr, bits, True)" "ParseAddr addr = Some a"
    "dtoi_all bits = Some n" "n \<le> 8 * length a"
    "N = \<lparr>net_IP = mask_bytes (CIDRMask n (length a)) a, net_Mask = CIDRMask n (length a)\<rparr>"
    using assms(1) by (auto simp: ParseCIDR_def split: prod.splits bool.splits option.splits if_splits)
  note s = Cut_found [OF c(1)]
  have "CHR '':'' \<notin> set addr" using s assms(2) by auto
  with c(2) have v4: "parseIPv4 addr = Some a"
    by (auto simp: ParseAddr_def filter_eq_Cons_iff split: list.splits if_splits)
  then have a: "length a = 4" "bytes_ok a" using parseIPv4_ok by auto
  have "net_Contains N b \<longleftrightarrow> mask_bytes (CIDRMask n 4) a = mask_bytes (CIDRMask n 4) b"
    using c(5) a(1) assms(3) by (simp add: net_Contains_def networkNumberAndMask_def To4_def Let_def)
  also have "\<dots> \<longleftrightarrow> ip_val b div 2 ^ (32 - n) = ip_val a div 2 ^ (32 - n)"
    using mask_bytes_eq [of a b n] a assms(3,4) c(4) by auto
  finally show ?thesis using s v4 c(3,4) a(1) by auto
qed

end
