(* ===== verification/Env_Config.thy ===== *)
theory Env_Config
  imports Rcp_Prelude
begin

text \<open>
  Configuration from the environment: \<^verbatim>\<open>internal/utils/config.go\<close> and the \<^verbatim>\<open>LoadConfig\<close> functions
  of the SSH gateway and the app gateway (the proxy's is in its own theory). \<open>get\<close> is the lookup
  function the code takes as an argument. Durations are nanoseconds.
\<close>

datatype config_err = NotAnInt bytes | BadDuration bytes | NotPositive bytes | NotAbsolute bytes
  | BadLogLevel bytes | Required bytes | BadDSN | BadCIDRs

subsection \<open>time.ParseDuration\<close>

definition second :: int where "second = 1000000000"
definition minute :: int where "minute = 60 * second"

definition duration_unit :: "bytes \<Rightarrow> int option" where
  "duration_unit u = map_of [(''ns'', 1), (''us'', 1000), (map char_of [0xC2, 0xB5, 0x73 :: nat], 1000),
     (map char_of [0xCE, 0xBC, 0x73 :: nat], 1000), (''ms'', 1000000), (''s'', second), (''m'', minute),
     (''h'', 60 * minute)] u"

text \<open>Leading digits, refused above 2 to the 63.\<close>

definition leadingInt :: "bytes \<Rightarrow> (int \<times> bytes) option" where
  "leadingInt s = (let ds = takeWhile is_digit s in
     if decimal ds > 2 ^ 63 then None else Some (decimal ds, dropWhile is_digit s))"

text \<open>Digits of a fraction, as many as fit below 2 to the 63, with their scale; the rest are dropped.\<close>

fun fraction_digits :: "bytes \<Rightarrow> int \<Rightarrow> int \<Rightarrow> int \<times> int" where
  "fraction_digits [] x scale = (x, scale)"
| "fraction_digits (d # ds) x scale = (if x > (2 ^ 63 - 1) div 10 \<or> 10 * x + digit_val d > 2 ^ 63
     then (x, scale) else fraction_digits ds (10 * x + digit_val d) (10 * scale))"

text \<open>
  One term (number and unit) of a duration. \<open>fp f scale unit\<close> is the double-precision product of the
  fraction and the unit, rounded towards zero.
\<close>

definition duration_term :: "(int \<Rightarrow> int \<Rightarrow> int \<Rightarrow> int) \<Rightarrow> bytes \<Rightarrow> (int \<times> bytes) option" where
  "duration_term fp s =
     (if s = [] \<or> \<not> (is_digit (hd s) \<or> hd s = CHR ''.'') then None
      else case leadingInt s of None \<Rightarrow> None
      | Some (v, r) \<Rightarrow>
         let pre = (length r \<noteq> length s);
             dot = (r \<noteq> [] \<and> hd r = CHR ''.'');
             fs = (if dot then takeWhile is_digit (tl r) else []);
             (f, scale) = fraction_digits fs 0 1;
             r = (if dot then dropWhile is_digit (tl r) else r);
             u = takeWhile (\<lambda>c. \<not> (c = CHR ''.'' \<or> is_digit c)) r;
             r = dropWhile (\<lambda>c. \<not> (c = CHR ''.'' \<or> is_digit c)) r in
         if \<not> pre \<and> fs = [] then None
         else if u = [] then None
         else case duration_unit u of None \<Rightarrow> None
           | Some unit \<Rightarrow> if v > 2 ^ 63 div unit then None
               else let v = v * unit + (if f > 0 then fp f scale unit else 0) in
                 if v > 2 ^ 63 then None else Some (v, r))"

lemma duration_term_shorter: "duration_term fp s = Some (v, r) \<Longrightarrow> length r < length s"
proof -
  assume a: "duration_term fp s = Some (v, r)"
  let ?u = "\<lambda>c. \<not> (c = CHR ''.'' \<or> is_digit c)"
  let ?r0 = "dropWhile is_digit s"
  define r1 where "r1 = (if ?r0 \<noteq> [] \<and> hd ?r0 = CHR ''.'' then dropWhile is_digit (tl ?r0) else ?r0)"
  from a have "r = dropWhile ?u r1" "takeWhile ?u r1 \<noteq> []"
    by (auto simp: duration_term_def leadingInt_def Let_def r1_def split: option.splits if_splits prod.splits)
  then have "length r < length r1"
    by (metis length_append length_greater_0_conv less_add_same_cancel2 takeWhile_dropWhile_id)
  also have "length r1 \<le> length ?r0"
    unfolding r1_def by (auto intro: order_trans [OF length_dropWhile_le])
  also have "\<dots> \<le> length s" by (rule length_dropWhile_le)
  finally show ?thesis .
qed

function duration_sum :: "(int \<Rightarrow> int \<Rightarrow> int \<Rightarrow> int) \<Rightarrow> bytes \<Rightarrow> int \<Rightarrow> int option" where
  "duration_sum fp s d = (if s = [] then Some d
     else case duration_term fp s of None \<Rightarrow> None
     | Some (v, r) \<Rightarrow> if d + v > 2 ^ 63 then None else duration_sum fp r (d + v))"
  by pat_completeness auto
termination
  by (relation "measure (\<lambda>(fp, s, d). length s)") (auto dest: duration_term_shorter)

declare duration_sum.simps [simp del]

definition ParseDuration :: "(int \<Rightarrow> int \<Rightarrow> int \<Rightarrow> int) \<Rightarrow> bytes \<Rightarrow> int option" where
  "ParseDuration fp s = (let neg = (s \<noteq> [] \<and> hd s = CHR ''-'');
       t = (if s \<noteq> [] \<and> (hd s = CHR ''-'' \<or> hd s = CHR ''+'') then tl s else s) in
     if t = ''0'' then Some 0
     else if t = [] then None
     else case duration_sum fp t 0 of None \<Rightarrow> None
       | Some d \<Rightarrow> if neg then Some (- d) else if d > 2 ^ 63 - 1 then None else Some d)"

subsection \<open>Environment variables\<close>

type_synonym getenv = "bytes \<Rightarrow> bytes"

definition EnvInt :: "getenv \<Rightarrow> bytes \<Rightarrow> int \<Rightarrow> config_err + int" where
  "EnvInt get key def = (let v = get key in
     if v = [] then Ok def
     else case Atoi v of None \<Rightarrow> Err (NotAnInt key) | Some n \<Rightarrow> Ok n)"

definition envDuration :: "(int \<Rightarrow> int \<Rightarrow> int \<Rightarrow> int) \<Rightarrow> getenv \<Rightarrow> bytes \<Rightarrow> int \<Rightarrow> config_err + int" where
  "envDuration fp get key def = (let v = get key in
     if v = [] then Ok def
     else case ParseDuration fp v of None \<Rightarrow> Err (BadDuration key) | Some d \<Rightarrow> Ok d)"

definition EnvPositiveDuration :: "(int \<Rightarrow> int \<Rightarrow> int \<Rightarrow> int) \<Rightarrow> getenv \<Rightarrow> bytes \<Rightarrow> int \<Rightarrow> config_err + int" where
  "EnvPositiveDuration fp get key def = rbind (envDuration fp get key def)
     (\<lambda>d. if d \<le> 0 then Err (NotPositive key) else Ok d)"

definition IsAbs :: "bytes \<Rightarrow> bool" where
  "IsAbs p \<longleftrightarrow> HasPrefix p ''/''"

definition EnvSockPath :: "getenv \<Rightarrow> bytes \<Rightarrow> bytes \<Rightarrow> config_err + bytes" where
  "EnvSockPath get key def = (let raw = get key; v = TrimSpace raw in
     if raw \<noteq> [] \<and> v = [] then Err (NotAbsolute key)
     else let v = (if v = [] then def else v) in
       if \<not> IsAbs v then Err (NotAbsolute key) else Ok v)"

definition EnvLogLevel :: "getenv \<Rightarrow> bytes \<Rightarrow> bytes \<Rightarrow> config_err + bytes" where
  "EnvLogLevel get key def = (let v = ToLower (TrimSpace (get key)) in
     if v = [] then Ok def
     else if v \<in> {''debug'', ''info'', ''warn'', ''error''} then Ok v else Err (BadLogLevel key))"

lemma EnvPositiveDuration_pos: "EnvPositiveDuration fp get key def = Ok d \<Longrightarrow> 0 < d"
  by (auto simp: EnvPositiveDuration_def rbind_Ok split: if_splits)

lemma EnvSockPath_abs: "EnvSockPath get key def = Ok v \<Longrightarrow> IsAbs v"
  by (auto simp: EnvSockPath_def Let_def split: if_splits)

lemma EnvLogLevel_valid:
  "EnvLogLevel get key def = Ok v \<Longrightarrow> def \<in> {''debug'', ''info'', ''warn'', ''error''} \<Longrightarrow>
   v \<in> {''debug'', ''info'', ''warn'', ''error''}"
  by (auto simp: EnvLogLevel_def Let_def split: if_splits)

lemma EnvInt_range:
  "EnvInt get key def = Ok n \<Longrightarrow> - (2 ^ 63) \<le> def \<Longrightarrow> def < 2 ^ 63 \<Longrightarrow> - (2 ^ 63) \<le> n \<and> n < 2 ^ 63"
  using Atoi_range by (fastforce simp: EnvInt_def Let_def split: if_splits option.splits)

subsection \<open>The SSH gateway\<close>

record ssh_Config =
  sc_Listen :: bytes
  sc_HostKeyPath :: bytes
  sc_KnownHostsPath :: bytes
  sc_NotifySock :: bytes
  sc_NotifySecret :: bytes
  sc_NsProxySock :: bytes
  sc_AuthURLBase :: bytes
  sc_APIURLBase :: bytes
  sc_NonceTTL :: int
  sc_MaxPendingSessions :: int
  sc_MaxConns :: int
  sc_FixedNetworkName :: bytes
  sc_VMUsers :: "bytes list"
  sc_DBDriver :: bytes
  sc_DBDSN :: bytes
  sc_DBPath :: bytes
  sc_LogLevel :: bytes

definition ssh_validateGatewayDBDSN :: "bytes \<Rightarrow> bytes \<Rightarrow> config_err option" where
  "ssh_validateGatewayDBDSN driver dsn =
     (if \<not> EqualFold (TrimSpace driver) ''sqlite3'' then None
      else let clean = TrimSpace dsn;
               path = (if HasPrefix clean ''file:'' then fst (Cut CHR ''?'' (TrimPrefix clean ''file:'')) else clean) in
        if IsAbs path then None else Some BadDSN)"

fun dedup_users :: "bytes list \<Rightarrow> bytes list \<Rightarrow> bytes list" where
  "dedup_users seen [] = []"
| "dedup_users seen (p # ps) = (let user = TrimSpace p in
     if user = [] \<or> user \<in> set seen then dedup_users seen ps else user # dedup_users (user # seen) ps)"

definition parseVMUsers :: "getenv \<Rightarrow> bytes list" where
  "parseVMUsers get = (let raw = TrimSpace (get ''RCP_SSH_GW_VM_USERS'');
       raw = (if raw = [] then ''ubuntu,rocky'' else raw);
       users = dedup_users [] (split_on CHR '','' raw) in
     if users = [] then [''ubuntu'', ''rocky''] else users)"

definition require :: "bool \<Rightarrow> config_err \<Rightarrow> config_err + unit" where
  "require b e = (if b then Ok () else Err e)"

definition ssh_db_settings :: "getenv \<Rightarrow> config_err + bytes \<times> bytes" where
  "ssh_db_settings get = (let dbDSN = TrimSpace (get ''DB_DSN'') in
     if dbDSN \<noteq> [] then Ok (dbDSN, [])
     else if TrimSpace (get ''RCP_SSH_GW_DB_PATH'') = [] then Err (Required ''RCP_SSH_GW_DB_PATH or DB_DSN'')
     else rbind (EnvSockPath get ''RCP_SSH_GW_DB_PATH'' []) (\<lambda>p.
       Ok (''file:'' @ p @ ''?mode=ro&cache=shared&_pragma=foreign_keys(1)&_pragma=busy_timeout(5000)'', p)))"

definition ssh_LoadConfig :: "(int \<Rightarrow> int \<Rightarrow> int \<Rightarrow> int) \<Rightarrow> getenv \<Rightarrow> config_err + ssh_Config" where
  "ssh_LoadConfig fp get = (let listen = TrimSpace (get ''RCP_SSH_GW_LISTEN'');
       listen = (if listen = [] then ''127.0.0.1:2222'' else listen) in
     rbind (EnvSockPath get ''RCP_SSH_GW_HOST_KEY_PATH'' ''/etc/rcp/ssh-gateway/host_ed25519'') (\<lambda>hostKey.
     rbind (EnvSockPath get ''RCP_SSH_GW_KNOWN_HOSTS_PATH'' ''/etc/rcp/ssh-gateway/known_hosts'') (\<lambda>knownHosts.
     rbind (EnvSockPath get ''RCP_SSH_GW_NOTIFY_SOCK'' ''/run/rcp/ssh-gateway-notify.sock'') (\<lambda>notifySock.
     rbind (EnvSockPath get ''RCP_NS_PROXY_SOCK'' ''/run/rcp/ns-proxy.sock'') (\<lambda>nsProxySock.
     let notifySecret = TrimSpace (get ''RCP_SSH_GW_NOTIFY_SECRET'') in
     rbind (require (notifySecret \<noteq> []) (Required ''RCP_SSH_GW_NOTIFY_SECRET'')) (\<lambda>_.
     let authURL = TrimRight CHR ''/'' (TrimSpace (get ''RCP_SSH_GW_AUTH_URL_BASE'')) in
     rbind (require (authURL \<noteq> []) (Required ''RCP_SSH_GW_AUTH_URL_BASE'')) (\<lambda>_.
     let apiURL = TrimRight CHR ''/'' (TrimSpace (get ''RCP_SSH_GW_API_URL_BASE'')) in
     rbind (require (apiURL \<noteq> []) (Required ''RCP_SSH_GW_API_URL_BASE'')) (\<lambda>_.
     let dbDriver = TrimSpace (get ''DB_DRIVER''); dbDriver = (if dbDriver = [] then ''sqlite3'' else dbDriver) in
     rbind (ssh_db_settings get) (\<lambda>(dbDSN, dbPath).
     rbind (require (ssh_validateGatewayDBDSN dbDriver dbDSN = None) BadDSN) (\<lambda>_.
     rbind (EnvPositiveDuration fp get ''RCP_SSH_GW_NONCE_TTL'' (5 * minute)) (\<lambda>ttl.
     rbind (EnvInt get ''RCP_SSH_GW_MAX_PENDING_SESSIONS'' 1024) (\<lambda>maxPending.
     rbind (require (maxPending > 0) (NotPositive ''RCP_SSH_GW_MAX_PENDING_SESSIONS'')) (\<lambda>_.
     rbind (EnvInt get ''RCP_SSH_GW_MAX_CONNS'' 256) (\<lambda>maxConns.
     rbind (require (maxConns > 0) (NotPositive ''RCP_SSH_GW_MAX_CONNS'')) (\<lambda>_.
     rbind (EnvLogLevel get ''RCP_SSH_GW_LOG_LEVEL'' ''info'') (\<lambda>logLevel.
     Ok \<lparr>sc_Listen = listen, sc_HostKeyPath = hostKey, sc_KnownHostsPath = knownHosts,
       sc_NotifySock = notifySock, sc_NotifySecret = notifySecret, sc_NsProxySock = nsProxySock,
       sc_AuthURLBase = authURL, sc_APIURLBase = apiURL, sc_NonceTTL = ttl,
       sc_MaxPendingSessions = maxPending, sc_MaxConns = maxConns,
       sc_FixedNetworkName = TrimSpace (get ''RCP_SSH_GW_FIXED_NETWORK''),
       sc_VMUsers = parseVMUsers get, sc_DBDriver = dbDriver, sc_DBDSN = dbDSN, sc_DBPath = dbPath,
       sc_LogLevel = logLevel\<rparr>))))))))))))))))"

lemma require_Ok [simp]: "require b e = Ok u \<longleftrightarrow> b"
  by (simp add: require_def)

lemma dedup_users_ok: "distinct (dedup_users seen ps) \<and> [] \<notin> set (dedup_users seen ps)
    \<and> set (dedup_users seen ps) \<inter> set seen = {}"
  by (induction seen ps rule: dedup_users.induct) (auto simp: Let_def)

lemma parseVMUsers_ok: "parseVMUsers get \<noteq> [] \<and> distinct (parseVMUsers get) \<and> [] \<notin> set (parseVMUsers get)"
  using dedup_users_ok [of "[]"] by (auto simp: parseVMUsers_def Let_def)

text \<open>
  A loaded configuration of the SSH gateway is usable: the limits and the lifetime are positive,
  the secret shared with the API and both base URLs are set, all socket and key paths are absolute,
  and there is at least one VM user to try, none of them empty or repeated.
\<close>

theorem ssh_LoadConfig_valid:
  assumes "ssh_LoadConfig fp get = Ok c"
  shows "0 < sc_MaxPendingSessions c \<and> 0 < sc_MaxConns c \<and> 0 < sc_NonceTTL c
    \<and> sc_NotifySecret c \<noteq> [] \<and> sc_AuthURLBase c \<noteq> [] \<and> sc_APIURLBase c \<noteq> []
    \<and> IsAbs (sc_HostKeyPath c) \<and> IsAbs (sc_KnownHostsPath c) \<and> IsAbs (sc_NotifySock c) \<and> IsAbs (sc_NsProxySock c)
    \<and> sc_VMUsers c \<noteq> [] \<and> distinct (sc_VMUsers c) \<and> [] \<notin> set (sc_VMUsers c)
    \<and> sc_LogLevel c \<in> {''debug'', ''info'', ''warn'', ''error''}
    \<and> ssh_validateGatewayDBDSN (sc_DBDriver c) (sc_DBDSN c) = None"
  using assms parseVMUsers_ok [of get] unfolding ssh_LoadConfig_def Let_def
  by (elim rbind_OkE) (auto dest: EnvPositiveDuration_pos EnvSockPath_abs EnvLogLevel_valid elim!: rbind_OkE)

definition example_env :: getenv where
  "example_env k = (case map_of [(''RCP_SSH_GW_NOTIFY_SECRET'', ''s''), (''RCP_SSH_GW_AUTH_URL_BASE'', ''https://a''),
     (''RCP_SSH_GW_API_URL_BASE'', ''https://b''), (''DB_DSN'', ''/d'')] k of Some v \<Rightarrow> v | None \<Rightarrow> [])"

theorem ssh_LoadConfig_valid_witness:
  "\<exists>c. ssh_LoadConfig (\<lambda>_ _ _. 0) example_env = Ok c \<and> 0 < sc_MaxConns c \<and> sc_VMUsers c \<noteq> []"
proof -
  have t: "TrimSpace ''s'' = ''s''" "TrimSpace ''https://a'' = ''https://a''"
    "TrimSpace ''https://b'' = ''https://b''" "TrimSpace ''/d'' = ''/d''"
    by (simp_all add: trim_eval)
  have sock: "EnvSockPath example_env k p = Ok p" if "example_env k = []" "IsAbs p" for k p
    using that by (simp add: EnvSockPath_def)
  have dsn: "ssh_validateGatewayDBDSN ''sqlite3'' ''/d'' = None"
    by (simp add: ssh_validateGatewayDBDSN_def t IsAbs_def HasPrefix_def)
  have env: "example_env ''RCP_SSH_GW_NOTIFY_SECRET'' = ''s''" "example_env ''RCP_SSH_GW_AUTH_URL_BASE'' = ''https://a''"
    "example_env ''RCP_SSH_GW_API_URL_BASE'' = ''https://b''" "example_env ''DB_DSN'' = ''/d''"
    "example_env ''DB_DRIVER'' = []" "example_env ''RCP_SSH_GW_NONCE_TTL'' = []"
    "example_env ''RCP_SSH_GW_MAX_PENDING_SESSIONS'' = []" "example_env ''RCP_SSH_GW_MAX_CONNS'' = []"
    "example_env ''RCP_SSH_GW_LOG_LEVEL'' = []"
    by (simp_all add: example_env_def)
  have "is_ok (ssh_LoadConfig (\<lambda>_ _ _. 0) example_env)"
    unfolding ssh_LoadConfig_def Let_def
    by (subst sock, simp add: example_env_def, simp add: IsAbs_def HasPrefix_def)+
      (simp add: ssh_db_settings_def env t dsn require_def EnvPositiveDuration_def envDuration_def
        EnvInt_def EnvLogLevel_def minute_def second_def)
  then obtain c where c: "ssh_LoadConfig (\<lambda>_ _ _. 0) example_env = Ok c" by (auto simp: is_ok_iff)
  then show ?thesis using ssh_LoadConfig_valid [OF c] by blast
qed

subsection \<open>The app gateway\<close>

record app_Config =
  ag_Listen :: bytes
  ag_NsProxySock :: bytes
  ag_FixedNetworkName :: bytes
  ag_DBDriver :: bytes
  ag_DBDSN :: bytes
  ag_ReadTimeout :: int
  ag_ShutdownTimeout :: int
  ag_FixedIPCacheTTL :: int
  ag_LogLevel :: bytes

definition app_validateGatewayDBDSN :: "bytes \<Rightarrow> bytes \<Rightarrow> config_err option" where
  "app_validateGatewayDBDSN driver dsn =
     (if TrimSpace driver = [] then Some (Required ''DB_DRIVER'')
      else if TrimSpace dsn = [] then Some (Required ''DB_DSN'') else None)"

definition app_LoadConfig :: "(int \<Rightarrow> int \<Rightarrow> int \<Rightarrow> int) \<Rightarrow> getenv \<Rightarrow> config_err + app_Config" where
  "app_LoadConfig fp get = (let port = TrimSpace (get ''APP_GATEWAY_PORT'');
       port = (if port = [] then ''18080'' else port);
       listen = (if Contains port '':'' then port else '':'' @ TrimPrefix port '':'');
       dbDriver = TrimSpace (get ''DB_DRIVER''); dbDriver = (if dbDriver = [] then ''sqlite3'' else dbDriver);
       dbDSN = TrimSpace (get ''DB_DSN'');
       dbDSN = (if dbDSN = [] then
         ''file:rcp.db?mode=ro&cache=shared&_pragma=foreign_keys(1)&_pragma=busy_timeout(5000)'' else dbDSN) in
     rbind (EnvSockPath get ''RCP_NS_PROXY_SOCK'' ''/run/rcp/ns-proxy.sock'') (\<lambda>nsProxySock.
     rbind (case app_validateGatewayDBDSN dbDriver dbDSN of None \<Rightarrow> Ok () | Some e \<Rightarrow> Err e) (\<lambda>_.
     rbind (EnvPositiveDuration fp get ''RCP_APP_GW_READ_TIMEOUT'' (30 * second)) (\<lambda>readTimeout.
     rbind (EnvPositiveDuration fp get ''RCP_APP_GW_SHUTDOWN_TIMEOUT'' (30 * second)) (\<lambda>shutdownTimeout.
     rbind (EnvPositiveDuration fp get ''RCP_APP_GW_FIXED_IP_CACHE_TTL'' (5 * minute)) (\<lambda>fixedIPCacheTTL.
     rbind (EnvLogLevel get ''RCP_APP_GW_LOG_LEVEL'' ''info'') (\<lambda>logLevel.
     Ok \<lparr>ag_Listen = listen, ag_NsProxySock = nsProxySock,
       ag_FixedNetworkName = TrimSpace (get ''RCP_APP_GW_FIXED_NETWORK''), ag_DBDriver = dbDriver,
       ag_DBDSN = dbDSN, ag_ReadTimeout = readTimeout, ag_ShutdownTimeout = shutdownTimeout,
       ag_FixedIPCacheTTL = fixedIPCacheTTL, ag_LogLevel = logLevel\<rparr>)))))))"

lemma app_LoadConfig_valid:
  assumes "app_LoadConfig fp get = Ok c"
  shows "0 < ag_ReadTimeout c \<and> 0 < ag_ShutdownTimeout c \<and> 0 < ag_FixedIPCacheTTL c
    \<and> IsAbs (ag_NsProxySock c) \<and> Contains (ag_Listen c) '':''"
proof -
  have "Contains ('':'' @ t) '':''" for t by (metis Contains_iff append_Nil)
  with assms show ?thesis unfolding app_LoadConfig_def Let_def
    by (elim rbind_OkE) (auto dest!: EnvPositiveDuration_pos EnvSockPath_abs)
qed

end
