(* ===== verification/Ns_Proxy.thy ===== *)
theory Ns_Proxy
  imports Ip_Net Env_Config
begin

text \<open>
  The SOCKS5 proxy into the instances' network, \<^verbatim>\<open>cmd/ns-proxy\<close>: the allow list of destinations,
  the rule that applies it, the configuration, and the accept loop with its connection limit and
  shutdown. The SOCKS5 protocol itself is a library; the rule is the code's part in it.
\<close>

subsection \<open>Allow list\<close>

fun parse_all_cidrs :: "bytes list \<Rightarrow> IPNet list option" where
  "parse_all_cidrs [] = Some []"
| "parse_all_cidrs (p # ps) = (let trimmed = TrimSpace p in
     if trimmed = [] then None
     else case ParseCIDR trimmed of None \<Rightarrow> None
       | Some n \<Rightarrow> map_option (\<lambda>ns. n # ns) (parse_all_cidrs ps))"

definition ParseCIDRs :: "bytes \<Rightarrow> IPNet list option" where
  "ParseCIDRs spec = (if TrimSpace spec = [] then None else parse_all_cidrs (split_on CHR '','' spec))"

definition Allowlist_Contains :: "IPNet list \<Rightarrow> ip \<Rightarrow> bool" where
  "Allowlist_Contains cidrs a = list_ex (\<lambda>n. net_Contains n a) cidrs"

text \<open>Commands of the SOCKS5 protocol: 1 is CONNECT, 2 BIND, 3 UDP ASSOCIATE. A nil address is \<open>None\<close>.\<close>

definition Allow :: "IPNet list \<Rightarrow> nat \<Rightarrow> ip option \<Rightarrow> bool" where
  "Allow cidrs command dest = (if command \<noteq> 1 then False
     else case dest of None \<Rightarrow> False
       | Some a \<Rightarrow> (case To4 a of None \<Rightarrow> False | Some a4 \<Rightarrow> Allowlist_Contains cidrs a4))"

text \<open>\<open>looked_up\<close> is what the system's resolver returns for the name.\<close>

definition ipv4_Resolve :: "(bytes + ip list) \<Rightarrow> bytes + ip" where
  "ipv4_Resolve looked_up = (case looked_up of Err e \<Rightarrow> Err e
     | Ok ips \<Rightarrow> (case List.map_filter To4 ips of [] \<Rightarrow> Err ''no IPv4 address'' | v4 # _ \<Rightarrow> Ok v4))"

lemma parse_all_cidrs_Some:
  "parse_all_cidrs ps = Some ns \<Longrightarrow>
   length ns = length ps \<and> (\<forall>i<length ps. ParseCIDR (TrimSpace (ps ! i)) = Some (ns ! i))"
  by (induction ps arbitrary: ns)
    (auto simp: Let_def less_Suc_eq_0_disj split: if_splits option.splits)

lemma parse_all_cidrs_set:
  assumes "parse_all_cidrs ps = Some ns"
  shows "N \<in> set ns \<longleftrightarrow> (\<exists>p\<in>set ps. ParseCIDR (TrimSpace p) = Some N)"
  using parse_all_cidrs_Some [OF assms] by (metis in_set_conv_nth option.inject)

text \<open>The text of an IPv4 block, and the addresses it covers as numbers.\<close>

definition v4_block_covers :: "bytes \<Rightarrow> ip \<Rightarrow> bool" where
  "v4_block_covers s b \<longleftrightarrow> (\<exists>addr bits a n. s = addr @ CHR ''/'' # bits \<and> parseIPv4 addr = Some a
     \<and> dtoi_all bits = Some n \<and> n \<le> 32 \<and> ip_val b div 2 ^ (32 - n) = ip_val a div 2 ^ (32 - n))"

lemma net_Contains_block:
  assumes "ParseCIDR s = Some N" and "CHR '':'' \<notin> set s" and "length b = 4" and "bytes_ok b"
  shows "net_Contains N b \<longleftrightarrow> v4_block_covers s b"
proof -
  from net_Contains_v4 [OF assms] obtain addr bits a n where
    s: "s = addr @ CHR ''/'' # bits" "parseIPv4 addr = Some a" "dtoi_all bits = Some n" "n \<le> 32"
    and c: "net_Contains N b \<longleftrightarrow> ip_val b div 2 ^ (32 - n) = ip_val a div 2 ^ (32 - n)" by blast
  have no: "CHR ''/'' \<notin> set addr" if "parseIPv4 addr = Some a" for addr a
  proof
    assume "CHR ''/'' \<in> set addr"
    then obtain w where w: "w \<in> set (split_on CHR ''.'' addr)" "CHR ''/'' \<in> set w"
      using split_on_cover [of "CHR ''/''" addr "CHR ''.''"] by auto
    have "\<not> is_digit CHR ''/''" by (simp add: is_digit_def in_range_def byte_def)
    with w(2) have "parse_octet w = None" by (auto simp: parse_octet_def list_all_iff)
    with w(1) that show False
      by (auto simp: parseIPv4_def split: list.splits option.splits)
  qed
  have "addr' = addr \<and> bits' = bits" if "s = addr' @ CHR ''/'' # bits'" "parseIPv4 addr' = Some a'" for addr' bits' a'
    using first_sep [of addr' "CHR ''/''" bits' addr bits] that(1) s(1) no [OF that(2)] no [OF s(2)]
    by (simp only: simp_thms)
  with s c show ?thesis unfolding v4_block_covers_def by (metis option.inject)
qed


lemma ParseCIDRs_ten:
  "TrimSpace ''10.0.0.0/8'' = ''10.0.0.0/8''"
  "ParseCIDR ''10.0.0.0/8'' = Some \<lparr>net_IP = [10, 0, 0, 0], net_Mask = [255, 0, 0, 0]\<rparr>"
  "ParseCIDRs ''10.0.0.0/8'' = Some [\<lparr>net_IP = [10, 0, 0, 0], net_Mask = [255, 0, 0, 0]\<rparr>]"
proof -
  show t: "TrimSpace ''10.0.0.0/8'' = ''10.0.0.0/8''" by (simp add: trim_eval)
  have sp: "split_on CHR '','' ''10.0.0.0/8'' = [''10.0.0.0/8'']" by simp
  have cut: "Cut CHR ''/'' ''10.0.0.0/8'' = (''10.0.0.0'', ''8'', True)" by (simp add: Cut_def)
  have addr: "ParseAddr ''10.0.0.0'' = Some [10, 0, 0, 0]"
    by (simp add: ParseAddr_def parseIPv4_def parse_octet_def is_digit_def in_range_def byte_def
        decimal_def digit_val_def)
  have bits: "dtoi_all ''8'' = Some 8"
    by (simp add: dtoi_all_def is_digit_def in_range_def byte_def decimal_def digit_val_def)
  have m: "CIDRMask 8 4 = [255, 0, 0, 0]" by (simp add: eval_nat_numeral)
  show pc: "ParseCIDR ''10.0.0.0/8'' = Some \<lparr>net_IP = [10, 0, 0, 0], net_Mask = [255, 0, 0, 0]\<rparr>"
    unfolding ParseCIDR_def cut by (simp add: addr bits m mask_bytes_def)
  show "ParseCIDRs ''10.0.0.0/8'' = Some [\<lparr>net_IP = [10, 0, 0, 0], net_Mask = [255, 0, 0, 0]\<rparr>]"
    unfolding ParseCIDRs_def sp by (simp add: t pc)
qed


subsection \<open>Configuration\<close>

record proxy_Config =
  pc_SockPath :: bytes
  pc_AllowList :: "IPNet list"
  pc_MaxConns :: int
  pc_DialTimeout :: int
  pc_ShutdownGrace :: int
  pc_LogLevel :: bytes

definition proxy_LoadConfig :: "(int \<Rightarrow> int \<Rightarrow> int \<Rightarrow> int) \<Rightarrow> getenv \<Rightarrow> config_err + proxy_Config" where
  "proxy_LoadConfig fp get =
     rbind (case ParseCIDRs (get ''RCP_NS_PROXY_ALLOW_CIDR'') of None \<Rightarrow> Err BadCIDRs | Some al \<Rightarrow> Ok al) (\<lambda>al.
     rbind (EnvInt get ''RCP_NS_PROXY_MAX_CONNS'' 1024) (\<lambda>maxConns.
     rbind (require (maxConns > 0) (NotPositive ''RCP_NS_PROXY_MAX_CONNS'')) (\<lambda>_.
     rbind (EnvPositiveDuration fp get ''RCP_NS_PROXY_DIAL_TIMEOUT'' (5 * second)) (\<lambda>dialTimeout.
     rbind (EnvPositiveDuration fp get ''RCP_NS_PROXY_SHUTDOWN_GRACE'' (30 * second)) (\<lambda>grace.
     rbind (EnvSockPath get ''RCP_NS_PROXY_SOCK'' ''/run/rcp/ns-proxy.sock'') (\<lambda>sockPath.
     rbind (EnvLogLevel get ''RCP_NS_PROXY_LOG_LEVEL'' ''info'') (\<lambda>logLevel.
     Ok \<lparr>pc_SockPath = sockPath, pc_AllowList = al, pc_MaxConns = maxConns, pc_DialTimeout = dialTimeout,
       pc_ShutdownGrace = grace, pc_LogLevel = logLevel\<rparr>)))))))"

text \<open>A configuration with no usable allow list is never loaded: the proxy fails closed.\<close>

lemma proxy_LoadConfig_valid:
  assumes "proxy_LoadConfig fp get = Ok c"
  shows "ParseCIDRs (get ''RCP_NS_PROXY_ALLOW_CIDR'') = Some (pc_AllowList c) \<and> pc_AllowList c \<noteq> []
    \<and> 0 < pc_MaxConns c \<and> 0 < pc_DialTimeout c \<and> 0 < pc_ShutdownGrace c \<and> IsAbs (pc_SockPath c)"
proof -
  have ne: "ParseCIDRs spec = Some ns \<Longrightarrow> ns \<noteq> []" for spec ns
    using parse_all_cidrs_Some [of "split_on CHR '','' spec" ns] by (auto simp: ParseCIDRs_def split: if_splits)
  show ?thesis using assms unfolding proxy_LoadConfig_def
    by (elim rbind_OkE) (auto split: option.splits dest: ne dest!: EnvPositiveDuration_pos EnvSockPath_abs)
qed

subsection \<open>The accept loop and its shutdown\<close>

text \<open>
  Where the goroutine of \<^verbatim>\<open>Serve\<close> is: at \<^verbatim>\<open>Accept\<close>; past taking a slot, counting the dial,
  counting the connection, adding to the wait group; waiting for the wait group after the listener
  was closed; and returned, with \<^verbatim>\<open>serveDone\<close> closed.
\<close>

datatype serve_pc = AtAccept | GotSlot | DialCounted | ActiveCounted | WgAdded | Draining | Returned

text \<open>
  A connection's goroutine is serving (and holds a slot), has released its slot, or has also
  decremented the counter and has only \<^verbatim>\<open>wg.Done\<close> left; the state counts them.
\<close>

record server =
  sv_pc :: serve_pc
  sv_sem :: int
  sv_max :: int
  sv_active :: int
  sv_total :: int
  sv_denied :: int
  sv_wg :: int
  sv_serving :: int
  sv_released :: int
  sv_finished :: int
  sv_closed :: bool
  sv_delay :: int

definition NewServer :: "proxy_Config \<Rightarrow> server" where
  "NewServer cfg = \<lparr>sv_pc = AtAccept, sv_sem = 0, sv_max = pc_MaxConns cfg, sv_active = 0, sv_total = 0,
     sv_denied = 0, sv_wg = 0, sv_serving = 0, sv_released = 0, sv_finished = 0, sv_closed = False,
     sv_delay = 0\<rparr>"

text \<open>The delay after a failed \<^verbatim>\<open>Accept\<close>: 10 ms, doubled each time, at most a second.\<close>

definition backoff :: "int \<Rightarrow> int" where
  "backoff d = (let d = (if d = 0 then 10000000 else d * 2) in if d > second then second else d)"

inductive serve_step :: "server \<Rightarrow> server \<Rightarrow> bool" where
  accept_error: "sv_pc s = AtAccept \<Longrightarrow> serve_step s (s\<lparr>sv_delay := backoff (sv_delay s)\<rparr>)"
| accept_closed: "sv_pc s = AtAccept \<Longrightarrow> sv_closed s \<Longrightarrow> serve_step s (s\<lparr>sv_pc := Draining\<rparr>)"
| accept_slot: "sv_pc s = AtAccept \<Longrightarrow> sv_sem s < sv_max s \<Longrightarrow>
    serve_step s (s\<lparr>sv_pc := GotSlot, sv_sem := sv_sem s + 1, sv_delay := 0\<rparr>)"
| accept_denied: "sv_pc s = AtAccept \<Longrightarrow> \<not> sv_sem s < sv_max s \<Longrightarrow>
    serve_step s (s\<lparr>sv_denied := sv_denied s + 1, sv_delay := 0\<rparr>)"
| count_dial: "sv_pc s = GotSlot \<Longrightarrow> serve_step s (s\<lparr>sv_pc := DialCounted, sv_total := sv_total s + 1\<rparr>)"
| count_active: "sv_pc s = DialCounted \<Longrightarrow>
    serve_step s (s\<lparr>sv_pc := ActiveCounted, sv_active := sv_active s + 1\<rparr>)"
| wg_add: "sv_pc s = ActiveCounted \<Longrightarrow> serve_step s (s\<lparr>sv_pc := WgAdded, sv_wg := sv_wg s + 1\<rparr>)"
| spawn: "sv_pc s = WgAdded \<Longrightarrow> serve_step s (s\<lparr>sv_pc := AtAccept, sv_serving := sv_serving s + 1\<rparr>)"
| conn_release: "sv_serving s > 0 \<Longrightarrow>
    serve_step s (s\<lparr>sv_serving := sv_serving s - 1, sv_sem := sv_sem s - 1, sv_released := sv_released s + 1\<rparr>)"
| conn_uncount: "sv_released s > 0 \<Longrightarrow>
    serve_step s (s\<lparr>sv_released := sv_released s - 1, sv_active := sv_active s - 1, sv_finished := sv_finished s + 1\<rparr>)"
| conn_done: "sv_finished s > 0 \<Longrightarrow>
    serve_step s (s\<lparr>sv_finished := sv_finished s - 1, sv_wg := sv_wg s - 1\<rparr>)"
| wg_wait: "sv_pc s = Draining \<Longrightarrow> sv_wg s = 0 \<Longrightarrow> serve_step s (s\<lparr>sv_pc := Returned\<rparr>)"
| close_listener: "serve_step s (s\<lparr>sv_closed := True\<rparr>)"

inductive serve_reachable :: "proxy_Config \<Rightarrow> server \<Rightarrow> bool" for cfg where
  serve_init: "serve_reachable cfg (NewServer cfg)"
| serve_next: "serve_reachable cfg s \<Longrightarrow> serve_step s s' \<Longrightarrow> serve_reachable cfg s'"

text \<open>\<^verbatim>\<open>Shutdown\<close> returns nil in a state where \<^verbatim>\<open>serveDone\<close> is closed, no connection is counted and
  the wait group is empty; \<open>Stats\<close> reads the counters.\<close>

definition Shutdown_ok :: "server \<Rightarrow> bool" where
  "Shutdown_ok s \<longleftrightarrow> sv_pc s = Returned \<and> sv_active s = 0 \<and> sv_wg s = 0"

definition Stats :: "server \<Rightarrow> int \<times> int \<times> int" where
  "Stats s = (sv_active s, sv_total s, sv_denied s)"

text \<open>What the accept goroutine itself holds at each point.\<close>

fun own_slot :: "serve_pc \<Rightarrow> int" where
  "own_slot AtAccept = 0" | "own_slot GotSlot = 1" | "own_slot DialCounted = 1"
| "own_slot ActiveCounted = 1" | "own_slot WgAdded = 1" | "own_slot Draining = 0" | "own_slot Returned = 0"

fun own_count :: "serve_pc \<Rightarrow> int" where
  "own_count AtAccept = 0" | "own_count GotSlot = 0" | "own_count DialCounted = 0"
| "own_count ActiveCounted = 1" | "own_count WgAdded = 1" | "own_count Draining = 0" | "own_count Returned = 0"

fun own_wg :: "serve_pc \<Rightarrow> int" where
  "own_wg AtAccept = 0" | "own_wg GotSlot = 0" | "own_wg DialCounted = 0"
| "own_wg ActiveCounted = 0" | "own_wg WgAdded = 1" | "own_wg Draining = 0" | "own_wg Returned = 0"

lemma own_nonneg: "0 \<le> own_slot pc" "0 \<le> own_count pc" "0 \<le> own_wg pc"
  by (cases pc; simp)+

definition serve_inv :: "server \<Rightarrow> bool" where
  "serve_inv s \<longleftrightarrow> 0 \<le> sv_serving s \<and> 0 \<le> sv_released s \<and> 0 \<le> sv_finished s
     \<and> sv_sem s = sv_serving s + own_slot (sv_pc s)
     \<and> sv_sem s \<le> sv_max s
     \<and> sv_active s = sv_serving s + sv_released s + own_count (sv_pc s)
     \<and> sv_wg s = sv_serving s + sv_released s + sv_finished s + own_wg (sv_pc s)
     \<and> 0 \<le> sv_delay s \<and> sv_delay s \<le> second
     \<and> (sv_pc s = Returned \<longrightarrow> sv_wg s = 0)
     \<and> (sv_pc s \<in> {Draining, Returned} \<longrightarrow> sv_closed s)"

lemma serve_inv_step: "serve_step s s' \<Longrightarrow> serve_inv s \<Longrightarrow> serve_inv s' \<and> sv_max s' = sv_max s"
proof (induction rule: serve_step.induct)
  case (accept_error s)
  then have "0 \<le> backoff (sv_delay s)" "backoff (sv_delay s) \<le> second"
    by (auto simp: serve_inv_def backoff_def second_def Let_def)
  with accept_error show ?case by (simp add: serve_inv_def)
next
  case (conn_done s)
  then show ?case using own_nonneg(3) [of "sv_pc s"] by (auto simp: serve_inv_def)
next
  case (conn_release s)
  then show ?case using own_nonneg(3) [of "sv_pc s"] by (auto simp: serve_inv_def)
next
  case (conn_uncount s)
  then show ?case using own_nonneg(3) [of "sv_pc s"] by (auto simp: serve_inv_def)
next
  case (close_listener s)
  then show ?case by (auto simp: serve_inv_def)
qed (simp_all add: serve_inv_def second_def)

lemma serve_inv_reachable:
  "serve_reachable cfg s \<Longrightarrow> 0 < pc_MaxConns cfg \<Longrightarrow> serve_inv s \<and> sv_max s = pc_MaxConns cfg"
  by (induction rule: serve_reachable.induct)
    (auto simp: serve_inv_def NewServer_def second_def dest: serve_inv_step)



end
