(* ===== verification/App_Gateway.thy ===== *)
theory App_Gateway
  imports Ssh_Server Env_Config
begin

text \<open>
  The HTTP gateway to users' apps, \<^verbatim>\<open>cmd/app-gateway\<close>: the mapping from host names to instances
  (\<^verbatim>\<open>repo.go\<close>), the caching resolver of instance addresses (\<^verbatim>\<open>resolver_cache.go\<close>) and the
  request handler with its host cache (\<^verbatim>\<open>server.go\<close>). Proxying itself is the standard library's;
  the handler's result says to which address a request is proxied.
\<close>

subsection \<open>The mapping in the database\<close>

record AppMapping =
  am_Host :: bytes
  am_OpenstackID :: bytes

datatype gateway_err = ErrAppNotFound | ErrAppLookup db_err | ErrAppInstance

definition FindByHost :: "bytes \<Rightarrow> db \<Rightarrow> (gateway_err + AppMapping) \<times> db" where
  "FindByHost host d = (case query (\<lambda>d. only_row (apps d) (\<lambda>a. a_host a = host)) d of
     (Err e, d) \<Rightarrow> (Err (if e = NotFound then ErrAppNotFound else ErrAppLookup e), d)
   | (Ok row, d) \<Rightarrow> (case filter (\<lambda>i. i_id i = a_instance row) (instances d) of
       [] \<Rightarrow> (Err ErrAppInstance, d)
     | inst # _ \<Rightarrow> (Ok \<lparr>am_Host = a_host row, am_OpenstackID = i_openstack_id inst\<rparr>, d)))"

text \<open>What the database says about a host.\<close>

definition maps_host :: "db \<Rightarrow> bytes \<Rightarrow> bytes \<Rightarrow> bool" where
  "maps_host d host osid \<longleftrightarrow> (\<exists>a\<in>set (apps d). \<exists>i\<in>set (instances d).
     a_host a = host \<and> a_instance a = i_id i \<and> i_openstack_id i = osid)"

lemma FindByHost_maps:
  assumes "FindByHost host d = (Ok m, d')"
  shows "maps_host d host (am_OpenstackID m) \<and> am_Host m = host"
proof -
  obtain row inst rest where q: "query (\<lambda>d. only_row (apps d) (\<lambda>a. a_host a = host)) d = (Ok row, d')"
    "filter (\<lambda>i. i_id i = a_instance row) (instances d') = inst # rest"
    "m = \<lparr>am_Host = a_host row, am_OpenstackID = i_openstack_id inst\<rparr>"
    using assms by (auto simp: FindByHost_def split: prod.splits sum.splits list.splits)
  have "row \<in> set (apps d') \<and> a_host row = host" using query_ok [OF q(1)] only_row_Ok by force
  moreover have "inst \<in> set (instances d') \<and> i_id inst = a_instance row"
    using q(2) by (metis (mono_tags, lifting) filter_eq_ConsD in_set_conv_decomp)
  moreover have "apps d' = apps d" "instances d' = instances d"
    using query_tables [OF q(1)] by (simp_all add: same_tables_def)
  ultimately show ?thesis using q(3) unfolding maps_host_def
    by (intro conjI bexI [of _ row] bexI [of _ inst]) auto
qed

lemma query_not_found:
  "query q d = (Err NotFound, d') \<Longrightarrow> q d' = Err NotFound"
  by (auto simp: query_def split: prod.splits option.splits)

text \<open>With the constraints of the schema, a mapped host is found unless a statement fails.\<close>

lemma FindByHost_finds:
  assumes "db_wf d" and "maps_host d host osid" and "FindByHost host d = (r, d')"
  shows "(\<exists>m. r = Ok m \<and> am_OpenstackID m = osid) \<or> (\<exists>e. r = Err (ErrAppLookup (Driver e)))"
proof -
  obtain a i where ai: "a \<in> set (apps d)" "i \<in> set (instances d)" "a_host a = host" "a_instance a = i_id i"
    "i_openstack_id i = osid" using assms(2) by (auto simp: maps_host_def)
  have wf: "distinct (map a_host (apps d))" "distinct (map i_id (instances d))"
    using assms(1) by (auto simp: db_wf_def table_wf_defs)
  have only: "only_row (apps d) (\<lambda>a. a_host a = host) = Ok a"
    by (rule only_row_unique [OF wf(1), where v = host]) (use ai in auto)
  have fi: "filter (\<lambda>j. i_id j = a_instance a) (instances d) = [i]"
    by (rule unique_filter [OF wf(2), where v = "i_id i"]) (use ai in auto)
  obtain x d1 where q: "query (\<lambda>d. only_row (apps d) (\<lambda>a. a_host a = host)) d = (x, d1)" by force
  have t: "apps d1 = apps d" "instances d1 = instances d" using query_tables [OF q] by (simp_all add: same_tables_def)
  then have "x = Ok a \<or> (\<exists>e. x = Err (Driver e))"
    using q only by (auto simp: query_def split: prod.splits option.splits)
  with q t fi ai(5) assms(3) show ?thesis by (auto simp: FindByHost_def)
qed

subsection \<open>The resolver cache\<close>

type_synonym resolver_cache = "bytes \<rightharpoonup> bytes \<times> int"

text \<open>\<open>next\<close> is what the inner resolver answers if it is asked.\<close>

definition cached_ResolveFixedIPv4 :: "int \<Rightarrow> int \<Rightarrow> (bytes \<Rightarrow> bytes + bytes) \<Rightarrow> bytes \<Rightarrow> resolver_cache
    \<Rightarrow> (bytes + bytes) \<times> resolver_cache" where
  "cached_ResolveFixedIPv4 life now nxt openstackID cache =
     (case cache openstackID of
        Some (ip, expiresAt) \<Rightarrow>
          if now < expiresAt then (Ok ip, cache)
          else (case nxt openstackID of
              Err e \<Rightarrow> if ip \<noteq> [] then (Ok ip, cache) else (Err e, cache)
            | Ok ip' \<Rightarrow> (Ok ip', cache(openstackID \<mapsto> (ip', now + life))))
      | None \<Rightarrow> (case nxt openstackID of
              Err e \<Rightarrow> (Err e, cache)
            | Ok ip' \<Rightarrow> (Ok ip', cache(openstackID \<mapsto> (ip', now + life)))))"

text \<open>A history of calls, latest first: the time, the instance, and the inner resolver at that time.\<close>

type_synonym resolver_call = "int \<times> bytes \<times> (bytes \<Rightarrow> bytes + bytes)"

fun run_resolver :: "int \<Rightarrow> resolver_call list \<Rightarrow> resolver_cache" where
  "run_resolver life [] = Map.empty"
| "run_resolver life ((now, i, nxt) # cs) = snd (cached_ResolveFixedIPv4 life now nxt i (run_resolver life cs))"

text \<open>The address last obtained from the inner resolver, and when.\<close>

fun last_obtained :: "int \<Rightarrow> resolver_call list \<Rightarrow> bytes \<Rightarrow> (bytes \<times> int) option" where
  "last_obtained life [] i = None"
| "last_obtained life ((now, j, nxt) # cs) i =
     (if i \<noteq> j then last_obtained life cs i
      else case last_obtained life cs i of
        Some (ip, t) \<Rightarrow> if now < t + life then Some (ip, t)
          else (case nxt i of Err _ \<Rightarrow> Some (ip, t) | Ok ip' \<Rightarrow> Some (ip', now))
      | None \<Rightarrow> (case nxt i of Err _ \<Rightarrow> None | Ok ip' \<Rightarrow> Some (ip', now)))"

lemma run_resolver_cache:
  "run_resolver life cs i = map_option (\<lambda>(ip, t). (ip, t + life)) (last_obtained life cs i)"
proof (induction life cs i rule: last_obtained.induct)
  case (2 life now j nxt cs i)
  then show ?case
    by (cases "last_obtained life cs j")
      (auto simp: cached_ResolveFixedIPv4_def split: option.splits sum.splits if_splits)
qed simp

lemma last_obtained_sound:
  "last_obtained life cs i = Some (ip, t) \<Longrightarrow> \<exists>nxt. (t, i, nxt) \<in> set cs \<and> nxt i = Ok ip"
  by (induction life cs i arbitrary: ip t rule: last_obtained.induct)
    (auto split: if_splits option.splits sum.splits; blast)+

text \<open>
  The caching resolver invents no address: it answers with an address only if the inner resolver
  gave that address for this instance, now or at an earlier call, and an older answer is used only
  within its lifetime or because the inner resolver fails now.
\<close>

theorem cached_resolver_sound:
  assumes "fst (cached_ResolveFixedIPv4 life now nxt i (run_resolver life cs)) = Ok ip"
  shows "nxt i = Ok ip
    \<or> (\<exists>t nxt'. (t, i, nxt') \<in> set cs \<and> nxt' i = Ok ip \<and> (now < t + life \<or> (\<exists>e. nxt i = Err e)))"
proof (cases "last_obtained life cs i")
  case None
  then show ?thesis using assms
    by (auto simp: cached_ResolveFixedIPv4_def run_resolver_cache split: sum.splits)
next
  case (Some x)
  obtain ip' t where x: "x = (ip', t)" by force
  obtain nxt' where n: "(t, i, nxt') \<in> set cs" "nxt' i = Ok ip'" using last_obtained_sound Some x by blast
  with assms Some x show ?thesis
    by (auto simp: cached_ResolveFixedIPv4_def run_resolver_cache split: sum.splits if_splits)
qed

theorem cached_resolver_sound_witness:
  "fst (cached_ResolveFixedIPv4 10 100 (\<lambda>_. Err ''down'') ''vm''
      (run_resolver 10 [(5, ''vm'', \<lambda>_. Ok ''10.0.0.9'')])) = Ok ''10.0.0.9''
   \<and> (\<exists>t nxt'. (t, ''vm'', nxt') \<in> set [(5 :: int, ''vm'', \<lambda>_ :: bytes. Ok ''10.0.0.9'' :: bytes + bytes)]
        \<and> nxt' ''vm'' = Ok ''10.0.0.9'')"
proof -
  let ?n = "\<lambda>_ :: bytes. Err ''down'' :: bytes + bytes"
  have a: "fst (cached_ResolveFixedIPv4 10 100 ?n ''vm'' (run_resolver 10 [(5, ''vm'', \<lambda>_. Ok ''10.0.0.9'')]))
      = Ok ''10.0.0.9''" by (simp add: cached_ResolveFixedIPv4_def)
  from cached_resolver_sound [OF a] have "\<exists>t nxt'. (t, ''vm'', nxt') \<in> set [(5 :: int, ''vm'', \<lambda>_ :: bytes. Ok ''10.0.0.9'' :: bytes + bytes)]
      \<and> nxt' ''vm'' = Ok ''10.0.0.9''" by blast
  with a show ?thesis by blast
qed

subsection \<open>The request handler\<close>

record backend =
  be_ip :: bytes
  be_openstackID :: bytes

record app_server =
  as_resolver :: resolver_cache
  as_hostCache :: "bytes \<rightharpoonup> backend \<times> int"

definition hostCacheTTL :: int where "hostCacheTTL = 30 * second"

definition normalizeHost :: "bytes \<Rightarrow> bytes" where
  "normalizeHost host = (let host = ToLower (TrimSpace host) in
     if host = [] then []
     else case SplitHostPort host of Some (h, _) \<Rightarrow> ToLower (TrimSpace h) | None \<Rightarrow> host)"

definition cachedBackend :: "int \<Rightarrow> bytes \<Rightarrow> app_server \<Rightarrow> backend option" where
  "cachedBackend now host s = (case as_hostCache s host of None \<Rightarrow> None
     | Some (be, expires) \<Rightarrow> if expires < now then None else Some be)"

definition storeBackend :: "int \<Rightarrow> bytes \<Rightarrow> backend \<Rightarrow> app_server \<Rightarrow> app_server" where
  "storeBackend now host be s = s\<lparr>as_hostCache := (as_hostCache s)(host \<mapsto> (be, now + hostCacheTTL))\<rparr>"

datatype gateway_response = Status nat | ProxyTo backend

text \<open>
  A request: the host it names, the clock at the lookup and at the store, the database and the inner
  resolver as they are when it is handled.
\<close>

record app_request =
  rq_Host :: bytes
  rq_now :: int
  rq_later :: int
  rq_db :: db
  rq_next :: "bytes \<Rightarrow> bytes + bytes"

definition app_ServeHTTP :: "int \<Rightarrow> app_request \<Rightarrow> app_server \<Rightarrow> gateway_response \<times> app_server" where
  "app_ServeHTTP life q s = (let host = normalizeHost (rq_Host q) in
     if host = [] then (Status 404, s)
     else case cachedBackend (rq_now q) host s of
       Some be \<Rightarrow> (ProxyTo be, s)
     | None \<Rightarrow> (case fst (FindByHost host (rq_db q)) of
         Err e \<Rightarrow> (Status (if e = ErrAppNotFound then 404 else 500), s)
       | Ok mapping \<Rightarrow>
          (case cached_ResolveFixedIPv4 life (rq_now q) (rq_next q) (am_OpenstackID mapping) (as_resolver s) of
            (Err e, rc) \<Rightarrow> (Status 502, s\<lparr>as_resolver := rc\<rparr>)
          | (Ok fixedIP, rc) \<Rightarrow>
              let be = \<lparr>be_ip = fixedIP, be_openstackID = am_OpenstackID mapping\<rparr> in
              (ProxyTo be, storeBackend (rq_later q) host be (s\<lparr>as_resolver := rc\<rparr>)))))"

fun run_requests :: "int \<Rightarrow> app_request list \<Rightarrow> app_server" where
  "run_requests life [] = \<lparr>as_resolver = Map.empty, as_hostCache = Map.empty\<rparr>"
| "run_requests life (q # qs) = snd (app_ServeHTTP life q (run_requests life qs))"

text \<open>Every cached backend comes from a request for which the database had that mapping.\<close>

definition vouched :: "app_request list \<Rightarrow> bytes \<Rightarrow> backend \<Rightarrow> int \<Rightarrow> bool" where
  "vouched qs host be t \<longleftrightarrow> (\<exists>q\<in>set qs. normalizeHost (rq_Host q) = host \<and> rq_later q = t
     \<and> maps_host (rq_db q) host (be_openstackID be))"

lemma app_ServeHTTP_cases:
  assumes "app_ServeHTTP life q s = (r, s')"
  obtains (fail) n where "r = Status n" "as_hostCache s' = as_hostCache s"
    | (cached) be where "r = ProxyTo be" "cachedBackend (rq_now q) (normalizeHost (rq_Host q)) s = Some be" "s' = s"
    | (fresh) be where "r = ProxyTo be" "maps_host (rq_db q) (normalizeHost (rq_Host q)) (be_openstackID be)"
        "as_hostCache s' = (as_hostCache s)(normalizeHost (rq_Host q) \<mapsto> (be, rq_later q + hostCacheTTL))"
proof -
  let ?h = "normalizeHost (rq_Host q)"
  show ?thesis
  proof (cases "?h = [] \<or> cachedBackend (rq_now q) ?h s \<noteq> None \<or> \<not> is_ok (fst (FindByHost ?h (rq_db q)))")
    case True
    then consider "?h = []" | be where "?h \<noteq> []" "cachedBackend (rq_now q) ?h s = Some be"
      | e where "?h \<noteq> []" "cachedBackend (rq_now q) ?h s = None" "fst (FindByHost ?h (rq_db q)) = Err e"
      by (auto simp: not_is_ok_iff)
    then show ?thesis
    proof cases
      case 1
      with assms show ?thesis by (auto intro: fail simp: app_ServeHTTP_def)
    next
      case 2
      with assms show ?thesis by (auto intro: cached simp: app_ServeHTTP_def Let_def)
    next
      case 3
      with assms show ?thesis by (intro fail) (auto simp: app_ServeHTTP_def Let_def)
    qed
  next
    case False
    then obtain m where m: "fst (FindByHost ?h (rq_db q)) = Ok m" by (auto simp: is_ok_iff)
    then have map: "maps_host (rq_db q) ?h (am_OpenstackID m)"
      using FindByHost_maps by (metis prod.collapse)
    obtain x rc where c: "cached_ResolveFixedIPv4 life (rq_now q) (rq_next q) (am_OpenstackID m) (as_resolver s) = (x, rc)"
      by force
    show ?thesis
    proof (cases x)
      case (Inl e)
      with assms False m c show ?thesis by (auto intro!: fail simp: app_ServeHTTP_def Let_def)
    next
      case (Inr ip)
      with assms False m c map show ?thesis
        by (auto intro!: fresh simp: app_ServeHTTP_def Let_def storeBackend_def)
    qed
  qed
qed

lemma hostCache_vouched:
  "as_hostCache (run_requests life qs) host = Some (be, e) \<Longrightarrow> vouched qs host be (e - hostCacheTTL)"
proof (induction qs arbitrary: host be e)
  case (Cons q qs)
  obtain r s' where r: "app_ServeHTTP life q (run_requests life qs) = (r, s')" by force
  then show ?case
  proof (cases rule: app_ServeHTTP_cases)
    case (fresh be')
    with Cons r show ?thesis by (auto simp: vouched_def split: if_splits)
  qed (use Cons r in \<open>auto simp: vouched_def\<close>)
qed simp


definition example_app_request :: app_request where
  "example_app_request = \<lparr>rq_Host = ''a.x'', rq_now = 0, rq_later = 0,
     rq_db = example_vm_db\<lparr>apps := [\<lparr>a_id = 9, a_host = ''a.x'', a_created_at = 0, a_instance = 3\<rparr>]\<rparr>,
     rq_next = (\<lambda>_. Ok ''10.0.0.5'')\<rparr>"


end
