(* ===== verification/Flavor_Cache.thy ===== *)
theory Flavor_Cache
  imports Rcp_Prelude
begin

text \<open>
  The flavor cache of the compute service (\<^verbatim>\<open>fetchFlavors\<close> and \<^verbatim>\<open>refreshFlavorsStale\<close> of
  \<^verbatim>\<open>internal/domain/compute/service.go\<close>): a list with an expiry, one shared fetch while the cache
  is empty, and one background refresh while it is stale. The sections under the mutex are functions
  on the cache's state; the step relation interleaves them with the calls to OpenStack and the
  channel operations of any number of goroutines.
\<close>

record Flavor =
  fl_ID :: bytes
  fl_Name :: bytes
  fl_VCPUs :: int
  fl_RAM :: int
  fl_Disk :: int

text \<open>
  The shared fetch handles are numbered; \<open>fc_next\<close> is the next one allocated. The zero value of a
  time lies before every clock reading.
\<close>

record flavorState =
  fc_cache :: "Flavor list"
  fc_expire :: int
  fc_inflight :: "nat option"
  fc_refreshing :: bool
  fc_next :: nat

definition newFlavorState :: flavorState where
  "newFlavorState = \<lparr>fc_cache = [], fc_expire = zero_time, fc_inflight = None, fc_refreshing = False,
     fc_next = 0\<rparr>"

definition flavorCacheTTL :: int where
  "flavorCacheTTL = 5 * 60 * 10 ^ 9"

subsection \<open>The sections under the mutex\<close>

text \<open>
  What a caller does after its first section: return the cache, return the stale cache (and maybe
  start a refresh), wait for the shared fetch, or lead a new one.
\<close>

datatype lookup = Cached "Flavor list" | Stale "Flavor list" bool | Join nat | Lead nat

definition flavor_lookup :: "int \<Rightarrow> flavorState \<Rightarrow> lookup \<times> flavorState" where
  "flavor_lookup now s =
     (if now < fc_expire s then (Cached (fc_cache s), s)
      else if fc_cache s \<noteq> [] then
        (if \<not> fc_refreshing s then (Stale (fc_cache s) True, s\<lparr>fc_refreshing := True\<rparr>)
         else (Stale (fc_cache s) False, s))
      else case fc_inflight s of
        Some h \<Rightarrow> (Join h, s)
      | None \<Rightarrow> (Lead (fc_next s), s\<lparr>fc_inflight := Some (fc_next s), fc_next := Suc (fc_next s)\<rparr>))"

definition flavor_store :: "'e + Flavor list \<Rightarrow> int \<Rightarrow> flavorState \<Rightarrow> flavorState" where
  "flavor_store r now s = (case r of
     Ok raw \<Rightarrow> s\<lparr>fc_cache := raw, fc_expire := now + flavorCacheTTL\<rparr>
   | Err _ \<Rightarrow> s)"

definition lead_finish :: "'e + Flavor list \<Rightarrow> int \<Rightarrow> flavorState \<Rightarrow> flavorState" where
  "lead_finish r now s = (flavor_store r now s)\<lparr>fc_inflight := None\<rparr>"

definition refresh_finish :: "'e + Flavor list \<Rightarrow> int \<Rightarrow> flavorState \<Rightarrow> flavorState" where
  "refresh_finish r now s = (flavor_store r now s)\<lparr>fc_refreshing := False\<rparr>"

subsection \<open>One call\<close>

text \<open>
  \<^verbatim>\<open>fetchFlavors\<close> as one caller sees it: \<open>t1\<close> and \<open>t2\<close> are its clock readings, and \<open>joined\<close> is what
  the goroutine that leads the shared fetch publishes, when there is one. The refresh that a stale
  hit starts is a goroutine of its own.
\<close>

record flavor_env =
  fe_t1 :: int
  fe_t2 :: int
  fe_joined :: "os_err + Flavor list"

definition fetchFlavors :: "('w \<Rightarrow> (os_err + Flavor list) \<times> 'w) \<Rightarrow> flavor_env \<Rightarrow> flavorState \<Rightarrow> 'w
    \<Rightarrow> (os_err + Flavor list) \<times> flavorState \<times> 'w" where
  "fetchFlavors fetch env s w = (case flavor_lookup (fe_t1 env) s of
     (Cached fl, s) \<Rightarrow> (Ok fl, s, w)
   | (Stale fl _, s) \<Rightarrow> (Ok fl, s, w)
   | (Join _, s) \<Rightarrow> (fe_joined env, s, w)
   | (Lead _, s) \<Rightarrow> (case fetch w of (r, w) \<Rightarrow> (r, lead_finish r (fe_t2 env) s, w)))"

definition refreshFlavorsStale :: "('w \<Rightarrow> (os_err + Flavor list) \<times> 'w) \<Rightarrow> int \<Rightarrow> flavorState \<Rightarrow> 'w
    \<Rightarrow> flavorState \<times> 'w" where
  "refreshFlavorsStale fetch now s w = (case fetch w of (r, w) \<Rightarrow> (refresh_finish r now s, w))"

subsection \<open>All interleavings\<close>

text \<open>
  A goroutine in \<^verbatim>\<open>fetchFlavors\<close>: waiting on a handle, fetching for it, about to publish the
  result of its fetch, or returned.
\<close>

datatype fl_pc = FlWait nat | FlFetch nat | FlPublish nat "os_err + Flavor list"
  | FlDone "os_err + Flavor list"

record fl_world =
  fw_state :: flavorState
  fw_pcs :: "fl_pc list"
  fw_refreshers :: nat
  fw_published :: "nat \<rightharpoonup> os_err + Flavor list"
  fw_answers :: "(os_err + Flavor list) list"
  fw_panicked :: bool

definition fl_init :: fl_world where
  "fl_init = \<lparr>fw_state = newFlavorState, fw_pcs = [], fw_refreshers = 0, fw_published = Map.empty,
     fw_answers = [], fw_panicked = False\<rparr>"

text \<open>Where a caller continues after the lookup, and how many refreshes it starts.\<close>

fun after_lookup :: "lookup \<Rightarrow> fl_pc \<times> nat" where
  "after_lookup (Cached fl) = (FlDone (Ok fl), 0)"
| "after_lookup (Stale fl start) = (FlDone (Ok fl), if start then 1 else 0)"
| "after_lookup (Join h) = (FlWait h, 0)"
| "after_lookup (Lead h) = (FlFetch h, 0)"

inductive fl_step :: "fl_world \<Rightarrow> fl_world \<Rightarrow> bool" where
  fl_call: "zero_time \<le> now \<Longrightarrow> flavor_lookup now (fw_state g) = (l, s) \<Longrightarrow>
     fl_step g (g\<lparr>fw_state := s, fw_pcs := fw_pcs g @ [fst (after_lookup l)],
       fw_refreshers := fw_refreshers g + snd (after_lookup l)\<rparr>)"
| fl_fetched: "i < length (fw_pcs g) \<Longrightarrow> fw_pcs g ! i = FlFetch h \<Longrightarrow>
     fl_step g (g\<lparr>fw_state := lead_finish r now (fw_state g), fw_pcs := (fw_pcs g)[i := FlPublish h r],
       fw_answers := r # fw_answers g\<rparr>)"
| fl_publish: "i < length (fw_pcs g) \<Longrightarrow> fw_pcs g ! i = FlPublish h r \<Longrightarrow>
     fl_step g (g\<lparr>fw_pcs := (fw_pcs g)[i := FlDone r], fw_published := (fw_published g)(h \<mapsto> r),
       fw_panicked := (fw_panicked g \<or> h \<in> dom (fw_published g))\<rparr>)"
| fl_wake: "i < length (fw_pcs g) \<Longrightarrow> fw_pcs g ! i = FlWait h \<Longrightarrow> fw_published g h = Some r \<Longrightarrow>
     fl_step g (g\<lparr>fw_pcs := (fw_pcs g)[i := FlDone r]\<rparr>)"
| fl_refreshed: "0 < fw_refreshers g \<Longrightarrow>
     fl_step g (g\<lparr>fw_state := refresh_finish r now (fw_state g), fw_refreshers := fw_refreshers g - 1,
       fw_answers := r # fw_answers g\<rparr>)"

inductive fl_reachable :: "fl_world \<Rightarrow> bool" where
  fl_start: "fl_reachable fl_init"
| fl_next: "fl_reachable g \<Longrightarrow> fl_step g g' \<Longrightarrow> fl_reachable g'"

subsection \<open>Invariant\<close>

fun owns :: "fl_pc \<Rightarrow> nat \<Rightarrow> bool" where
  "owns (FlFetch h) k \<longleftrightarrow> h = k"
| "owns (FlPublish h r) k \<longleftrightarrow> h = k"
| "owns _ k \<longleftrightarrow> False"

fun result_of :: "fl_pc \<Rightarrow> (os_err + Flavor list) option" where
  "result_of (FlPublish h r) = Some r"
| "result_of (FlDone r) = Some r"
| "result_of _ = None"

definition handles_inv :: "flavorState \<Rightarrow> fl_pc list \<Rightarrow> (nat \<rightharpoonup> os_err + Flavor list) \<Rightarrow> bool" where
  "handles_inv s pcs pub \<longleftrightarrow>
     (\<forall>h. fc_inflight s = Some h \<longrightarrow> FlFetch h \<in> set pcs)
   \<and> (\<forall>h. FlFetch h \<in> set pcs \<longrightarrow> fc_inflight s = Some h)
   \<and> (\<forall>i j h. i < length pcs \<longrightarrow> j < length pcs \<longrightarrow> owns (pcs ! i) h \<longrightarrow> owns (pcs ! j) h \<longrightarrow> i = j)
   \<and> (\<forall>p h. p \<in> set pcs \<longrightarrow> owns p h \<longrightarrow> h < fc_next s \<and> h \<notin> dom pub)
   \<and> (\<forall>h. h \<in> dom pub \<longrightarrow> h < fc_next s)
   \<and> (\<forall>h. FlWait h \<in> set pcs \<longrightarrow> h \<in> dom pub \<or> (\<exists>p\<in>set pcs. owns p h))"

definition answers_inv :: "fl_world \<Rightarrow> bool" where
  "answers_inv g \<longleftrightarrow>
     (fc_expire (fw_state g) = zero_time \<and> fc_cache (fw_state g) = []
       \<or> Ok (fc_cache (fw_state g)) \<in> set (fw_answers g))
   \<and> (\<forall>p r. p \<in> set (fw_pcs g) \<longrightarrow> result_of p = Some r \<longrightarrow> r \<in> set (fw_answers g))
   \<and> ran (fw_published g) \<subseteq> set (fw_answers g)"

definition fl_inv :: "fl_world \<Rightarrow> bool" where
  "fl_inv g \<longleftrightarrow> \<not> fw_panicked g \<and> fw_refreshers g = (if fc_refreshing (fw_state g) then 1 else 0)
     \<and> handles_inv (fw_state g) (fw_pcs g) (fw_published g) \<and> answers_inv g"

lemma lookup_cases_of:
  assumes "flavor_lookup now s = (l, s')"
  obtains (cached) "l = Cached (fc_cache s)" "s' = s" "now < fc_expire s"
    | (stale) "l = Stale (fc_cache s) (\<not> fc_refreshing s)" "s' = s\<lparr>fc_refreshing := True\<rparr>" "fc_cache s \<noteq> []"
    | (join) h where "l = Join h" "s' = s" "fc_inflight s = Some h"
    | (lead) "l = Lead (fc_next s)" "fc_inflight s = None"
        "s' = s\<lparr>fc_inflight := Some (fc_next s), fc_next := Suc (fc_next s)\<rparr>"
  using assms by (cases s) (auto simp: flavor_lookup_def split: if_splits option.splits)

lemma flavor_store_simps [simp]:
  "fc_inflight (flavor_store r now s) = fc_inflight s" "fc_next (flavor_store r now s) = fc_next s"
  "fc_refreshing (flavor_store r now s) = fc_refreshing s"
  by (auto simp: flavor_store_def split: sum.splits)

lemma handles_invD:
  assumes "handles_inv s pcs pub"
  shows "fc_inflight s = Some h \<Longrightarrow> FlFetch h \<in> set pcs"
    and "FlFetch h \<in> set pcs \<Longrightarrow> fc_inflight s = Some h"
    and "i < length pcs \<Longrightarrow> j < length pcs \<Longrightarrow> owns (pcs ! i) h \<Longrightarrow> owns (pcs ! j) h \<Longrightarrow> i = j"
    and "p \<in> set pcs \<Longrightarrow> owns p h \<Longrightarrow> h < fc_next s"
    and "p \<in> set pcs \<Longrightarrow> owns p h \<Longrightarrow> pub h = None"
    and "pub h = Some r \<Longrightarrow> h < fc_next s"
    and "FlWait h \<in> set pcs \<Longrightarrow> pub h = None \<Longrightarrow> \<exists>p\<in>set pcs. owns p h"
  using assms unfolding handles_inv_def by (blast+)

lemma handles_append_plain:
  assumes "handles_inv s pcs pub" and "\<And>h. \<not> owns p h"
    and "\<And>h. p = FlWait h \<Longrightarrow> fc_inflight s = Some h"
  shows "handles_inv s (pcs @ [p]) pub"
proof -
  note D = handles_invD [OF assms(1)]
  have nf: "p \<noteq> FlFetch h" for h using assms(2) [of h] by auto
  have uniq: "i = j" if "i < length (pcs @ [p])" "j < length (pcs @ [p])"
      "owns ((pcs @ [p]) ! i) h" "owns ((pcs @ [p]) ! j) h" for i j h
    using that D(3) [of i j h] assms(2) [of h] by (simp add: nth_append less_Suc_eq split: if_splits)
  have wait: "pub h = None \<Longrightarrow> \<exists>q\<in>set (pcs @ [p]). owns q h" if "FlWait h \<in> set (pcs @ [p])" for h
  proof (cases "p = FlWait h")
    case True
    then have "FlFetch h \<in> set pcs" using assms(3) D(1) by blast
    then show ?thesis by (intro bexI [of _ "FlFetch h"]) auto
  next
    case False
    assume "pub h = None"
    with D(7) [of h] that False show ?thesis by auto
  qed
  show ?thesis
    unfolding handles_inv_def
  proof (intro conjI allI impI)
    fix h
    show "fc_inflight s = Some h \<Longrightarrow> FlFetch h \<in> set (pcs @ [p])" using D(1) by simp
    show "FlFetch h \<in> set (pcs @ [p]) \<Longrightarrow> fc_inflight s = Some h" using D(2) nf [of h] by auto
    show "h \<in> dom pub \<Longrightarrow> h < fc_next s" using D(6) by blast
    show "FlWait h \<in> set (pcs @ [p]) \<Longrightarrow> h \<in> dom pub \<or> (\<exists>q\<in>set (pcs @ [p]). owns q h)"
      using wait [of h] by (cases "pub h") auto
    fix q assume q: "q \<in> set (pcs @ [p])" "owns q h"
    with assms(2) have "q \<in> set pcs" by auto
    with D(4,5) q show "h < fc_next s" "h \<notin> dom pub" by auto
  qed (rule uniq)
qed

lemma handles_lead:
  assumes "handles_inv s pcs pub" and "fc_inflight s = None"
  shows "handles_inv (s\<lparr>fc_inflight := Some (fc_next s), fc_next := Suc (fc_next s)\<rparr>)
    (pcs @ [FlFetch (fc_next s)]) pub"
proof -
  note D = handles_invD [OF assms(1)]
  let ?n = "fc_next s" and ?pcs = "pcs @ [FlFetch (fc_next s)]"
  have nofetch: "FlFetch h \<notin> set pcs" for h using assms(2) D(2) [of h] by auto
  have old: "\<not> owns (pcs ! i) ?n" if "i < length pcs" for i
    using D(4) [of "pcs ! i" ?n] that by fastforce
  have uniq: "i = j" if "i < length ?pcs" "j < length ?pcs" "owns (?pcs ! i) h" "owns (?pcs ! j) h" for i j h
    using that D(3) [of i j h] old [of i] old [of j]
    by (auto simp: nth_append less_Suc_eq split: if_splits)
  have new: "pub ?n = None" using D(6) [of ?n] by (cases "pub ?n") auto
  show ?thesis
    unfolding handles_inv_def
  proof (intro conjI allI impI)
    fix h
    show "FlWait h \<in> set ?pcs \<Longrightarrow> h \<in> dom pub \<or> (\<exists>q\<in>set ?pcs. owns q h)"
      using D(7) [of h] by (cases "pub h") auto
    show "h \<in> dom pub \<Longrightarrow> h < fc_next (s\<lparr>fc_inflight := Some ?n, fc_next := Suc ?n\<rparr>)"
      using D(6) by (fastforce simp: less_Suc_eq)
    fix q assume q: "q \<in> set ?pcs" "owns q h"
    then show "h < fc_next (s\<lparr>fc_inflight := Some ?n, fc_next := Suc ?n\<rparr>)" "h \<notin> dom pub"
      using D(4,5) [of q h] new by auto
  qed (use uniq nofetch in auto)
qed

text \<open>Goroutine \<open>i\<close> goes on to \<open>p\<close>, which owns no handle the old one did not own.\<close>

lemma update_owns:
  assumes "handles_inv s pcs pub" and "i < length pcs" and "\<And>h. owns p h \<Longrightarrow> owns (pcs ! i) h"
  shows "\<And>a b h. a < length pcs \<Longrightarrow> b < length pcs \<Longrightarrow> owns (pcs[i := p] ! a) h \<Longrightarrow> owns (pcs[i := p] ! b) h \<Longrightarrow> a = b"
    and "\<And>q h. q \<in> set (pcs[i := p]) \<Longrightarrow> owns q h \<Longrightarrow> h < fc_next s \<and> pub h = None"
proof -
  note D = handles_invD [OF assms(1)]
  show "\<And>a b h. a < length pcs \<Longrightarrow> b < length pcs \<Longrightarrow> owns (pcs[i := p] ! a) h \<Longrightarrow> owns (pcs[i := p] ! b) h \<Longrightarrow> a = b"
    using D(3) assms(2,3) by (metis nth_list_update_eq nth_list_update_neq)
  show "h < fc_next s \<and> pub h = None" if "q \<in> set (pcs[i := p])" "owns q h" for q h
  proof (cases "q = p")
    case True
    with that assms(2,3) D(4,5) [of "pcs ! i" h] show ?thesis by auto
  next
    case False
    with that have "q \<in> set pcs" using set_update_subset_insert [of pcs i p] by auto
    with that D(4,5) show ?thesis by auto
  qed
qed

lemma update_mem:
  shows "q \<in> set (pcs[i := p]) \<Longrightarrow> q \<noteq> p \<Longrightarrow> q \<in> set pcs"
    and "q \<in> set pcs \<Longrightarrow> q \<noteq> pcs ! i \<Longrightarrow> q \<in> set (pcs[i := p])"
proof -
  show "q \<in> set (pcs[i := p]) \<Longrightarrow> q \<noteq> p \<Longrightarrow> q \<in> set pcs"
    using set_update_subset_insert [of pcs i p] by fast
  assume "q \<in> set pcs" and "q \<noteq> pcs ! i"
  then obtain j where "j < length pcs" "pcs ! j = q" "j \<noteq> i" by (auto simp: in_set_conv_nth)
  then show "q \<in> set (pcs[i := p])"
    by (metis length_list_update nth_list_update_neq nth_mem)
qed

lemma handles_fetched:
  assumes "handles_inv s pcs pub" and "i < length pcs" and "pcs ! i = FlFetch h"
  shows "handles_inv (lead_finish r now s) (pcs[i := FlPublish h r']) pub"
proof -
  note D = handles_invD [OF assms(1)]
  note U = update_owns [OF assms(1,2), of "FlPublish h r'"]
  let ?pcs = "pcs[i := FlPublish h r']"
  have "FlFetch h \<in> set pcs" using assms(2,3) nth_mem [of i pcs] by simp
  then have infl: "fc_inflight s = Some h" by (rule D(2))
  have nofetch: "FlFetch k \<notin> set ?pcs" for k
  proof
    assume k: "FlFetch k \<in> set ?pcs"
    then have "FlFetch k \<in> set pcs" by (rule update_mem) simp
    with D(2) infl have "k = h" by fastforce
    with k obtain j where j: "j < length pcs" "?pcs ! j = FlFetch h" by (auto simp: in_set_conv_nth)
    then have "j \<noteq> i" using assms(2) by auto
    with j D(3) [of i j h] assms(2,3) show False by simp
  qed
  have new: "FlPublish h r' \<in> set ?pcs" using assms(2) by (rule set_update_memI)
  show ?thesis
    unfolding handles_inv_def lead_finish_def
  proof (intro conjI allI impI)
    fix k
    assume "FlWait k \<in> set ?pcs"
    then have w: "FlWait k \<in> set pcs" by (rule update_mem) simp
    show "k \<in> dom pub \<or> (\<exists>q\<in>set ?pcs. owns q k)"
    proof (cases "pub k")
      case None
      then obtain q where q: "q \<in> set pcs" "owns q k" using D(7) w by blast
      show ?thesis
      proof (cases "q = pcs ! i")
        case True
        then have "k = h" using q(2) assms(3) by simp
        then show ?thesis using new by (intro disjI2 bexI [of _ "FlPublish h r'"]) auto
      next
        case False
        with q show ?thesis by (intro disjI2 bexI [of _ q]) (auto intro: update_mem)
      qed
    qed auto
  next
    fix k assume "k \<in> dom pub"
    then show "k < fc_next (flavor_store r now s\<lparr>fc_inflight := None\<rparr>)" using D(6) by auto
  qed (use U assms(3) nofetch in \<open>auto simp: domIff\<close>)
qed

lemma handles_publish:
  assumes "handles_inv s pcs pub" and "i < length pcs" and "pcs ! i = FlPublish h r"
  shows "handles_inv s (pcs[i := FlDone r']) (pub(h \<mapsto> r'))"
proof -
  note D = handles_invD [OF assms(1)]
  note U = update_owns [OF assms(1,2), of "FlDone r'"]
  let ?pcs = "pcs[i := FlDone r']"
  have mem: "FlPublish h r \<in> set pcs" using assms(2,3) nth_mem [of i pcs] by simp
  have other: "k \<noteq> h" if "q \<in> set ?pcs" "owns q k" for q k
  proof
    assume "k = h"
    from that obtain j where j: "j < length pcs" "?pcs ! j = q" by (auto simp: in_set_conv_nth)
    then have "j \<noteq> i" using assms(2) that(2) by auto
    with j D(3) [of i j h] assms(2,3) that(2) \<open>k = h\<close> show False by auto
  qed
  show ?thesis
    unfolding handles_inv_def
  proof (intro conjI allI impI)
    fix k
    show "fc_inflight s = Some k \<Longrightarrow> FlFetch k \<in> set ?pcs"
      by (rule update_mem(2)) (use D(1) assms(3) in auto)
    show "FlFetch k \<in> set ?pcs \<Longrightarrow> fc_inflight s = Some k"
      by (rule D(2), erule update_mem(1)) simp
    show "k \<in> dom (pub(h \<mapsto> r')) \<Longrightarrow> k < fc_next s"
      using D(6) [of k] D(4) [OF mem, of h] by (auto split: if_splits)
    assume "FlWait k \<in> set ?pcs"
    then have w: "FlWait k \<in> set pcs" by (rule update_mem) simp
    show "k \<in> dom (pub(h \<mapsto> r')) \<or> (\<exists>q\<in>set ?pcs. owns q k)"
    proof (cases "k = h \<or> pub k \<noteq> None")
      case False
      then obtain q where q: "q \<in> set pcs" "owns q k" using D(7) w by blast
      then have "q \<noteq> pcs ! i" using False assms(3) by auto
      with q show ?thesis by (intro disjI2 bexI [of _ q]) (auto intro: update_mem)
    qed auto
  next
    fix q k assume q: "q \<in> set ?pcs" "owns q k"
    with U(2) other show "k < fc_next s" "k \<notin> dom (pub(h \<mapsto> r'))" by auto
  qed (use U assms(3) in auto)
qed

lemma handles_wake:
  assumes "handles_inv s pcs pub" and "i < length pcs" and "pcs ! i = FlWait h"
  shows "handles_inv s (pcs[i := FlDone r]) pub"
proof -
  note D = handles_invD [OF assms(1)]
  note U = update_owns [OF assms(1,2), of "FlDone r"]
  let ?pcs = "pcs[i := FlDone r]"
  show ?thesis
    unfolding handles_inv_def
  proof (intro conjI allI impI)
    fix k
    show "fc_inflight s = Some k \<Longrightarrow> FlFetch k \<in> set ?pcs"
      by (rule update_mem(2)) (use D(1) assms(3) in auto)
    show "FlFetch k \<in> set ?pcs \<Longrightarrow> fc_inflight s = Some k"
      by (rule D(2), erule update_mem(1)) simp
    show "k \<in> dom pub \<Longrightarrow> k < fc_next s" using D(6) by auto
    assume "FlWait k \<in> set ?pcs"
    then have w: "FlWait k \<in> set pcs" by (rule update_mem) simp
    show "k \<in> dom pub \<or> (\<exists>q\<in>set ?pcs. owns q k)"
    proof (cases "pub k")
      case None
      then obtain q where q: "q \<in> set pcs" "owns q k" using D(7) w by blast
      then have "q \<noteq> pcs ! i" using assms(3) by auto
      with q show ?thesis by (intro disjI2 bexI [of _ q]) (auto intro: update_mem)
    qed auto
  qed (use U in \<open>auto simp: domIff\<close>)
qed

lemma handles_state:
  assumes "handles_inv s pcs pub" and "fc_inflight s' = fc_inflight s" and "fc_next s' = fc_next s"
  shows "handles_inv s' pcs pub"
  using assms(1) unfolding handles_inv_def assms(2,3) .


lemma answers_more:
  assumes "answers_inv g" and "fw_pcs g' = fw_pcs g" and "fw_published g' = fw_published g"
    and "set (fw_answers g) \<subseteq> set (fw_answers g')"
    and "fc_expire (fw_state g') = fc_expire (fw_state g) \<and> fc_cache (fw_state g') = fc_cache (fw_state g)
      \<or> Ok (fc_cache (fw_state g')) \<in> set (fw_answers g')"
  shows "answers_inv g'"
  using assms unfolding answers_inv_def by auto

lemma flavor_store_answers:
  "fc_expire (flavor_store r now s) = fc_expire s \<and> fc_cache (flavor_store r now s) = fc_cache s
   \<or> r = Ok (fc_cache (flavor_store r now s))"
  by (auto simp: flavor_store_def split: sum.splits)

lemma inv_call:
  assumes "fl_inv g" and "zero_time \<le> now" and "flavor_lookup now (fw_state g) = (l, s)"
  shows "fl_inv (g\<lparr>fw_state := s, fw_pcs := fw_pcs g @ [fst (after_lookup l)],
       fw_refreshers := fw_refreshers g + snd (after_lookup l)\<rparr>)"
proof -
  have inv: "handles_inv (fw_state g) (fw_pcs g) (fw_published g)" "answers_inv g" "\<not> fw_panicked g"
    "fw_refreshers g = (if fc_refreshing (fw_state g) then 1 else 0)"
    using assms(1) by (auto simp: fl_inv_def)
  from assms(3) show ?thesis
  proof (cases rule: lookup_cases_of)
    case cached
    with assms(2) inv(2) have "Ok (fc_cache (fw_state g)) \<in> set (fw_answers g)"
      by (auto simp: answers_inv_def)
    moreover from inv(1) have "handles_inv (fw_state g) (fw_pcs g @ [FlDone (Ok (fc_cache (fw_state g)))]) (fw_published g)"
      by (rule handles_append_plain) auto
    ultimately show ?thesis using inv cached by (auto simp: fl_inv_def answers_inv_def)
  next
    case stale
    with inv(2) have "Ok (fc_cache (fw_state g)) \<in> set (fw_answers g)"
      by (auto simp: answers_inv_def)
    moreover from inv(1) have "handles_inv (fw_state g) (fw_pcs g @ [FlDone (Ok (fc_cache (fw_state g)))]) (fw_published g)"
      by (rule handles_append_plain) auto
    then have "handles_inv s (fw_pcs g @ [FlDone (Ok (fc_cache (fw_state g)))]) (fw_published g)"
      by (rule handles_state) (simp_all add: stale)
    ultimately show ?thesis using inv stale by (auto simp: fl_inv_def answers_inv_def)
  next
    case (join h)
    from inv(1) have "handles_inv (fw_state g) (fw_pcs g @ [FlWait h]) (fw_published g)"
      by (rule handles_append_plain) (auto simp: join)
    with inv join show ?thesis by (auto simp: fl_inv_def answers_inv_def)
  next
    case lead
    with handles_lead [OF inv(1)] inv show ?thesis by (auto simp: fl_inv_def answers_inv_def)
  qed
qed

text \<open>Goroutine \<open>i\<close> moves on with a result that OpenStack gave.\<close>

lemma answers_update:
  assumes "answers_inv g" and "result_of p = Some r" and "r \<in> A" and "set (fw_answers g) \<subseteq> A"
  shows "\<forall>q r'. q \<in> set ((fw_pcs g)[i := p]) \<longrightarrow> result_of q = Some r' \<longrightarrow> r' \<in> A"
proof (intro allI impI)
  fix q r' assume q: "q \<in> set ((fw_pcs g)[i := p])" "result_of q = Some r'"
  show "r' \<in> A"
  proof (cases "q = p")
    case False
    with q(1) have "q \<in> set (fw_pcs g)" by (rule update_mem(1))
    with assms(1,4) q(2) show ?thesis unfolding answers_inv_def by blast
  qed (use assms q in auto)
qed

lemma fl_inv_step: "fl_step g g' \<Longrightarrow> fl_inv g \<Longrightarrow> fl_inv g'"
proof (induction rule: fl_step.induct)
  case (fl_call now g l s)
  then show ?case by (intro inv_call)
next
  case (fl_fetched i g h r now)
  have inv: "handles_inv (fw_state g) (fw_pcs g) (fw_published g)" "answers_inv g"
    using fl_fetched(3) by (auto simp: fl_inv_def)
  have "\<forall>p r'. p \<in> set ((fw_pcs g)[i := FlPublish h r]) \<longrightarrow> result_of p = Some r'
      \<longrightarrow> r' \<in> set (r # fw_answers g)"
    using inv(2) by (rule answers_update [of _ _ r]) auto
  moreover have "fc_expire (lead_finish r now (fw_state g)) = zero_time \<and> fc_cache (lead_finish r now (fw_state g)) = []
      \<or> Ok (fc_cache (lead_finish r now (fw_state g))) \<in> set (r # fw_answers g)"
    using inv(2) flavor_store_answers [of r now "fw_state g"]
    by (auto simp: answers_inv_def lead_finish_def)
  ultimately show ?case
    using handles_fetched [OF inv(1) fl_fetched(1,2), of r now r] fl_fetched(3) inv(2)
    by (auto simp: fl_inv_def answers_inv_def lead_finish_def)
next
  case (fl_publish i g h r)
  have inv: "handles_inv (fw_state g) (fw_pcs g) (fw_published g)" "answers_inv g"
    using fl_publish(3) by (auto simp: fl_inv_def)
  have mem: "FlPublish h r \<in> set (fw_pcs g)" using fl_publish(1,2) nth_mem by fastforce
  then have r: "r \<in> set (fw_answers g)" using inv(2) unfolding answers_inv_def by fastforce
  have "\<forall>p r'. p \<in> set ((fw_pcs g)[i := FlDone r]) \<longrightarrow> result_of p = Some r' \<longrightarrow> r' \<in> set (fw_answers g)"
    using inv(2) by (rule answers_update [of _ _ r]) (use r in auto)
  moreover have "h \<notin> dom (fw_published g)" using handles_invD(5) [OF inv(1) mem, of h] by auto
  moreover have "ran ((fw_published g)(h \<mapsto> r)) \<subseteq> set (fw_answers g)"
    using inv(2) r by (auto simp: answers_inv_def ran_def split: if_splits)
  ultimately show ?case
    using handles_publish [OF inv(1) fl_publish(1,2), of r] fl_publish(3) inv(2)
    by (auto simp: fl_inv_def answers_inv_def)
next
  case (fl_wake i g h r)
  have inv: "handles_inv (fw_state g) (fw_pcs g) (fw_published g)" "answers_inv g"
    using fl_wake(4) by (auto simp: fl_inv_def)
  have r: "r \<in> set (fw_answers g)"
    using inv(2) fl_wake(3) unfolding answers_inv_def by (meson ranI subsetD)
  have "\<forall>p r'. p \<in> set ((fw_pcs g)[i := FlDone r]) \<longrightarrow> result_of p = Some r' \<longrightarrow> r' \<in> set (fw_answers g)"
    using inv(2) by (rule answers_update [of _ _ r]) (use r in auto)
  then show ?case
    using handles_wake [OF inv(1) fl_wake(1,2), of r] fl_wake(4) inv(2)
    by (auto simp: fl_inv_def answers_inv_def)
next
  case (fl_refreshed g r now)
  have inv: "handles_inv (fw_state g) (fw_pcs g) (fw_published g)" "answers_inv g"
    using fl_refreshed(2) by (auto simp: fl_inv_def)
  have "handles_inv (refresh_finish r now (fw_state g)) (fw_pcs g) (fw_published g)"
    using inv(1) by (rule handles_state) (simp_all add: refresh_finish_def)
  moreover have "answers_inv (g\<lparr>fw_state := refresh_finish r now (fw_state g), fw_refreshers := fw_refreshers g - 1,
       fw_answers := r # fw_answers g\<rparr>)"
    using inv(2) by (rule answers_more)
      (use flavor_store_answers [of r now "fw_state g"] in \<open>auto simp: refresh_finish_def\<close>)
  ultimately show ?case
    using fl_refreshed by (auto simp: fl_inv_def refresh_finish_def split: if_splits)
qed

lemma fl_inv_reachable: "fl_reachable g \<Longrightarrow> fl_inv g"
proof (induction rule: fl_reachable.induct)
  case fl_start
  show ?case by (simp add: fl_inv_def fl_init_def newFlavorState_def handles_inv_def answers_inv_def)
qed (rule fl_inv_step)

text \<open>
  C17. However the callers of the flavor cache interleave, at most one of them fetches the list for
  an empty cache and at most one background refresh runs; no result channel is closed twice; a
  caller returns only what OpenStack answered to some fetch; and a caller that waits is waiting for
  a fetch that is still running or whose result is there, so it is never left behind.
\<close>

theorem flavors_single_flight:
  assumes "fl_reachable g"
  shows "\<not> fw_panicked g \<and> fw_refreshers g \<le> 1
    \<and> (\<forall>i j h k. i < length (fw_pcs g) \<and> j < length (fw_pcs g) \<and> fw_pcs g ! i = FlFetch h
         \<and> fw_pcs g ! j = FlFetch k \<longrightarrow> i = j)
    \<and> (\<forall>r. FlDone r \<in> set (fw_pcs g) \<longrightarrow> r \<in> set (fw_answers g))
    \<and> (\<forall>h. FlWait h \<in> set (fw_pcs g) \<longrightarrow> (\<exists>r. fw_published g h = Some r)
         \<or> (\<exists>p\<in>set (fw_pcs g). p = FlFetch h \<or> (\<exists>r. p = FlPublish h r)))"
proof -
  have inv: "handles_inv (fw_state g) (fw_pcs g) (fw_published g)" "answers_inv g" "\<not> fw_panicked g"
    "fw_refreshers g \<le> 1"
    using fl_inv_reachable [OF assms] by (auto simp: fl_inv_def)
  note D = handles_invD [OF inv(1)]
  have "i = j" if "i < length (fw_pcs g)" "j < length (fw_pcs g)" "fw_pcs g ! i = FlFetch h"
    "fw_pcs g ! j = FlFetch k" for i j h k
  proof -
    have "FlFetch h \<in> set (fw_pcs g)" "FlFetch k \<in> set (fw_pcs g)"
      using that nth_mem [of i "fw_pcs g"] nth_mem [of j "fw_pcs g"] by simp_all
    then have "fc_inflight (fw_state g) = Some h" "fc_inflight (fw_state g) = Some k"
      by (auto intro: D(2))
    with that D(3) [of i j h] show ?thesis by auto
  qed
  moreover have "r \<in> set (fw_answers g)" if "FlDone r \<in> set (fw_pcs g)" for r
    using inv(2) that unfolding answers_inv_def by fastforce
  moreover have "(\<exists>r. fw_published g h = Some r) \<or> (\<exists>p\<in>set (fw_pcs g). p = FlFetch h \<or> (\<exists>r. p = FlPublish h r))"
    if w: "FlWait h \<in> set (fw_pcs g)" for h
  proof (cases "fw_published g h")
    case None
    then obtain p where "p \<in> set (fw_pcs g)" "owns p h" using D(7) w by blast
    then show ?thesis by (cases rule: fl_pc.exhaust [of p]) auto
  qed auto
  ultimately show ?thesis using inv(3,4) by blast
qed

text \<open>Two callers on the empty cache: the first leads the fetch, the second waits for it.\<close>

definition example_flavors :: fl_world where
  "example_flavors = fl_init\<lparr>fw_state := newFlavorState\<lparr>fc_inflight := Some 0, fc_next := 1\<rparr>,
     fw_pcs := [FlFetch 0, FlWait 0]\<rparr>"

lemma example_flavors_reachable: "fl_reachable example_flavors"
proof -
  let ?one = "fl_init\<lparr>fw_state := newFlavorState\<lparr>fc_inflight := Some 0, fc_next := 1\<rparr>, fw_pcs := [FlFetch 0]\<rparr>"
  have "flavor_lookup 5 newFlavorState = (Lead 0, newFlavorState\<lparr>fc_inflight := Some 0, fc_next := 1\<rparr>)"
    by (simp add: flavor_lookup_def newFlavorState_def zero_time_def)
  then have "fl_step fl_init ?one"
    using fl_call [of 5 fl_init] by (simp add: fl_init_def zero_time_def)
  then have one: "fl_reachable ?one" by (rule fl_next [OF fl_start])
  have "flavor_lookup 6 (fw_state ?one) = (Join 0, fw_state ?one)"
    by (simp add: flavor_lookup_def newFlavorState_def zero_time_def)
  from fl_call [OF _ this] have "fl_step ?one example_flavors"
    by (simp add: example_flavors_def fl_init_def zero_time_def)
  with one show ?thesis by (rule fl_next)
qed

theorem flavors_single_flight_witness:
  "FlWait 0 \<in> set (fw_pcs example_flavors) \<and> \<not> fw_panicked example_flavors
   \<and> (\<exists>p\<in>set (fw_pcs example_flavors). p = FlFetch 0 \<or> (\<exists>r. p = FlPublish 0 r))"
  using flavors_single_flight [OF example_flavors_reachable]
  by (simp add: example_flavors_def fl_init_def)

end
