(* ===== verification/Compute_Service.thy ===== *)
theory Compute_Service
  imports Access_Service Json_Values Flavor_Cache
begin

text \<open>
  Virtual machines: \<^verbatim>\<open>internal/domain/compute\<close> (\<^verbatim>\<open>types.go\<close>, \<^verbatim>\<open>repository.go\<close>, \<^verbatim>\<open>service.go\<close>,
  \<^verbatim>\<open>handler.go\<close>). The OpenStack client is a record of functions on an abstract world \<open>'w\<close>. Reads
  that the code starts in parallel are run in the order in which it starts them; they touch
  different state (the database, the cloud, the flavor cache).
\<close>

subsection \<open>Types\<close>

record AppSummary =
  as_ID :: nat
  as_Subdomain :: bytes
  as_Host :: bytes

record Instance =
  in_OpenstackID :: bytes
  in_Name :: bytes
  in_Status :: bytes
  in_ImageID :: bytes
  in_FlavorID :: bytes
  in_KeyName :: bytes
  in_Note :: bytes
  in_App :: "AppSummary option"
  in_Created :: int

record QuotaDetail =
  q_InUse :: int
  q_Limit :: int
  q_Reserved :: int

record QuotaDetailSet =
  qs_Cores :: QuotaDetail
  qs_RAM :: QuotaDetail
  qs_Instances :: QuotaDetail

text \<open>A Go map is listed in the order an iteration visits it; a nil map is the empty list.\<close>

record Server =
  sv_ID :: bytes
  sv_Name :: bytes
  sv_Status :: bytes
  sv_Image :: "(bytes \<times> any) list"
  sv_Flavor :: "(bytes \<times> any) list"
  sv_Addresses :: "(bytes \<times> any) list"
  sv_KeyName :: bytes
  sv_SecurityGroups :: "(bytes \<times> any) list list"
  sv_AccessIPv4 :: bytes
  sv_Created :: int

record CreateServerOpts =
  co_Name :: bytes
  co_ImageRef :: bytes
  co_FlavorRef :: bytes
  co_KeyName :: bytes
  co_Note :: bytes
  co_SecurityGroups :: "bytes list"
  co_Networks :: "bytes list"

record CreateInstanceRequest =
  cr_Name :: bytes
  cr_ImageID :: bytes
  cr_FlavorID :: bytes
  cr_NetworkID :: bytes
  cr_KeyName :: bytes
  cr_Note :: bytes
  cr_SecurityGroups :: "bytes list"

record UpdateInstanceRequest =
  ur_Name :: bytes
  ur_KeyName :: bytes
  ur_Note :: bytes

record CreateInstanceResponse =
  ci_res_ID :: bytes
  ci_res_Name :: bytes
  ci_res_Status :: bytes
  ci_res_ImageID :: bytes
  ci_res_FlavorID :: bytes
  ci_res_KeyName :: bytes
  ci_res_SecurityGroups :: "bytes list"
  ci_res_FixedIP :: bytes
  ci_res_FloatingIP :: bytes

record UsageStats =
  us_CPUUsage :: rat
  us_MemoryUsage :: int

record InstanceDetailResponse =
  id_ID :: bytes
  id_Name :: bytes
  id_Status :: bytes
  id_Image :: bytes
  id_Flavor :: Flavor
  id_KeyName :: bytes
  id_Note :: bytes
  id_FixedIP :: bytes
  id_FloatingIP :: bytes
  id_App :: "AppSummary option"
  id_Usage :: UsageStats
  id_Created :: int

datatype compute_err = ErrCreateInstanceNameRequired | ErrCreateInstanceImageRequired
  | ErrCreateInstanceFlavorRequired | ErrInstanceNotFound | ErrInstanceOperationFailed cause
  | ErrClient os_err | ErrQuota os_err

record 'w computeClient =
  cc_FetchFlavors :: "'w \<Rightarrow> (os_err + Flavor list) \<times> 'w"
  cc_GetComputeQuota :: "bytes \<Rightarrow> 'w \<Rightarrow> (os_err + QuotaDetailSet) \<times> 'w"
  cc_CreateServer :: "CreateServerOpts \<Rightarrow> 'w \<Rightarrow> (os_err + Server) \<times> 'w"
  cc_UpdateServerName :: "bytes \<Rightarrow> bytes \<Rightarrow> 'w \<Rightarrow> os_err option \<times> 'w"
  cc_PauseServer :: "bytes \<Rightarrow> 'w \<Rightarrow> os_err option \<times> 'w"
  cc_UnpauseServer :: "bytes \<Rightarrow> 'w \<Rightarrow> os_err option \<times> 'w"
  cc_DeleteServer :: "bytes \<Rightarrow> 'w \<Rightarrow> os_err option \<times> 'w"
  cc_FetchInstances :: "'w \<Rightarrow> (os_err + Server list) \<times> 'w"
  cc_FetchInstance :: "bytes \<Rightarrow> 'w \<Rightarrow> (os_err + Server) \<times> 'w"
  cc_FetchDiagnostics :: "bytes \<Rightarrow> 'w \<Rightarrow> (os_err + (bytes \<times> any) list) \<times> 'w"

record 'w compute_service =
  svc_client :: "'w computeClient"
  svc_projectID :: bytes
  svc_defaultNetworkID :: bytes

definition compute_NewService :: "'w computeClient \<Rightarrow> bytes \<Rightarrow> bytes \<Rightarrow> 'w compute_service" where
  "compute_NewService client projectID defaultNetworkID =
     \<lparr>svc_client = client, svc_projectID = projectID, svc_defaultNetworkID = TrimSpace defaultNetworkID\<rparr>"

record 'w compute_state =
  cp_db :: db
  cp_cloud :: 'w
  cp_flavors :: flavorState

subsection \<open>Repository\<close>

definition firstLabel :: "bytes \<Rightarrow> bytes" where
  "firstLabel host = fst (Cut CHR ''.'' (TrimSpace (ToLower host)))"

definition entToInstance :: "db \<Rightarrow> instance_row \<Rightarrow> Instance" where
  "entToInstance d row = \<lparr>in_OpenstackID = i_openstack_id row, in_Name = i_name row,
     in_Status = i_status row, in_ImageID = i_image_id row, in_FlavorID = i_flavor_id row,
     in_KeyName = i_key_name row, in_Note = i_note row,
     in_App = (case filter (\<lambda>a. a_instance a = i_id row) (apps d) of
        [] \<Rightarrow> None
      | a # _ \<Rightarrow> Some \<lparr>as_ID = a_id a, as_Subdomain = firstLabel (a_host a), as_Host = a_host a\<rparr>),
     in_Created = i_provider_created_at row\<rparr>"

definition new_instance_row :: "nat \<Rightarrow> Instance \<Rightarrow> db \<Rightarrow> instance_row" where
  "new_instance_row ownerID inst d = \<lparr>i_id = seq d,
     i_openstack_id = in_OpenstackID inst, i_name = in_Name inst, i_status = in_Status inst,
     i_image_id = in_ImageID inst, i_flavor_id = in_FlavorID inst, i_key_name = in_KeyName inst,
     i_note = in_Note inst, i_provider_created_at = in_Created inst, i_created_at = clock d,
     i_keypair = None, i_owner = ownerID\<rparr>"

definition SaveInstance :: "nat \<Rightarrow> Instance \<Rightarrow> unit dbop" where
  "SaveInstance ownerID inst = exec (\<lambda>d. ((), d\<lparr>instances := instances d @ [new_instance_row ownerID inst d],
     seq := Suc (seq d)\<rparr>))"

definition UpdateInstanceMetadata :: "nat \<Rightarrow> bytes \<Rightarrow> UpdateInstanceRequest \<Rightarrow> unit dbop" where
  "UpdateInstanceMetadata ownerID openstackID u = exec (\<lambda>d. ((), d\<lparr>instances :=
     update_rows (\<lambda>i. i_openstack_id i = openstackID \<and> i_owner i = ownerID)
       (\<lambda>i. i\<lparr>i_name := (if ur_Name u \<noteq> [] then ur_Name u else i_name i), i_key_name := ur_KeyName u,
          i_note := ur_Note u\<rparr>) (instances d)\<rparr>))"

definition Instance_DeleteByOpenstackID :: "nat \<Rightarrow> bytes \<Rightarrow> unit dbop" where
  "Instance_DeleteByOpenstackID ownerID openstackID = exec (\<lambda>d. ((), d\<lparr>instances :=
     filter (\<lambda>i. \<not> (i_openstack_id i = openstackID \<and> i_owner i = ownerID)) (instances d)\<rparr>))"

definition Instance_ListByOwner :: "nat \<Rightarrow> Instance list dbop" where
  "Instance_ListByOwner ownerID d =
     (case query (\<lambda>d. all_rows (instances d) (\<lambda>i. i_owner i = ownerID)) d of
        (Err e, d') \<Rightarrow> (Err e, d')
      | (Ok rows, d') \<Rightarrow> (Ok (map (entToInstance d') rows), d'))"

definition Instance_FindByOpenstackID :: "nat \<Rightarrow> bytes \<Rightarrow> Instance option dbop" where
  "Instance_FindByOpenstackID ownerID openstackID = find_opt instances
     (\<lambda>i. i_openstack_id i = openstackID \<and> i_owner i = ownerID) entToInstance"

definition instance_set :: "db \<Rightarrow> (nat \<times> bytes \<times> Instance) set" where
  "instance_set d = (\<lambda>i. (i_owner i, i_openstack_id i, entToInstance d i)) ` set (instances d)"

lemma entToInstance_apps: "apps d = apps e \<Longrightarrow> entToInstance d = entToInstance e"
  by (rule ext) (simp add: entToInstance_def)

interpretation inr: owned_repo instance_set Instance_FindByOpenstackID Instance_DeleteByOpenstackID
proof
  fix d d' own name and v :: Instance and r
  show "same_tables d d' \<Longrightarrow> instance_set d' = instance_set d"
    using entToInstance_apps [of d d'] by (simp add: instance_set_def same_tables_def)
  show "Instance_FindByOpenstackID own name d = (r, d') \<Longrightarrow> same_tables d d'"
    unfolding Instance_FindByOpenstackID_def by (rule find_opt_tables)
  show "Instance_FindByOpenstackID own name d = (Ok (Some v), d') \<Longrightarrow> (own, name, v) \<in> instance_set d'"
    unfolding Instance_FindByOpenstackID_def by (auto simp: instance_set_def elim!: find_opt_Some)
  show "Instance_FindByOpenstackID own name d = (Ok None, d') \<Longrightarrow> (own, name, v) \<notin> instance_set d'"
    unfolding Instance_FindByOpenstackID_def by (auto simp: instance_set_def dest!: find_opt_None)
next
  fix d d' own name q e and u :: unit
  show "Instance_DeleteByOpenstackID own name d = (q, d') \<Longrightarrow> db_wf d \<Longrightarrow> db_wf d'"
    unfolding Instance_DeleteByOpenstackID_def by (rule exec_wf)
  show "Instance_DeleteByOpenstackID own name d = (Err e, d') \<Longrightarrow> same_tables d d'"
    unfolding Instance_DeleteByOpenstackID_def by (rule exec_err)
  show "instance_set d' = {x \<in> instance_set d. \<not> (fst x = own \<and> fst (snd x) = name)}"
    if del: "Instance_DeleteByOpenstackID own name d = (Ok u, d')"
  proof -
    from del obtain e where e: "same_tables d e" "d' = e\<lparr>instances :=
        filter (\<lambda>i. \<not> (i_openstack_id i = name \<and> i_owner i = own)) (instances e)\<rparr>"
      unfolding Instance_DeleteByOpenstackID_def by (elim exec_ok) auto
    have ent: "entToInstance d' = entToInstance d" using e by (intro entToInstance_apps) (simp add: same_tables_def)
    have "set (instances d') = {i \<in> set (instances d). \<not> (i_openstack_id i = name \<and> i_owner i = own)}"
      using e by (simp add: same_tables_def)
    then show ?thesis unfolding instance_set_def ent by (simp only:) fastforce
  qed
qed

subsection \<open>Requests and responses\<close>

definition normalizeStringSlice :: "bytes list \<Rightarrow> bytes list" where
  "normalizeStringSlice values = filter (\<lambda>s. s \<noteq> []) (map TrimSpace values)"

definition normalizeCreateInstanceRequest :: "CreateInstanceRequest \<Rightarrow> CreateInstanceRequest" where
  "normalizeCreateInstanceRequest req = \<lparr>cr_Name = TrimSpace (cr_Name req),
     cr_ImageID = TrimSpace (cr_ImageID req), cr_FlavorID = TrimSpace (cr_FlavorID req),
     cr_NetworkID = TrimSpace (cr_NetworkID req), cr_KeyName = TrimSpace (cr_KeyName req),
     cr_Note = TrimSpace (cr_Note req),
     cr_SecurityGroups = normalizeStringSlice (cr_SecurityGroups req)\<rparr>"

definition normalizeUpdateInstanceRequest :: "UpdateInstanceRequest \<Rightarrow> UpdateInstanceRequest" where
  "normalizeUpdateInstanceRequest req = \<lparr>ur_Name = TrimSpace (ur_Name req),
     ur_KeyName = TrimSpace (ur_KeyName req), ur_Note = TrimSpace (ur_Note req)\<rparr>"

definition normalizeCreateServerOpts :: "CreateServerOpts \<Rightarrow> CreateServerOpts" where
  "normalizeCreateServerOpts opts = \<lparr>co_Name = TrimSpace (co_Name opts),
     co_ImageRef = TrimSpace (co_ImageRef opts), co_FlavorRef = TrimSpace (co_FlavorRef opts),
     co_KeyName = TrimSpace (co_KeyName opts), co_Note = TrimSpace (co_Note opts),
     co_SecurityGroups = normalizeStringSlice (co_SecurityGroups opts),
     co_Networks = filter (\<lambda>u. u \<noteq> []) (map TrimSpace (co_Networks opts))\<rparr>"

definition validateCreateServerOpts :: "CreateServerOpts \<Rightarrow> compute_err option" where
  "validateCreateServerOpts opts =
     (if co_Name opts = [] then Some ErrCreateInstanceNameRequired
      else if co_ImageRef opts = [] then Some ErrCreateInstanceImageRequired
      else if co_FlavorRef opts = [] then Some ErrCreateInstanceFlavorRequired
      else None)"

definition buildCreateServerOpts :: "CreateInstanceRequest \<Rightarrow> compute_err + CreateServerOpts" where
  "buildCreateServerOpts req0 =
     (let req = normalizeCreateInstanceRequest req0;
          opts = \<lparr>co_Name = cr_Name req, co_ImageRef = cr_ImageID req, co_FlavorRef = cr_FlavorID req,
            co_KeyName = cr_KeyName req, co_Note = cr_Note req,
            co_SecurityGroups = cr_SecurityGroups req,
            co_Networks = (if cr_NetworkID req \<noteq> [] then [cr_NetworkID req] else [])\<rparr> in
      case validateCreateServerOpts opts of Some e \<Rightarrow> Err e | None \<Rightarrow> Ok opts)"

text \<open>
  \<^verbatim>\<open>decodeServerAddresses\<close> re-encodes a value and decodes it as a list of addresses: null is the
  empty list, a null element is the zero address, and any value of another type is an error, which
  gives no addresses at all.
\<close>

fun decode_address :: "any \<Rightarrow> serverAddress option" where
  "decode_address ANull = Some \<lparr>sa_Address = [], sa_Type = []\<rparr>"
| "decode_address (AMap m) = (case (string_field ''addr'' m, string_field ''OS-EXT-IPS:type'' m) of
     (Some a, Some t) \<Rightarrow> Some \<lparr>sa_Address = a, sa_Type = t\<rparr> | _ \<Rightarrow> None)"
| "decode_address _ = None"

fun decodeServerAddresses :: "any \<Rightarrow> serverAddress list" where
  "decodeServerAddresses (AArr xs) =
     (if list_all (\<lambda>x. decode_address x \<noteq> None) xs then List.map_filter decode_address xs else [])"
| "decodeServerAddresses _ = []"

definition compute_extractServerIPs :: "Server \<Rightarrow> bytes \<times> bytes" where
  "compute_extractServerIPs srv =
     extractServerIPs (map (\<lambda>(_, raw). decodeServerAddresses raw) (sv_Addresses srv)) (sv_AccessIPv4 srv)"

definition ExtractFixedIP :: "Server \<Rightarrow> bytes" where
  "ExtractFixedIP srv = fst (compute_extractServerIPs srv)"

definition extractResourceID :: "(bytes \<times> any) list \<Rightarrow> bytes" where
  "extractResourceID resource = TrimSpace (as_string (map_of resource ''id''))"

definition extractSecurityGroupNames :: "(bytes \<times> any) list list \<Rightarrow> bytes list \<Rightarrow> bytes list" where
  "extractSecurityGroupNames groups fallback =
     (let names = filter (\<lambda>n. n \<noteq> []) (map (\<lambda>g. TrimSpace (as_string (map_of g ''name''))) groups) in
      if names \<noteq> [] then names else fallback)"

text \<open>
  The numbers of the diagnostics are floats; \<open>rnd\<close> rounds the exact quotient to the nearest float.
\<close>

definition extractUsageStats :: "(rat \<Rightarrow> rat) \<Rightarrow> (bytes \<times> any) list option \<Rightarrow> UsageStats" where
  "extractUsageStats rnd diag = (case diag of
     None \<Rightarrow> \<lparr>us_CPUUsage = 0, us_MemoryUsage = 0\<rparr>
   | Some m \<Rightarrow> \<lparr>us_CPUUsage = (case map_of m ''cpu0_time'' of Some (AFloat cpu) \<Rightarrow> rnd (cpu / 10 ^ 9) | _ \<Rightarrow> 0),
       us_MemoryUsage = (case map_of m ''memory'' of
          Some (AFloat mem) \<Rightarrow> (let q = rnd (mem / 1024) in if 0 \<le> q then \<lfloor>q\<rfloor> else \<lceil>q\<rceil>) | _ \<Rightarrow> 0)\<rparr>)"

definition normalizeServerStatus :: "bytes \<Rightarrow> bytes" where
  "normalizeServerStatus status = firstNonEmpty [status, ''BUILD'']"

definition buildCreateInstanceResponse :: "Server \<Rightarrow> CreateServerOpts \<Rightarrow> CreateInstanceResponse" where
  "buildCreateInstanceResponse srv opts = (case compute_extractServerIPs srv of (fixedIP, floatingIP) \<Rightarrow>
     \<lparr>ci_res_ID = sv_ID srv,
      ci_res_Name = firstNonEmpty [TrimSpace (sv_Name srv), co_Name opts],
      ci_res_Status = normalizeServerStatus (sv_Status srv),
      ci_res_ImageID = firstNonEmpty [extractResourceID (sv_Image srv), co_ImageRef opts],
      ci_res_FlavorID = firstNonEmpty [extractResourceID (sv_Flavor srv), co_FlavorRef opts],
      ci_res_KeyName = firstNonEmpty [TrimSpace (sv_KeyName srv), co_KeyName opts],
      ci_res_SecurityGroups = extractSecurityGroupNames (sv_SecurityGroups srv) (co_SecurityGroups opts),
      ci_res_FixedIP = fixedIP, ci_res_FloatingIP = floatingIP\<rparr>)"

subsection \<open>Flavors and quota\<close>

definition GetFlavors :: "'w compute_service \<Rightarrow> flavor_env \<Rightarrow> 'w compute_state
    \<Rightarrow> (compute_err + Flavor list) \<times> 'w compute_state" where
  "GetFlavors svc env st =
     (case fetchFlavors (cc_FetchFlavors (svc_client svc)) env (cp_flavors st) (cp_cloud st) of
        (r, fs, w) \<Rightarrow> (case r of Err e \<Rightarrow> Err (ErrClient e) | Ok fl \<Rightarrow> Ok fl,
           st\<lparr>cp_cloud := w, cp_flavors := fs\<rparr>))"

definition remaining :: "QuotaDetail \<Rightarrow> int" where
  "remaining q = wrap64 (wrap64 (q_Limit q - q_InUse q) - q_Reserved q)"

definition max_configurable :: "QuotaDetailSet \<Rightarrow> Flavor \<Rightarrow> int" where
  "max_configurable quota f =
     (let remCores = remaining (qs_Cores quota); remRAM = remaining (qs_RAM quota);
          remInstances = remaining (qs_Instances quota);
          countByCPU = (if fl_VCPUs f > 0 then quot remCores (fl_VCPUs f) else 999);
          countByRAM = (if fl_RAM f > 0 then quot remRAM (fl_RAM f) else 999) in
      max (min remInstances (min countByRAM countByCPU)) 0)"

definition GetAvailableFlavorsWithLimit :: "'w compute_service \<Rightarrow> flavor_env \<Rightarrow> 'w compute_state
    \<Rightarrow> (compute_err + (Flavor \<times> int) list) \<times> 'w compute_state" where
  "GetAvailableFlavorsWithLimit svc env st =
     (case fetchFlavors (cc_FetchFlavors (svc_client svc)) env (cp_flavors st) (cp_cloud st) of
        (r, fs, w) \<Rightarrow> (case r of
          Err e \<Rightarrow> (Err (ErrClient e), st\<lparr>cp_cloud := w, cp_flavors := fs\<rparr>)
        | Ok rawFlavors \<Rightarrow> (case cc_GetComputeQuota (svc_client svc) (svc_projectID svc) w of
            (Err e, w) \<Rightarrow> (Err (ErrQuota e), st\<lparr>cp_cloud := w, cp_flavors := fs\<rparr>)
          | (Ok quota, w) \<Rightarrow> (Ok (map (\<lambda>f. (f, max_configurable quota f)) rawFlavors),
               st\<lparr>cp_cloud := w, cp_flavors := fs\<rparr>))))"

definition fetchFlavorMap :: "'w compute_service \<Rightarrow> flavor_env \<Rightarrow> flavorState \<Rightarrow> 'w
    \<Rightarrow> (os_err + (bytes \<rightharpoonup> Flavor)) \<times> flavorState \<times> 'w" where
  "fetchFlavorMap svc env s w = (case fetchFlavors (cc_FetchFlavors (svc_client svc)) env s w of
     (r, s, w) \<Rightarrow> (case r of Err e \<Rightarrow> Err e | Ok raw \<Rightarrow> Ok (map_of (rev (map (\<lambda>f. (fl_ID f, f)) raw))), s, w))"

definition zeroFlavor :: Flavor where
  "zeroFlavor = \<lparr>fl_ID = [], fl_Name = [], fl_VCPUs = 0, fl_RAM = 0, fl_Disk = 0\<rparr>"

definition flavor_of :: "(bytes \<rightharpoonup> Flavor) \<Rightarrow> bytes \<Rightarrow> Flavor" where
  "flavor_of m i = (case m i of None \<Rightarrow> zeroFlavor | Some f \<Rightarrow> f)"

subsection \<open>Operations of the service\<close>

definition isServerNotFound :: "os_err + 'a \<Rightarrow> bool" where
  "isServerNotFound r = (case r of Err e \<Rightarrow> hasStatusCode e 404 | Ok _ \<Rightarrow> False)"

text \<open>
  The goroutines of \<^verbatim>\<open>pruneStaleInstances\<close> look their server up in the cloud and then delete the row
  from the database. The lookups happen in some order and the deletions in some order; \<open>order1\<close> and
  \<open>order2\<close> are these orders. The result is the first failing deletion.
\<close>

fun check_gone :: "'w computeClient \<Rightarrow> bytes list \<Rightarrow> 'w \<Rightarrow> bytes list \<times> 'w" where
  "check_gone client [] w = ([], w)"
| "check_gone client (i # ids) w = (case cc_FetchInstance client i w of (r, w) \<Rightarrow>
     case check_gone client ids w of (gone, w) \<Rightarrow> ((if isServerNotFound r then i # gone else gone), w))"

fun delete_gone :: "nat \<Rightarrow> bytes list \<Rightarrow> db \<Rightarrow> compute_err option \<times> db" where
  "delete_gone ownerID [] d = (None, d)"
| "delete_gone ownerID (i # ids) d = (case Instance_DeleteByOpenstackID ownerID i d of (r, d) \<Rightarrow>
     case delete_gone ownerID ids d of (e, d) \<Rightarrow>
       ((case r of Err x \<Rightarrow> Some (ErrInstanceOperationFailed (DbCause x)) | Ok _ \<Rightarrow> e), d))"

definition pruneStaleInstances :: "'w computeClient \<Rightarrow> (bytes list \<Rightarrow> bytes list)
    \<Rightarrow> (bytes list \<Rightarrow> bytes list) \<Rightarrow> nat \<Rightarrow> bytes list \<Rightarrow> db \<times> 'w
    \<Rightarrow> compute_err option \<times> db \<times> 'w" where
  "pruneStaleInstances client order1 order2 ownerID staleIDs = (\<lambda>(d, w).
     case check_gone client (order1 staleIDs) w of (gone, w) \<Rightarrow>
     case delete_gone ownerID (order2 gone) d of (e, d) \<Rightarrow> (e, d, w))"

definition list_detail :: "(bytes \<rightharpoonup> Flavor) \<Rightarrow> Instance \<Rightarrow> Server \<Rightarrow> InstanceDetailResponse" where
  "list_detail flavorMap inst srv = (case compute_extractServerIPs srv of (fixedIP, floatingIP) \<Rightarrow>
     \<lparr>id_ID = in_OpenstackID inst, id_Name = in_Name inst, id_Status = sv_Status srv,
      id_Image = in_ImageID inst, id_Flavor = flavor_of flavorMap (in_FlavorID inst),
      id_KeyName = firstNonEmpty [in_KeyName inst, sv_KeyName srv], id_Note = in_Note inst,
      id_FixedIP = fixedIP, id_FloatingIP = floatingIP, id_App = in_App inst,
      id_Usage = \<lparr>us_CPUUsage = 0, us_MemoryUsage = 0\<rparr>, id_Created = sv_Created srv\<rparr>)"

definition server_map :: "Server list \<Rightarrow> bytes \<rightharpoonup> Server" where
  "server_map osServers = map_of (rev (map (\<lambda>s. (sv_ID s, s)) osServers))"

definition GetInstances :: "'w compute_service \<Rightarrow> flavor_env \<Rightarrow> (bytes list \<Rightarrow> bytes list)
    \<Rightarrow> (bytes list \<Rightarrow> bytes list) \<Rightarrow> nat \<Rightarrow> 'w compute_state
    \<Rightarrow> (compute_err + InstanceDetailResponse list) \<times> 'w compute_state" where
  "GetInstances svc env order1 order2 ownerID st =
     (case Instance_ListByOwner ownerID (cp_db st) of (dbR, d) \<Rightarrow>
      case cc_FetchInstances (svc_client svc) (cp_cloud st) of (osR, w) \<Rightarrow>
      case fetchFlavorMap svc env (cp_flavors st) w of (flR, fs, w) \<Rightarrow>
      let st1 = \<lparr>cp_db = d, cp_cloud = w, cp_flavors = fs\<rparr> in
      case (dbR, osR, flR) of
        (Err e, _, _) \<Rightarrow> (Err (ErrInstanceOperationFailed (DbCause e)), st1)
      | (Ok _, Err e, _) \<Rightarrow> (Err (ErrInstanceOperationFailed (OsCause e)), st1)
      | (Ok _, Ok _, Err e) \<Rightarrow> (Err (ErrInstanceOperationFailed (OsCause e)), st1)
      | (Ok dbInstances, Ok osServers, Ok flavorMap) \<Rightarrow>
          let sm = server_map osServers;
              res = List.map_filter (\<lambda>inst. map_option (list_detail flavorMap inst) (sm (in_OpenstackID inst))) dbInstances;
              staleIDs = map in_OpenstackID (filter (\<lambda>inst. sm (in_OpenstackID inst) = None) dbInstances) in
          case pruneStaleInstances (svc_client svc) order1 order2 ownerID staleIDs (d, w) of
            (_, d, w) \<Rightarrow> (Ok res, \<lparr>cp_db = d, cp_cloud = w, cp_flavors = fs\<rparr>))"

definition GetInstanceDetail :: "'w compute_service \<Rightarrow> (rat \<Rightarrow> rat) \<Rightarrow> flavor_env \<Rightarrow> nat \<Rightarrow> bytes
    \<Rightarrow> 'w compute_state \<Rightarrow> (compute_err + InstanceDetailResponse) \<times> 'w compute_state" where
  "GetInstanceDetail svc rnd env ownerID i st =
     (case Instance_FindByOpenstackID ownerID i (cp_db st) of (dbR, d) \<Rightarrow>
      case cc_FetchInstance (svc_client svc) i (cp_cloud st) of (osR, w) \<Rightarrow>
      case cc_FetchDiagnostics (svc_client svc) i w of (dgR, w) \<Rightarrow>
      case fetchFlavorMap svc env (cp_flavors st) w of (flR, fs, w) \<Rightarrow>
      let st1 = \<lparr>cp_db = d, cp_cloud = w, cp_flavors = fs\<rparr>;
          diag = (case dgR of Err _ \<Rightarrow> None | Ok m \<Rightarrow> Some m) in
      (case (dbR, osR, flR) of
        (Err e, _, _) \<Rightarrow> Err (ErrInstanceOperationFailed (DbCause e))
      | (Ok None, _, _) \<Rightarrow> Err ErrInstanceNotFound
      | (Ok (Some _), Err e, _) \<Rightarrow> Err (ErrInstanceOperationFailed (OsCause e))
      | (Ok (Some _), Ok _, Err e) \<Rightarrow> Err (ErrInstanceOperationFailed (OsCause e))
      | (Ok (Some inst), Ok srv, Ok flavorMap) \<Rightarrow>
          Ok ((list_detail flavorMap inst srv)\<lparr>id_Usage := extractUsageStats rnd diag\<rparr>), st1))"

text \<open>The request with its blank fields filled in from the instance.\<close>

definition fill_blank :: "Instance \<Rightarrow> UpdateInstanceRequest \<Rightarrow> UpdateInstanceRequest" where
  "fill_blank inst req =
     \<lparr>ur_Name = (if ur_Name req = [] then in_Name inst else ur_Name req),
      ur_KeyName = (if ur_KeyName req = [] then in_KeyName inst else ur_KeyName req),
      ur_Note = (if ur_Note req = [] then in_Note inst else ur_Note req)\<rparr>"

definition UpdateInstance :: "'w compute_service \<Rightarrow> (rat \<Rightarrow> rat) \<Rightarrow> flavor_env \<Rightarrow> nat \<Rightarrow> bytes
    \<Rightarrow> UpdateInstanceRequest \<Rightarrow> 'w compute_state
    \<Rightarrow> (compute_err + InstanceDetailResponse) \<times> 'w compute_state" where
  "UpdateInstance svc rnd env ownerID i req st =
     (case Instance_FindByOpenstackID ownerID i (cp_db st) of
        (Err e, d) \<Rightarrow> (Err (ErrInstanceOperationFailed (DbCause e)), st\<lparr>cp_db := d\<rparr>)
      | (Ok None, d) \<Rightarrow> (Err ErrInstanceNotFound, st\<lparr>cp_db := d\<rparr>)
      | (Ok (Some inst), d) \<Rightarrow>
          (let req = fill_blank inst (normalizeUpdateInstanceRequest req);
               renamed = (if ur_Name req \<noteq> in_Name inst
                 then cc_UpdateServerName (svc_client svc) i (ur_Name req) (cp_cloud st)
                 else (None, cp_cloud st)) in
           case renamed of
             (Some e, w) \<Rightarrow> (Err (ErrInstanceOperationFailed (OsCause e)), st\<lparr>cp_db := d, cp_cloud := w\<rparr>)
           | (None, w) \<Rightarrow> (case UpdateInstanceMetadata ownerID i req d of
               (Err e, d) \<Rightarrow> (Err (ErrInstanceOperationFailed (DbCause e)), st\<lparr>cp_db := d, cp_cloud := w\<rparr>)
             | (Ok _, d) \<Rightarrow> GetInstanceDetail svc rnd env ownerID i (st\<lparr>cp_db := d, cp_cloud := w\<rparr>))))"

text \<open>The shape of \<^verbatim>\<open>PauseInstance\<close> and \<^verbatim>\<open>UnpauseInstance\<close>: find the instance, then call the cloud.\<close>

definition on_own_instance :: "(bytes \<Rightarrow> 'w \<Rightarrow> os_err option \<times> 'w) \<Rightarrow> nat \<Rightarrow> bytes \<Rightarrow> db \<times> 'w
    \<Rightarrow> (compute_err + unit) \<times> db \<times> 'w" where
  "on_own_instance act ownerID i = (\<lambda>(d, w). case Instance_FindByOpenstackID ownerID i d of
     (Err e, d) \<Rightarrow> (Err (ErrInstanceOperationFailed (DbCause e)), d, w)
   | (Ok None, d) \<Rightarrow> (Err ErrInstanceNotFound, d, w)
   | (Ok (Some _), d) \<Rightarrow> (case act i w of
       (Some e, w) \<Rightarrow> (Err (ErrInstanceOperationFailed (OsCause e)), d, w)
     | (None, w) \<Rightarrow> (Ok (), d, w)))"

definition PauseInstance :: "'w computeClient \<Rightarrow> nat \<Rightarrow> bytes \<Rightarrow> db \<times> 'w
    \<Rightarrow> (compute_err + unit) \<times> db \<times> 'w" where
  "PauseInstance client = on_own_instance (cc_PauseServer client)"

definition UnpauseInstance :: "'w computeClient \<Rightarrow> nat \<Rightarrow> bytes \<Rightarrow> db \<times> 'w
    \<Rightarrow> (compute_err + unit) \<times> db \<times> 'w" where
  "UnpauseInstance client = on_own_instance (cc_UnpauseServer client)"

definition DeleteInstance :: "'w computeClient \<Rightarrow> nat \<Rightarrow> bytes \<Rightarrow> db \<times> 'w
    \<Rightarrow> (compute_err + unit) \<times> db \<times> 'w" where
  "DeleteInstance client ownerID i = (\<lambda>(d, w). case Instance_FindByOpenstackID ownerID i d of
     (Err e, d) \<Rightarrow> (Err (ErrInstanceOperationFailed (DbCause e)), d, w)
   | (Ok None, d) \<Rightarrow> (Err ErrInstanceNotFound, d, w)
   | (Ok (Some _), d) \<Rightarrow> (case cc_DeleteServer client i w of
       (Some e, w) \<Rightarrow> (Err (ErrInstanceOperationFailed (OsCause e)), d, w)
     | (None, w) \<Rightarrow> (case Instance_DeleteByOpenstackID ownerID i d of
         (Err e, d) \<Rightarrow> (Err (ErrInstanceOperationFailed (DbCause e)), d, w)
       | (Ok _, d) \<Rightarrow> (Ok (), d, w))))"

definition created_instance :: "Server \<Rightarrow> CreateServerOpts \<Rightarrow> Instance" where
  "created_instance srv opts = \<lparr>in_OpenstackID = sv_ID srv,
     in_Name = firstNonEmpty [TrimSpace (sv_Name srv), co_Name opts],
     in_Status = normalizeServerStatus (sv_Status srv),
     in_ImageID = firstNonEmpty [extractResourceID (sv_Image srv), co_ImageRef opts],
     in_FlavorID = firstNonEmpty [extractResourceID (sv_Flavor srv), co_FlavorRef opts],
     in_KeyName = co_KeyName opts, in_Note = co_Note opts, in_App = None, in_Created = sv_Created srv\<rparr>"

definition CreateInstance :: "'w compute_service \<Rightarrow> nat \<Rightarrow> CreateServerOpts \<Rightarrow> db \<times> 'w
    \<Rightarrow> (compute_err + CreateInstanceResponse) \<times> db \<times> 'w" where
  "CreateInstance svc ownerID opts0 = (\<lambda>(d, w).
     let opts1 = normalizeCreateServerOpts opts0;
         opts = (if co_Networks opts1 = [] \<and> svc_defaultNetworkID svc \<noteq> []
           then opts1\<lparr>co_Networks := [svc_defaultNetworkID svc]\<rparr> else opts1) in
     case validateCreateServerOpts opts of Some e \<Rightarrow> (Err e, d, w)
     | None \<Rightarrow> (case cc_CreateServer (svc_client svc) opts w of
         (Err e, w) \<Rightarrow> (Err (ErrClient e), d, w)
       | (Ok srv, w) \<Rightarrow> (case SaveInstance ownerID (created_instance srv opts) d of
           (Err e, d) \<Rightarrow> (case cc_DeleteServer (svc_client svc) (sv_ID srv) w of
              (_, w) \<Rightarrow> (Err (ErrInstanceOperationFailed (DbCause e)), d, w))
         | (Ok _, d) \<Rightarrow> (Ok (buildCreateInstanceResponse srv opts), d, w))))"

subsection \<open>Handlers\<close>

definition not_found_or_500 :: "compute_err \<Rightarrow> (compute_err, 'a) response" where
  "not_found_or_500 e = (if e = ErrInstanceNotFound then (404, ErrText e) else (500, ErrText e))"

definition h_GetFlavors :: "'w compute_service \<Rightarrow> flavor_env \<Rightarrow> bytes \<Rightarrow> 'w compute_state
    \<Rightarrow> (compute_err, Flavor list + (Flavor \<times> int) list) response \<times> 'w compute_state" where
  "h_GetFlavors svc env available st =
     (if available = ''true'' then (case GetAvailableFlavorsWithLimit svc env st of
          (Err e, st) \<Rightarrow> ((500, ErrText e), st) | (Ok fl, st) \<Rightarrow> ((200, Json (Inr fl)), st))
      else (case GetFlavors svc env st of
          (Err e, st) \<Rightarrow> ((500, ErrText e), st) | (Ok fl, st) \<Rightarrow> ((200, Json (Inl fl)), st)))"

definition h_GetInstances :: "'w compute_service \<Rightarrow> flavor_env \<Rightarrow> (bytes list \<Rightarrow> bytes list)
    \<Rightarrow> (bytes list \<Rightarrow> bytes list) \<Rightarrow> nat option \<Rightarrow> 'w compute_state
    \<Rightarrow> (compute_err, InstanceDetailResponse list) response \<times> 'w compute_state" where
  "h_GetInstances svc env order1 order2 owner st = (case owner of None \<Rightarrow> (unauthorized, st)
   | Some ownerID \<Rightarrow> (case GetInstances svc env order1 order2 ownerID st of
       (Err e, st) \<Rightarrow> ((500, ErrText e), st) | (Ok r, st) \<Rightarrow> ((200, Json r), st)))"

definition h_GetInstanceDetail :: "'w compute_service \<Rightarrow> (rat \<Rightarrow> rat) \<Rightarrow> flavor_env \<Rightarrow> nat option
    \<Rightarrow> bytes \<Rightarrow> 'w compute_state \<Rightarrow> (compute_err, InstanceDetailResponse) response \<times> 'w compute_state" where
  "h_GetInstanceDetail svc rnd env owner i st = (case owner of None \<Rightarrow> (unauthorized, st)
   | Some ownerID \<Rightarrow> (case GetInstanceDetail svc rnd env ownerID i st of
       (Err e, st) \<Rightarrow> (not_found_or_500 e, st) | (Ok r, st) \<Rightarrow> ((200, Json r), st)))"

definition h_UpdateInstance :: "'w compute_service \<Rightarrow> (rat \<Rightarrow> rat) \<Rightarrow> flavor_env \<Rightarrow> nat option
    \<Rightarrow> bytes \<Rightarrow> UpdateInstanceRequest option \<Rightarrow> 'w compute_state
    \<Rightarrow> (compute_err, InstanceDetailResponse) response \<times> 'w compute_state" where
  "h_UpdateInstance svc rnd env owner i bound st = (case owner of None \<Rightarrow> (unauthorized, st)
   | Some ownerID \<Rightarrow> (case bound of None \<Rightarrow> ((400, ErrMsg ''invalid request body''), st)
     | Some req \<Rightarrow> (case UpdateInstance svc rnd env ownerID i req st of
         (Err e, st) \<Rightarrow> (not_found_or_500 e, st) | (Ok r, st) \<Rightarrow> ((200, Json r), st))))"

definition h_PauseInstance :: "'w computeClient \<Rightarrow> nat option \<Rightarrow> bytes \<Rightarrow> db \<times> 'w
    \<Rightarrow> (compute_err, unit) response \<times> db \<times> 'w" where
  "h_PauseInstance client owner i st = (case owner of None \<Rightarrow> (unauthorized, st)
   | Some ownerID \<Rightarrow> (case PauseInstance client ownerID i st of
       (Err e, st) \<Rightarrow> (not_found_or_500 e, st) | (Ok _, st) \<Rightarrow> ((202, NoBody), st)))"

definition h_UnpauseInstance :: "'w computeClient \<Rightarrow> nat option \<Rightarrow> bytes \<Rightarrow> db \<times> 'w
    \<Rightarrow> (compute_err, unit) response \<times> db \<times> 'w" where
  "h_UnpauseInstance client owner i st = (case owner of None \<Rightarrow> (unauthorized, st)
   | Some ownerID \<Rightarrow> (case UnpauseInstance client ownerID i st of
       (Err e, st) \<Rightarrow> (not_found_or_500 e, st) | (Ok _, st) \<Rightarrow> ((202, NoBody), st)))"

definition h_DeleteInstance :: "'w computeClient \<Rightarrow> nat option \<Rightarrow> bytes \<Rightarrow> db \<times> 'w
    \<Rightarrow> (compute_err, unit) response \<times> db \<times> 'w" where
  "h_DeleteInstance client owner i st = (case owner of None \<Rightarrow> (unauthorized, st)
   | Some ownerID \<Rightarrow> (case DeleteInstance client ownerID i st of
       (Err e, st) \<Rightarrow> (not_found_or_500 e, st) | (Ok _, st) \<Rightarrow> ((204, NoBody), st)))"

definition required_field :: "compute_err \<Rightarrow> bool" where
  "required_field e \<longleftrightarrow> e = ErrCreateInstanceNameRequired \<or> e = ErrCreateInstanceImageRequired
     \<or> e = ErrCreateInstanceFlavorRequired"

definition h_CreateInstance :: "'w compute_service \<Rightarrow> nat option \<Rightarrow> CreateInstanceRequest option
    \<Rightarrow> db \<times> 'w \<Rightarrow> (compute_err, CreateInstanceResponse) response \<times> db \<times> 'w" where
  "h_CreateInstance svc owner bound st = (case owner of None \<Rightarrow> (unauthorized, st)
   | Some ownerID \<Rightarrow> (case bound of None \<Rightarrow> ((400, ErrMsg ''Invalid request body''), st)
     | Some req \<Rightarrow> (case buildCreateServerOpts req of
         Err e \<Rightarrow> ((400, if required_field e then ErrText e else ErrMsg ''Invalid request body''), st)
       | Ok opts \<Rightarrow> (case CreateInstance svc ownerID opts st of
           (Err e, st) \<Rightarrow> ((if required_field e then 400 else 500, ErrText e), st)
         | (Ok r, st) \<Rightarrow> ((201, Json r), st)))))"

subsection \<open>Quota\<close>

definition fits64 :: "QuotaDetail \<Rightarrow> bool" where
  "fits64 q \<longleftrightarrow> - (2 ^ 63) \<le> q_Limit q - q_InUse q \<and> q_Limit q - q_InUse q < 2 ^ 63
     \<and> - (2 ^ 63) \<le> q_Limit q - q_InUse q - q_Reserved q \<and> q_Limit q - q_InUse q - q_Reserved q < 2 ^ 63"

lemma remaining_fits: "fits64 q \<Longrightarrow> remaining q = q_Limit q - q_InUse q - q_Reserved q"
  by (simp add: remaining_def fits64_def wrap64_id)

lemma le_div_mult: "0 < b \<Longrightarrow> n \<le> a div b \<longleftrightarrow> n * b \<le> (a :: int)"
proof
  assume b: "0 < b" and "n \<le> a div b"
  then have "n * b \<le> (a div b) * b" by (intro mult_right_mono) auto
  also have "\<dots> \<le> a" using b by (simp add: minus_mod_eq_div_mult [symmetric])
  finally show "n * b \<le> a" .
next
  assume b: "0 < b" and "n * b \<le> a"
  then have "(n * b) div b \<le> a div b" by (intro zdiv_mono1)
  with b show "n \<le> a div b" by simp
qed

lemma le_quot: "0 < n \<Longrightarrow> 0 < b \<Longrightarrow> n \<le> quot a b \<longleftrightarrow> n * b \<le> (a :: int)"
proof (cases "0 \<le> a")
  case True
  assume "0 < n" "0 < b"
  with True show ?thesis by (simp add: quot_nonneg le_div_mult)
next
  case False
  assume n: "0 < n" "0 < b"
  then have "0 < n * b" by simp
  with False have "\<not> n * b \<le> a" by linarith
  moreover have "\<not> n \<le> quot a b" using False n quot_neg [of a b] by linarith
  ultimately show ?thesis by blast
qed

lemma le_max_0: "0 < n \<Longrightarrow> n \<le> max x 0 \<longleftrightarrow> n \<le> (x :: int)"
  by auto

text \<open>
  The number of further instances that a flavor is said to allow is exact: \<open>n\<close> of them fit (for
  \<open>n\<close> at least 1) exactly when they are within the remaining instances, cores and memory, counting
  what is in use and what is reserved (and within 999 for a flavor with no cores or no memory). An
  unlimited instance quota, which OpenStack reports as -1, is taken for an exhausted one.
\<close>

theorem max_configurable_exact:
  assumes "fits64 (qs_Cores quota)" "fits64 (qs_RAM quota)" "fits64 (qs_Instances quota)"
  shows "0 \<le> max_configurable quota f
    \<and> (0 < n \<longrightarrow> (n \<le> max_configurable quota f \<longleftrightarrow>
         n + q_InUse (qs_Instances quota) + q_Reserved (qs_Instances quota) \<le> q_Limit (qs_Instances quota)
       \<and> (if 0 < fl_VCPUs f
          then n * fl_VCPUs f + q_InUse (qs_Cores quota) + q_Reserved (qs_Cores quota) \<le> q_Limit (qs_Cores quota)
          else n \<le> 999)
       \<and> (if 0 < fl_RAM f
          then n * fl_RAM f + q_InUse (qs_RAM quota) + q_Reserved (qs_RAM quota) \<le> q_Limit (qs_RAM quota)
          else n \<le> 999)))
    \<and> (q_Limit (qs_Instances quota) = - 1 \<and> 0 \<le> q_InUse (qs_Instances quota) \<and> 0 \<le> q_Reserved (qs_Instances quota)
         \<longrightarrow> max_configurable quota f = 0)"
proof -
  note r = remaining_fits [OF assms(1)] remaining_fits [OF assms(2)] remaining_fits [OF assms(3)]
  show ?thesis
    unfolding max_configurable_def Let_def r
    by (auto simp: le_max_0 le_quot min.bounded_iff le_diff_eq algebra_simps simp del: max.bounded_iff)
qed

theorem max_configurable_exact_witness:
  "let q = \<lparr>q_InUse = 3, q_Limit = 10, q_Reserved = 1\<rparr>;
       quota = \<lparr>qs_Cores = q, qs_RAM = \<lparr>q_InUse = 1024, q_Limit = 8192, q_Reserved = 0\<rparr>, qs_Instances = q\<rparr>;
       f = \<lparr>fl_ID = ''m1'', fl_Name = ''m1'', fl_VCPUs = 2, fl_RAM = 1024, fl_Disk = 10\<rparr> in
   3 \<le> max_configurable quota f \<and> \<not> 4 \<le> max_configurable quota f"
proof -
  let ?q = "\<lparr>q_InUse = 3, q_Limit = 10, q_Reserved = 1\<rparr>"
  let ?m = "\<lparr>q_InUse = 1024, q_Limit = 8192, q_Reserved = 0\<rparr>"
  have "fits64 ?q" "fits64 ?m" by (simp_all add: fits64_def)
  with max_configurable_exact [of "\<lparr>qs_Cores = ?q, qs_RAM = ?m, qs_Instances = ?q\<rparr>" _ 3]
    max_configurable_exact [of "\<lparr>qs_Cores = ?q, qs_RAM = ?m, qs_Instances = ?q\<rparr>" _ 4]
  show ?thesis by (simp add: Let_def)
qed

subsection \<open>Creating instances\<close>

text \<open>
  What the service relies on of the cloud: \<open>servers w\<close> are the ids of the servers that exist there;
  creating one gives it a new id, deleting removes it, and a failing call changes nothing.
\<close>

definition lawful_compute_client :: "'w computeClient \<Rightarrow> ('w \<Rightarrow> bytes set) \<Rightarrow> bool" where
  "lawful_compute_client client servers \<longleftrightarrow>
     (\<forall>opts w srv w'. cc_CreateServer client opts w = (Ok srv, w')
        \<longrightarrow> sv_ID srv \<notin> servers w \<and> servers w' = insert (sv_ID srv) (servers w))
   \<and> (\<forall>opts w e w'. cc_CreateServer client opts w = (Err e, w') \<longrightarrow> servers w' = servers w)
   \<and> (\<forall>i w w'. cc_DeleteServer client i w = (None, w') \<longrightarrow> servers w' = servers w - {i})
   \<and> (\<forall>i w e w'. cc_DeleteServer client i w = (Some e, w') \<longrightarrow> servers w' = servers w)"

lemma SaveInstance_ok:
  assumes "SaveInstance own inst d = (Ok u, d')" and "db_wf d" and "in_App inst = None"
  shows "instance_set d' = insert (own, in_OpenstackID inst, inst) (instance_set d)"
proof -
  from assms(1) obtain e where e: "same_tables d e" "db_wf d'" and d':
    "d' = e\<lparr>instances := instances e @ [new_instance_row own inst e], seq := Suc (seq e)\<rparr>"
    unfolding SaveInstance_def by (elim exec_ok) auto
  define row where "row = new_instance_row own inst e"
  have t: "apps d' = apps d" "instances e = instances d" using e(1) unfolding d' same_tables_def by simp_all
  have row: "instances d' = instances d @ [row]" "i_id row = seq e" "i_owner row = own"
      "i_openstack_id row = in_OpenstackID inst"
    using t(2) by (simp_all add: d' row_def new_instance_row_def)
  have "distinct (map i_id (instances d'))" using e(2) unfolding db_wf_def instances_wf_def by blast
  then have "seq e \<notin> i_id ` set (instances d)" unfolding row(1) by (simp add: row(2))
  moreover have "\<forall>a\<in>set (apps d). a_instance a \<in> i_id ` set (instances d)"
    using assms(2) unfolding db_wf_def apps_wf_def list_all_iff by simp
  ultimately have none: "filter (\<lambda>a. a_instance a = seq e) (apps d) = []"
    unfolding filter_empty_conv by metis
  then have inst: "entToInstance d row = inst"
    using assms(3) by (cases inst) (simp add: row_def new_instance_row_def entToInstance_def)
  have ent: "entToInstance d' = entToInstance d" using t(1) by (rule entToInstance_apps)
  show ?thesis unfolding instance_set_def ent row(1) by (simp add: row inst)
qed

lemma SaveInstance_err: "SaveInstance own inst d = (Err e, d') \<Longrightarrow> instance_set d' = instance_set d"
  unfolding SaveInstance_def by (rule inr.rows_tables) (rule exec_err)

text \<open>
  C13. Creating an instance leaves no orphan: a success records, for the caller, exactly the server
  that now exists in the cloud, with a name, an image and a flavor; a failure leaves both as they
  were, unless the compensating delete of the server just created failed as well.
\<close>

theorem CreateInstance_no_orphan:
  assumes "lawful_compute_client (svc_client svc) servers" and "db_wf d"
    and "CreateInstance svc own opts (d, w) = (r, d', w')"
  shows "case r of
      Ok resp \<Rightarrow> servers w' = insert (ci_res_ID resp) (servers w) \<and> ci_res_ID resp \<notin> servers w
        \<and> (\<exists>inst. instance_set d' = insert (own, ci_res_ID resp, inst) (instance_set d)
             \<and> in_Name inst = ci_res_Name resp \<and> in_Name inst \<noteq> [] \<and> in_ImageID inst \<noteq> [] \<and> in_FlavorID inst \<noteq> [])
    | Err e \<Rightarrow> instance_set d' = instance_set d
        \<and> (servers w' = servers w \<or> (\<exists>i w1 e1. cc_DeleteServer (svc_client svc) i w1 = (Some e1, w')))"
proof -
  define o1 where "o1 = normalizeCreateServerOpts opts"
  define o2 where "o2 = (if co_Networks o1 = [] \<and> svc_defaultNetworkID svc \<noteq> []
    then o1\<lparr>co_Networks := [svc_defaultNetworkID svc]\<rparr> else o1)"
  have trimmed: "TrimSpace (co_Name o2) = co_Name o2" "TrimSpace (co_ImageRef o2) = co_ImageRef o2"
    "TrimSpace (co_FlavorRef o2) = co_FlavorRef o2"
    by (auto simp: o2_def o1_def normalizeCreateServerOpts_def)
  note unf = CreateInstance_def Let_def o1_def [symmetric] o2_def [symmetric]
  obtain c w1 where c: "cc_CreateServer (svc_client svc) o2 w = (c, w1)" by force
  show ?thesis
  proof (cases "validateCreateServerOpts o2")
    case (Some e)
    with assms(3) show ?thesis by (auto simp: unf)
  next
    case None
    then have ne: "co_Name o2 \<noteq> []" "co_ImageRef o2 \<noteq> []" "co_FlavorRef o2 \<noteq> []"
      by (auto simp: validateCreateServerOpts_def split: if_splits)
    show ?thesis
    proof (cases c)
      case (Inl e)
      with None c assms show ?thesis by (auto simp: unf lawful_compute_client_def)
    next
      case (Inr srv)
      obtain v d2 where v: "SaveInstance own (created_instance srv o2) d = (v, d2)" by force
      obtain x w2 where x: "cc_DeleteServer (svc_client svc) (sv_ID srv) w1 = (x, w2)" by force
      have cloud: "sv_ID srv \<notin> servers w" "servers w1 = insert (sv_ID srv) (servers w)"
        using assms(1) c Inr by (auto simp: lawful_compute_client_def)
      show ?thesis
      proof (cases v)
        case (Inl e)
        then have "r = Err (ErrInstanceOperationFailed (DbCause e))" "d' = d2" "w' = w2"
          using None c Inr v x assms(3) by (auto simp: unf)
        with cloud x assms(1) SaveInstance_err v Inl show ?thesis
          by (cases x) (auto simp: lawful_compute_client_def)
      next
        case ok: (Inr u)
        then have res: "r = Ok (buildCreateInstanceResponse srv o2)" "d' = d2" "w' = w1"
          using None c Inr v x assms(3) by (auto simp: unf)
        have "instance_set d' = insert (own, sv_ID srv, created_instance srv o2) (instance_set d)"
          using SaveInstance_ok [of own "created_instance srv o2" d u d2] v ok assms(2) res
          by (simp add: created_instance_def)
        moreover have "ci_res_ID (buildCreateInstanceResponse srv o2) = sv_ID srv"
          "ci_res_Name (buildCreateInstanceResponse srv o2) = in_Name (created_instance srv o2)"
          by (auto simp: buildCreateInstanceResponse_def created_instance_def split: prod.splits)
        moreover have "in_Name (created_instance srv o2) \<noteq> []" "in_ImageID (created_instance srv o2) \<noteq> []"
          "in_FlavorID (created_instance srv o2) \<noteq> []"
          using ne trimmed by (auto simp: created_instance_def)
        ultimately show ?thesis using res cloud by auto
      qed
    qed
  qed
qed

text \<open>A small cloud with these laws, for the witnesses: a list of ids.\<close>

definition tiny_server :: "bytes \<Rightarrow> Server" where
  "tiny_server i = \<lparr>sv_ID = i, sv_Name = [], sv_Status = ''ACTIVE'', sv_Image = [], sv_Flavor = [],
     sv_Addresses = [(''net'', ANull)], sv_KeyName = [], sv_SecurityGroups = [], sv_AccessIPv4 = [], sv_Created = 7\<rparr>"

definition tiny_compute :: "bytes list computeClient" where
  "tiny_compute = \<lparr>cc_FetchFlavors = (\<lambda>w. (Ok [], w)),
     cc_GetComputeQuota = (\<lambda>p w. (Err (OtherErr ''quota''), w)),
     cc_CreateServer = (\<lambda>opts w. if ''srv-1'' \<in> set w then (Err (StatusError 409 ''full''), w)
        else (Ok (tiny_server ''srv-1''), ''srv-1'' # w)),
     cc_UpdateServerName = (\<lambda>i n w. (if i \<in> set w then None else Some (StatusError 404 ''gone''), w)),
     cc_PauseServer = (\<lambda>i w. (if i \<in> set w then None else Some (StatusError 404 ''gone''), w)),
     cc_UnpauseServer = (\<lambda>i w. (if i \<in> set w then None else Some (StatusError 404 ''gone''), w)),
     cc_DeleteServer = (\<lambda>i w. if i \<in> set w then (None, filter (\<lambda>x. x \<noteq> i) w)
        else (Some (StatusError 404 ''gone''), w)),
     cc_FetchInstances = (\<lambda>w. (Ok (map tiny_server w), w)),
     cc_FetchInstance = (\<lambda>i w. (if i \<in> set w then Ok (tiny_server i) else Err (StatusError 404 ''gone''), w)),
     cc_FetchDiagnostics = (\<lambda>i w. (Err (OtherErr ''none''), w))\<rparr>"

lemma tiny_compute_lawful: "lawful_compute_client tiny_compute set"
  by (auto simp: lawful_compute_client_def tiny_compute_def tiny_server_def split: if_splits)

definition tiny_service :: "bytes list compute_service" where
  "tiny_service = compute_NewService tiny_compute ''p'' '' ''"

definition example_opts :: CreateServerOpts where
  "example_opts = \<lparr>co_Name = ''web'', co_ImageRef = ''img'', co_FlavorRef = ''m1'', co_KeyName = [],
     co_Note = [], co_SecurityGroups = [], co_Networks = []\<rparr>"

definition example_instance :: "(compute_err + CreateInstanceResponse) \<times> db \<times> bytes list" where
  "example_instance = CreateInstance tiny_service 1 example_opts (one_user_db, [])"

lemma example_instance_result: "\<exists>resp. fst example_instance = Ok resp \<and> ci_res_ID resp = ''srv-1''"
proof -
  have t: "TrimSpace ''web'' = ''web''" "TrimSpace ''img'' = ''img''" "TrimSpace ''m1'' = ''m1''"
    by (simp_all add: trim_eval)
  show ?thesis
    by (simp add: example_instance_def CreateInstance_def tiny_service_def compute_NewService_def
        example_opts_def normalizeCreateServerOpts_def normalizeStringSlice_def t
        validateCreateServerOpts_def tiny_compute_def SaveInstance_def exec_def tick_def one_user_db_def
        new_instance_row_def created_instance_def tiny_server_def db_wf_def table_wf_defs
        buildCreateInstanceResponse_def Let_def split: prod.splits)
qed

theorem CreateInstance_no_orphan_witness:
  "set (snd (snd example_instance)) = {''srv-1''}
   \<and> (\<exists>inst. instance_set (fst (snd example_instance)) = {(1, ''srv-1'', inst)} \<and> in_Name inst \<noteq> [])"
proof -
  have law: "lawful_compute_client (svc_client tiny_service) set"
    using tiny_compute_lawful by (simp add: tiny_service_def compute_NewService_def)
  have eq: "CreateInstance tiny_service 1 example_opts (one_user_db, [])
    = (fst example_instance, fst (snd example_instance), snd (snd example_instance))"
    by (simp only: example_instance_def prod.collapse)
  have "instance_set one_user_db = {}" by (simp add: instance_set_def one_user_db_def)
  with CreateInstance_no_orphan [OF law one_user_db_wf eq] example_instance_result
  show ?thesis by auto
qed

subsection \<open>Only the owner acts on an instance\<close>

lemma find_none:
  assumes "\<forall>v. (own, i, v) \<notin> instance_set d" and "Instance_FindByOpenstackID own i d = (f, d1)"
  shows "f = Ok None \<or> (\<exists>e. f = Err e)" and "same_tables d d1"
proof -
  show "same_tables d d1" using assms(2) by (rule inr.find_tables)
  show "f = Ok None \<or> (\<exists>e. f = Err e)"
    using assms inr.find_Some inr.find_rows [OF assms(2)] by (cases f rule: lookup_cases) blast+
qed

text \<open>
  C15. A user acts only on their own instances: when the caller has no instance with that id,
  pausing, unpausing, deleting, updating and reading it all fail; the first four leave the cloud
  untouched, and none of them changes the database.
\<close>

theorem instance_ops_owned:
  assumes "\<forall>v. (own, i, v) \<notin> instance_set (cp_db st)"
  shows "(\<forall>op\<in>{PauseInstance client, UnpauseInstance client, DeleteInstance client}. \<forall>r d' w'.
            op own i (cp_db st, cp_cloud st) = (r, d', w') \<longrightarrow>
            \<not> is_ok r \<and> w' = cp_cloud st \<and> same_tables (cp_db st) d')
       \<and> (\<forall>r st'. UpdateInstance svc rnd env own i req st = (r, st') \<longrightarrow>
            \<not> is_ok r \<and> cp_cloud st' = cp_cloud st \<and> same_tables (cp_db st) (cp_db st'))
       \<and> (\<forall>r st'. GetInstanceDetail svc rnd env own i st = (r, st') \<longrightarrow>
            \<not> is_ok r \<and> same_tables (cp_db st) (cp_db st'))"
proof -
  obtain f d1 where f: "Instance_FindByOpenstackID own i (cp_db st) = (f, d1)" by force
  note n = find_none [OF assms f]
  from n(1) show ?thesis
    using f n(2) by (elim disjE exE)
      (auto simp: PauseInstance_def UnpauseInstance_def on_own_instance_def DeleteInstance_def
        UpdateInstance_def GetInstanceDetail_def Let_def split: prod.splits)
qed

theorem instance_ops_owned_witness:
  "\<not> is_ok (fst (DeleteInstance tiny_compute 2 ''vm-1'' (example_vm_db, [''vm-1''])))
   \<and> snd (snd (DeleteInstance tiny_compute 2 ''vm-1'' (example_vm_db, [''vm-1'']))) = [''vm-1'']"
proof -
  let ?st = "\<lparr>cp_db = example_vm_db, cp_cloud = [''vm-1''], cp_flavors = newFlavorState\<rparr>"
  have no: "\<forall>v. (2, ''vm-1'', v) \<notin> instance_set (cp_db ?st)"
    by (auto simp: instance_set_def example_vm_db_def)
  have "DeleteInstance tiny_compute \<in> {PauseInstance tiny_compute, UnpauseInstance tiny_compute, DeleteInstance tiny_compute}"
    by simp
  from bspec [OF conjunct1 [OF instance_ops_owned [OF no, of tiny_compute tiny_service id
      "\<lparr>fe_t1 = 1, fe_t2 = 1, fe_joined = Ok []\<rparr>" "\<lparr>ur_Name = [], ur_KeyName = [], ur_Note = []\<rparr>"]] this]
  show ?thesis by (metis compute_state.select_convs(1,2) prod.collapse)
qed

subsection \<open>Deleting instances\<close>

text \<open>
  What an owned instance looks like to the operations when no statement fails.
\<close>

lemma instance_row_found:
  assumes "db_wf d" and "faults d = []" and "row \<in> set (instances d)"
  shows "Instance_FindByOpenstackID (i_owner row) (i_openstack_id row) d = (Ok (Some (entToInstance d row)), d)"
proof -
  have "only_row (instances d) (\<lambda>i. i_openstack_id i = i_openstack_id row \<and> i_owner i = i_owner row) = Ok row"
    by (rule only_row_unique [of i_openstack_id _ _ "i_openstack_id row"])
      (use assms in \<open>auto simp: db_wf_def instances_wf_def\<close>)
  then show ?thesis
    using assms(2) by (simp add: Instance_FindByOpenstackID_def find_opt_def query_def tick_def)
qed

text \<open>The foreign key of \<^verbatim>\<open>apps\<close> refuses to delete an instance that has an app.\<close>

lemma delete_refused:
  assumes "db_wf d" and "faults d = []" and "row \<in> set (instances d)" and "a \<in> set (apps d)"
    and "a_instance a = i_id row"
  shows "Instance_DeleteByOpenstackID (i_owner row) (i_openstack_id row) d = (Err Constraint, d)"
proof -
  let ?keep = "filter (\<lambda>i. \<not> (i_openstack_id i = i_openstack_id row \<and> i_owner i = i_owner row)) (instances d)"
  have dist: "distinct (map i_id (instances d))" using assms(1) by (simp add: db_wf_def instances_wf_def)
  have "i_id row \<notin> i_id ` set ?keep"
  proof
    assume "i_id row \<in> i_id ` set ?keep"
    then obtain r where r: "r \<in> set (instances d)" "i_id r = i_id row"
      "\<not> (i_openstack_id r = i_openstack_id row \<and> i_owner r = i_owner row)" by auto
    with dist assms(3) have "r = row" by (simp add: distinct_map inj_on_def)
    with r show False by simp
  qed
  then have "\<not> list_all (\<lambda>a. a_instance a \<in> i_id ` set ?keep) (apps d)"
    using assms(4,5) unfolding list_all_iff by metis
  then have "\<not> apps_wf (d\<lparr>instances := ?keep\<rparr>)" by (simp add: apps_wf_def)
  then show ?thesis using assms(2)
    by (simp add: Instance_DeleteByOpenstackID_def exec_def tick_def db_wf_def)
qed

text \<open>
  C16. Deleting an instance that has a registered app goes wrong: even when no statement and no call
  fails, the server is deleted from the cloud first, the database then refuses to delete the row
  that the app refers to, and the caller gets an error. The row stays, and since the cloud now answers
  404, deleting the instance again fails as well, and listing the instances does not remove it either.
\<close>

theorem DeleteInstance_with_app_stuck:
  assumes "db_wf d" and "faults d = []" and "row \<in> set (instances d)" and "a \<in> set (apps d)"
    and "a_instance a = i_id row"
    and "cc_DeleteServer client (i_openstack_id row) w = (None, w1)"
    and "cc_DeleteServer client (i_openstack_id row) w1 = (Some (StatusError 404 msg), w1)"
  shows "DeleteInstance client (i_owner row) (i_openstack_id row) (d, w)
           = (Err (ErrInstanceOperationFailed (DbCause Constraint)), d, w1)
    \<and> DeleteInstance client (i_owner row) (i_openstack_id row) (d, w1)
           = (Err (ErrInstanceOperationFailed (OsCause (StatusError 404 msg))), d, w1)
    \<and> fst (snd (pruneStaleInstances client id id (i_owner row) [i_openstack_id row] (d, w1))) = d"
  using instance_row_found [OF assms(1-3)] delete_refused [OF assms(1-5)] assms(6,7)
  by (auto simp: DeleteInstance_def pruneStaleInstances_def split: prod.splits)

definition example_app_db :: db where
  "example_app_db = example_vm_db\<lparr>apps := [\<lparr>a_id = 4, a_host = ''a.x'', a_created_at = 0, a_instance = 3\<rparr>]\<rparr>"

theorem DeleteInstance_with_app_stuck_witness:
  "DeleteInstance tiny_compute 1 ''vm-1'' (example_app_db, [''vm-1''])
     = (Err (ErrInstanceOperationFailed (DbCause Constraint)), example_app_db, [])"
proof -
  let ?row = "hd (instances example_app_db)" and ?a = "hd (apps example_app_db)"
  have "db_wf example_app_db" "faults example_app_db = []" "?row \<in> set (instances example_app_db)"
    "?a \<in> set (apps example_app_db)" "a_instance ?a = i_id ?row" "i_owner ?row = 1"
    "i_openstack_id ?row = ''vm-1''"
    by (simp_all add: example_app_db_def example_vm_db_def one_user_db_def db_wf_def table_wf_defs)
  moreover have "cc_DeleteServer tiny_compute ''vm-1'' [''vm-1''] = (None, [])"
    "cc_DeleteServer tiny_compute ''vm-1'' [] = (Some (StatusError 404 ''gone''), [])"
    by (simp_all add: tiny_compute_def)
  ultimately show ?thesis
    using DeleteInstance_with_app_stuck [of example_app_db ?row ?a tiny_compute "[''vm-1'']" "[]" "''gone''"]
    by metis
qed

text \<open>
  Deleting an instance removes exactly the caller's row with that id when it succeeds and no row
  when it fails, and then the server is gone from the cloud unless the call to the cloud failed.
\<close>

theorem DeleteInstance_effect:
  assumes "lawful_compute_client client servers"
    and "DeleteInstance client own i (d, w) = (r, d', w')"
  shows "case r of
      Ok _ \<Rightarrow> instance_set d' = {x \<in> instance_set d. \<not> (fst x = own \<and> fst (snd x) = i)}
        \<and> (\<exists>v. (own, i, v) \<in> instance_set d) \<and> servers w' = servers w - {i}
    | Err e \<Rightarrow> instance_set d' = instance_set d
        \<and> (servers w' = servers w \<or> (\<exists>c. e = ErrInstanceOperationFailed (DbCause c)) \<and> servers w' = servers w - {i})"
proof -
  obtain f d1 where f: "Instance_FindByOpenstackID own i d = (f, d1)" by force
  obtain c w1 where c: "cc_DeleteServer client i w = (c, w1)" by force
  obtain v d2 where v: "Instance_DeleteByOpenstackID own i d1 = (v, d2)" by force
  note k = inr.find_rows [OF f]
  have err: "v = Err e \<Longrightarrow> instance_set d2 = instance_set d" for e
    using v k inr.del_err inr.rows_tables by blast
  have ok: "v = Ok u \<Longrightarrow> instance_set d2 = {x \<in> instance_set d. \<not> (fst x = own \<and> fst (snd x) = i)}" for u
    using v k inr.del_ok by blast
  have law: "c = None \<Longrightarrow> servers w1 = servers w - {i}" "c = Some e \<Longrightarrow> servers w1 = servers w" for e
    using assms(1) c unfolding lawful_compute_client_def by blast+
  show ?thesis
  proof (cases f rule: lookup_cases)
    case (some x)
    then have "(own, i, x) \<in> instance_set d" using f k inr.find_Some by metis
    then show ?thesis
      using assms(2) f c v k some err ok law
      by (cases c; cases v) (auto simp: DeleteInstance_def)
  qed (use assms(2) f k in \<open>auto simp: DeleteInstance_def\<close>)
qed

definition example_delete :: "(compute_err + unit) \<times> db \<times> bytes list" where
  "example_delete = DeleteInstance tiny_compute 1 ''vm-1'' (example_vm_db, [''vm-1'', ''vm-2''])"

theorem DeleteInstance_effect_witness:
  "fst example_delete = Ok () \<and> instance_set (fst (snd example_delete)) = {}
   \<and> set (snd (snd example_delete)) = {''vm-2''}"
proof -
  have ok: "fst example_delete = Ok ()"
    by (simp add: example_delete_def DeleteInstance_def Instance_FindByOpenstackID_def find_opt_def
        query_def tick_def only_row_def example_vm_db_def one_user_db_def tiny_compute_def
        Instance_DeleteByOpenstackID_def exec_def db_wf_def table_wf_defs)
  have eq: "DeleteInstance tiny_compute 1 ''vm-1'' (example_vm_db, [''vm-1'', ''vm-2''])
     = (fst example_delete, fst (snd example_delete), snd (snd example_delete))"
    by (simp only: example_delete_def prod.collapse)
  have "instance_set example_vm_db = {(1, ''vm-1'', entToInstance example_vm_db (hd (instances example_vm_db)))}"
    by (simp add: instance_set_def example_vm_db_def)
  with DeleteInstance_effect [OF tiny_compute_lawful eq] ok show ?thesis by auto
qed

subsection \<open>Listing instances\<close>

lemma check_gone_404:
  assumes "check_gone client ids w = (gone, w')" and "i \<in> set gone"
  shows "i \<in> set ids \<and> (\<exists>w1 e w2. cc_FetchInstance client i w1 = (Err e, w2) \<and> hasStatusCode e 404)"
  using assms
proof (induction ids arbitrary: w gone)
  case (Cons j ids)
  obtain r w1 where r: "cc_FetchInstance client j w = (r, w1)" by force
  obtain g w2 where g: "check_gone client ids w1 = (g, w2)" by force
  from Cons.prems r g have w2: "w2 = w'" and "gone = (if isServerNotFound r then j # g else g)" by auto
  with Cons.prems(2) consider "i \<in> set g" | "i = j" "isServerNotFound r" by (auto split: if_splits)
  then show ?case
  proof cases
    case 2
    with r show ?thesis by (auto simp: isServerNotFound_def split: sum.splits)
  qed (use Cons.IH [OF g [unfolded w2]] in auto)
qed simp

lemma delete_gone_rows:
  assumes "delete_gone own ids d = (e, d')"
  shows "instance_set d' \<subseteq> instance_set d
    \<and> (\<forall>x\<in>instance_set d. x \<notin> instance_set d' \<longrightarrow> fst x = own \<and> fst (snd x) \<in> set ids)"
  using assms
proof (induction ids arbitrary: d e)
  case (Cons j ids)
  obtain r d1 where r: "Instance_DeleteByOpenstackID own j d = (r, d1)" by force
  obtain e2 d2 where d2: "delete_gone own ids d1 = (e2, d2)" by force
  have "d2 = d'" using Cons.prems r d2 by auto
  with Cons.IH d2 have IH: "instance_set d' \<subseteq> instance_set d1"
    "\<forall>x\<in>instance_set d1. x \<notin> instance_set d' \<longrightarrow> fst x = own \<and> fst (snd x) \<in> set ids" by blast+
  show ?case using IH inr.del_subset [OF r] inr.del_keeps [OF r] by fastforce
qed auto

lemma ListByOwner_rows:
  assumes "Instance_ListByOwner own d = (Ok ins, d')"
  shows "same_tables d d' \<and> set ins = {v. \<exists>i. (own, i, v) \<in> instance_set d}
    \<and> (\<forall>v\<in>set ins. (own, in_OpenstackID v, v) \<in> instance_set d)"
proof -
  have q: "query (\<lambda>d. all_rows (instances d) (\<lambda>i. i_owner i = own)) d
      = (Ok (filter (\<lambda>i. i_owner i = own) (instances d')), d')"
    and ins: "ins = map (entToInstance d') (filter (\<lambda>i. i_owner i = own) (instances d'))"
    using assms by (auto simp: Instance_ListByOwner_def all_rows_def split: prod.splits sum.splits
        dest: query_ok)
  from query_tables [OF q] have t: "same_tables d d'" .
  then have d: "instance_set d' = instance_set d" by (rule inr.rows_tables)
  have "in_OpenstackID (entToInstance d' r) = i_openstack_id r" for r by (simp add: entToInstance_def)
  then have "set ins = {v. \<exists>i. (own, i, v) \<in> instance_set d'} \<and> (\<forall>v\<in>set ins. (own, in_OpenstackID v, v) \<in> instance_set d')"
    unfolding ins instance_set_def by auto
  then show ?thesis using t unfolding d by simp
qed

lemma server_map_None: "server_map ss i = None \<longleftrightarrow> i \<notin> sv_ID ` set ss"
  by (simp add: server_map_def map_of_eq_None_iff image_image)

lemma list_detail_ID: "id_ID (list_detail m inst srv) = in_OpenstackID inst"
  by (simp add: list_detail_def split: prod.splits)

lemma set_map_filter: "set (List.map_filter f xs) = {y. \<exists>x\<in>set xs. f x = Some y}"
  by (induction xs) (auto simp: List.map_filter_simps split: option.splits)

lemma pruneStaleInstances_rows:
  assumes "\<And>xs. set (order1 xs) = set xs" and "\<And>xs. set (order2 xs) = set xs"
    and "pruneStaleInstances client order1 order2 own stale (d, w) = (e, d', w')"
  shows "instance_set d' \<subseteq> instance_set d"
    and "\<forall>x\<in>instance_set d. x \<notin> instance_set d' \<longrightarrow> fst x = own \<and> fst (snd x) \<in> set stale
          \<and> (\<exists>w1 e w2. cc_FetchInstance client (fst (snd x)) w1 = (Err e, w2) \<and> hasStatusCode e 404)"
proof -
  obtain gone w1 where g: "check_gone client (order1 stale) w = (gone, w1)" by force
  obtain e2 d2 where d2: "delete_gone own (order2 gone) d = (e2, d2)" by force
  have "d2 = d'" using assms(3) g d2 by (auto simp: pruneStaleInstances_def)
  note r = delete_gone_rows [OF d2, unfolded this assms(2)]
  from r show "instance_set d' \<subseteq> instance_set d" by blast
  from r check_gone_404 [OF g, unfolded assms(1)]
  show "\<forall>x\<in>instance_set d. x \<notin> instance_set d' \<longrightarrow> fst x = own \<and> fst (snd x) \<in> set stale
          \<and> (\<exists>w1 e w2. cc_FetchInstance client (fst (snd x)) w1 = (Err e, w2) \<and> hasStatusCode e 404)"
    by blast
qed

lemma GetInstances_failed:
  assumes "GetInstances svc env order1 order2 own st = (Err e, st')"
  shows "same_tables (cp_db st) (cp_db st')"
proof -
  obtain dbR d where d: "Instance_ListByOwner own (cp_db st) = (dbR, d)" by force
  have t: "same_tables (cp_db st) d"
    using d query_tables by (fastforce simp: Instance_ListByOwner_def split: prod.splits sum.splits)
  have "cp_db st' = d"
    using assms d by (auto simp: GetInstances_def Let_def split: prod.splits sum.splits)
  with t show ?thesis by simp
qed

lemma GetInstances_ok:
  assumes "GetInstances svc env order1 order2 own st = (Ok res, st')"
  obtains ins d ss w1 fm fs w2 e w3 where "Instance_ListByOwner own (cp_db st) = (Ok ins, d)"
    "cc_FetchInstances (svc_client svc) (cp_cloud st) = (Ok ss, w1)"
    "fetchFlavorMap svc env (cp_flavors st) w1 = (Ok fm, fs, w2)"
    "res = List.map_filter (\<lambda>inst. map_option (list_detail fm inst) (server_map ss (in_OpenstackID inst))) ins"
    "pruneStaleInstances (svc_client svc) order1 order2 own
       (map in_OpenstackID (filter (\<lambda>inst. server_map ss (in_OpenstackID inst) = None) ins)) (d, w2) = (e, cp_db st', w3)"
  using assms by (auto simp: GetInstances_def Let_def split: prod.splits sum.splits)

text \<open>
  C14. Listing instances shows the caller's instances that the cloud lists, and no others. It removes
  a row from the database only when it is the caller's, the cloud did not list its server, and asking
  for that server alone was answered with 404, in whatever order the checks and deletions are run. A
  failing call changes no table.
\<close>

theorem GetInstances_prunes_only_gone:
  assumes "\<And>xs. set (order1 xs) = set xs" and "\<And>xs. set (order2 xs) = set xs"
    and "GetInstances svc env order1 order2 own st = (r, st')"
  shows "case r of
      Err _ \<Rightarrow> same_tables (cp_db st) (cp_db st')
    | Ok res \<Rightarrow> \<exists>ss w1. cc_FetchInstances (svc_client svc) (cp_cloud st) = (Ok ss, w1)
        \<and> id_ID ` set res = {i \<in> sv_ID ` set ss. \<exists>v. (own, i, v) \<in> instance_set (cp_db st)}
        \<and> instance_set (cp_db st') \<subseteq> instance_set (cp_db st)
        \<and> (\<forall>x \<in> instance_set (cp_db st) - instance_set (cp_db st').
             fst x = own \<and> fst (snd x) \<notin> sv_ID ` set ss
             \<and> (\<exists>w1 e w2. cc_FetchInstance (svc_client svc) (fst (snd x)) w1 = (Err e, w2) \<and> hasStatusCode e 404))"
proof (cases r)
  case (Inl e)
  with assms(3) GetInstances_failed show ?thesis by auto
next
  case (Inr res)
  from assms(3) [unfolded Inr] obtain ins d ss w1 fm fs w2 e w3 where
    l: "Instance_ListByOwner own (cp_db st) = (Ok ins, d)"
    and ss: "cc_FetchInstances (svc_client svc) (cp_cloud st) = (Ok ss, w1)"
    and res: "res = List.map_filter (\<lambda>inst. map_option (list_detail fm inst) (server_map ss (in_OpenstackID inst))) ins"
    and p: "pruneStaleInstances (svc_client svc) order1 order2 own
       (map in_OpenstackID (filter (\<lambda>inst. server_map ss (in_OpenstackID inst) = None) ins)) (d, w2) = (e, cp_db st', w3)"
    by (rule GetInstances_ok)
  note L = ListByOwner_rows [OF l] and P = pruneStaleInstances_rows [OF assms(1,2) p]
  have d: "instance_set d = instance_set (cp_db st)" using L inr.rows_tables by blast
  have id: "i = in_OpenstackID v" if "(own, i, v) \<in> instance_set (cp_db st)" for i v
    using that by (auto simp: instance_set_def entToInstance_def)
  have "id_ID ` set res = {in_OpenstackID v | v. v \<in> set ins \<and> server_map ss (in_OpenstackID v) \<noteq> None}"
    by (auto simp: res set_map_filter list_detail_ID image_iff) (metis list_detail_ID)
  also have "\<dots> = {i \<in> sv_ID ` set ss. \<exists>v. (own, i, v) \<in> instance_set (cp_db st)}"
  proof -
    have mem: "v \<in> set ins \<longleftrightarrow> (own, in_OpenstackID v, v) \<in> instance_set (cp_db st)" for v using L by blast
    have "(\<exists>v. i = in_OpenstackID v \<and> v \<in> set ins) \<longleftrightarrow> (\<exists>v. (own, i, v) \<in> instance_set (cp_db st))" for i
      using mem id by metis
    then show ?thesis unfolding server_map_None by (intro set_eqI) (simp, metis)
  qed
  finally have "id_ID ` set res = {i \<in> sv_ID ` set ss. \<exists>v. (own, i, v) \<in> instance_set (cp_db st)}" .
  moreover have "i \<in> set (map in_OpenstackID (filter (\<lambda>inst. server_map ss (in_OpenstackID inst) = None) ins))
      \<Longrightarrow> i \<notin> sv_ID ` set ss" for i
    unfolding server_map_None by auto
  ultimately show ?thesis using ss P unfolding d Inr by auto
qed

definition example_listing :: "(compute_err + InstanceDetailResponse list) \<times> bytes list compute_state" where
  "example_listing = GetInstances tiny_service \<lparr>fe_t1 = 1, fe_t2 = 1, fe_joined = Ok []\<rparr> rev id 1
     \<lparr>cp_db = example_vm_db, cp_cloud = [''vm-2''], cp_flavors = newFlavorState\<rparr>"

theorem GetInstances_prunes_only_gone_witness:
  "fst example_listing = Ok [] \<and> instance_set (cp_db (snd example_listing)) \<subseteq> instance_set example_vm_db"
proof -
  have ok: "fst example_listing = Ok []"
    by (simp add: example_listing_def GetInstances_def Instance_ListByOwner_def query_def tick_def all_rows_def
        example_vm_db_def one_user_db_def tiny_service_def compute_NewService_def tiny_compute_def
        fetchFlavorMap_def fetchFlavors_def flavor_lookup_def newFlavorState_def zero_time_def
        server_map_def tiny_server_def entToInstance_def pruneStaleInstances_def
        List.map_filter_simps Let_def split: prod.splits)
  have eq: "GetInstances tiny_service \<lparr>fe_t1 = 1, fe_t2 = 1, fe_joined = Ok []\<rparr> rev id 1
     \<lparr>cp_db = example_vm_db, cp_cloud = [''vm-2''], cp_flavors = newFlavorState\<rparr>
     = (fst example_listing, snd example_listing)" by (simp only: example_listing_def prod.collapse)
  from GetInstances_prunes_only_gone [OF _ _ eq] ok show ?thesis by auto
qed

subsection \<open>Updating instances\<close>

text \<open>What the update makes of a row: a blank field keeps its value.\<close>

definition keep :: "bytes \<Rightarrow> bytes \<Rightarrow> bytes" where
  "keep new old = (if TrimSpace new = [] then old else TrimSpace new)"

definition patched :: "UpdateInstanceRequest \<Rightarrow> instance_row \<Rightarrow> instance_row" where
  "patched req r = r\<lparr>i_name := keep (ur_Name req) (i_name r),
     i_key_name := keep (ur_KeyName req) (i_key_name r), i_note := keep (ur_Note req) (i_note r)\<rparr>"

lemma update_rows_cong:
  "(\<And>r. r \<in> set rs \<Longrightarrow> p r \<Longrightarrow> f r = g r) \<Longrightarrow> update_rows p f rs = update_rows p g rs"
  by (auto simp: update_rows_def)

lemma GetInstanceDetail_tables:
  assumes "GetInstanceDetail svc rnd env own i st = (r, st')"
  shows "same_tables (cp_db st) (cp_db st')"
proof -
  obtain f d1 where f: "Instance_FindByOpenstackID own i (cp_db st) = (f, d1)" by force
  have "cp_db st' = d1" using assms f by (auto simp: GetInstanceDetail_def Let_def split: prod.splits)
  with inr.find_tables [OF f] show ?thesis by simp
qed

lemma UpdateInstanceMetadata_patches:
  assumes "UpdateInstanceMetadata own i (fill_blank inst (normalizeUpdateInstanceRequest req)) d = (Ok u, d')"
    and "\<forall>r\<in>set (instances d). i_openstack_id r = i \<and> i_owner r = own \<longrightarrow> inst = entToInstance e r"
  shows "instances d' = update_rows (\<lambda>r. i_openstack_id r = i \<and> i_owner r = own) (patched req) (instances d)"
proof -
  let ?u = "fill_blank inst (normalizeUpdateInstanceRequest req)"
  obtain d1 where d1: "same_tables d d1" "instances d' =
      update_rows (\<lambda>r. i_openstack_id r = i \<and> i_owner r = own)
       (\<lambda>r. r\<lparr>i_name := (if ur_Name ?u \<noteq> [] then ur_Name ?u else i_name r), i_key_name := ur_KeyName ?u,
          i_note := ur_Note ?u\<rparr>) (instances d1)"
    using assms(1) unfolding UpdateInstanceMetadata_def by (elim exec_ok) auto
  have "instances d1 = instances d" using d1(1) by (simp add: same_tables_def)
  with d1(2) assms(2) show ?thesis
    by (auto intro!: update_rows_cong
        simp: patched_def keep_def fill_blank_def normalizeUpdateInstanceRequest_def entToInstance_def)
qed

text \<open>The row an instance was read from is the only one with its id.\<close>

lemma instance_row_unique:
  assumes "db_wf d" and "(own, i, v) \<in> instance_set d"
  shows "\<forall>r\<in>set (instances d). i_openstack_id r = i \<and> i_owner r = own \<longrightarrow> v = entToInstance d r"
proof (intro ballI impI)
  fix r assume r: "r \<in> set (instances d)" "i_openstack_id r = i \<and> i_owner r = own"
  from assms(2) obtain r' where r': "r' \<in> set (instances d)" "i_openstack_id r' = i"
    "v = entToInstance d r'" by (auto simp: instance_set_def)
  have "distinct (map i_openstack_id (instances d))"
    using assms(1) by (simp add: db_wf_def instances_wf_def)
  with r r' have "r = r'" by (auto simp: distinct_map inj_on_def)
  with r' show "v = entToInstance d r" by simp
qed

text \<open>What \<open>UpdateInstance\<close> did, case by case.\<close>

lemma UpdateInstance_cases:
  assumes "UpdateInstance svc rnd env own i req st = (r, st')"
  obtains (unchanged) "\<not> is_ok r" "same_tables (cp_db st) (cp_db st')"
    | (changed) v d1 d2 u w1 where "(own, i, v) \<in> instance_set (cp_db st)" "same_tables (cp_db st) d1"
        "UpdateInstanceMetadata own i (fill_blank v (normalizeUpdateInstanceRequest req)) d1 = (Ok u, d2)"
        "same_tables d2 (cp_db st')"
        "keep (ur_Name req) (in_Name v) = in_Name v
         \<or> cc_UpdateServerName (svc_client svc) i (keep (ur_Name req) (in_Name v)) (cp_cloud st) = (None, w1)"
proof -
  obtain f d1 where f: "Instance_FindByOpenstackID own i (cp_db st) = (f, d1)" by force
  note t = inr.find_tables [OF f] and k = inr.find_rows [OF f]
  show ?thesis
  proof (cases f rule: lookup_cases)
    case (some v)
    let ?u = "fill_blank v (normalizeUpdateInstanceRequest req)"
    have name: "ur_Name ?u = keep (ur_Name req) (in_Name v)"
      by (simp add: fill_blank_def normalizeUpdateInstanceRequest_def keep_def)
    obtain c w1 where c: "(if ur_Name ?u \<noteq> in_Name v
       then cc_UpdateServerName (svc_client svc) i (ur_Name ?u) (cp_cloud st) else (None, cp_cloud st)) = (c, w1)"
      by force
    obtain m d2 where m: "UpdateInstanceMetadata own i ?u d1 = (m, d2)" by force
    show ?thesis
    proof (cases "c = None \<and> is_ok m")
      case True
      then obtain u where u: "c = None" "m = Ok u" by (auto simp: is_ok_iff)
      have g: "GetInstanceDetail svc rnd env own i (st\<lparr>cp_db := d2, cp_cloud := w1\<rparr>) = (r, st')"
        using assms f some c m u by (simp add: UpdateInstance_def Let_def)
      show ?thesis
      proof (rule changed)
        show "(own, i, v) \<in> instance_set (cp_db st)" using inr.find_Some f some k by blast
        show "same_tables d2 (cp_db st')" using GetInstanceDetail_tables [OF g] by simp
      qed (use t m u c name in \<open>auto split: if_splits\<close>)
    next
      case False
      have "is_ok m \<or> same_tables d1 d2"
        using m unfolding UpdateInstanceMetadata_def by (cases m) (auto intro: exec_err)
      with False assms f some c m t show ?thesis
        by (intro unchanged; cases c; cases m)
          (auto simp: UpdateInstance_def Let_def intro: same_tables_trans)
    qed
  qed (use assms f t in \<open>auto intro!: unchanged simp: UpdateInstance_def\<close>)
qed

text \<open>
  Updating an instance is a patch of the caller's row: it either fails and leaves every table as
  it was, or changes exactly the row of that id and owner, where each field of the request that is not
  blank replaces the old value, trimmed, and each blank one keeps it. When the cloud refuses to
  rename the server to a new name, no table changes.
\<close>

theorem UpdateInstance_patch:
  assumes "db_wf (cp_db st)" and "UpdateInstance svc rnd env own i req st = (r, st')"
  shows "(\<not> is_ok r \<and> same_tables (cp_db st) (cp_db st')
       \<or> instances (cp_db st') = update_rows (\<lambda>r. i_openstack_id r = i \<and> i_owner r = own) (patched req)
           (instances (cp_db st)) \<and> (\<exists>v. (own, i, v) \<in> instance_set (cp_db st)))
     \<and> (\<forall>v e w'. (own, i, v) \<in> instance_set (cp_db st) \<and> keep (ur_Name req) (in_Name v) \<noteq> in_Name v
          \<and> cc_UpdateServerName (svc_client svc) i (keep (ur_Name req) (in_Name v)) (cp_cloud st) = (Some e, w')
        \<longrightarrow> same_tables (cp_db st) (cp_db st'))"
  using assms(2)
proof (cases rule: UpdateInstance_cases)
  case (changed v d1 d2 u w1)
  have inst: "instances d1 = instances (cp_db st)" "instances (cp_db st') = instances d2"
    using changed(2,4) by (simp_all add: same_tables_def)
  have row: "\<forall>r\<in>set (instances d1). i_openstack_id r = i \<and> i_owner r = own \<longrightarrow> v = entToInstance (cp_db st) r"
    using instance_row_unique [OF assms(1) changed(1)] inst(1) by simp
  have same: "v' = v" if "(own, i, v') \<in> instance_set (cp_db st)" for v'
    using instance_row_unique [OF assms(1) changed(1)] that by (auto simp: instance_set_def)
  have "instances (cp_db st') = update_rows (\<lambda>r. i_openstack_id r = i \<and> i_owner r = own) (patched req)
      (instances (cp_db st))"
    using UpdateInstanceMetadata_patches [OF changed(3) row] inst by simp
  moreover have "\<not> (keep (ur_Name req) (in_Name v') \<noteq> in_Name v'
          \<and> cc_UpdateServerName (svc_client svc) i (keep (ur_Name req) (in_Name v')) (cp_cloud st) = (Some e, w'))"
    if "(own, i, v') \<in> instance_set (cp_db st)" for v' e w'
    using changed(5) same [OF that] by auto
  ultimately show ?thesis using changed(1) by blast
qed auto

definition example_update :: "(compute_err + InstanceDetailResponse) \<times> bytes list compute_state" where
  "example_update = UpdateInstance tiny_service id \<lparr>fe_t1 = 1, fe_t2 = 1, fe_joined = Ok []\<rparr> 1 ''vm-1''
     \<lparr>ur_Name = ''www'', ur_KeyName = [], ur_Note = ''n''\<rparr>
     \<lparr>cp_db = example_vm_db, cp_cloud = [''vm-1''], cp_flavors = newFlavorState\<rparr>"

lemma example_vm_db_wf: "db_wf example_vm_db"
  by (simp add: example_vm_db_def one_user_db_def db_wf_def table_wf_defs)

theorem UpdateInstance_patch_witness:
  "is_ok (fst example_update) \<and> map i_name (instances (cp_db (snd example_update))) = [''www'']
   \<and> map i_note (instances (cp_db (snd example_update))) = [''n'']"
proof -
  have t: "TrimSpace ''www'' = ''www''" "TrimSpace ''n'' = ''n''" by (simp_all add: trim_eval)
  have ok: "is_ok (fst example_update)"
    by (simp add: example_update_def UpdateInstance_def Instance_FindByOpenstackID_def find_opt_def query_def
        tick_def only_row_def example_vm_db_def one_user_db_def tiny_service_def compute_NewService_def
        tiny_compute_def fill_blank_def normalizeUpdateInstanceRequest_def entToInstance_def t
        UpdateInstanceMetadata_def exec_def update_rows_def db_wf_def table_wf_defs GetInstanceDetail_def
        fetchFlavorMap_def fetchFlavors_def flavor_lookup_def newFlavorState_def zero_time_def Let_def)
  have eq: "UpdateInstance tiny_service id \<lparr>fe_t1 = 1, fe_t2 = 1, fe_joined = Ok []\<rparr> 1 ''vm-1''
     \<lparr>ur_Name = ''www'', ur_KeyName = [], ur_Note = ''n''\<rparr>
     \<lparr>cp_db = example_vm_db, cp_cloud = [''vm-1''], cp_flavors = newFlavorState\<rparr>
     = (fst example_update, snd example_update)" by (simp only: example_update_def prod.collapse)
  have "db_wf (cp_db \<lparr>cp_db = example_vm_db, cp_cloud = [''vm-1''], cp_flavors = newFlavorState\<rparr>)"
    using example_vm_db_wf by simp
  from UpdateInstance_patch [OF this eq] ok show ?thesis
    by (auto simp: update_rows_def patched_def keep_def t example_vm_db_def one_user_db_def)
qed

end
