(* ===== verification/Apps_Service.thy ===== *)
theory Apps_Service
  imports App_Gateway
begin

text \<open>
  Registration of apps, \<^verbatim>\<open>internal/domain/apps\<close> (\<^verbatim>\<open>types.go\<close>, \<^verbatim>\<open>repository.go\<close>, \<^verbatim>\<open>service.go\<close>,
  \<^verbatim>\<open>handler.go\<close>): a user gives an instance a host name below the base domain, and the app gateway
  (theory \<open>App_Gateway\<close>) serves it from the same table.
\<close>

record App =
  app_ID :: nat
  app_InstanceID :: bytes
  app_Subdomain :: bytes
  app_Host :: bytes

record RegisterAppRequest =
  ra_Subdomain :: bytes

record AppResponse =
  ar_ID :: nat
  ar_InstanceID :: bytes
  ar_Subdomain :: bytes
  ar_Host :: bytes

datatype apps_err = ErrBaseDomainRequired | ErrSubdomainRequired | ErrInvalidSubdomain
  | ErrAppInstanceNotFound | ErrNoApp | ErrAppAlreadyExists | ErrAppDb db_err | ErrAppOperationFailed apps_err

definition appResponse :: "App \<Rightarrow> AppResponse" where
  "appResponse app = \<lparr>ar_ID = app_ID app, ar_InstanceID = app_InstanceID app,
     ar_Subdomain = app_Subdomain app, ar_Host = app_Host app\<rparr>"

subsection \<open>Host names\<close>

definition apps_normalizeHost :: "bytes \<Rightarrow> bytes" where
  "apps_normalizeHost host = (let host = ToLower (TrimSpace host) in
     if host = [] then []
     else case Cut CHR '':'' host of (h, _, True) \<Rightarrow> ToLower (TrimSpace h) | _ \<Rightarrow> host)"

definition apps_firstLabel :: "bytes \<Rightarrow> bytes" where
  "apps_firstLabel host = fst (Cut CHR ''.'' (apps_normalizeHost host))"

definition normalizeSubdomain :: "bytes \<Rightarrow> bytes" where
  "normalizeSubdomain subdomain = TrimSpace (ToLower subdomain)"

text \<open>
  The regular expression \<^verbatim>\<open>^[a-z0-9](?:[a-z0-9-]{0,61}[a-z0-9])?$\<close>: one letter or digit, or one, up
  to 61 letters, digits or hyphens, and another one.
\<close>

definition label_end :: "char \<Rightarrow> bool" where
  "label_end c \<longleftrightarrow> is_lower c \<or> is_digit c"

definition label_mid :: "char \<Rightarrow> bool" where
  "label_mid c \<longleftrightarrow> label_end c \<or> c = CHR ''-''"

definition validSubdomain :: "bytes \<Rightarrow> bool" where
  "validSubdomain s = (case s of [] \<Rightarrow> False
     | c # r \<Rightarrow> label_end c \<and> (r = [] \<or> length (butlast r) \<le> 61 \<and> list_all label_mid (butlast r) \<and> label_end (last r)))"

definition defaultAppBaseDomain :: "(bytes \<Rightarrow> bytes) \<Rightarrow> bytes" where
  "defaultAppBaseDomain getenv = (let domain = getenv ''RCP_APP_BASE_DOMAIN'' in
     if domain \<noteq> [] then domain else ''apps.khu-return.com'')"

definition validateRegisterAppRequest :: "bytes \<Rightarrow> bytes \<Rightarrow> RegisterAppRequest \<Rightarrow> apps_err + App" where
  "validateRegisterAppRequest svc_baseDomain instanceID req =
     (let baseDomain = apps_normalizeHost svc_baseDomain; subdomain = normalizeSubdomain (ra_Subdomain req) in
      if baseDomain = [] then Err ErrBaseDomainRequired
      else if subdomain = [] then Err ErrSubdomainRequired
      else if \<not> validSubdomain subdomain then Err ErrInvalidSubdomain
      else Ok \<lparr>app_ID = 0, app_InstanceID = TrimSpace instanceID, app_Subdomain = subdomain,
        app_Host = subdomain @ ''.'' @ baseDomain\<rparr>)"

subsection \<open>Repository\<close>

definition entToApp :: "app_row \<Rightarrow> bytes \<Rightarrow> App" where
  "entToApp row instanceID = \<lparr>app_ID = a_id row, app_InstanceID = instanceID,
     app_Subdomain = apps_firstLabel (a_host row), app_Host = a_host row\<rparr>"

definition new_app_row :: "bytes \<Rightarrow> instance_row \<Rightarrow> db \<Rightarrow> app_row" where
  "new_app_row host inst d = \<lparr>a_id = seq d, a_host = host, a_created_at = clock d, a_instance = i_id inst\<rparr>"

definition SaveForInstance :: "nat \<Rightarrow> bytes \<Rightarrow> App \<Rightarrow> db \<Rightarrow> (apps_err + App) \<times> db" where
  "SaveForInstance ownerID instanceID app d =
     (case query (\<lambda>d. only_row (instances d) (\<lambda>i. i_openstack_id i = instanceID \<and> i_owner i = ownerID)) d of
        (Err e, d) \<Rightarrow> (Err (if e = NotFound then ErrAppInstanceNotFound else ErrAppDb e), d)
      | (Ok inst, d) \<Rightarrow>
         (case exec (\<lambda>d. let row = new_app_row (app_Host app) inst d in
             (row, d\<lparr>apps := apps d @ [row], seq := Suc (seq d)\<rparr>)) d of
            (Err e, d) \<Rightarrow> (Err (if e = Constraint then ErrAppAlreadyExists else ErrAppDb e), d)
          | (Ok row, d) \<Rightarrow> (Ok (entToApp row (i_openstack_id inst)), d)))"

text \<open>The rows \<^verbatim>\<open>DeleteByInstance\<close> selects: the apps of the owner's instance.\<close>

definition app_of :: "db \<Rightarrow> nat \<Rightarrow> bytes \<Rightarrow> app_row \<Rightarrow> bool" where
  "app_of d ownerID instanceID a \<longleftrightarrow> list_ex (\<lambda>i. i_id i = a_instance a \<and> i_openstack_id i = instanceID
     \<and> i_owner i = ownerID) (instances d)"

definition DeleteByInstance :: "nat \<Rightarrow> bytes \<Rightarrow> db \<Rightarrow> (apps_err + unit) \<times> db" where
  "DeleteByInstance ownerID instanceID d =
     (case exec (\<lambda>d. (length (filter (app_of d ownerID instanceID) (apps d)),
         d\<lparr>apps := filter (\<lambda>a. \<not> app_of d ownerID instanceID a) (apps d)\<rparr>)) d of
        (Err e, d) \<Rightarrow> (Err (ErrAppDb e), d)
      | (Ok n, d) \<Rightarrow> if n = 0 then (Err ErrNoApp, d) else (Ok (), d))"

subsection \<open>Service and handlers\<close>

definition RegisterApp :: "bytes \<Rightarrow> nat \<Rightarrow> bytes \<Rightarrow> RegisterAppRequest \<Rightarrow> db \<Rightarrow> (apps_err + AppResponse) \<times> db" where
  "RegisterApp baseDomain ownerID instanceID req d = (case validateRegisterAppRequest baseDomain instanceID req of
     Err e \<Rightarrow> (Err e, d)
   | Ok app \<Rightarrow> (case SaveForInstance ownerID (app_InstanceID app) app d of
       (Err e, d) \<Rightarrow> (Err (if e = ErrAppInstanceNotFound \<or> e = ErrAppAlreadyExists then e else ErrAppOperationFailed e), d)
     | (Ok saved, d) \<Rightarrow> (Ok (appResponse (saved\<lparr>app_Subdomain := app_Subdomain app\<rparr>)), d)))"

definition DeleteApp :: "nat \<Rightarrow> bytes \<Rightarrow> db \<Rightarrow> (apps_err + unit) \<times> db" where
  "DeleteApp ownerID instanceID d = (case DeleteByInstance ownerID (TrimSpace instanceID) d of
     (Err e, d) \<Rightarrow> (Err (if e = ErrNoApp then e else ErrAppOperationFailed e), d)
   | (Ok _, d) \<Rightarrow> (Ok (), d))"

text \<open>\<open>bound\<close> is the body as the framework bound it, if it could.\<close>

definition h_RegisterApp :: "bytes \<Rightarrow> nat option \<Rightarrow> bytes \<Rightarrow> RegisterAppRequest option \<Rightarrow> db
    \<Rightarrow> (apps_err, AppResponse) response \<times> db" where
  "h_RegisterApp baseDomain owner ident bound d = (case owner of None \<Rightarrow> (unauthorized, d)
   | Some ownerID \<Rightarrow> (case bound of None \<Rightarrow> ((400, ErrMsg ''Invalid request body''), d)
     | Some req \<Rightarrow> (case RegisterApp baseDomain ownerID ident req d of
         (Ok res, d) \<Rightarrow> ((201, Json res), d)
       | (Err e, d) \<Rightarrow>
          ((if e \<in> {ErrBaseDomainRequired, ErrSubdomainRequired, ErrInvalidSubdomain} then (400, ErrText e)
            else if e = ErrAppInstanceNotFound then (404, ErrText e)
            else if e = ErrAppAlreadyExists then (409, ErrText e)
            else (500, ErrMsg ''failed to register app'')), d))))"

definition h_DeleteApp :: "nat option \<Rightarrow> bytes \<Rightarrow> db \<Rightarrow> (apps_err, unit) response \<times> db" where
  "h_DeleteApp owner ident d = (case owner of None \<Rightarrow> (unauthorized, d)
   | Some ownerID \<Rightarrow> (case DeleteApp ownerID ident d of
       (Ok _, d) \<Rightarrow> ((204, NoBody), d)
     | (Err e, d) \<Rightarrow> (if e = ErrNoApp then (404, ErrText e) else (500, ErrMsg ''failed to delete app''), d)))"

subsection \<open>Lemmas\<close>

lemma lower_char_colon: "lower_char c = CHR '':'' \<longleftrightarrow> c = CHR '':''"
  by (auto simp: lower_char_def char_class_defs of_char_def char_of_def bit_0 split: if_splits)

lemma ToLower_colon: "CHR '':'' \<in> set (ToLower s) \<Longrightarrow> CHR '':'' \<in> set s"
proof (induction s rule: ToLower.induct)
  case (2 a s)
  then show ?case
    by (auto simp: lower_char_colon dest: in_set_dropD split: if_splits dest!: sym [of "CHR '':''"])
qed simp

lemma apps_normalizeHost_no_colon: "CHR '':'' \<notin> set (apps_normalizeHost s)"
proof -
  obtain h r f where c: "Cut CHR '':'' (ToLower (TrimSpace s)) = (h, r, f)" by (metis prod_cases3)
  show ?thesis
  proof (cases f)
    case True
    have "CHR '':'' \<notin> set h" using Cut_found c True by auto
    then have "CHR '':'' \<notin> set (ToLower (TrimSpace h))" using ToLower_colon TrimSpace_set by blast
    with c True show ?thesis by (simp add: apps_normalizeHost_def Let_def)
  next
    case False
    have "CHR '':'' \<notin> set (ToLower (TrimSpace s))" using Cut_missing c False by auto
    with c False show ?thesis by (simp add: apps_normalizeHost_def Let_def)
  qed
qed

text \<open>The names the expression accepts are the DNS labels.\<close>

lemma label_end_mid: "label_end c \<longleftrightarrow> label_mid c \<and> c \<noteq> CHR ''-''"
  by (auto simp: label_mid_def label_end_def char_class_defs)

lemma validSubdomain_iff:
  "validSubdomain s \<longleftrightarrow> s \<noteq> [] \<and> length s \<le> 63 \<and> list_all label_mid s \<and> hd s \<noteq> CHR ''-'' \<and> last s \<noteq> CHR ''-''"
proof (cases s)
  case (Cons c r)
  show ?thesis
  proof (cases r rule: rev_cases)
    case Nil
    with Cons show ?thesis by (auto simp: validSubdomain_def label_end_mid)
  next
    case (snoc m l)
    with Cons show ?thesis by (auto simp: validSubdomain_def label_end_mid)
  qed
qed (simp add: validSubdomain_def)

lemma SaveForInstance_cases:
  assumes "SaveForInstance own iid app d = (r, d')"
  obtains (failed) e where "r = Err e" "same_tables d d'"
    | (saved) inst row where "r = Ok (entToApp row iid)" "inst \<in> set (instances d)"
        "i_openstack_id inst = iid" "i_owner inst = own" "a_host row = app_Host app" "a_instance row = i_id inst"
        "instances d' = instances d" "apps d' = apps d @ [row]" "db_wf d'"
proof -
  let ?p = "\<lambda>i. i_openstack_id i = iid \<and> i_owner i = own"
  obtain x d1 where q: "query (\<lambda>d. only_row (instances d) ?p) d = (x, d1)" by force
  note t1 = query_tables [OF q]
  show ?thesis
  proof (cases x)
    case (Inl e)
    with assms q t1 show ?thesis by (intro failed) (auto simp: SaveForInstance_def)
  next
    case (Inr inst)
    let ?w = "\<lambda>d. let row = new_app_row (app_Host app) inst d in
             (row, d\<lparr>apps := apps d @ [row], seq := Suc (seq d)\<rparr>)"
    have i: "inst \<in> set (instances d1)" "?p inst"
      using query_ok [OF q [unfolded Inr]] only_row_Ok by fastforce+
    obtain y d2 where e: "exec ?w d1 = (y, d2)" by force
    show ?thesis
    proof (cases y)
      case (Inl e')
      then have "same_tables d1 d2" using exec_err e by blast
      with assms q Inr e Inl t1 show ?thesis
        by (intro failed) (auto simp: SaveForInstance_def intro: same_tables_trans)
    next
      case (Inr row)
      obtain d3 where d3: "same_tables d1 d3" "?w d3 = (row, d2)" "db_wf d2"
        using e Inr by (auto elim: exec_ok)
      with assms q \<open>x = Ok inst\<close> e Inr t1 i show ?thesis
        by (intro saved [of row inst])
          (auto simp: SaveForInstance_def same_tables_def Let_def new_app_row_def)
    qed
  qed
qed

lemma FindByHost_no_fault:
  assumes "db_wf d" "maps_host d host osid" "faults d = []"
  shows "\<exists>m. fst (FindByHost host d) = Ok m \<and> am_OpenstackID m = osid"
proof -
  obtain r d' where r: "FindByHost host d = (r, d')" by force
  have "r \<noteq> Err (ErrAppLookup (Driver e))" for e
    using r assms(3) by (auto simp: FindByHost_def query_def tick_def only_row_def split: list.splits if_splits)
  with FindByHost_finds [OF assms(1,2) r] r show ?thesis by auto
qed

text \<open>Without the apps of an instance no host maps to it, and the others are as before.\<close>

lemma delete_maps:
  assumes "db_wf d" and "a \<in> set (apps d)" "app_of d own osid a"
    and "apps d' = filter (\<lambda>a. \<not> app_of d own osid a) (apps d)" "instances d' = instances d"
  shows "\<not> maps_host d' h osid" and "osid' \<noteq> osid \<Longrightarrow> maps_host d' h osid' = maps_host d h osid'"
proof -
  have wf: "distinct (map i_id (instances d))" "distinct (map i_openstack_id (instances d))"
    using assms(1) by (auto simp: db_wf_def instances_wf_def)
  obtain i where i: "i \<in> set (instances d)" "i_openstack_id i = osid" "i_owner i = own"
    using assms(3) by (auto simp: app_of_def list_ex_iff)
  have same: "j \<in> set (instances d) \<Longrightarrow> i_openstack_id j = osid \<Longrightarrow> j = i" for j
    using wf(2) i by (auto simp: distinct_map dest: inj_onD)
  have inj: "j \<in> set (instances d) \<Longrightarrow> k \<in> set (instances d) \<Longrightarrow> i_id j = i_id k \<Longrightarrow> j = k" for j k
    using wf(1) by (simp add: distinct_map inj_on_def)
  have key: "j \<in> set (instances d) \<Longrightarrow> i_id j = a_instance b \<Longrightarrow> app_of d own osid b \<longleftrightarrow> j = i" for j b
    unfolding app_of_def list_ex_iff using inj i same by metis
  show "\<not> maps_host d' h osid"
    using key same unfolding maps_host_def assms(4,5) by fastforce
  show "maps_host d' h osid' = maps_host d h osid'" if "osid' \<noteq> osid"
    using key i(2) that unfolding maps_host_def assms(4,5) by fastforce
qed

text \<open>A host without a colon is left as it is by the gateway.\<close>

lemma normalizeHost_plain:
  assumes "CHR '':'' \<notin> set host" "ToLower (TrimSpace h) = host"
  shows "normalizeHost h = host"
  using assms by (auto simp: normalizeHost_def SplitHostPort_def Let_def)




definition example_register :: "(apps_err + AppResponse) \<times> db" where
  "example_register = RegisterApp ''A.io:1'' 1 '' vm-1'' \<lparr>ra_Subdomain = '' B-1 ''\<rparr> example_vm_db"

lemma example_validate: "validateRegisterAppRequest ''A.io:1'' '' vm-1'' \<lparr>ra_Subdomain = '' B-1 ''\<rparr>
   = Ok \<lparr>app_ID = 0, app_InstanceID = ''vm-1'', app_Subdomain = ''b-1'', app_Host = ''b-1.a.io''\<rparr>"
  by code_simp

lemma example_register_ok: "fst example_register = Ok \<lparr>ar_ID = 5, ar_InstanceID = ''vm-1'', ar_Subdomain = ''b-1'',
   ar_Host = ''b-1.a.io''\<rparr>"
  by (simp add: example_register_def RegisterApp_def example_validate SaveForInstance_def query_def exec_def tick_def
      example_vm_db_def one_user_db_def only_row_def new_app_row_def Let_def entToApp_def appResponse_def
      db_wf_def table_wf_defs)


text \<open>
  Deleting an app removes exactly the mappings of the caller's instance: whoever owns another
  instance keeps its host. When the caller owns no such instance, or it has no app, nothing changes and
  the answer is that there is no app; when it has one and the statement does not fail, it is removed.
\<close>

theorem DeleteApp_exact:
  assumes "db_wf d" and "DeleteApp own iid d = (r, d')"
  shows "db_wf d' \<and> instances d' = instances d
   \<and> (case r of
        Ok _ \<Rightarrow> (\<exists>a\<in>set (apps d). app_of d own (TrimSpace iid) a)
          \<and> apps d' = filter (\<lambda>a. \<not> app_of d own (TrimSpace iid) a) (apps d)
          \<and> (\<forall>h. \<not> maps_host d' h (TrimSpace iid))
          \<and> (\<forall>h osid. osid \<noteq> TrimSpace iid \<longrightarrow> maps_host d' h osid = maps_host d h osid)
      | Err ErrNoApp \<Rightarrow> same_tables d d' \<and> (\<forall>a\<in>set (apps d). \<not> app_of d own (TrimSpace iid) a)
      | Err e \<Rightarrow> same_tables d d' \<and> (\<exists>c. e = ErrAppOperationFailed c))"
proof -
  let ?p = "\<lambda>d. app_of d own (TrimSpace iid)"
  let ?w = "\<lambda>d. (length (filter (?p d) (apps d)), d\<lparr>apps := filter (\<lambda>a. \<not> ?p d a) (apps d)\<rparr>)"
  obtain x d1 where e: "exec ?w d = (x, d1)" by force
  show ?thesis
  proof (cases x)
    case (Inl err)
    then have st: "same_tables d d1" using exec_err e by blast
    have r: "r = Err (ErrAppOperationFailed (ErrAppDb err))" "d' = d1"
      using assms(2) e Inl by (auto simp: DeleteApp_def DeleteByInstance_def)
    have "db_wf d1" "instances d1 = instances d"
      using same_tables_wf [OF st] assms(1) st by (simp_all add: same_tables_def)
    then show ?thesis using r st by simp
  next
    case (Inr n)
    then obtain d0 where d0: "same_tables d d0" "?w d0 = (n, d1)" "db_wf d1" using e by (auto elim: exec_ok)
    have p: "?p d0 = ?p d" using d0(1) by (intro ext) (simp add: app_of_def same_tables_def)
    have d1: "apps d1 = filter (\<lambda>a. \<not> ?p d a) (apps d)" "instances d1 = instances d"
      "n = length (filter (?p d) (apps d))"
      using d0(1,2) p by (auto simp: same_tables_def)
    have r: "d' = d1" "r = (if n = 0 then Err ErrNoApp else Ok ())"
      using assms(2) e Inr by (auto simp: DeleteApp_def DeleteByInstance_def split: if_splits)
    show ?thesis
    proof (cases "n = 0")
      case True
      then have none: "\<forall>a\<in>set (apps d). \<not> ?p d a" using d1(3) by (simp add: filter_empty_conv)
      then have "apps d1 = apps d" using d1(1) by (simp add: filter_id_conv)
      then have "same_tables d d1" using d0(1,2) by (auto simp: same_tables_def)
      then show ?thesis using r True none d0(3) by (auto simp: same_tables_def)
    next
      case False
      then obtain a where a: "a \<in> set (apps d)" "?p d a" using d1(3) by (auto simp: filter_empty_conv)
      then show ?thesis using r False d1 d0(3) delete_maps [OF assms(1) a d1(1,2)] by auto
    qed
  qed
qed

definition example_delete :: "(apps_err + unit) \<times> db" where
  "example_delete = DeleteApp 1 ''vm-1'' (rq_db example_app_request)"

theorem DeleteApp_exact_witness:
  "fst example_delete = Ok () \<and> (\<forall>h. \<not> maps_host (snd example_delete) h ''vm-1'')"
proof -
  have t: "TrimSpace ''vm-1'' = ''vm-1''" by (simp add: trim_eval)
  have wf: "db_wf (rq_db example_app_request)"
    by (simp add: example_app_request_def example_vm_db_def one_user_db_def db_wf_def table_wf_defs)
  have ok: "fst example_delete = Ok ()"
    by (simp add: example_delete_def DeleteApp_def DeleteByInstance_def t exec_def tick_def example_app_request_def
        example_vm_db_def one_user_db_def app_of_def db_wf_def table_wf_defs)
  then have "DeleteApp 1 ''vm-1'' (rq_db example_app_request) = (Ok (), snd example_delete)"
    by (metis example_delete_def prod.collapse)
  from DeleteApp_exact [OF wf this] ok t show ?thesis by simp
qed

end
