(* ===== verification/Storage_Service.thy ===== *)
theory Storage_Service
  imports Access_Service "HOL-Library.List_Lexorder" "HOL-Library.Char_ord"
begin

text \<open>
  Object storage, \<^verbatim>\<open>internal/domain/storage\<close> (\<^verbatim>\<open>types.go\<close>, \<^verbatim>\<open>repository.go\<close>, \<^verbatim>\<open>service.go\<close>,
  \<^verbatim>\<open>content_type.go\<close>, the download headers of \<^verbatim>\<open>client.go\<close> and \<^verbatim>\<open>handler.go\<close>). A user's container
  is a row with a name of the user's choice and a UUID, under which the container exists in Swift. The
  Swift client is a record of functions on an abstract world \<open>'w\<close>; containers are passed to it by their
  UUID, of which the code passes the text.
\<close>

subsection \<open>Types\<close>

record Container =
  ct_OpenstackName :: nat
  ct_Name :: bytes
  ct_CreatedAt :: int

record ObjectInfo =
  ob_Name :: bytes
  ob_ContentType :: bytes
  ob_SizeBytes :: int
  ob_LastModified :: int

record ContainerResponse =
  cn_Name :: bytes
  cn_CreatedAt :: int

datatype storage_err = ErrContainerNotFound | ErrContainerNotEmpty | ErrContainerAlreadyExists | RawDb db_err
  | ErrObjectNotFound | ErrObjectPrefixNotFound | ErrStorageOperationFailed storage_cause
and storage_cause = SDb db_err | SOs os_err | SSave storage_err "os_err option" | SName bytes

text \<open>
  A writer the client streams an object to: the headers if it is an HTTP response (\<open>None\<close> otherwise),
  the bytes written, and whether anything was written.
\<close>

record writer =
  wr_Header :: "(bytes \<Rightarrow> bytes) option"
  wr_body :: bytes
  wr_Written :: bool

text \<open>A reader: the data of its coming reads, and the error it ends with, if not the end of the file.\<close>

record reader =
  rd_chunks :: "bytes list"
  rd_err :: "bytes option"

record 'w storageClient =
  sc_CreateContainer :: "nat \<Rightarrow> 'w \<Rightarrow> os_err option \<times> 'w"
  sc_DeleteContainer :: "nat \<Rightarrow> 'w \<Rightarrow> os_err option \<times> 'w"
  sc_ListObjects :: "nat \<Rightarrow> 'w \<Rightarrow> (os_err + ObjectInfo list) \<times> 'w"
  sc_UploadObject :: "nat \<Rightarrow> bytes \<Rightarrow> reader \<Rightarrow> bytes \<Rightarrow> 'w \<Rightarrow> os_err option \<times> 'w"
  sc_DownloadObject :: "nat \<Rightarrow> bytes \<Rightarrow> writer \<Rightarrow> 'w \<Rightarrow> os_err option \<times> writer \<times> 'w"
  sc_DeleteObject :: "nat \<Rightarrow> bytes \<Rightarrow> 'w \<Rightarrow> os_err option \<times> 'w"
  sc_BulkDeleteObjects :: "nat \<Rightarrow> bytes list \<Rightarrow> 'w \<Rightarrow> os_err option \<times> 'w"

definition isSwiftNotFound :: "os_err \<Rightarrow> bool" where
  "isSwiftNotFound e = hasStatusCode e 404"

subsection \<open>Repository\<close>

definition entToContainer :: "container_row \<Rightarrow> Container" where
  "entToContainer row = \<lparr>ct_OpenstackName = c_openstack_name row, ct_Name = c_name row,
     ct_CreatedAt = c_created_at row\<rparr>"

definition new_container_row :: "nat \<Rightarrow> Container \<Rightarrow> db \<Rightarrow> container_row" where
  "new_container_row ownerID c d = \<lparr>c_id = seq d, c_openstack_name = ct_OpenstackName c, c_name = ct_Name c,
     c_created_at = clock d, c_owner = ownerID\<rparr>"

text \<open>\<open>Save\<close> sets the creation time of the container it is given.\<close>

definition Container_Save :: "nat \<Rightarrow> Container \<Rightarrow> db \<Rightarrow> (storage_err + Container) \<times> db" where
  "Container_Save ownerID c d = (case exec (\<lambda>d. let row = new_container_row ownerID c d in
       (row, d\<lparr>containers := containers d @ [row], seq := Suc (seq d)\<rparr>)) d of
     (Err e, d) \<Rightarrow> (Err (if e = Constraint then ErrContainerAlreadyExists else RawDb e), d)
   | (Ok row, d) \<Rightarrow> (Ok (c\<lparr>ct_CreatedAt := c_created_at row\<rparr>), d))"

definition findByNameQuery :: "nat \<Rightarrow> bytes \<Rightarrow> container_row \<Rightarrow> bool" where
  "findByNameQuery ownerID name c \<longleftrightarrow> c_name c = name \<and> c_owner c = ownerID"

definition first_row :: "'r list \<Rightarrow> ('r \<Rightarrow> bool) \<Rightarrow> db_err + 'r" where
  "first_row rs p = (case filter p rs of [] \<Rightarrow> Err NotFound | r # _ \<Rightarrow> Ok r)"

definition Container_FindByName :: "nat \<Rightarrow> bytes \<Rightarrow> Container option dbop" where
  "Container_FindByName ownerID name d =
     (case query (\<lambda>d. only_row (containers d) (findByNameQuery ownerID name)) d of
        (Ok row, d) \<Rightarrow> (Ok (Some (entToContainer row)), d)
      | (Err NotFound, d) \<Rightarrow> (Ok None, d)
      | (Err NotSingular, d) \<Rightarrow> (case query (\<lambda>d. first_row (containers d) (findByNameQuery ownerID name)) d of
           (Ok row, d) \<Rightarrow> (Ok (Some (entToContainer row)), d)
         | (Err e, d) \<Rightarrow> (Err e, d))
      | (Err e, d) \<Rightarrow> (Err e, d))"

definition Container_ListByOwner :: "nat \<Rightarrow> Container list dbop" where
  "Container_ListByOwner ownerID d =
     (case query (\<lambda>d. all_rows (containers d) (\<lambda>c. c_owner c = ownerID)) d of
        (Err e, d) \<Rightarrow> (Err e, d)
      | (Ok rows, d) \<Rightarrow> (Ok (map entToContainer rows), d))"

definition Container_Delete :: "nat \<Rightarrow> bytes \<Rightarrow> unit dbop" where
  "Container_Delete ownerID name = exec (\<lambda>d. ((), d\<lparr>containers :=
     filter (\<lambda>c. \<not> (c_name c = name \<and> c_owner c = ownerID)) (containers d)\<rparr>))"

definition container_set :: "db \<Rightarrow> (nat \<times> bytes \<times> Container) set" where
  "container_set d = (\<lambda>c. (c_owner c, c_name c, entToContainer c)) ` set (containers d)"

lemma first_row_Ok: "first_row rs p = Ok r \<Longrightarrow> r \<in> set rs \<and> p r"
proof -
  assume "first_row rs p = Ok r"
  then obtain rest where "filter p rs = r # rest" by (auto simp: first_row_def split: list.splits)
  then have "r \<in> set (filter p rs)" by simp
  then show ?thesis by simp
qed

lemma Container_FindByName_result:
  assumes "Container_FindByName own name d = (r, d')"
  shows "same_tables d d'"
    and "r = Ok (Some v) \<Longrightarrow> (own, name, v) \<in> container_set d'"
    and "r = Ok None \<Longrightarrow> (own, name, v) \<notin> container_set d'"
proof -
  let ?p = "findByNameQuery own name"
  obtain x d1 where q: "query (\<lambda>d. only_row (containers d) ?p) d = (x, d1)" by force
  note t1 = query_tables [OF q]
  have "same_tables d d' \<and> (r = Ok (Some v) \<longrightarrow> (own, name, v) \<in> container_set d')
      \<and> (r = Ok None \<longrightarrow> (own, name, v) \<notin> container_set d')"
  proof (cases "x = Err NotSingular")
    case True
    obtain y d2 where q2: "query (\<lambda>d. first_row (containers d) ?p) d1 = (y, d2)" by force
    note t2 = query_tables [OF q2]
    have "row \<in> set (containers d2) \<and> ?p row" if "y = Ok row" for row
      using query_ok [OF q2 [unfolded that]] by (rule first_row_Ok)
    with assms q q2 True t1 t2 show ?thesis
      by (cases y) (auto simp: Container_FindByName_def container_set_def findByNameQuery_def intro: same_tables_trans)
  next
    case False
    show ?thesis
    proof (cases x)
      case (Inl e)
      then have "e = NotFound \<Longrightarrow> \<forall>row\<in>set (containers d1). \<not> ?p row"
        using q only_row_NotFound [of "containers d1" ?p] by (auto simp: query_def split: prod.splits option.splits)
      with assms q Inl False t1 show ?thesis
        by (cases e) (auto simp: Container_FindByName_def container_set_def findByNameQuery_def)
    next
      case (Inr row)
      then have "row \<in> set (containers d1) \<and> ?p row" using query_ok q only_row_Ok by fastforce
      with assms q Inr t1 show ?thesis
        by (auto simp: Container_FindByName_def container_set_def findByNameQuery_def)
    qed
  qed
  then show "same_tables d d'" "r = Ok (Some v) \<Longrightarrow> (own, name, v) \<in> container_set d'"
    "r = Ok None \<Longrightarrow> (own, name, v) \<notin> container_set d'" by blast+
qed

interpretation ctr: owned_repo container_set Container_FindByName Container_Delete
proof
  fix d d' own name and v :: Container and r
  show "same_tables d d' \<Longrightarrow> container_set d' = container_set d"
    by (simp add: container_set_def same_tables_def)
  show "Container_FindByName own name d = (r, d') \<Longrightarrow> same_tables d d'"
    by (rule Container_FindByName_result)
  show "Container_FindByName own name d = (Ok (Some v), d') \<Longrightarrow> (own, name, v) \<in> container_set d'"
    by (rule Container_FindByName_result) auto
  show "Container_FindByName own name d = (Ok None, d') \<Longrightarrow> (own, name, v) \<notin> container_set d'"
    by (rule Container_FindByName_result) auto
next
  fix d d' own name q e and u :: unit
  show "Container_Delete own name d = (q, d') \<Longrightarrow> db_wf d \<Longrightarrow> db_wf d'"
    unfolding Container_Delete_def by (rule exec_wf)
  show "Container_Delete own name d = (Err e, d') \<Longrightarrow> same_tables d d'"
    unfolding Container_Delete_def by (rule exec_err)
  show "container_set d' = {x \<in> container_set d. \<not> (fst x = own \<and> fst (snd x) = name)}"
    if "Container_Delete own name d = (Ok u, d')"
    using that unfolding Container_Delete_def
    by (elim exec_ok) (auto simp: container_set_def same_tables_def)
qed

subsection \<open>Service\<close>

definition resolveContainer :: "nat \<Rightarrow> bytes \<Rightarrow> db \<Rightarrow> (storage_err + Container) \<times> db" where
  "resolveContainer ownerID name d = (case Container_FindByName ownerID (TrimSpace name) d of
     (Err e, d) \<Rightarrow> (Err (ErrStorageOperationFailed (SDb e)), d)
   | (Ok None, d) \<Rightarrow> (Err ErrContainerNotFound, d)
   | (Ok (Some c), d) \<Rightarrow> (Ok c, d))"

text \<open>\<open>uuid\<close> is what \<^verbatim>\<open>uuid.New\<close> returns.\<close>

definition CreateContainer :: "'w storageClient \<Rightarrow> nat \<Rightarrow> nat \<Rightarrow> bytes \<Rightarrow> db \<times> 'w
    \<Rightarrow> (storage_err + ContainerResponse) \<times> db \<times> 'w" where
  "CreateContainer client uuid ownerID rawName = (\<lambda>(d, w). let name = TrimSpace rawName in
     case Container_FindByName ownerID name d of
       (Err e, d) \<Rightarrow> (Err (ErrStorageOperationFailed (SDb e)), d, w)
     | (Ok (Some _), d) \<Rightarrow> (Err ErrContainerAlreadyExists, d, w)
     | (Ok None, d) \<Rightarrow> (case sc_CreateContainer client uuid w of
         (Some e, w) \<Rightarrow> (Err (ErrStorageOperationFailed (SOs e)), d, w)
       | (None, w) \<Rightarrow> (case Container_Save ownerID \<lparr>ct_OpenstackName = uuid, ct_Name = name, ct_CreatedAt = zero_time\<rparr> d of
           (Err e, d) \<Rightarrow> (case sc_DeleteContainer client uuid w of (delErr, w) \<Rightarrow>
              if e = ErrContainerAlreadyExists then (Err ErrContainerAlreadyExists, d, w)
              else (Err (ErrStorageOperationFailed (SSave e delErr)), d, w))
         | (Ok c, d) \<Rightarrow> (Ok \<lparr>cn_Name = ct_Name c, cn_CreatedAt = ct_CreatedAt c\<rparr>, d, w))))"

definition ListContainers :: "nat \<Rightarrow> db \<Rightarrow> (storage_err + ContainerResponse list) \<times> db" where
  "ListContainers ownerID d = (case Container_ListByOwner ownerID d of
     (Err e, d) \<Rightarrow> (Err (ErrStorageOperationFailed (SDb e)), d)
   | (Ok cs, d) \<Rightarrow> (Ok (map (\<lambda>c. \<lparr>cn_Name = ct_Name c, cn_CreatedAt = ct_CreatedAt c\<rparr>) cs), d))"

definition DeleteContainer :: "'w storageClient \<Rightarrow> nat \<Rightarrow> bytes \<Rightarrow> bool \<Rightarrow> db \<times> 'w
    \<Rightarrow> (storage_err + unit) \<times> db \<times> 'w" where
  "DeleteContainer client ownerID name force = (\<lambda>(d, w). case resolveContainer ownerID name d of
     (Err e, d) \<Rightarrow> (Err e, d, w)
   | (Ok c, d) \<Rightarrow> (case sc_ListObjects client (ct_OpenstackName c) w of (listed, w) \<Rightarrow>
      (case (case listed of Err e \<Rightarrow> if isSwiftNotFound e then Ok [] else Err e | Ok objs \<Rightarrow> Ok objs) of
        Err e \<Rightarrow> (Err (ErrStorageOperationFailed (SOs e)), d, w)
      | Ok objs \<Rightarrow>
         if objs \<noteq> [] \<and> \<not> force then (Err ErrContainerNotEmpty, d, w)
         else case (if objs \<noteq> [] then sc_BulkDeleteObjects client (ct_OpenstackName c) (map ob_Name objs) w
                    else (None, w)) of
           (Some e, w) \<Rightarrow> (Err (ErrStorageOperationFailed (SOs e)), d, w)
         | (None, w) \<Rightarrow> (case sc_DeleteContainer client (ct_OpenstackName c) w of (err, w) \<Rightarrow>
             (case err of
                Some e \<Rightarrow> if \<not> isSwiftNotFound e then (Err (ErrStorageOperationFailed (SOs e)), d, w)
                  else (case Container_Delete ownerID name d of
                     (Err e, d) \<Rightarrow> (Err (ErrStorageOperationFailed (SDb e)), d, w)
                   | (Ok _, d) \<Rightarrow> (Ok (), d, w))
              | None \<Rightarrow> (case Container_Delete ownerID name d of
                     (Err e, d) \<Rightarrow> (Err (ErrStorageOperationFailed (SDb e)), d, w)
                   | (Ok _, d) \<Rightarrow> (Ok (), d, w)))))))"

definition ListObjects :: "'w storageClient \<Rightarrow> nat \<Rightarrow> bytes \<Rightarrow> db \<times> 'w
    \<Rightarrow> (storage_err + ObjectInfo list) \<times> db \<times> 'w" where
  "ListObjects client ownerID containerName = (\<lambda>(d, w). case resolveContainer ownerID containerName d of
     (Err e, d) \<Rightarrow> (Err e, d, w)
   | (Ok c, d) \<Rightarrow> (case sc_ListObjects client (ct_OpenstackName c) w of
       (Err e, w) \<Rightarrow> (Err (ErrStorageOperationFailed (SOs e)), d, w)
     | (Ok objs, w) \<Rightarrow> (Ok objs, d, w)))"

definition UploadObject :: "'w storageClient \<Rightarrow> nat \<Rightarrow> bytes \<Rightarrow> bytes \<Rightarrow> reader \<Rightarrow> bytes \<Rightarrow> db \<times> 'w
    \<Rightarrow> (storage_err + unit) \<times> db \<times> 'w" where
  "UploadObject client ownerID containerName objectName r contentType = (\<lambda>(d, w).
     case resolveContainer ownerID containerName d of
       (Err e, d) \<Rightarrow> (Err e, d, w)
     | (Ok c, d) \<Rightarrow> (case sc_UploadObject client (ct_OpenstackName c) objectName r contentType w of
         (Some e, w) \<Rightarrow> (Err (ErrStorageOperationFailed (SOs e)), d, w)
       | (None, w) \<Rightarrow> (Ok (), d, w)))"

definition DownloadObject :: "'w storageClient \<Rightarrow> nat \<Rightarrow> bytes \<Rightarrow> bytes \<Rightarrow> writer \<Rightarrow> db \<times> 'w
    \<Rightarrow> (storage_err + unit) \<times> writer \<times> db \<times> 'w" where
  "DownloadObject client ownerID containerName objectName wr = (\<lambda>(d, w).
     case resolveContainer ownerID containerName d of
       (Err e, d) \<Rightarrow> (Err e, wr, d, w)
     | (Ok c, d) \<Rightarrow> (case sc_DownloadObject client (ct_OpenstackName c) objectName wr w of
         (Some e, wr, w) \<Rightarrow> (Err (if isSwiftNotFound e then ErrObjectNotFound
            else ErrStorageOperationFailed (SOs e)), wr, d, w)
       | (None, wr, w) \<Rightarrow> (Ok (), wr, d, w)))"

definition svc_DeleteObject :: "'w storageClient \<Rightarrow> nat \<Rightarrow> bytes \<Rightarrow> bytes \<Rightarrow> db \<times> 'w
    \<Rightarrow> (storage_err + unit) \<times> db \<times> 'w" where
  "svc_DeleteObject client ownerID containerName objectName = (\<lambda>(d, w).
     case resolveContainer ownerID containerName d of
       (Err e, d) \<Rightarrow> (Err e, d, w)
     | (Ok c, d) \<Rightarrow> (case sc_DeleteObject client (ct_OpenstackName c) objectName w of
         (Some e, w) \<Rightarrow> (Err (if isSwiftNotFound e then ErrObjectNotFound
            else ErrStorageOperationFailed (SOs e)), d, w)
       | (None, w) \<Rightarrow> (Ok (), d, w)))"

subsection \<open>Archives\<close>

definition normalizeObjectPrefix :: "bytes \<Rightarrow> bytes" where
  "normalizeObjectPrefix pre = (let pre = TrimLeft CHR ''/'' pre in
     if pre \<noteq> [] \<and> \<not> HasSuffix pre ''/'' then pre @ ''/'' else pre)"

definition safeZipEntryName :: "bytes \<Rightarrow> bytes option" where
  "safeZipEntryName name = (let cleaned = TrimLeft CHR ''/'' name in
     if cleaned = [] then None
     else if list_ex (\<lambda>segment. segment = [] \<or> segment = ''.'' \<or> segment = ''..'') (split_on CHR ''/'' cleaned) then None
     else Some cleaned)"

text \<open>
  The entries of a zip file, with their contents. The names of the objects of a container are distinct,
  so that sorting by name determines the order.
\<close>

type_synonym zip = "(bytes \<times> bytes) list"

fun archive_entries :: "'w storageClient \<Rightarrow> nat \<Rightarrow> ObjectInfo list \<Rightarrow> zip \<Rightarrow> 'w
    \<Rightarrow> (storage_err + unit) \<times> zip \<times> 'w" where
  "archive_entries client c [] zw w = (Ok (), zw, w)"
| "archive_entries client c (obj # objs) zw w = (case safeZipEntryName (ob_Name obj) of
     None \<Rightarrow> (Err (ErrStorageOperationFailed (SName (ob_Name obj))), zw, w)
   | Some entryName \<Rightarrow>
      (case sc_DownloadObject client c (ob_Name obj) \<lparr>wr_Header = None, wr_body = [], wr_Written = False\<rparr> w of
         (Some e, entry, w) \<Rightarrow> (Err (ErrStorageOperationFailed (SOs e)), zw @ [(entryName, wr_body entry)], w)
       | (None, entry, w) \<Rightarrow> archive_entries client c objs (zw @ [(entryName, wr_body entry)]) w))"

text \<open>
  The result is the error, if any, and the zip file as far as it was written; \<open>None\<close> when none was
  begun. A begun file is closed on every path, so that something is written.
\<close>

definition ArchiveObjects :: "'w storageClient \<Rightarrow> nat \<Rightarrow> bytes \<Rightarrow> bytes \<Rightarrow> db \<times> 'w
    \<Rightarrow> (storage_err + unit) \<times> zip option \<times> db \<times> 'w" where
  "ArchiveObjects client ownerID containerName rawPrefix = (\<lambda>(d, w).
     case resolveContainer ownerID containerName d of
       (Err e, d) \<Rightarrow> (Err e, None, d, w)
     | (Ok c, d) \<Rightarrow> (let pre = normalizeObjectPrefix rawPrefix in
         case sc_ListObjects client (ct_OpenstackName c) w of
           (Err e, w) \<Rightarrow> (Err (ErrStorageOperationFailed (SOs e)), None, d, w)
         | (Ok objs, w) \<Rightarrow>
            (let matches = filter (\<lambda>obj. pre = [] \<or> HasPrefix (ob_Name obj) pre) objs in
             if matches = [] then (Err ErrObjectPrefixNotFound, None, d, w)
             else case archive_entries client (ct_OpenstackName c) (sort_key ob_Name matches) [] w of
               (r, zw, w) \<Rightarrow> (r, Some zw, d, w))))"

definition archiveFilename :: "bytes \<Rightarrow> bytes \<Rightarrow> bytes" where
  "archiveFilename containerName pre = (let base = TrimSuffix pre ''/'';
     base = (if base = [] then containerName
       else if CHR ''/'' \<in> set base then rev (takeWhile (\<lambda>c. c \<noteq> CHR ''/'') (rev base)) else base);
     base = (if base = [] then ''objects'' else base) in base @ ''.zip'')"


subsection \<open>Containers in the database and in Swift\<close>

text \<open>
  What the service relies on of Swift: \<open>cont w\<close> are the containers that exist. Creating adds one and
  deleting removes one, a failing call changes none, a 404 on a delete means that the container does not
  exist, and work on objects leaves the containers alone.
\<close>

definition lawful_swift :: "'w storageClient \<Rightarrow> ('w \<Rightarrow> nat set) \<Rightarrow> bool" where
  "lawful_swift client cont \<longleftrightarrow>
     (\<forall>n w w'. sc_CreateContainer client n w = (None, w') \<longrightarrow> cont w' = insert n (cont w))
   \<and> (\<forall>n w e w'. sc_CreateContainer client n w = (Some e, w') \<longrightarrow> cont w' = cont w)
   \<and> (\<forall>n w w'. sc_DeleteContainer client n w = (None, w') \<longrightarrow> cont w' = cont w - {n})
   \<and> (\<forall>n w e w'. sc_DeleteContainer client n w = (Some e, w') \<longrightarrow> cont w' = cont w \<and> (isSwiftNotFound e \<longrightarrow> n \<notin> cont w))
   \<and> (\<forall>n w r w'. sc_ListObjects client n w = (r, w') \<longrightarrow> cont w' = cont w)
   \<and> (\<forall>n ns w r w'. sc_BulkDeleteObjects client n ns w = (r, w') \<longrightarrow> cont w' = cont w)"

lemma lawful_swiftD:
  assumes "lawful_swift client cont"
  shows "sc_CreateContainer client n w = (None, w') \<Longrightarrow> cont w' = insert n (cont w)"
    and "sc_CreateContainer client n w = (Some e, w') \<Longrightarrow> cont w' = cont w"
    and "sc_DeleteContainer client n w = (None, w') \<Longrightarrow> cont w' = cont w - {n}"
    and "sc_DeleteContainer client n w = (Some e, w') \<Longrightarrow> cont w' = cont w"
    and "sc_DeleteContainer client n w = (Some e, w') \<Longrightarrow> isSwiftNotFound e \<Longrightarrow> n \<notin> cont w"
    and "sc_ListObjects client n w = (l, w') \<Longrightarrow> cont w' = cont w"
    and "sc_BulkDeleteObjects client n ns w = (b, w') \<Longrightarrow> cont w' = cont w"
  using assms unfolding lawful_swift_def by - metis+

lemma resolveContainer_Ok:
  assumes "resolveContainer own name d = (Ok c, d')"
  shows "same_tables d d'" and "(own, TrimSpace name, c) \<in> container_set d"
proof -
  have f: "Container_FindByName own (TrimSpace name) d = (Ok (Some c), d')"
    using assms by (auto simp: resolveContainer_def split: prod.splits sum.splits option.splits)
  show "same_tables d d'" by (rule ctr.find_tables [OF f])
  show "(own, TrimSpace name, c) \<in> container_set d" using ctr.find_Some [OF f] ctr.find_rows [OF f] by simp
qed

lemma resolveContainer_Err:
  assumes "resolveContainer own name d = (Err e, d')"
  shows "same_tables d d'" and "e = ErrContainerNotFound \<longleftrightarrow> \<not> (\<exists>x. e = ErrStorageOperationFailed x)"
    and "e = ErrContainerNotFound \<Longrightarrow> (own, TrimSpace name, c) \<notin> container_set d"
proof -
  obtain f where f: "Container_FindByName own (TrimSpace name) d = (f, d')" and
    fe: "f = Ok None \<and> e = ErrContainerNotFound \<or> (\<exists>x. f = Err x \<and> e = ErrStorageOperationFailed (SDb x))"
    using assms by (auto simp: resolveContainer_def split: prod.splits sum.splits option.splits)
  show "same_tables d d'" by (rule ctr.find_tables [OF f])
  show "e = ErrContainerNotFound \<longleftrightarrow> \<not> (\<exists>x. e = ErrStorageOperationFailed x)" using fe by auto
  show "(own, TrimSpace name, c) \<notin> container_set d" if "e = ErrContainerNotFound"
    using ctr.find_None [of own "TrimSpace name" d d' c] ctr.find_rows [OF f] f fe that by auto
qed

text \<open>What \<open>DeleteContainer\<close> did, case by case; \<open>c\<close> is the container the trimmed name resolves to.\<close>

lemma DeleteContainer_cases:
  assumes "lawful_swift client cont" and "DeleteContainer client own name force (d, w) = (r, d', w')"
  obtains (unresolved) e where "r = Err e" "resolveContainer own name d = (Err e, d')" "w' = w"
    | (kept) e c where "r = Err e" "(own, TrimSpace name, c) \<in> container_set d" "same_tables d d'" "cont w' = cont w"
        "e = ErrContainerNotEmpty \<longrightarrow> \<not> force" "e \<noteq> ErrContainerNotFound"
    | (deleted) c q d1 where "(own, TrimSpace name, c) \<in> container_set d" "same_tables d d1"
        "Container_Delete own name d1 = (q, d')" "cont w' = cont w - {ct_OpenstackName c}"
        "r = (case q of Err e \<Rightarrow> Err (ErrStorageOperationFailed (SDb e)) | Ok _ \<Rightarrow> Ok ())"
proof -
  note law = lawful_swiftD [OF assms(1)]
  obtain x d1 where x: "resolveContainer own name d = (x, d1)" by force
  show ?thesis
  proof (cases x)
    case (Inl e)
    with assms(2) x show ?thesis by (auto intro!: unresolved simp: DeleteContainer_def)
  next
    case (Inr c)
    note res = resolveContainer_Ok [OF x [unfolded Inr]]
    let ?n = "ct_OpenstackName c"
    obtain l w1 where l: "sc_ListObjects client ?n w = (l, w1)" by force
    note c1 = law(6) [OF l]
    define objs where "objs = (case l of Err e \<Rightarrow> if isSwiftNotFound e then Ok [] else Err e | Ok objs \<Rightarrow> Ok objs)"
    show ?thesis
    proof (cases objs)
      case (Inl e)
      with assms(2) x \<open>x = Ok c\<close> l c1 res show ?thesis
        by (intro kept) (auto simp: DeleteContainer_def objs_def)
    next
      case (Inr os)
      obtain b w2 where b: "(if os \<noteq> [] then sc_BulkDeleteObjects client ?n (map ob_Name os) w1 else (None, w1)) = (b, w2)"
        by force
      have c2: "cont w2 = cont w" using b c1 law(7) by (auto split: if_splits)
      obtain q d2 where q: "Container_Delete own name d1 = (q, d2)" by force
      obtain e w3 where dl: "sc_DeleteContainer client ?n w2 = (e, w3)" by force
      have r: "(r, d', w') = (if os \<noteq> [] \<and> \<not> force then (Err ErrContainerNotEmpty, d1, w1)
          else case b of Some e \<Rightarrow> (Err (ErrStorageOperationFailed (SOs e)), d1, w2)
          | None \<Rightarrow> if (\<exists>x. e = Some x \<and> \<not> isSwiftNotFound x) then (Err (ErrStorageOperationFailed (SOs (the e))), d1, w3)
             else (case q of Err e \<Rightarrow> (Err (ErrStorageOperationFailed (SDb e)), d2, w3) | Ok _ \<Rightarrow> (Ok (), d2, w3)))"
        using assms(2) x \<open>x = Ok c\<close> l Inr b dl q unfolding objs_def
        by (cases "os = []") (auto simp: DeleteContainer_def split: option.splits sum.splits if_splits)
      show ?thesis
      proof (cases "(os \<noteq> [] \<and> \<not> force) \<or> b \<noteq> None \<or> (\<exists>x. e = Some x \<and> \<not> isSwiftNotFound x)")
        case True
        have c3: "e = Some x \<Longrightarrow> cont w3 = cont w" for x using law(4) dl c2 by blast
        have "\<exists>e'. r = Err e' \<and> d' = d1 \<and> cont w' = cont w \<and> (e' = ErrContainerNotEmpty \<longrightarrow> \<not> force)
            \<and> e' \<noteq> ErrContainerNotFound"
          using True r c1 c2 c3 by (cases b) (auto split: if_splits)
        with res kept show ?thesis by blast
      next
        case False
        then have "cont w3 = cont w - {?n}"
          using law(3,4,5) dl c2 by (cases e) fastforce+
        moreover have nb: "\<not> (os \<noteq> [] \<and> \<not> force)" "b = None" "\<not> (\<exists>x. e = Some x \<and> \<not> isSwiftNotFound x)"
          using False by blast+
        have "(r, d', w') = (case q of Err e \<Rightarrow> (Err (ErrStorageOperationFailed (SDb e)), d2, w3) | Ok _ \<Rightarrow> (Ok (), d2, w3))"
          using r unfolding if_not_P [OF nb(1)] nb(2) option.case if_not_P [OF nb(3)] .
        ultimately show ?thesis using q res by (intro deleted [of c d1 q]) (cases q; simp)+
      qed
    qed
  qed
qed


lemma Container_Save_ok:
  assumes "Container_Save own c d = (Ok c', d')"
  shows "\<exists>t. c' = c\<lparr>ct_CreatedAt := t\<rparr>" and "db_wf d'"
    and "container_set d' = insert (own, ct_Name c, c') (container_set d)"
proof -
  obtain row where x: "exec (\<lambda>d. let row = new_container_row own c d in
       (row, d\<lparr>containers := containers d @ [row], seq := Suc (seq d)\<rparr>)) d = (Ok row, d')"
    "c' = c\<lparr>ct_CreatedAt := c_created_at row\<rparr>"
    using assms by (auto simp: Container_Save_def split: prod.splits sum.splits)
  from x(1) obtain e where e: "same_tables d e" "row = new_container_row own c e"
      "d' = e\<lparr>containers := containers e @ [row], seq := Suc (seq e)\<rparr>" "db_wf d'"
    by (elim exec_ok) (auto simp: Let_def)
  show "\<exists>t. c' = c\<lparr>ct_CreatedAt := t\<rparr>" "db_wf d'" using x(2) e(4) by blast+
  show "container_set d' = insert (own, ct_Name c, c') (container_set d)"
    using e(1-3) x(2) by (auto simp: container_set_def same_tables_def new_container_row_def entToContainer_def)
qed

lemma Container_Save_err:
  assumes "Container_Save own c d = (Err e, d')" and "db_wf d"
  shows "db_wf d'" and "container_set d' = container_set d"
proof -
  obtain x where x: "exec (\<lambda>d. let row = new_container_row own c d in
       (row, d\<lparr>containers := containers d @ [row], seq := Suc (seq d)\<rparr>)) d = (Err x, d')"
    using assms by (auto simp: Container_Save_def split: prod.splits sum.splits)
  then show "db_wf d'" using exec_wf assms(2) by blast
  show "container_set d' = container_set d" using ctr.rows_tables [OF exec_err [OF x]] .
qed

text \<open>
  C23. Deleting a container. When it succeeds, the container the trimmed name resolves to is the caller's,
  it no longer exists in Swift, and every other container does; the caller's row with the name as given
  goes, and no other. When it fails, no row changes, and a container that is missing or not empty (without
  \<open>force\<close>) is left alone in Swift. The row that was resolved therefore stays, without its Swift
  container, exactly when the given name has surrounding white space.
\<close>

theorem DeleteContainer_effect:
  assumes "lawful_swift client cont" and "db_wf d"
    and "DeleteContainer client own name force (d, w) = (r, d', w')"
  shows "db_wf d' \<and> (case r of
       Ok _ \<Rightarrow> (\<exists>c. (own, TrimSpace name, c) \<in> container_set d \<and> cont w' = cont w - {ct_OpenstackName c}
          \<and> container_set d' = {x \<in> container_set d. \<not> (fst x = own \<and> fst (snd x) = name)}
          \<and> ((own, TrimSpace name, c) \<in> container_set d' \<longleftrightarrow> name \<noteq> TrimSpace name))
     | Err ErrContainerNotFound \<Rightarrow> container_set d' = container_set d \<and> w' = w
          \<and> (\<forall>c. (own, TrimSpace name, c) \<notin> container_set d)
     | Err ErrContainerNotEmpty \<Rightarrow> container_set d' = container_set d \<and> cont w' = cont w \<and> \<not> force
     | Err e \<Rightarrow> container_set d' = container_set d)"
  using assms(1,3)
proof (cases rule: DeleteContainer_cases)
  case (unresolved e)
  note res = resolveContainer_Err [OF unresolved(2)]
  have "db_wf d'" "container_set d' = container_set d"
    using same_tables_wf [OF res(1)] assms(2) ctr.rows_tables [OF res(1)] by simp_all
  moreover have "e \<noteq> ErrContainerNotEmpty" using res(2) by auto
  ultimately show ?thesis using unresolved(1,3) res(3) by (cases e) auto
next
  case (kept e c)
  have "db_wf d'" "container_set d' = container_set d"
    using same_tables_wf [OF kept(3)] assms(2) ctr.rows_tables [OF kept(3)] by simp_all
  with kept show ?thesis by (cases e) auto
next
  case (deleted c q d1)
  have wf: "db_wf d'" using ctr.del_wf [OF deleted(3)] same_tables_wf [OF deleted(2)] assms(2) by simp
  note t = ctr.rows_tables [OF deleted(2)]
  show ?thesis
  proof (cases q)
    case (Inl e)
    then have "container_set d' = container_set d"
      using ctr.rows_tables [OF ctr.del_err] deleted(3) t by blast
    with wf deleted(5) Inl show ?thesis by simp
  next
    case (Inr u)
    then have "container_set d' = {x \<in> container_set d. \<not> (fst x = own \<and> fst (snd x) = name)}"
      using ctr.del_ok deleted(3) t by blast
    with wf deleted(1,4,5) Inr show ?thesis by auto
  qed
qed

text \<open>A small object store: the containers, each with its objects and their contents.\<close>

type_synonym tiny_swift = "(nat \<times> (bytes \<times> bytes) list) list"

definition tiny_storage :: "tiny_swift storageClient" where
  "tiny_storage = \<lparr>
     sc_CreateContainer = (\<lambda>n w. (None, if n \<in> fst ` set w then w else (n, []) # w)),
     sc_DeleteContainer = (\<lambda>n w. if n \<in> fst ` set w then (None, filter (\<lambda>(m, _). m \<noteq> n) w)
        else (Some (StatusError 404 ''gone''), w)),
     sc_ListObjects = (\<lambda>n w. (case map_of w n of None \<Rightarrow> Err (StatusError 404 ''gone'')
        | Some os \<Rightarrow> Ok (map (\<lambda>(o', b). \<lparr>ob_Name = o', ob_ContentType = [], ob_SizeBytes = int (length b), ob_LastModified = 0\<rparr>) os), w)),
     sc_UploadObject = (\<lambda>n o' r ct w. (None, map (\<lambda>(m, os). if m = n then (m, (o', concat (rd_chunks r)) # os) else (m, os)) w)),
     sc_DownloadObject = (\<lambda>n o' wr w. (case map_of w n of None \<Rightarrow> (Some (StatusError 404 ''gone''), wr, w)
        | Some os \<Rightarrow> (case map_of os o' of None \<Rightarrow> (Some (StatusError 404 ''gone''), wr, w)
           | Some b \<Rightarrow> (None, wr\<lparr>wr_body := wr_body wr @ b, wr_Written := True\<rparr>, w)))),
     sc_DeleteObject = (\<lambda>n o' w. (None, map (\<lambda>(m, os). if m = n then (m, filter (\<lambda>(p, _). p \<noteq> o') os) else (m, os)) w)),
     sc_BulkDeleteObjects = (\<lambda>n ns w. (None, map (\<lambda>(m, os). if m = n then (m, filter (\<lambda>(p, _). p \<notin> set ns) os) else (m, os)) w))\<rparr>"

lemma tiny_storage_lawful: "lawful_swift tiny_storage (\<lambda>w. fst ` set w)"
  by (auto simp: lawful_swift_def tiny_storage_def isSwiftNotFound_def hasStatusCode_def split: if_splits) force+

definition example_container_db :: db where
  "example_container_db = one_user_db\<lparr>containers := [\<lparr>c_id = 2, c_openstack_name = 77, c_name = ''pics'',
     c_created_at = 0, c_owner = 1\<rparr>]\<rparr>"

definition example_delete_container :: "bytes \<Rightarrow> (storage_err + unit) \<times> db \<times> tiny_swift" where
  "example_delete_container name = DeleteContainer tiny_storage 1 name True (example_container_db, [(77, [(''a'', ''x'')])])"

lemma example_container_wf: "db_wf example_container_db"
  by (simp add: example_container_db_def one_user_db_def db_wf_def table_wf_defs)

theorem DeleteContainer_effect_witness:
  "fst (example_delete_container ''pics '') = Ok () \<and> snd (snd (example_delete_container ''pics '')) = []
   \<and> container_set (fst (snd (example_delete_container ''pics ''))) = container_set example_container_db
   \<and> container_set (fst (snd (example_delete_container ''pics''))) = {}"
proof -
  have t: "TrimSpace ''pics '' = ''pics''" "TrimSpace ''pics'' = ''pics''" by code_simp+
  note ev = example_delete_container_def DeleteContainer_def resolveContainer_def Container_FindByName_def t query_def
    tick_def example_container_db_def one_user_db_def only_row_def findByNameQuery_def entToContainer_def tiny_storage_def
    Container_Delete_def exec_def db_wf_def table_wf_defs
  have ok: "fst (example_delete_container n) = Ok ()" "snd (snd (example_delete_container n)) = []"
    if "n = ''pics '' \<or> n = ''pics''" for n
    using that by (auto simp: ev)
  have eq: "DeleteContainer tiny_storage 1 n True (example_container_db, [(77, [(''a'', ''x'')])])
      = (Ok (), fst (snd (example_delete_container n)), [])" if "n = ''pics '' \<or> n = ''pics''" for n
    using ok [OF that] by (metis example_delete_container_def prod.collapse)
  have rows: "container_set example_container_db = {(1, ''pics'', \<lparr>ct_OpenstackName = 77, ct_Name = ''pics'', ct_CreatedAt = 0\<rparr>)}"
    by (simp add: container_set_def example_container_db_def one_user_db_def entToContainer_def)
  show ?thesis
    using DeleteContainer_effect [OF tiny_storage_lawful example_container_wf eq [of "''pics ''"]]
      DeleteContainer_effect [OF tiny_storage_lawful example_container_wf eq [of "''pics''"]] ok [of "''pics ''"]
    by (auto simp: t rows)
qed

text \<open>
  Creating a container. When it succeeds, the caller has one more container, of the trimmed name,
  which exists in Swift under the new UUID and nothing else changes; when it fails, no row changes and
  Swift is as it was, unless the clean-up after a failed insert fails too.
\<close>

theorem CreateContainer_no_orphan:
  assumes "lawful_swift client cont" and "db_wf d" and "uuid \<notin> cont w"
    and "CreateContainer client uuid own name (d, w) = (r, d', w')"
  shows "db_wf d' \<and> (case r of
       Ok res \<Rightarrow> cn_Name res = TrimSpace name \<and> cont w' = insert uuid (cont w)
         \<and> (\<forall>c. (own, TrimSpace name, c) \<notin> container_set d)
         \<and> container_set d' = insert (own, TrimSpace name, \<lparr>ct_OpenstackName = uuid, ct_Name = TrimSpace name,
             ct_CreatedAt = cn_CreatedAt res\<rparr>) (container_set d)
     | Err e \<Rightarrow> container_set d' = container_set d
         \<and> (cont w' = cont w \<or> cont w' = insert uuid (cont w) \<and> (\<exists>v del. sc_DeleteContainer client uuid v = (Some del, w'))))"
proof -
  note law = lawful_swiftD [OF assms(1)]
  let ?c = "\<lparr>ct_OpenstackName = uuid, ct_Name = TrimSpace name, ct_CreatedAt = zero_time\<rparr>"
  obtain f d1 where f: "Container_FindByName own (TrimSpace name) d = (f, d1)" by force
  note t1 = ctr.find_tables [OF f]
  have d1: "db_wf d1" "container_set d1 = container_set d"
    using ctr.find_wf [OF f] assms(2) ctr.find_rows [OF f] by simp_all
  obtain cr w1 where cr: "sc_CreateContainer client uuid w = (cr, w1)" by force
  obtain v d2 where v: "Container_Save own ?c d1 = (v, d2)" by force
  obtain del w2 where del: "sc_DeleteContainer client uuid w1 = (del, w2)" by force
  note unf = CreateContainer_def Let_def
  show ?thesis
  proof (cases f rule: lookup_cases)
    case none
    show ?thesis
    proof (cases cr)
      case None
      note c1 = law(1) [OF cr [unfolded None]]
      show ?thesis
      proof (cases v)
        case (Inl e)
        note s = Container_Save_err [OF v [unfolded Inl]]
        have r: "d' = d2" "w' = w2" "\<exists>e'. r = Err e'"
          using assms(4) f none cr None v Inl del by (auto simp: unf split: if_splits)
        have "cont w' = cont w \<or> cont w' = insert uuid (cont w) \<and> (\<exists>v del. sc_DeleteContainer client uuid v = (Some del, w'))"
          using del r(2) c1 law(3,4) assms(3) by (cases del) auto
        then show ?thesis using r s d1 by auto
      next
        case (Inr c)
        note s = Container_Save_ok [OF v [unfolded Inr]]
        have r: "d' = d2" "w' = w1" "r = Ok \<lparr>cn_Name = ct_Name c, cn_CreatedAt = ct_CreatedAt c\<rparr>"
          using assms(4) f none cr None v Inr by (auto simp: unf)
        have "\<forall>c. (own, TrimSpace name, c) \<notin> container_set d"
          using ctr.find_None [OF f [unfolded none]] d1(2) by simp
        then show ?thesis using r s c1 d1 by auto
      qed
    next
      case (Some e)
      with assms(4) f none cr law(2) d1 show ?thesis by (auto simp: unf)
    qed
  next
    case (some x)
    with assms(4) f d1 show ?thesis by (auto simp: unf)
  next
    case (err e)
    with assms(4) f d1 show ?thesis by (auto simp: unf)
  qed
qed

theorem CreateContainer_no_orphan_witness:
  "fst (CreateContainer tiny_storage 78 1 '' pics '' (one_user_db, [])) = Ok \<lparr>cn_Name = ''pics'', cn_CreatedAt = 100\<rparr>
   \<and> fst ` set (snd (snd (CreateContainer tiny_storage 78 1 '' pics '' (one_user_db, [])))) = {78}"
proof -
  let ?x = "CreateContainer tiny_storage 78 1 '' pics '' (one_user_db, [])"
  have t: "TrimSpace '' pics '' = ''pics''" by code_simp
  have ok: "fst ?x = Ok \<lparr>cn_Name = ''pics'', cn_CreatedAt = 100\<rparr>"
    by (simp add: CreateContainer_def Container_FindByName_def t query_def tick_def one_user_db_def only_row_def
        tiny_storage_def Container_Save_def new_container_row_def exec_def db_wf_def table_wf_defs Let_def)
  have "?x = (Ok \<lparr>cn_Name = ''pics'', cn_CreatedAt = 100\<rparr>, fst (snd ?x), snd (snd ?x))"
    using ok by (metis prod.collapse)
  from CreateContainer_no_orphan [OF tiny_storage_lawful one_user_db_wf _ this] ok show ?thesis by simp
qed

subsection \<open>Archives unpack below their directory\<close>

text \<open>
  Where unpacking an entry leads, from a directory below the target (the innermost name first): \<open>..\<close>
  leaves it, which is not possible from the target itself.
\<close>

fun unpack :: "bytes list \<Rightarrow> bytes list \<Rightarrow> bytes list option" where
  "unpack dir [] = Some dir"
| "unpack dir (s # ss) = (if s = [] \<or> s = ''.'' then unpack dir ss
     else if s = ''..'' then (case dir of [] \<Rightarrow> None | _ # up \<Rightarrow> unpack up ss)
     else unpack (s # dir) ss)"

lemma unpack_plain: "list_all (\<lambda>s. s \<noteq> [] \<and> s \<noteq> ''.'' \<and> s \<noteq> ''..'') ss \<Longrightarrow> unpack dir ss = Some (rev ss @ dir)"
  by (induction ss arbitrary: dir) auto

lemma safeZipEntryName_Some:
  assumes "safeZipEntryName name = Some p"
  shows "p \<noteq> []" and "hd p \<noteq> CHR ''/''" and "unpack [] (split_on CHR ''/'' p) = Some (rev (split_on CHR ''/'' p))"
    and "p = TrimLeft CHR ''/'' name"
proof -
  have p: "p = TrimLeft CHR ''/'' name" "p \<noteq> []"
    "\<not> list_ex (\<lambda>s. s = [] \<or> s = ''.'' \<or> s = ''..'') (split_on CHR ''/'' p)"
    using assms by (simp_all only: safeZipEntryName_def Let_def option.inject option.distinct not_False_eq_True split: if_splits)
  have "list_all (\<lambda>s. s \<noteq> [] \<and> s \<noteq> ''.'' \<and> s \<noteq> ''..'') (split_on CHR ''/'' p)"
    using p(3) by (simp only: list_all_iff list_ex_iff de_Morgan_disj bex_simps)
  from unpack_plain [OF this, of "[]"]
  show "unpack [] (split_on CHR ''/'' p) = Some (rev (split_on CHR ''/'' p))" by (simp only: append_Nil2)
  show "p \<noteq> []" "p = TrimLeft CHR ''/'' name" by (fact p)+
  show "hd p \<noteq> CHR ''/''" using p(2) hd_dropWhile [of "\<lambda>c. c = CHR ''/''" name] unfolding p(1) TrimLeft.simps by blast
qed

text \<open>What the service relies on of reading: \<open>content w c n\<close> is the content of an object, and reading changes nothing.\<close>

definition lawful_reads :: "'w storageClient \<Rightarrow> ('w \<Rightarrow> nat \<Rightarrow> bytes \<Rightarrow> bytes option) \<Rightarrow> bool" where
  "lawful_reads client content \<longleftrightarrow>
     (\<forall>c w r w'. sc_ListObjects client c w = (r, w') \<longrightarrow> content w' = content w)
   \<and> (\<forall>c n wr w e wr' w'. sc_DownloadObject client c n wr w = (e, wr', w') \<longrightarrow> content w' = content w
        \<and> (e = None \<longrightarrow> (\<exists>b. content w c n = Some b \<and> wr_body wr' = wr_body wr @ b)))"

lemma archive_entries_result:
  assumes "lawful_reads client content" and "archive_entries client c objs zw w = (r, zw', w')"
  shows "\<exists>es. zw' = zw @ es \<and> (\<forall>e\<in>set es. \<exists>n. safeZipEntryName n = Some (fst e))
     \<and> (r = Ok () \<longrightarrow> es = map (\<lambda>o'. (TrimLeft CHR ''/'' (ob_Name o'), the (content w c (ob_Name o')))) objs)"
  using assms(2)
proof (induction objs arbitrary: zw w)
  case (Cons o' objs)
  let ?wr = "\<lparr>wr_Header = None, wr_body = [], wr_Written = False\<rparr>"
  show ?case
  proof (cases "safeZipEntryName (ob_Name o')")
    case None
    with Cons.prems show ?thesis by auto
  next
    case (Some n)
    obtain e wr w1 where dl: "sc_DownloadObject client c (ob_Name o') ?wr w = (e, wr, w1)" by (metis prod_cases3)
    have law: "content w1 = content w" "e = None \<Longrightarrow> \<exists>b. content w c (ob_Name o') = Some b \<and> wr_body wr = b"
      using assms(1) dl unfolding lawful_reads_def by fastforce+
    show ?thesis
    proof (cases e)
      case None
      then have rec: "archive_entries client c objs (zw @ [(n, wr_body wr)]) w1 = (r, zw', w')"
        using Cons.prems Some dl by simp
      obtain es where es: "zw' = (zw @ [(n, wr_body wr)]) @ es" "\<forall>e\<in>set es. \<exists>n. safeZipEntryName n = Some (fst e)"
          "r = Ok () \<longrightarrow> es = map (\<lambda>o'. (TrimLeft CHR ''/'' (ob_Name o'), the (content w1 c (ob_Name o')))) objs"
        using Cons.IH [OF rec] by blast
      show ?thesis
        by (rule exI [of _ "(n, wr_body wr) # es"])
          (use es law None Some safeZipEntryName_Some(4) [OF Some] in auto)
    next
      case (Some e')
      with Cons.prems \<open>safeZipEntryName _ = _\<close> dl show ?thesis by auto
    qed
  qed
qed simp

text \<open>
  C24. An archive holds nothing that unpacks outside the directory it is unpacked in: every entry, also of
  an archive that was broken off, is a relative path without empty, \<open>.\<close> and \<open>..\<close> segments, and leads
  to itself below the directory. A complete archive has exactly the objects of the caller's container
  under the prefix, in the order of their names and with their contents.
\<close>

theorem ArchiveObjects_safe:
  assumes "lawful_reads client content" and "ArchiveObjects client own cname pre (d, w) = (r, z, d', w')"
  shows "same_tables d d'
   \<and> (\<forall>zw e. z = Some zw \<and> e \<in> set zw \<longrightarrow> fst e \<noteq> [] \<and> hd (fst e) \<noteq> CHR ''/''
        \<and> unpack [] (split_on CHR ''/'' (fst e)) = Some (rev (split_on CHR ''/'' (fst e))))
   \<and> (r = Ok () \<longrightarrow> (\<exists>c objs matches. (own, TrimSpace cname, c) \<in> container_set d
        \<and> fst (sc_ListObjects client (ct_OpenstackName c) w) = Ok objs
        \<and> matches = filter (\<lambda>o'. HasPrefix (ob_Name o') (normalizeObjectPrefix pre)) objs \<and> matches \<noteq> []
        \<and> z = Some (map (\<lambda>o'. (TrimLeft CHR ''/'' (ob_Name o'), the (content w (ct_OpenstackName c) (ob_Name o'))))
             (sort_key ob_Name matches))))"
proof -
  obtain x d1 where x: "resolveContainer own cname d = (x, d1)" by force
  show ?thesis
  proof (cases x)
    case (Inl e)
    with assms(2) x resolveContainer_Err(1) show ?thesis by (auto simp: ArchiveObjects_def)
  next
    case (Inr c)
    note res = resolveContainer_Ok [OF x [unfolded Inr]]
    obtain l w1 where l: "sc_ListObjects client (ct_OpenstackName c) w = (l, w1)" by force
    have cw: "content w1 = content w" using assms(1) l unfolding lawful_reads_def by blast
    show ?thesis
    proof (cases l)
      case (Inl e)
      with assms(2) x \<open>x = Ok c\<close> l res(1) show ?thesis by (auto simp: ArchiveObjects_def Let_def)
    next
      case (Inr objs)
      define matches where "matches = filter (\<lambda>o'. HasPrefix (ob_Name o') (normalizeObjectPrefix pre)) objs"
      have m: "filter (\<lambda>obj. normalizeObjectPrefix pre = [] \<or> HasPrefix (ob_Name obj) (normalizeObjectPrefix pre)) objs = matches"
        unfolding matches_def by (rule filter_cong) (auto simp: HasPrefix_iff)
      show ?thesis
      proof (cases "matches = []")
        case True
        with assms(2) x \<open>x = Ok c\<close> l Inr m res(1) show ?thesis by (auto simp: ArchiveObjects_def Let_def)
      next
        case False
        obtain zw where a: "archive_entries client (ct_OpenstackName c) (sort_key ob_Name matches) [] w1 = (r, zw, w')"
            and z: "z = Some zw" "d' = d1"
          using assms(2) x \<open>x = Ok c\<close> l Inr m False by (auto simp: ArchiveObjects_def Let_def split: prod.splits)
        note es = archive_entries_result [OF assms(1) a, unfolded cw]
        then have "\<forall>e\<in>set zw. \<exists>n. safeZipEntryName n = Some (fst e)" by auto
        then have "\<forall>e\<in>set zw. fst e \<noteq> [] \<and> hd (fst e) \<noteq> CHR ''/''
            \<and> unpack [] (split_on CHR ''/'' (fst e)) = Some (rev (split_on CHR ''/'' (fst e)))"
          using safeZipEntryName_Some by blast
        moreover have "r = Ok () \<longrightarrow> z = Some (map (\<lambda>o'. (TrimLeft CHR ''/'' (ob_Name o'), the (content w (ct_OpenstackName c) (ob_Name o'))))
             (sort_key ob_Name matches))"
          using es z(1) by auto
        ultimately show ?thesis using z res l Inr False unfolding matches_def by auto
      qed
    qed
  qed
qed

lemma tiny_storage_reads: "lawful_reads tiny_storage (\<lambda>w c n. Option.bind (map_of w c) (\<lambda>os. map_of os n))"
  by (auto simp: lawful_reads_def tiny_storage_def split: option.splits)

definition example_archive :: "(storage_err + unit) \<times> zip option \<times> db \<times> tiny_swift" where
  "example_archive = ArchiveObjects tiny_storage 1 ''pics'' ''/b''
     (example_container_db, [(77, [(''b/2'', ''y''), (''c'', ''z''), (''b/1'', ''x'')])])"

theorem ArchiveObjects_safe_witness:
  "fst example_archive = Ok () \<and> fst (snd example_archive) = Some [(''b/1'', ''x''), (''b/2'', ''y'')]
   \<and> unpack [] (split_on CHR ''/'' ''b/1'') = Some [''1'', ''b'']"
proof -
  have t: "TrimSpace ''pics'' = ''pics''" "normalizeObjectPrefix ''/b'' = ''b/''"
    "safeZipEntryName ''b/1'' = Some ''b/1''" "safeZipEntryName ''b/2'' = Some ''b/2''"
    "\<not> HasPrefix ''c'' ''b/''" "HasPrefix ''b/1'' ''b/''" "HasPrefix ''b/2'' ''b/''"
    "''b/1'' \<le> ''b/2''" "\<not> ''b/2'' \<le> ''b/1''"
    by code_simp+
  have ok: "fst example_archive = Ok ()" "fst (snd example_archive) = Some [(''b/1'', ''x''), (''b/2'', ''y'')]"
    by (simp_all add: example_archive_def ArchiveObjects_def resolveContainer_def Container_FindByName_def t query_def
        tick_def example_container_db_def one_user_db_def only_row_def findByNameQuery_def entToContainer_def
        tiny_storage_def Let_def insort_key_def)
  have eq: "ArchiveObjects tiny_storage 1 ''pics'' ''/b''
     (example_container_db, [(77, [(''b/2'', ''y''), (''c'', ''z''), (''b/1'', ''x'')])])
     = (fst example_archive, fst (snd example_archive), fst (snd (snd example_archive)), snd (snd (snd example_archive)))"
    by (simp only: example_archive_def prod.collapse)
  have "split_on CHR ''/'' ''b/1'' = [''b'', ''1'']" by simp
  with ArchiveObjects_safe [OF tiny_storage_reads eq] ok show ?thesis by simp
qed

end
