(* ===== verification/Storage_Http.thy ===== *)
theory Storage_Http
  imports Storage_Service
begin

text \<open>
  The HTTP side of object storage: content types of uploads (\<^verbatim>\<open>content_type.go\<close>), headers of
  downloads (\<^verbatim>\<open>client.go\<close>) and the handlers (\<^verbatim>\<open>handler.go\<close>) of \<^verbatim>\<open>internal/domain/storage\<close>.

  Of the package \<^verbatim>\<open>mime\<close> the code uses parsing and formatting of media types and the type table of the
  operating system, of \<^verbatim>\<open>net/http\<close> the sniffing of contents; these are the fields of \<open>mime_lib\<close>.
  Parsing gives the media type and the parameters in the order an iteration over the map visits them;
  formatting gives the empty string on failure.
\<close>

record mime_lib =
  ParseMediaType :: "bytes \<Rightarrow> (bytes \<times> (bytes \<times> bytes) list) option"
  FormatMediaType :: "bytes \<Rightarrow> (bytes \<rightharpoonup> bytes) \<Rightarrow> bytes"
  TypeByExtension :: "bytes \<Rightarrow> bytes"
  DetectContentType :: "bytes \<Rightarrow> bytes"

subsection \<open>Content types of uploads\<close>

definition defaultObjectContentType :: bytes where
  "defaultObjectContentType = ''application/octet-stream''"

text \<open>\<^verbatim>\<open>smartQuoteReplacer\<close> removes the four typographic quotes.\<close>

definition smart_quotes :: "bytes list" where
  "smart_quotes = map (map char_of) [[0xE2, 0x80, 0x98 :: nat], [0xE2, 0x80, 0x99], [0xE2, 0x80, 0x9C], [0xE2, 0x80, 0x9D]]"

fun smartQuoteReplacer :: "bytes \<Rightarrow> bytes" where
  "smartQuoteReplacer [] = []"
| "smartQuoteReplacer (a # s) = (if list_ex (HasPrefix (a # s)) smart_quotes then smartQuoteReplacer (drop 2 s)
     else a # smartQuoteReplacer s)"

definition normalize_param :: "bytes \<times> bytes \<Rightarrow> (bytes \<rightharpoonup> bytes) \<Rightarrow> (bytes \<rightharpoonup> bytes)" where
  "normalize_param = (\<lambda>(key, value) m. let key = ToLower (TrimSpace key); value = TrimSpace value in
     if key = [] \<or> value = [] then m
     else m(key \<mapsto> (if key = ''charset'' then
         (let value = TrimLeft CHR 34 (TrimRight CHR 34 value) in
          if EqualFold value ''utf8'' then ''utf-8'' else ToLower value)
        else value)))"

definition canonicalObjectContentType :: "mime_lib \<Rightarrow> bytes \<Rightarrow> bool \<Rightarrow> bytes option" where
  "canonicalObjectContentType lib raw0 allowGeneric = (let raw = TrimSpace (smartQuoteReplacer raw0) in
     if raw = [] then None
     else case ParseMediaType lib raw of None \<Rightarrow> None
     | Some (mediaType0, params) \<Rightarrow>
        if mediaType0 = [] then None
        else let mediaType = ToLower mediaType0 in
          if mediaType = defaultObjectContentType \<and> \<not> allowGeneric then None
          else let m = fold normalize_param params Map.empty;
                   m = (if mediaType = ''text/html'' \<and> m ''charset'' = None then m(''charset'' \<mapsto> ''utf-8'') else m);
                   contentType = FormatMediaType lib mediaType m in
            if contentType \<noteq> [] then Some contentType else None)"

text \<open>\<^verbatim>\<open>filepath.Ext\<close> and \<^verbatim>\<open>path.Ext\<close>.\<close>

definition Ext :: "bytes \<Rightarrow> bytes" where
  "Ext name = (let stop = (\<lambda>c. c \<noteq> CHR ''/'' \<and> c \<noteq> CHR ''.'') in
     case dropWhile stop (rev name) of
       [] \<Rightarrow> []
     | c # _ \<Rightarrow> if c = CHR ''.'' then CHR ''.'' # rev (takeWhile stop (rev name)) else [])"

definition contentTypeFromName :: "mime_lib \<Rightarrow> bytes \<Rightarrow> bytes option" where
  "contentTypeFromName lib name = (let ext = ToLower (Ext name) in
     if ext = [] then None
     else if ext = ''.html'' \<or> ext = ''.htm'' then Some ''text/html; charset=utf-8''
     else canonicalObjectContentType lib (TypeByExtension lib ext) False)"

text \<open>The first read takes at most 512 bytes, which are put back in front. A part is never nil.\<close>

definition sniffObjectContentType :: "mime_lib \<Rightarrow> reader \<Rightarrow> reader \<times> bytes option" where
  "sniffObjectContentType lib r = (case rd_chunks r of
     [] \<Rightarrow> (r, None)
   | c # cs \<Rightarrow> let buf = take 512 c in
       if buf = [] then (r\<lparr>rd_chunks := cs\<rparr>, None)
       else (r\<lparr>rd_chunks := buf # drop 512 c # cs\<rparr>, Some (DetectContentType lib buf)))"

definition resolveObjectContentStream :: "mime_lib \<Rightarrow> reader \<Rightarrow> bytes \<Rightarrow> bytes \<Rightarrow> bytes \<Rightarrow> reader \<times> bytes" where
  "resolveObjectContentStream lib r rawContentType filename objectName =
     (case canonicalObjectContentType lib rawContentType False of Some ct \<Rightarrow> (r, ct)
      | None \<Rightarrow> (case contentTypeFromName lib objectName of Some ct \<Rightarrow> (r, ct)
      | None \<Rightarrow> (case contentTypeFromName lib filename of Some ct \<Rightarrow> (r, ct)
      | None \<Rightarrow> (case sniffObjectContentType lib r of (r, sniffed) \<Rightarrow>
          (case Option.bind sniffed (\<lambda>t. case canonicalObjectContentType lib t False of Some ct \<Rightarrow> Some ct
                 | None \<Rightarrow> canonicalObjectContentType lib t True) of
             Some ct \<Rightarrow> (r, ct)
           | None \<Rightarrow> (case canonicalObjectContentType lib rawContentType True of Some ct \<Rightarrow> (r, ct)
               | None \<Rightarrow> (r, defaultObjectContentType)))))))"

subsection \<open>Headers of downloads\<close>

definition active_types :: "bytes list" where
  "active_types = [''text/html'', ''application/xhtml+xml'', ''image/svg+xml'']"

definition isActiveContentType :: "mime_lib \<Rightarrow> bytes \<Rightarrow> bool" where
  "isActiveContentType lib contentType0 = (let contentType = TrimSpace (smartQuoteReplacer contentType0);
     mediaType = (case ParseMediaType lib contentType of Some (m, _) \<Rightarrow> m
       | None \<Rightarrow> fst (Cut CHR '';'' contentType)) in
     ToLower (TrimSpace mediaType) \<in> set active_types)"

definition shouldForceAttachment :: "mime_lib \<Rightarrow> bytes \<Rightarrow> bytes \<Rightarrow> bool" where
  "shouldForceAttachment lib contentType objectName \<longleftrightarrow> isActiveContentType lib contentType
     \<or> ToLower (Ext objectName) \<in> {''.html'', ''.htm'', ''.svg''}"

text \<open>\<^verbatim>\<open>path.Base\<close>.\<close>

definition path_Base :: "bytes \<Rightarrow> bytes" where
  "path_Base p = (if p = [] then ''.'' else
     let p = TrimRight CHR ''/'' p; b = rev (takeWhile (\<lambda>c. c \<noteq> CHR ''/'') (rev p)) in
     if b = [] then ''/'' else b)"

definition attachmentContentDisposition :: "mime_lib \<Rightarrow> bytes \<Rightarrow> bytes" where
  "attachmentContentDisposition lib objectName = (let filename = path_Base (TrimSpace objectName);
     filename = (if filename = [] \<or> filename = ''.'' \<or> filename = ''/'' then ''download'' else filename);
     value = FormatMediaType lib ''attachment'' [''filename'' \<mapsto> filename] in
     if value \<noteq> [] then value else ''attachment'')"

text \<open>Headers are read with \<^verbatim>\<open>Get\<close>: the first value, or the empty string.\<close>

definition copied_headers :: "bytes list" where
  "copied_headers = [''Content-Type'', ''Content-Length'', ''Content-Disposition'', ''Content-Encoding'', ''ETag'', ''Last-Modified'']"

definition copyDownloadHeaders :: "mime_lib \<Rightarrow> writer \<Rightarrow> (bytes \<Rightarrow> bytes) \<Rightarrow> bytes \<Rightarrow> writer" where
  "copyDownloadHeaders lib wr headers objectName = (case wr_Header wr of None \<Rightarrow> wr
   | Some h \<Rightarrow>
      (let h = fold (\<lambda>name h. if headers name \<noteq> [] then h(name := headers name) else h) copied_headers h;
           h = (if h ''Content-Type'' = [] then h(''Content-Type'' := defaultObjectContentType) else h);
           h = h(''X-Content-Type-Options'' := ''nosniff'');
           h = (if shouldForceAttachment lib (headers ''Content-Type'') objectName
                then h(''Content-Disposition'' := attachmentContentDisposition lib objectName) else h) in
       wr\<lparr>wr_Header := Some h\<rparr>))"

text \<open>
  \<open>swift_Download\<close> is the answer of Swift: an error, or the headers, the bytes that arrive, and the error
  the stream ends with, if any.
\<close>

definition client_DownloadObject :: "mime_lib \<Rightarrow> (nat \<Rightarrow> bytes \<Rightarrow> 'w \<Rightarrow> (os_err + (bytes \<Rightarrow> bytes) \<times> bytes \<times> bytes option) \<times> 'w)
    \<Rightarrow> nat \<Rightarrow> bytes \<Rightarrow> writer \<Rightarrow> 'w \<Rightarrow> os_err option \<times> writer \<times> 'w" where
  "client_DownloadObject lib swift_Download containerName objectName wr w =
     (case swift_Download containerName objectName w of
        (Err e, w) \<Rightarrow> (Some e, wr, w)
      | (Ok (headers, body, failed), w) \<Rightarrow>
         (let wr = copyDownloadHeaders lib wr headers objectName;
              wr = wr\<lparr>wr_body := wr_body wr @ body, wr_Written := wr_Written wr \<or> body \<noteq> []\<rparr> in
          (map_option (\<lambda>m. OtherErr (''stream error: '' @ m)) failed, wr, w)))"

subsection \<open>Handlers\<close>

definition ParseBool :: "bytes \<Rightarrow> bool" where
  "ParseBool s \<longleftrightarrow> s \<in> {''1'', ''t'', ''T'', ''TRUE'', ''true'', ''True''}"

definition h_ListContainers :: "nat option \<Rightarrow> db \<Rightarrow> (storage_err, ContainerResponse list) response \<times> db" where
  "h_ListContainers owner d = (case owner of None \<Rightarrow> (unauthorized, d)
   | Some own \<Rightarrow> (case ListContainers own d of
       (Err e, d) \<Rightarrow> ((500, ErrText e), d) | (Ok cs, d) \<Rightarrow> ((200, Json cs), d)))"

definition h_CreateContainer :: "'w storageClient \<Rightarrow> nat \<Rightarrow> nat option \<Rightarrow> bytes option \<Rightarrow> db \<times> 'w
    \<Rightarrow> (storage_err, ContainerResponse) response \<times> db \<times> 'w" where
  "h_CreateContainer client uuid owner bound st = (case owner of None \<Rightarrow> (unauthorized, st)
   | Some own \<Rightarrow> (case bound of None \<Rightarrow> ((400, ErrMsg ''invalid request body''), st)
     | Some name \<Rightarrow> (case CreateContainer client uuid own name st of
         (Err e, st) \<Rightarrow> ((if e = ErrContainerAlreadyExists then 409 else 500, ErrText e), st)
       | (Ok res, st) \<Rightarrow> ((201, Json res), st))))"

definition h_DeleteContainer :: "'w storageClient \<Rightarrow> nat option \<Rightarrow> bytes \<Rightarrow> bytes \<Rightarrow> db \<times> 'w
    \<Rightarrow> (storage_err, unit) response \<times> db \<times> 'w" where
  "h_DeleteContainer client owner name force st = (case owner of None \<Rightarrow> (unauthorized, st)
   | Some own \<Rightarrow> (case DeleteContainer client own name (ParseBool force) st of
       (Err e, st) \<Rightarrow> ((if e = ErrContainerNotFound then 404 else if e = ErrContainerNotEmpty then 409 else 500,
          ErrText e), st)
     | (Ok _, st) \<Rightarrow> ((204, NoBody), st)))"

definition h_ListObjects :: "'w storageClient \<Rightarrow> nat option \<Rightarrow> bytes \<Rightarrow> db \<times> 'w
    \<Rightarrow> (storage_err, ObjectInfo list) response \<times> db \<times> 'w" where
  "h_ListObjects client owner name st = (case owner of None \<Rightarrow> (unauthorized, st)
   | Some own \<Rightarrow> (case ListObjects client own name st of
       (Err e, st) \<Rightarrow> ((if e = ErrContainerNotFound then 404 else 500, ErrText e), st)
     | (Ok objs, st) \<Rightarrow> ((200, Json objs), st)))"

definition h_DeleteObject :: "'w storageClient \<Rightarrow> nat option \<Rightarrow> bytes \<Rightarrow> bytes \<Rightarrow> db \<times> 'w
    \<Rightarrow> (storage_err, unit) response \<times> db \<times> 'w" where
  "h_DeleteObject client owner name key st = (case owner of None \<Rightarrow> (unauthorized, st)
   | Some own \<Rightarrow> (case svc_DeleteObject client own name (TrimPrefix key ''/'') st of
       (Err e, st) \<Rightarrow> ((if e = ErrContainerNotFound \<or> e = ErrObjectNotFound then 404 else 500, ErrText e), st)
     | (Ok _, st) \<Rightarrow> ((204, NoBody), st)))"

text \<open>A multipart body: its parts, and whether reading on after them fails.\<close>

record part =
  pt_FormName :: bytes
  pt_ContentType :: bytes
  pt_FileName :: bytes
  pt_data :: reader

fun upload_parts :: "mime_lib \<Rightarrow> 'w storageClient \<Rightarrow> nat \<Rightarrow> bytes \<Rightarrow> bytes \<Rightarrow> bool \<Rightarrow> part list \<Rightarrow> db \<times> 'w
    \<Rightarrow> (storage_err, bytes) response \<times> db \<times> 'w" where
  "upload_parts lib client own name objectName broken [] st =
     ((400, ErrMsg (if broken then ''invalid multipart body'' else ''missing file'')), st)"
| "upload_parts lib client own name objectName broken (p # ps) st =
     (if pt_FormName p \<noteq> ''file'' then upload_parts lib client own name objectName broken ps st
      else case resolveObjectContentStream lib (pt_data p) (pt_ContentType p) (pt_FileName p) objectName of
        (fileStream, contentType) \<Rightarrow>
          (case UploadObject client own name objectName fileStream contentType st of
             (Err e, st) \<Rightarrow> ((if e = ErrContainerNotFound then 404 else 500, ErrText e), st)
           | (Ok _, st) \<Rightarrow> ((201, Json objectName), st)))"

definition h_UploadObject :: "mime_lib \<Rightarrow> 'w storageClient \<Rightarrow> nat option \<Rightarrow> bytes \<Rightarrow> bytes \<Rightarrow> (part list \<times> bool) option
    \<Rightarrow> db \<times> 'w \<Rightarrow> (storage_err, bytes) response \<times> db \<times> 'w" where
  "h_UploadObject lib client owner name key multipart st = (case owner of None \<Rightarrow> (unauthorized, st)
   | Some own \<Rightarrow> (let objectName = TrimPrefix key ''/'' in
       if objectName = [] then ((400, ErrMsg ''missing object key''), st)
       else case multipart of None \<Rightarrow> ((400, ErrMsg ''missing file''), st)
       | Some (parts, broken) \<Rightarrow> upload_parts lib client own name objectName broken parts st))"

text \<open>
  A download or an archive answers with a stream, possibly broken off, or with JSON. An archive that was
  begun has been written to, so that its errors come too late for JSON.
\<close>

datatype 'a streamed = Streamed 'a | Answer "(storage_err, unit) response"

definition fresh_response :: writer where
  "fresh_response = \<lparr>wr_Header = Some (\<lambda>_. []), wr_body = [], wr_Written = False\<rparr>"

definition h_DownloadObject :: "'w storageClient \<Rightarrow> nat option \<Rightarrow> bytes \<Rightarrow> bytes \<Rightarrow> db \<times> 'w
    \<Rightarrow> writer streamed \<times> db \<times> 'w" where
  "h_DownloadObject client owner name key st = (case owner of None \<Rightarrow> (Answer unauthorized, st)
   | Some own \<Rightarrow> (case DownloadObject client own name (TrimPrefix key ''/'') fresh_response st of
       (Err e, wr, st) \<Rightarrow> if wr_Written wr then (Streamed wr, st)
         else (Answer (if e = ErrContainerNotFound \<or> e = ErrObjectNotFound then 404 else 500, ErrText e), st)
     | (Ok _, wr, st) \<Rightarrow> (Streamed wr, st)))"

definition h_ArchiveObjects :: "'w storageClient \<Rightarrow> nat option \<Rightarrow> bytes \<Rightarrow> bytes \<Rightarrow> db \<times> 'w
    \<Rightarrow> (bytes \<times> zip) streamed \<times> db \<times> 'w" where
  "h_ArchiveObjects client owner name query_prefix st = (case owner of None \<Rightarrow> (Answer unauthorized, st)
   | Some own \<Rightarrow> (let pre = normalizeObjectPrefix query_prefix in
       case ArchiveObjects client own name pre st of
         (_, Some zw, st) \<Rightarrow> (Streamed (archiveFilename name pre, zw), st)
       | (Err e, None, st) \<Rightarrow>
           (Answer (if e = ErrContainerNotFound \<or> e = ErrObjectPrefixNotFound then 404 else 500, ErrText e), st)
       | (Ok _, None, st) \<Rightarrow> (Answer (200, NoBody), st)))"

subsection \<open>ASCII strings\<close>

definition ascii :: "bytes \<Rightarrow> bool" where
  "ascii s \<longleftrightarrow> (\<forall>c\<in>set s. byte c < 128)"

definition ascii_space :: "char \<Rightarrow> bool" where
  "ascii_space c \<longleftrightarrow> byte c \<in> {9, 10, 11, 12, 13, 32}"

lemma ascii_simps [simp]: "ascii []" "ascii (c # s) \<longleftrightarrow> byte c < 128 \<and> ascii s"
  "ascii (s @ t) \<longleftrightarrow> ascii s \<and> ascii t" "ascii (rev s) = ascii s"
  by (auto simp: ascii_def)

lemma ascii_takeWhile: "ascii s \<Longrightarrow> ascii (takeWhile P s)"
  by (auto simp: ascii_def dest: set_takeWhileD)

lemma ascii_dropWhile: "ascii s \<Longrightarrow> ascii (dropWhile P s)"
  by (auto simp: ascii_def dest: set_dropWhileD)

lemma space_len_ascii:
  assumes "byte c < 128"
  shows "space_len space_seqs (c # s) = (if ascii_space c then 1 else 0)"
    and "space_len (map rev space_seqs) (c # s) = (if ascii_space c then 1 else 0)"
proof -
  have n: "byte c \<noteq> 0xC2" "byte c \<noteq> 0xE1" "byte c \<noteq> 0xE2" "byte c \<noteq> 0xE3" "byte c \<noteq> 0x85" "byte c \<noteq> 0xA0"
    "byte c \<noteq> 0x80" "byte c \<noteq> 0x81" "byte c \<noteq> 0x82" "byte c \<noteq> 0x83" "byte c \<noteq> 0x84" "byte c \<noteq> 0x86" "byte c \<noteq> 0x87"
    "byte c \<noteq> 0x88" "byte c \<noteq> 0x89" "byte c \<noteq> 0x8A" "byte c \<noteq> 0xA8" "byte c \<noteq> 0xA9" "byte c \<noteq> 0xAF" "byte c \<noteq> 0x9F"
    using assms by auto
  show "space_len space_seqs (c # s) = (if ascii_space c then 1 else 0)"
    by (simp add: space_len_def space_seqs_def n ascii_space_def)
  show "space_len (map rev space_seqs) (c # s) = (if ascii_space c then 1 else 0)"
    by (simp add: space_len_def space_seqs_def n ascii_space_def)
qed

lemma trim_front_ascii:
  assumes "ascii s"
  shows "trim_front space_seqs s = dropWhile ascii_space s"
    and "trim_front (map rev space_seqs) s = dropWhile ascii_space s"
  using assms by (induction s) (auto simp: trim_front.simps space_len_ascii)

lemma TrimSpace_ascii: "ascii s \<Longrightarrow> TrimSpace s = rev (dropWhile ascii_space (rev (dropWhile ascii_space s)))"
  by (simp add: TrimSpace_def trim_front_ascii ascii_dropWhile)

lemma ascii_TrimSpace: "ascii s \<Longrightarrow> ascii (TrimSpace s)"
  using TrimSpace_set by (auto simp: ascii_def)

lemma lower_char_ascii: "byte c < 128 \<Longrightarrow> byte (lower_char c) < 128 \<and> ascii_space (lower_char c) = ascii_space c"
  by (auto simp: lower_char_def is_upper_def in_range_def ascii_space_def byte_def)

lemma ToLower_ascii: "ascii s \<Longrightarrow> ToLower s = map lower_char s"
proof (induction s)
  case (Cons c s)
  have "char_of (0xE2 :: nat) \<noteq> c" "char_of (0xC4 :: nat) \<noteq> c" using Cons.prems by auto
  with Cons show ?case by (auto simp: HasPrefix_def)
qed simp

lemma ascii_lower: "ascii s \<Longrightarrow> ascii (map lower_char s)"
  by (auto simp: ascii_def lower_char_ascii)

lemma dropWhile_lower: "ascii s \<Longrightarrow> dropWhile ascii_space (map lower_char s) = map lower_char (dropWhile ascii_space s)"
  by (induction s) (auto simp: lower_char_ascii)

lemma lower_trim:
  assumes "ascii s"
  shows "TrimSpace (ToLower s) = ToLower (TrimSpace s)" and "ToLower (ToLower s) = ToLower s" and "ascii (ToLower s)"
proof -
  show "ascii (ToLower s)" "ToLower (ToLower s) = ToLower s"
    using assms by (simp_all add: ToLower_ascii ascii_lower comp_def)
  show "TrimSpace (ToLower s) = ToLower (TrimSpace s)"
    using assms by (simp add: ToLower_ascii ascii_TrimSpace TrimSpace_ascii ascii_lower dropWhile_lower ascii_dropWhile
        rev_map)
qed

text \<open>The media type of a header value: what stands before the parameters, without spaces and in lower case.\<close>

definition essence :: "bytes \<Rightarrow> bytes" where
  "essence ct = ToLower (TrimSpace (takeWhile (\<lambda>c. c \<noteq> CHR '';'') ct))"

lemma fst_Cut: "fst (Cut c s) = takeWhile (\<lambda>x. x \<noteq> c) s"
  by (simp add: Cut_def Let_def takeWhile_eq_all_conv [THEN iffD2] dropWhile_eq_Nil_conv)

lemma TrimSpace_spaces:
  assumes "ascii (a @ t)" "\<forall>c\<in>set a. ascii_space c"
  shows "TrimSpace (a @ t) = TrimSpace t"
  using assms by (simp add: TrimSpace_ascii dropWhile_append)

lemma TrimSpace_split:
  assumes "ascii s"
  obtains a b where "s = a @ TrimSpace s @ b" "\<forall>c\<in>set a. ascii_space c" "\<forall>c\<in>set b. ascii_space c"
proof -
  let ?d = "dropWhile ascii_space s"
  have "rev ?d = takeWhile ascii_space (rev ?d) @ dropWhile ascii_space (rev ?d)" by simp
  then have "?d = rev (dropWhile ascii_space (rev ?d)) @ rev (takeWhile ascii_space (rev ?d))"
    by (metis rev_append rev_rev_ident)
  then have "s = takeWhile ascii_space s @ TrimSpace s @ rev (takeWhile ascii_space (rev ?d))"
    using takeWhile_dropWhile_id [of ascii_space s] by (simp add: TrimSpace_ascii [OF assms])
  then show thesis by (rule that) (auto dest: set_takeWhileD)
qed

lemma essence_TrimSpace:
  assumes "ascii s"
  shows "essence (TrimSpace s) = essence s"
proof -
  let ?tw = "takeWhile (\<lambda>c. c \<noteq> CHR '';'')"
  obtain a b where ab: "s = a @ TrimSpace s @ b" "\<forall>c\<in>set a. ascii_space c" "\<forall>c\<in>set b. ascii_space c"
    by (rule TrimSpace_split [OF assms])
  have semi: "\<not> ascii_space CHR '';''" by (simp add: ascii_space_def byte_def)
  have tw: "?tw s = a @ ?tw (TrimSpace s @ b)"
    using ab(2) semi by (subst ab(1)) (auto simp: takeWhile_append)
  have asc: "ascii (a @ TrimSpace s @ b)" using assms ab(1) by simp
  show ?thesis
  proof (cases "CHR '';'' \<in> set (TrimSpace s)")
    case True
    then have "?tw (TrimSpace s @ b) = ?tw (TrimSpace s)" by (auto intro: takeWhile_append1)
    moreover have "TrimSpace (a @ ?tw (TrimSpace s)) = TrimSpace (?tw (TrimSpace s))"
      using asc ab(2) by (intro TrimSpace_spaces) (auto simp: ascii_takeWhile)
    ultimately show ?thesis using tw by (simp add: essence_def)
  next
    case False
    then have m: "?tw (TrimSpace s) = TrimSpace s" by (auto simp: takeWhile_eq_all_conv)
    have "CHR '';'' \<notin> set (a @ TrimSpace s @ b)" using False ab(2,3) semi by auto
    then have "CHR '';'' \<notin> set s" unfolding ab(1) [symmetric] .
    then have "?tw s = s" by (auto simp: takeWhile_eq_all_conv)
    with m show ?thesis unfolding essence_def by (simp only: TrimSpace_idem)
  qed
qed

lemma smartQuoteReplacer_ascii: "ascii s \<Longrightarrow> smartQuoteReplacer s = s"
proof (induction s)
  case (Cons c s)
  have "char_of (0xE2 :: nat) \<noteq> c" using Cons.prems by auto
  with Cons show ?case by (auto simp: HasPrefix_def smart_quotes_def)
qed simp

text \<open>
  What the code relies on of the package \<^verbatim>\<open>mime\<close>: the parsed media type is the part before the
  parameters, trimmed and in lower case, and a formatted disposition starts with its type.
\<close>

definition lawful_mime :: "mime_lib \<Rightarrow> bool" where
  "lawful_mime lib \<longleftrightarrow>
     (\<forall>v m ps. ParseMediaType lib v = Some (m, ps) \<longrightarrow> m = TrimSpace (ToLower (fst (Cut CHR '';'' v))))
   \<and> (\<forall>m. FormatMediaType lib ''attachment'' m \<noteq> [] \<longrightarrow> HasPrefix (FormatMediaType lib ''attachment'' m) ''attachment'')"

lemma isActiveContentType_essence:
  assumes "lawful_mime lib" "ascii ct"
  shows "isActiveContentType lib ct \<longleftrightarrow> essence ct \<in> set active_types"
proof -
  let ?b = "takeWhile (\<lambda>c. c \<noteq> CHR '';'') (TrimSpace ct)"
  have a: "ascii ?b" "ascii (TrimSpace ?b)" using assms(2) by (simp_all add: ascii_takeWhile ascii_TrimSpace)
  have "ToLower (TrimSpace (TrimSpace (ToLower ?b))) = essence (TrimSpace ct)"
    using a by (simp add: essence_def lower_trim)
  moreover have "ToLower (TrimSpace ?b) = essence (TrimSpace ct)" by (simp add: essence_def)
  moreover have "m = TrimSpace (ToLower ?b)" if "ParseMediaType lib (TrimSpace ct) = Some (m, ps)" for m ps
    using assms(1) that unfolding lawful_mime_def fst_Cut by blast
  ultimately have "ToLower (TrimSpace (case ParseMediaType lib (TrimSpace ct) of Some (m, _) \<Rightarrow> m
       | None \<Rightarrow> fst (Cut CHR '';'' (TrimSpace ct)))) = essence ct"
    using essence_TrimSpace [OF assms(2)] by (cases "ParseMediaType lib (TrimSpace ct)") (auto simp: fst_Cut)
  then show ?thesis unfolding isActiveContentType_def Let_def smartQuoteReplacer_ascii [OF assms(2)] by simp
qed

subsection \<open>Downloads do not run in the browser\<close>

lemma fold_headers: "fold (\<lambda>name h. if hd' name \<noteq> [] then h(name := hd' name) else h) ns h n
    = (if n \<in> set ns \<and> hd' n \<noteq> [] then hd' n else h n)"
  by (induction ns arbitrary: h) auto

lemma copyDownloadHeaders_headers:
  assumes "wr_Header wr = Some (\<lambda>_. [])"
  obtains h where "copyDownloadHeaders lib wr headers n = wr\<lparr>wr_Header := Some h\<rparr>"
    "h ''X-Content-Type-Options'' = ''nosniff''"
    "h ''Content-Type'' = (if headers ''Content-Type'' \<noteq> [] then headers ''Content-Type'' else defaultObjectContentType)"
    "shouldForceAttachment lib (headers ''Content-Type'') n \<Longrightarrow> h ''Content-Disposition'' = attachmentContentDisposition lib n"
proof -
  define h where "h = the (wr_Header (copyDownloadHeaders lib wr headers n))"
  have ct: "''Content-Type'' \<in> set copied_headers" by (simp add: copied_headers_def)
  show thesis
    by (rule that [of h])
      (use assms in \<open>simp_all add: h_def copyDownloadHeaders_def Let_def fold_headers ct\<close>)
qed

lemma DownloadObject_streams:
  assumes "\<And>c n. sc_DownloadObject client c n = client_DownloadObject lib swift_Download c n"
    and "DownloadObject client own name n fresh_response st = (r, wr, st')" and "r = Ok () \<or> wr_Written wr"
  shows "\<exists>headers body. wr = (copyDownloadHeaders lib fresh_response headers n)\<lparr>wr_body := body, wr_Written := body \<noteq> []\<rparr>"
proof -
  obtain d w where st: "st = (d, w)" by force
  obtain x d1 where x: "resolveContainer own name d = (x, d1)" by force
  have fresh: "\<not> wr_Written fresh_response" "wr_body (copyDownloadHeaders lib fresh_response h n) = []"
    "\<not> wr_Written (copyDownloadHeaders lib fresh_response h n)" for h
    by (simp_all add: fresh_response_def copyDownloadHeaders_def Let_def)
  show ?thesis
  proof (cases x)
    case (Inl e)
    with assms(2,3) st x fresh show ?thesis by (auto simp: DownloadObject_def)
  next
    case (Inr c)
    obtain y w1 where y: "swift_Download (ct_OpenstackName c) n w = (y, w1)" by force
    show ?thesis
    proof (cases y)
      case (Inl e)
      with assms st x Inr y fresh show ?thesis by (auto simp: DownloadObject_def client_DownloadObject_def)
    next
      case (Inr z)
      obtain headers body failed where z: "z = (headers, body, failed)" by (metis prod_cases3)
      have "wr = (copyDownloadHeaders lib fresh_response headers n)\<lparr>wr_body := body, wr_Written := body \<noteq> []\<rparr>"
        using assms(1,2) st x \<open>x = Ok c\<close> y Inr z fresh(1) fresh(2,3) [of headers]
        by (cases failed) (auto simp: DownloadObject_def client_DownloadObject_def Let_def)
      then show ?thesis by blast
    qed
  qed
qed


definition tiny_mime :: mime_lib where
  "tiny_mime = \<lparr>ParseMediaType = (\<lambda>_. None), FormatMediaType = (\<lambda>_ _. []), TypeByExtension = (\<lambda>_. []),
     DetectContentType = (\<lambda>_. ''text/plain'')\<rparr>"

definition page_swift :: "nat \<Rightarrow> bytes \<Rightarrow> tiny_swift \<Rightarrow> (os_err + (bytes \<Rightarrow> bytes) \<times> bytes \<times> bytes option) \<times> tiny_swift" where
  "page_swift c n w = (Ok (\<lambda>h. if h = ''Content-Type'' then ''text/html'' else [], ''page'', None), w)"

definition page_client :: "tiny_swift storageClient" where
  "page_client = tiny_storage\<lparr>sc_DownloadObject := client_DownloadObject tiny_mime page_swift\<rparr>"

definition example_download :: "writer streamed \<times> db \<times> tiny_swift" where
  "example_download = h_DownloadObject page_client (Some 1) ''pics'' ''/a'' (example_container_db, [])"


text \<open>
  Sniffing the type of an upload loses no byte: the stream that is sent to Swift has the content of
  the part, and ends as it does; and the type that is recorded is never empty.
\<close>

lemma upload_content_kept:
  assumes "resolveObjectContentStream lib r raw filename objectName = (r', ct)"
  shows "concat (rd_chunks r') = concat (rd_chunks r) \<and> rd_err r' = rd_err r \<and> ct \<noteq> []"
proof -
  have canon: "canonicalObjectContentType lib t g = Some c \<Longrightarrow> c \<noteq> []" for t g c
    by (auto simp: canonicalObjectContentType_def Let_def split: if_splits option.splits)
  then have name: "contentTypeFromName lib n = Some c \<Longrightarrow> c \<noteq> []" for n c
    by (auto simp: contentTypeFromName_def Let_def split: if_splits)
  obtain r1 sn where sn: "sniffObjectContentType lib r = (r1, sn)" by force
  then have "concat (rd_chunks r1) = concat (rd_chunks r) \<and> rd_err r1 = rd_err r"
    by (cases "rd_chunks r") (auto simp: sniffObjectContentType_def Let_def split: if_splits)
  then show ?thesis
    using assms sn canon name
    by (auto simp: resolveObjectContentStream_def defaultObjectContentType_def Option.bind_eq_Some_conv split: option.splits)
qed

end
