(* ===== verification/Sql_Guard.thy ===== *)
theory Sql_Guard
  imports Json_Values
begin

text \<open>
  The check of the SQL that users send to the databases of their functions, \<^verbatim>\<open>validateSQL\<close> of
  \<^verbatim>\<open>internal/domain/functions/sql_database.go\<close>: one pass over the statement, which skips comments and
  quoted text and collects the words outside them. The loop over the index is a recursion on the rest
  of the statement; \<open>terminated\<close> and \<open>tokens\<close> are its other variables.
\<close>

datatype sql_err = ErrInvalidDatabase

subsection \<open>The scanner\<close>

definition maxSQLBytes :: nat where "maxSQLBytes = 4096"
definition maxSQLParams :: nat where "maxSQLParams = 32"

definition blank :: "char \<Rightarrow> bool" where
  "blank c \<longleftrightarrow> c = CHR '' '' \<or> c = CHR 10 \<or> c = CHR 13 \<or> c = CHR 9"

definition word_start :: "char \<Rightarrow> bool" where
  "word_start c \<longleftrightarrow> is_upper c \<or> is_lower c \<or> c = CHR ''_''"

definition word_char :: "char \<Rightarrow> bool" where
  "word_char c \<longleftrightarrow> is_upper c \<or> is_lower c \<or> is_digit c \<or> c = CHR ''_''"

definition quote_start :: "char \<Rightarrow> bool" where
  "quote_start c \<longleftrightarrow> c = CHR 39 \<or> c = CHR 34 \<or> c = CHR 96 \<or> c = CHR ''[''"

definition close_quote :: "char \<Rightarrow> char" where
  "close_quote c = (if c = CHR ''['' then CHR '']'' else c)"

text \<open>What follows the end of a comment, or of a quotation, where a doubled quote does not end it.\<close>

fun after_comment :: "bytes \<Rightarrow> bytes option" where
  "after_comment [] = None"
| "after_comment (c # s) = (if HasPrefix (c # s) ''*/'' then Some (drop 1 s) else after_comment s)"

fun after_quote :: "char \<Rightarrow> bytes \<Rightarrow> bytes option" where
  "after_quote close [] = None"
| "after_quote close (c # s) = (if c = close then
      (case s of d # r \<Rightarrow> if d = close \<and> close \<noteq> CHR '']'' then after_quote close r else Some s | [] \<Rightarrow> Some [])
     else after_quote close s)"

lemma after_comment_length: "after_comment s = Some r \<Longrightarrow> length r < length s"
  by (induction s) (auto split: if_splits)

lemma after_quote_length: "after_quote q s = Some r \<Longrightarrow> length r < length s"
  by (induction q s rule: after_quote.induct) (auto split: if_splits list.splits)

definition forbidden_words :: "bytes list" where
  "forbidden_words = [''ATTACH'', ''DETACH'', ''PRAGMA'', ''VACUUM'', ''LOAD_EXTENSION'', ''REINDEX'', ''ANALYZE'']"

function scan :: "bytes \<Rightarrow> bool \<Rightarrow> bytes list \<Rightarrow> bytes list option" where
  "scan [] terminated tokens = Some tokens"
| "scan (c # s) terminated tokens =
     (if blank c then scan s terminated tokens
      else if c = CHR ''-'' \<and> HasPrefix s ''-'' then scan (dropWhile (\<lambda>x. x \<noteq> CHR 10) (drop 1 s)) terminated tokens
      else if c = CHR ''/'' \<and> HasPrefix s ''*'' then
        (case after_comment (drop 1 s) of None \<Rightarrow> None | Some r \<Rightarrow> scan r terminated tokens)
      else if quote_start c then
        (case after_quote (close_quote c) s of None \<Rightarrow> None
         | Some r \<Rightarrow> if terminated then None else scan r terminated tokens)
      else if c = CHR '';'' then
        (if terminated \<or> tokens = [] then None else scan s True tokens)
      else if word_start c then
        (if terminated then None
         else let token = map upper_char (c # takeWhile word_char s) in
           if token \<in> set forbidden_words then None
           else scan (dropWhile word_char s) terminated (tokens @ [token]))
      else if terminated then None
      else scan s terminated tokens)"
  by pat_completeness auto
termination
proof (relation "measure (\<lambda>(s, _, _). length s)")
  fix c :: char and s :: bytes
  show "((dropWhile (\<lambda>x. x \<noteq> CHR 10) (drop 1 s), t, k), c # s, t, k) \<in> measure (\<lambda>(s, _, _). length s)" for t :: bool and k :: "bytes list"
    using length_dropWhile_le [of "\<lambda>x. x \<noteq> CHR 10" "drop 1 s"] by simp
  show "((dropWhile word_char s, t, k'), c # s, t, k) \<in> measure (\<lambda>(s, _, _). length s)" for t :: bool and k k' :: "bytes list"
    using length_dropWhile_le [of word_char s] by simp
qed (auto dest!: after_comment_length after_quote_length)

declare scan.simps [simp del]

text \<open>Parameters are JSON values: null, booleans, numbers and strings of at most 16 KiB.\<close>

fun param_ok :: "any \<Rightarrow> bool" where
  "param_ok (AStr s) \<longleftrightarrow> length s \<le> 16 * 1024"
| "param_ok (AArr _) \<longleftrightarrow> False"
| "param_ok (AMap _) \<longleftrightarrow> False"
| "param_ok _ \<longleftrightarrow> True"

text \<open>What the words allow: \<open>Some True\<close> is a query, \<open>Some False\<close> a statement without rows.\<close>

definition classify :: "bytes list \<Rightarrow> bool option" where
  "classify tokens = (case tokens of [] \<Rightarrow> None
   | t # rest \<Rightarrow>
      if t = ''SELECT'' \<or> t = ''WITH'' then Some True
      else if t = ''INSERT'' \<or> t = ''UPDATE'' \<or> t = ''DELETE'' then Some (List.member tokens ''RETURNING'')
      else if t = ''CREATE'' \<or> t = ''DROP'' then
        (case rest of u # _ \<Rightarrow> if u = ''TABLE'' \<or> u = ''INDEX'' then Some False else None | [] \<Rightarrow> None)
      else if t = ''ALTER'' then (case rest of u # _ \<Rightarrow> if u = ''TABLE'' then Some False else None | [] \<Rightarrow> None)
      else None)"

definition validateSQL :: "bytes \<Rightarrow> any list \<Rightarrow> sql_err + bool" where
  "validateSQL statement params =
     (if statement = [] \<or> maxSQLBytes < length statement \<or> maxSQLParams < length params then Err ErrInvalidDatabase
      else if \<not> list_all param_ok params then Err ErrInvalidDatabase
      else case scan statement False [] of None \<Rightarrow> Err ErrInvalidDatabase
      | Some tokens \<Rightarrow> (case classify tokens of None \<Rightarrow> Err ErrInvalidDatabase | Some read \<Rightarrow> Ok read))"

subsection \<open>The reference: lexing, then checking\<close>

text \<open>
  A statement is cut into pieces without losing a byte: blanks and comments, quotations, words,
  semicolons, and other characters. \<open>None\<close> means that a comment or a quotation does not end.
\<close>

datatype lexeme = Space bytes | Quoted bytes | Word bytes | Semi | Sym char

fun text_of :: "lexeme \<Rightarrow> bytes" where
  "text_of (Space s) = s"
| "text_of (Quoted s) = s"
| "text_of (Word s) = s"
| "text_of Semi = '';''"
| "text_of (Sym c) = [c]"

definition piece :: "(bytes \<Rightarrow> lexeme) \<Rightarrow> bytes \<Rightarrow> bytes \<Rightarrow> lexeme" where
  "piece k s rest = k (take (length s - length rest) s)"

fun first_lexeme :: "bytes \<Rightarrow> (lexeme \<times> bytes) option" where
  "first_lexeme [] = None"
| "first_lexeme (c # s) =
     (if blank c then Some (Space [c], s)
      else if HasPrefix (c # s) ''--'' then
        Some (piece Space (c # s) (dropWhile (\<lambda>x. x \<noteq> CHR 10) (drop 1 s)), dropWhile (\<lambda>x. x \<noteq> CHR 10) (drop 1 s))
      else if HasPrefix (c # s) ''/*'' then map_option (\<lambda>r. (piece Space (c # s) r, r)) (after_comment (drop 1 s))
      else if quote_start c then map_option (\<lambda>r. (piece Quoted (c # s) r, r)) (after_quote (close_quote c) s)
      else if c = CHR '';'' then Some (Semi, s)
      else if word_start c then Some (Word (c # takeWhile word_char s), dropWhile word_char s)
      else Some (Sym c, s))"

lemma first_lexeme_shorter: "first_lexeme s = Some (x, r) \<Longrightarrow> length r < length s"
proof (cases s)
  case (Cons c t)
  have "length (dropWhile (\<lambda>x. x \<noteq> CHR 10) (drop 1 t)) \<le> length t"
    "length (dropWhile word_char t) \<le> length t"
    using length_dropWhile_le [of "\<lambda>x. x \<noteq> CHR 10" "drop 1 t"] length_dropWhile_le [of word_char t] by auto
  then show "first_lexeme s = Some (x, r) \<Longrightarrow> ?thesis" using Cons
    by (auto split: if_splits dest!: after_comment_length after_quote_length)
qed simp

function lex :: "bytes \<Rightarrow> lexeme list option" where
  "lex s = (if s = [] then Some [] else case first_lexeme s of None \<Rightarrow> None
     | Some (x, r) \<Rightarrow> map_option (\<lambda>xs. x # xs) (lex r))"
  by pat_completeness auto
termination
  by (relation "measure length") (auto dest: first_lexeme_shorter)

declare lex.simps [simp del]

definition words :: "lexeme list \<Rightarrow> bytes list" where
  "words xs = List.map_filter (\<lambda>x. case x of Word w \<Rightarrow> Some (map upper_char w) | _ \<Rightarrow> None) xs"

fun is_space :: "lexeme \<Rightarrow> bool" where
  "is_space (Space _) \<longleftrightarrow> True"
| "is_space _ \<longleftrightarrow> False"

text \<open>One statement: no semicolon, or one, with a word before it and only space after it.\<close>

definition one_statement :: "lexeme list \<Rightarrow> bool" where
  "one_statement xs \<longleftrightarrow> Semi \<notin> set xs
     \<or> (\<exists>body rest. xs = body @ Semi # rest \<and> Semi \<notin> set body \<and> words body \<noteq> [] \<and> list_all is_space rest)"

subsection \<open>The scanner agrees with the reference\<close>

lemma after_comment_suffix: "after_comment s = Some r \<Longrightarrow> suffix r s"
  by (induction s) (auto split: if_splits intro: suffix_ConsI suffix_tl suffix_drop)

lemma after_quote_suffix: "after_quote q s = Some r \<Longrightarrow> suffix r s"
  by (induction q s rule: after_quote.induct) (auto split: if_splits list.splits intro: suffix_ConsI)

lemma suffix_piece: "suffix r s \<Longrightarrow> take (length s - length r) s @ r = s"
  by (auto simp: suffix_def)

lemma first_lexeme_lossless: "first_lexeme s = Some (x, r) \<Longrightarrow> text_of x @ r = s"
proof (cases s)
  case (Cons c t)
  have "suffix (dropWhile (\<lambda>x. x \<noteq> CHR 10) (drop 1 t)) (c # t)"
    by (meson suffix_ConsI suffix_dropWhile suffix_drop suffix_order.order_trans)
  moreover have "after_comment (drop 1 t) = Some u \<Longrightarrow> suffix u (c # t)" for u
    using after_comment_suffix suffix_drop suffix_order.order_trans by (metis suffix_ConsI)
  moreover have "after_quote q t = Some u \<Longrightarrow> suffix u (c # t)" for q u
    using after_quote_suffix by (metis suffix_ConsI)
  ultimately show "first_lexeme s = Some (x, r) \<Longrightarrow> ?thesis" using Cons suffix_piece [of _ "c # t"]
    by (auto simp: piece_def split: if_splits)
qed simp

lemma lex_lossless: "lex s = Some xs \<Longrightarrow> concat (map text_of xs) = s"
proof (induction s arbitrary: xs rule: lex.induct)
  case (1 s)
  show ?case
  proof (cases "s = []")
    case False
    with "1.prems" obtain x r ys where x: "first_lexeme s = Some (x, r)" "lex r = Some ys" "xs = x # ys"
      by (subst (asm) lex.simps) (auto split: option.splits)
    with "1.IH" [OF False x(1) refl x(2)] first_lexeme_lossless [OF x(1)] show ?thesis by simp
  qed (use "1.prems" in \<open>simp add: lex.simps\<close>)
qed

text \<open>The checks of the scanner, on the lexemes.\<close>

fun run :: "lexeme list \<Rightarrow> bool \<Rightarrow> bytes list \<Rightarrow> bytes list option" where
  "run [] t k = Some k"
| "run (Space _ # xs) t k = run xs t k"
| "run (Quoted _ # xs) t k = (if t then None else run xs t k)"
| "run (Word w # xs) t k = (if t \<or> map upper_char w \<in> set forbidden_words then None else run xs t (k @ [map upper_char w]))"
| "run (Semi # xs) t k = (if t \<or> k = [] then None else run xs True k)"
| "run (Sym _ # xs) t k = (if t then None else run xs t k)"

lemma lex_step: "first_lexeme s = Some (x, r) \<Longrightarrow> Option.bind (lex s) f = Option.bind (lex r) (\<lambda>xs. f (x # xs))"
  by (cases "s = []"; cases "lex r"; subst lex.simps) auto

lemma lex_stuck: "s \<noteq> [] \<Longrightarrow> first_lexeme s = None \<Longrightarrow> lex s = None"
  by (subst lex.simps) simp

lemma bind_None: "Option.bind x (\<lambda>_. None) = None"
  by (cases x) auto

lemma scan_run: "scan s t k = Option.bind (lex s) (\<lambda>xs. run xs t k)"
proof (induction s t k rule: scan.induct)
  case (2 c s t k)
  let ?dd = "c = CHR ''-'' \<and> HasPrefix s ''-''" and ?co = "c = CHR ''/'' \<and> HasPrefix s ''*''"
  have dash: "HasPrefix (c # s) ''--'' \<longleftrightarrow> ?dd" and star: "HasPrefix (c # s) ''/*'' \<longleftrightarrow> ?co"
    by (auto simp: HasPrefix_def)
  note fl = dash star piece_def
  consider (bl) "blank c" | (dd) "\<not> blank c" ?dd | (co) "\<not> blank c" "\<not> ?dd" ?co
    | (qu) "\<not> blank c" "\<not> ?dd" "\<not> ?co" "quote_start c"
    | (se) "\<not> blank c" "\<not> ?dd" "\<not> ?co" "\<not> quote_start c" "c = CHR '';''"
    | (wo) "\<not> blank c" "\<not> ?dd" "\<not> ?co" "\<not> quote_start c" "c \<noteq> CHR '';''" "word_start c"
    | (sy) "\<not> blank c" "\<not> ?dd" "\<not> ?co" "\<not> quote_start c" "c \<noteq> CHR '';''" "\<not> word_start c"
    by blast
  then show ?case
  proof cases
    case bl
    note sc = scan.simps(2) [of c s t k, unfolded if_P [OF bl]]
    have "first_lexeme (c # s) = Some (Space [c], s)" using bl by simp
    from lex_step [OF this, of "\<lambda>xs. run xs t k"] "2.IH"(1) [OF bl] show ?thesis unfolding sc by simp
  next
    case dd
    note sc = scan.simps(2) [of c s t k, unfolded if_not_P [OF dd(1)] if_P [OF dd(2)]]
    let ?r = "dropWhile (\<lambda>x. x \<noteq> CHR 10) (drop 1 s)"
    have "first_lexeme (c # s) = Some (piece Space (c # s) ?r, ?r)" using dd dash by (simp only: first_lexeme.simps) simp
    from lex_step [OF this, of "\<lambda>xs. run xs t k"] "2.IH"(2) [OF dd] show ?thesis unfolding sc by (simp only: piece_def run.simps)
  next
    case co
    note sc = scan.simps(2) [of c s t k, unfolded if_not_P [OF co(1)] if_not_P [OF co(2)] if_P [OF co(3)]]
    show ?thesis
    proof (cases "after_comment (drop 1 s)")
      case None
      then have "lex (c # s) = None" using co star dash by (intro lex_stuck) auto
      then show ?thesis unfolding sc None by simp
    next
      case (Some r)
      then have "first_lexeme (c # s) = Some (piece Space (c # s) r, r)" using co star dash by auto
      from lex_step [OF this, of "\<lambda>xs. run xs t k"] "2.IH"(3) [OF co Some] show ?thesis unfolding sc Some by (simp only: piece_def run.simps option.case)
    qed
  next
    case qu
    note sc = scan.simps(2) [of c s t k, unfolded if_not_P [OF qu(1)] if_not_P [OF qu(2)] if_not_P [OF qu(3)] if_P [OF qu(4)]]
    show ?thesis
    proof (cases "after_quote (close_quote c) s")
      case None
      then have "lex (c # s) = None" using qu star dash by (intro lex_stuck) auto
      then show ?thesis unfolding sc None by simp
    next
      case (Some r)
      then have "first_lexeme (c # s) = Some (piece Quoted (c # s) r, r)" using qu star dash by auto
      from lex_step [OF this, of "\<lambda>xs. run xs t k"] "2.IH"(4) [OF qu Some] show ?thesis unfolding sc Some
        by (cases t) (simp_all only: piece_def run.simps option.case if_True if_False bind_None simp_thms)
    qed
  next
    case se
    note sc = scan.simps(2) [of c s t k, unfolded if_not_P [OF se(1)] if_not_P [OF se(2)] if_not_P [OF se(3)]
        if_not_P [OF se(4)] if_P [OF se(5)]]
    have "first_lexeme (c # s) = Some (Semi, s)" using se star dash by auto
    from lex_step [OF this, of "\<lambda>xs. run xs t k"] "2.IH"(5) [OF se] show ?thesis unfolding sc
      by (cases "t \<or> k = []") (simp_all only: run.simps if_True if_False bind_None simp_thms)
  next
    case wo
    note sc = scan.simps(2) [of c s t k, unfolded if_not_P [OF wo(1)] if_not_P [OF wo(2)] if_not_P [OF wo(3)]
        if_not_P [OF wo(4)] if_not_P [OF wo(5)] if_P [OF wo(6)]]
    let ?w = "map upper_char (c # takeWhile word_char s)"
    have "first_lexeme (c # s) = Some (Word (c # takeWhile word_char s), dropWhile word_char s)"
      using wo star dash by auto
    from lex_step [OF this, of "\<lambda>xs. run xs t k"] "2.IH"(6) [OF wo _ refl] show ?thesis unfolding sc Let_def
      by (cases t; cases "?w \<in> set forbidden_words") (simp_all only: run.simps if_True if_False bind_None simp_thms)
  next
    case sy
    note sc = scan.simps(2) [of c s t k, unfolded if_not_P [OF sy(1)] if_not_P [OF sy(2)] if_not_P [OF sy(3)]
        if_not_P [OF sy(4)] if_not_P [OF sy(5)] if_not_P [OF sy(6)]]
    have "first_lexeme (c # s) = Some (Sym c, s)" using sy star dash by auto
    from lex_step [OF this, of "\<lambda>xs. run xs t k"] "2.IH"(7) [OF sy] show ?thesis unfolding sc
      by (cases t) (simp_all only: run.simps if_True if_False bind_None simp_thms)
  qed
qed (simp add: lex.simps scan.simps)

lemma run_terminated: "run xs True k = (if list_all is_space xs then Some k else None)"
  by (induction xs "True" k rule: run.induct) auto

lemma words_simps [simp]: "words [] = []" "words (Space s # xs) = words xs" "words (Quoted s # xs) = words xs"
  "words (Word w # xs) = map upper_char w # words xs" "words (Semi # xs) = words xs" "words (Sym c # xs) = words xs"
  by (simp_all add: words_def map_filter_simps)

lemma words_space: "list_all is_space xs \<Longrightarrow> words xs = []"
proof (induction xs)
  case (Cons x xs) then show ?case by (cases x) auto
qed simp

text \<open>A semicolon is allowed after a word, and only space after it.\<close>

definition ends_well :: "bytes list \<Rightarrow> lexeme list \<Rightarrow> bool" where
  "ends_well k xs \<longleftrightarrow> Semi \<notin> set xs
     \<or> (\<exists>body rest. xs = body @ Semi # rest \<and> Semi \<notin> set body \<and> k @ words body \<noteq> [] \<and> list_all is_space rest)"

lemma ends_well_Cons:
  assumes "x \<noteq> Semi"
  shows "ends_well k (x # xs) \<longleftrightarrow> ends_well (k @ words [x]) xs"
proof -
  have w: "words (x # body) = words [x] @ words body" for body by (cases x) auto
  have "(\<exists>body rest. x # xs = body @ Semi # rest \<and> Semi \<notin> set body \<and> k @ words body \<noteq> [] \<and> list_all is_space rest)
     \<longleftrightarrow> (\<exists>body rest. xs = body @ Semi # rest \<and> Semi \<notin> set body \<and> (k @ words [x]) @ words body \<noteq> [] \<and> list_all is_space rest)"
    (is "?l \<longleftrightarrow> ?r")
  proof
    assume ?l
    then obtain body rest where b: "x # xs = body @ Semi # rest" "Semi \<notin> set body" "k @ words body \<noteq> []" "list_all is_space rest"
      by blast
    then obtain body' where body: "body = x # body'" using assms by (cases body) auto
    have "xs = body' @ Semi # rest" "Semi \<notin> set body'" "(k @ words [x]) @ words body' \<noteq> []"
      using b(1-3) w [of body'] unfolding body by simp_all
    with b(4) show ?r by blast
  next
    assume ?r
    then obtain body rest where b: "xs = body @ Semi # rest" "Semi \<notin> set body" "(k @ words [x]) @ words body \<noteq> []" "list_all is_space rest"
      by blast
    then have "x # xs = (x # body) @ Semi # rest" "Semi \<notin> set (x # body)" "k @ words (x # body) \<noteq> []"
      using assms w [of body] by auto
    with b(4) show ?l by blast
  qed
  with assms show ?thesis by (auto simp: ends_well_def)
qed

lemma ends_well_Semi: "ends_well k (Semi # xs) \<longleftrightarrow> k \<noteq> [] \<and> list_all is_space xs"
proof -
  have "body = [] \<and> rest = xs" if "Semi # xs = body @ Semi # rest" "Semi \<notin> set body" for body rest
    using that by (cases body) auto
  then have "(\<exists>body rest. Semi # xs = body @ Semi # rest \<and> Semi \<notin> set body \<and> k @ words body \<noteq> [] \<and> list_all is_space rest)
      \<longleftrightarrow> k \<noteq> [] \<and> list_all is_space xs"
    by (metis append.simps(1) append_Nil2 empty_iff list.set(1) words_simps(1))
  then show ?thesis by (simp add: ends_well_def)
qed

lemma run_exact:
  "run xs False k = Some k' \<longleftrightarrow> set (words xs) \<inter> set forbidden_words = {} \<and> ends_well k xs \<and> k' = k @ words xs"
proof (induction xs "False" k rule: run.induct)
  case (1 k) then show ?case by (auto simp: ends_well_def)
next
  case (5 xs k)
  then show ?case using words_space by (auto simp: run_terminated ends_well_Semi)
qed (auto simp: ends_well_Cons)


text \<open>
  A quotation is not looked into. SQLite accepts a quoted name where a function is called, so that the
  word \<^verbatim>\<open>LOAD_EXTENSION\<close> is refused but the same call with the name in quotes is not.
\<close>

lemma quoted_call_accepted:
  "validateSQL ''SELECT load_extension(1)'' [] = Err ErrInvalidDatabase"
  "validateSQL (''SELECT '' @ [CHR 34] @ ''load_extension'' @ [CHR 34] @ ''(1)'') [] = Ok True"
  by (simp_all add: validateSQL_def maxSQLBytes_def maxSQLParams_def scan.simps blank_def HasPrefix_def quote_start_def
      word_start_def word_char_def close_quote_def forbidden_words_def classify_def upper_char_def char_class_defs
      char_of_def bit_0 Let_def)

end
