(* ===== verification/Function_Data.thy ===== *)
theory Function_Data
  imports Sql_Guard
begin

text \<open>
  The data of user functions, \<^verbatim>\<open>internal/domain/functions/data.go\<close> and the tables of
  \<^verbatim>\<open>sql_database.go\<close>: items that a function stores under a collection and a key, the databases of a
  user and their bindings to functions. All of it is one SQLite file with one connection, so that
  statements and transactions run one after the other.

  Owners, functions and databases are UUIDs, natural numbers here. Time stamps are nanoseconds; writing
  one in RFC 3339 and reading it back gives the same. \<open>ds_faults\<close> says for each coming statement (the
  begin and the commit of a transaction included) whether it fails, as in \<open>Ent_Db\<close>; a transaction that
  fails is rolled back.
\<close>

datatype fn_err = ErrInvalidName | ErrInvalidWasm | ErrNotFound | ErrConflict | ErrLimit | ErrBusy | ErrTimeout
  | ErrOutputLimit | ErrInvalidInput | ErrInvalidOutput | ErrInvalidLanguage | ErrBuildUnavailable | ErrBuildFailed
  | ErrInvalidKey | ErrInvalidExpiry
  | ErrInvalidData | ErrDataLimit | ErrDataUnavailable | ErrDataNotFound
  | ErrBadDatabase | ErrDatabaseLimit | ErrSQLLimit
  | Failed bytes

subsection \<open>Names\<close>

text \<open>The shape of the regular expressions: one character of a class, then up to \<open>n\<close> of another.\<close>

definition name_like :: "(char \<Rightarrow> bool) \<Rightarrow> (char \<Rightarrow> bool) \<Rightarrow> nat \<Rightarrow> bytes \<Rightarrow> bool" where
  "name_like first more n s = (case s of [] \<Rightarrow> False | c # r \<Rightarrow> first c \<and> length r \<le> n \<and> list_all more r)"

definition validCollection :: "bytes \<Rightarrow> bool" where
  "validCollection = name_like is_lower (\<lambda>c. is_lower c \<or> is_digit c \<or> c = CHR ''_'' \<or> c = CHR ''-'') 63"

definition validDataKey :: "bytes \<Rightarrow> bool" where
  "validDataKey = name_like (\<lambda>c. is_upper c \<or> is_lower c \<or> is_digit c)
     (\<lambda>c. is_upper c \<or> is_lower c \<or> is_digit c \<or> c \<in> set ''_.:-'') 127"

definition validDatabaseName :: "bytes \<Rightarrow> bool" where
  "validDatabaseName = name_like is_lower (\<lambda>c. is_lower c \<or> is_digit c \<or> c = CHR ''-'') 62"

definition validBindingName :: "bytes \<Rightarrow> bool" where
  "validBindingName = name_like is_upper (\<lambda>c. is_upper c \<or> is_digit c \<or> c = CHR ''_'') 31"

subsection \<open>The store\<close>

record data_row =
  dr_owner :: nat
  dr_function :: nat
  dr_collection :: bytes
  dr_key :: bytes
  dr_value :: bytes
  dr_updated :: int

record DataItem =
  di_Collection :: bytes
  di_Key :: bytes
  di_Value :: bytes
  di_UpdatedAt :: int

record database_row =
  db_id :: nat
  db_owner :: nat
  db_name :: bytes
  db_created :: int

record binding_row =
  bi_owner :: nat
  bi_function :: nat
  bi_alias :: bytes
  bi_database :: nat

record AppDatabase =
  ad_ID :: nat
  ad_Name :: bytes
  ad_CreatedAt :: int

record DatabaseBinding =
  db_Alias :: bytes
  db_DatabaseID :: nat
  db_DatabaseName :: bytes

text \<open>\<open>ds_files\<close> are the files of the databases, by their UUID.\<close>

record DataStore =
  ds_data :: "data_row list"
  ds_deleted :: "(nat \<times> nat) list"
  ds_databases :: "database_row list"
  ds_bindings :: "binding_row list"
  ds_files :: "nat list"
  ds_faults :: "bytes option list"

definition MaxDataValueBytes :: nat where "MaxDataValueBytes = 16384"
definition MaxDataItemsPerFunction :: nat where "MaxDataItemsPerFunction = 256"
definition MaxDataListItems :: nat where "MaxDataListItems = 100"
definition maxDatabasesPerOwner :: nat where "maxDatabasesPerOwner = 10"

text \<open>The outcome of the next \<open>n\<close> statements: the first failure, if any, and the faults that are left.\<close>

fun statements :: "nat \<Rightarrow> bytes option list \<Rightarrow> bytes option \<times> bytes option list" where
  "statements 0 fs = (None, fs)"
| "statements (Suc n) [] = (None, [])"
| "statements (Suc n) (None # fs) = statements n fs"
| "statements (Suc n) (Some e # fs) = (Some e, fs)"

type_synonym 'a storeop = "DataStore \<Rightarrow> (fn_err + 'a) \<times> DataStore"

text \<open>One statement: it fails, or it has its result and its effect.\<close>

definition stmt :: "(DataStore \<Rightarrow> (fn_err + 'a) \<times> DataStore) \<Rightarrow> 'a storeop" where
  "stmt f s = (case statements 1 (ds_faults s) of
     (Some e, fs) \<Rightarrow> (Err (Failed e), s\<lparr>ds_faults := fs\<rparr>)
   | (None, fs) \<Rightarrow> f (s\<lparr>ds_faults := fs\<rparr>))"

subsection \<open>Items\<close>

definition item_row :: "nat \<Rightarrow> nat \<Rightarrow> bytes \<Rightarrow> bytes \<Rightarrow> data_row \<Rightarrow> bool" where
  "item_row owner function collection key r \<longleftrightarrow> dr_owner r = owner \<and> dr_function r = function
     \<and> dr_collection r = collection \<and> dr_key r = key"

definition function_row_of :: "nat \<Rightarrow> nat \<Rightarrow> data_row \<Rightarrow> bool" where
  "function_row_of owner function r \<longleftrightarrow> dr_owner r = owner \<and> dr_function r = function"

definition row_to_item :: "data_row \<Rightarrow> DataItem" where
  "row_to_item r = \<lparr>di_Collection = dr_collection r, di_Key = dr_key r, di_Value = dr_value r, di_UpdatedAt = dr_updated r\<rparr>"

definition data_Get :: "nat \<Rightarrow> nat \<Rightarrow> bytes \<Rightarrow> bytes \<Rightarrow> DataItem storeop" where
  "data_Get owner function collection key s =
     (if \<not> validCollection collection \<or> \<not> validDataKey key then (Err ErrInvalidData, s)
      else stmt (\<lambda>s. (case filter (item_row owner function collection key) (ds_data s) of
          [] \<Rightarrow> Err ErrDataNotFound | r # _ \<Rightarrow> Ok (row_to_item r), s)) s)"

definition data_List :: "nat \<Rightarrow> nat \<Rightarrow> bytes \<Rightarrow> int \<Rightarrow> DataItem list storeop" where
  "data_List owner function collection offset s =
     (if \<not> validCollection collection \<or> offset < 0 then (Err ErrInvalidData, s)
      else stmt (\<lambda>s. (Ok (map row_to_item (take MaxDataListItems (drop (nat offset) (sort_key dr_key
          (filter (\<lambda>r. function_row_of owner function r \<and> dr_collection r = collection) (ds_data s)))))), s)) s)"

text \<open>
  The insert with \<^verbatim>\<open>ON CONFLICT DO UPDATE\<close>: the row with the same primary key takes the new value, or
  there is a new row. The transaction has six statements: begin, three queries, the insert and commit.
  \<open>now\<close> is the clock when it writes, \<open>valid_json\<close> is \<^verbatim>\<open>json.Valid\<close>.
\<close>

definition upsert_item :: "data_row \<Rightarrow> data_row list \<Rightarrow> data_row list" where
  "upsert_item row rs = (let p = item_row (dr_owner row) (dr_function row) (dr_collection row) (dr_key row) in
     if list_ex p rs then map (\<lambda>r. if p r then row else r) rs else rs @ [row])"

definition data_Put :: "(bytes \<Rightarrow> bool) \<Rightarrow> int \<Rightarrow> nat \<Rightarrow> nat \<Rightarrow> bytes \<Rightarrow> bytes \<Rightarrow> bytes \<Rightarrow> DataItem storeop" where
  "data_Put valid_json now owner function collection key value s =
     (if \<not> validCollection collection \<or> \<not> validDataKey key \<or> value = [] \<or> MaxDataValueBytes < length value
         \<or> \<not> valid_json value then (Err ErrInvalidData, s)
      else case statements 2 (ds_faults s) of
        (Some e, fs) \<Rightarrow> (Err (Failed e), s\<lparr>ds_faults := fs\<rparr>)
      | (None, fs) \<Rightarrow>
         if (owner, function) \<in> set (ds_deleted s) then (Err ErrDataNotFound, s\<lparr>ds_faults := fs\<rparr>)
         else (case statements 2 fs of
           (Some e, fs) \<Rightarrow> (Err (Failed e), s\<lparr>ds_faults := fs\<rparr>)
         | (None, fs) \<Rightarrow>
            (let count = length (filter (function_row_of owner function) (ds_data s));
                 found = list_ex (item_row owner function collection key) (ds_data s) in
             if \<not> found \<and> MaxDataItemsPerFunction \<le> count then (Err ErrDataLimit, s\<lparr>ds_faults := fs\<rparr>)
             else (case statements 2 fs of
               (Some e, fs) \<Rightarrow> (Err (Failed e), s\<lparr>ds_faults := fs\<rparr>)
             | (None, fs) \<Rightarrow>
                (let row = \<lparr>dr_owner = owner, dr_function = function, dr_collection = collection, dr_key = key,
                       dr_value = value, dr_updated = now\<rparr> in
                 (Ok (row_to_item row), s\<lparr>ds_data := upsert_item row (ds_data s), ds_faults := fs\<rparr>))))))"

definition data_Delete :: "nat \<Rightarrow> nat \<Rightarrow> bytes \<Rightarrow> bytes \<Rightarrow> unit storeop" where
  "data_Delete owner function collection key s =
     (if \<not> validCollection collection \<or> \<not> validDataKey key then (Err ErrInvalidData, s)
      else stmt (\<lambda>s. (if list_ex (item_row owner function collection key) (ds_data s) then Ok () else Err ErrDataNotFound,
          s\<lparr>ds_data := filter (\<lambda>r. \<not> item_row owner function collection key r) (ds_data s)\<rparr>)) s)"

text \<open>Begin, the deletes of items and bindings, the insert of the tombstone, and commit.\<close>

definition data_DeleteFunction :: "nat \<Rightarrow> nat \<Rightarrow> unit storeop" where
  "data_DeleteFunction owner function s = (case statements 5 (ds_faults s) of
     (Some e, fs) \<Rightarrow> (Err (Failed e), s\<lparr>ds_faults := fs\<rparr>)
   | (None, fs) \<Rightarrow> (Ok (), s\<lparr>ds_data := filter (\<lambda>r. \<not> function_row_of owner function r) (ds_data s),
       ds_bindings := filter (\<lambda>b. \<not> (bi_owner b = owner \<and> bi_function b = function)) (ds_bindings s),
       ds_deleted := (if (owner, function) \<in> set (ds_deleted s) then ds_deleted s else ds_deleted s @ [(owner, function)]),
       ds_faults := fs\<rparr>))"

subsection \<open>Databases and bindings\<close>

text \<open>
  \<open>id\<close> is what \<^verbatim>\<open>uuid.New\<close> returns. The count and the insert are two statements, and other requests may
  run between them: \<open>create_check\<close> is the part up to the count, \<open>create_insert\<close> the rest. \<open>file_ok\<close>
  says whether the directory and the file can be made and opened; on every failure the file is removed.
\<close>

definition create_check :: "nat \<Rightarrow> bytes \<Rightarrow> bytes storeop" where
  "create_check owner rawName s = (let name = TrimSpace (ToLower rawName) in
     if \<not> validDatabaseName name then (Err ErrBadDatabase, s)
     else stmt (\<lambda>s. (if maxDatabasesPerOwner \<le> length (filter (\<lambda>r. db_owner r = owner) (ds_databases s))
          then Err ErrDatabaseLimit else Ok name, s)) s)"

definition create_insert :: "fn_err option \<Rightarrow> nat \<Rightarrow> int \<Rightarrow> nat \<Rightarrow> bytes \<Rightarrow> AppDatabase storeop" where
  "create_insert file_ok ident now owner name s = (case file_ok of Some e \<Rightarrow> (Err e, s)
   | None \<Rightarrow> stmt (\<lambda>s. if list_ex (\<lambda>r. db_id r = ident \<or> db_owner r = owner \<and> db_name r = name) (ds_databases s)
         then (Err ErrConflict, s)
         else (Ok \<lparr>ad_ID = ident, ad_Name = name, ad_CreatedAt = now\<rparr>,
           s\<lparr>ds_databases := ds_databases s @ [\<lparr>db_id = ident, db_owner = owner, db_name = name, db_created = now\<rparr>],
             ds_files := ident # ds_files s\<rparr>)) s)"

definition data_CreateDatabase :: "fn_err option \<Rightarrow> nat \<Rightarrow> int \<Rightarrow> nat \<Rightarrow> bytes \<Rightarrow> AppDatabase storeop" where
  "data_CreateDatabase file_ok ident now owner rawName s = (case create_check owner rawName s of
     (Err e, s) \<Rightarrow> (Err e, s)
   | (Ok name, s) \<Rightarrow> create_insert file_ok ident now owner name s)"

definition data_ListDatabases :: "nat \<Rightarrow> AppDatabase list storeop" where
  "data_ListDatabases owner = stmt (\<lambda>s. (Ok (map (\<lambda>r. \<lparr>ad_ID = db_id r, ad_Name = db_name r, ad_CreatedAt = db_created r\<rparr>)
     (sort_key db_name (filter (\<lambda>r. db_owner r = owner) (ds_databases s)))), s))"

definition databaseOwned :: "nat \<Rightarrow> nat \<Rightarrow> unit storeop" where
  "databaseOwned owner ident = stmt (\<lambda>s. (if list_ex (\<lambda>r. db_owner r = owner \<and> db_id r = ident) (ds_databases s)
     then Ok () else Err ErrNotFound, s))"

text \<open>Begin, two deletes and commit; then the file is removed, which fails if it is not there.\<close>

definition data_DeleteDatabase :: "nat \<Rightarrow> nat \<Rightarrow> unit storeop" where
  "data_DeleteDatabase owner ident s = (case databaseOwned owner ident s of (Err e, s) \<Rightarrow> (Err e, s)
   | (Ok _, s) \<Rightarrow> (case statements 4 (ds_faults s) of
       (Some e, fs) \<Rightarrow> (Err (Failed e), s\<lparr>ds_faults := fs\<rparr>)
     | (None, fs) \<Rightarrow>
        (let s = s\<lparr>ds_faults := fs,
             ds_bindings := filter (\<lambda>b. \<not> (bi_owner b = owner \<and> bi_database b = ident)) (ds_bindings s),
             ds_databases := filter (\<lambda>r. \<not> (db_owner r = owner \<and> db_id r = ident)) (ds_databases s)\<rparr> in
         if ident \<in> set (ds_files s) then (Ok (), s\<lparr>ds_files := removeAll ident (ds_files s)\<rparr>)
         else (Err (Failed ''remove''), s))))"

definition data_BindDatabase :: "nat \<Rightarrow> nat \<Rightarrow> nat \<Rightarrow> bytes \<Rightarrow> unit storeop" where
  "data_BindDatabase owner function database alias s =
     (if \<not> validBindingName alias then (Err ErrBadDatabase, s)
      else case databaseOwned owner database s of (Err e, s) \<Rightarrow> (Err e, s)
      | (Ok _, s) \<Rightarrow> stmt (\<lambda>s. (Ok (),
          let p = (\<lambda>b. bi_owner b = owner \<and> bi_function b = function \<and> bi_alias b = alias) in
          s\<lparr>ds_bindings := (if list_ex p (ds_bindings s)
               then map (\<lambda>b. if p b then b\<lparr>bi_database := database\<rparr> else b) (ds_bindings s)
               else ds_bindings s @ [\<lparr>bi_owner = owner, bi_function = function, bi_alias = alias, bi_database = database\<rparr>])\<rparr>)) s)"

definition data_UnbindDatabase :: "nat \<Rightarrow> nat \<Rightarrow> bytes \<Rightarrow> unit storeop" where
  "data_UnbindDatabase owner function alias s =
     (if \<not> validBindingName alias then (Err ErrBadDatabase, s)
      else stmt (\<lambda>s. let p = (\<lambda>b. bi_owner b = owner \<and> bi_function b = function \<and> bi_alias b = alias) in
        (if list_ex p (ds_bindings s) then Ok () else Err ErrNotFound,
         s\<lparr>ds_bindings := filter (\<lambda>b. \<not> p b) (ds_bindings s)\<rparr>)) s)"

text \<open>The join of a binding with the database it names, of the same owner.\<close>

definition bound_databases :: "DataStore \<Rightarrow> binding_row \<Rightarrow> database_row list" where
  "bound_databases s b = filter (\<lambda>d. db_id d = bi_database b \<and> db_owner d = bi_owner b) (ds_databases s)"

definition data_ListBindings :: "nat \<Rightarrow> nat \<Rightarrow> DatabaseBinding list storeop" where
  "data_ListBindings owner function = stmt (\<lambda>s. (Ok (concat (map (\<lambda>b. map (\<lambda>d. \<lparr>db_Alias = bi_alias b,
       db_DatabaseID = bi_database b, db_DatabaseName = db_name d\<rparr>) (bound_databases s b))
     (sort_key bi_alias (filter (\<lambda>b. bi_owner b = owner \<and> bi_function b = function) (ds_bindings s))))), s))"

subsection \<open>The items refine a map\<close>

text \<open>What a store holds: for every function its items by collection and key, and the deleted functions.\<close>

record data_view =
  dv_items :: "nat \<Rightarrow> nat \<Rightarrow> bytes \<times> bytes \<rightharpoonup> bytes \<times> int"
  dv_deleted :: "(nat \<times> nat) set"

definition row_key :: "data_row \<Rightarrow> nat \<times> nat \<times> bytes \<times> bytes" where
  "row_key r = (dr_owner r, dr_function r, dr_collection r, dr_key r)"

definition assoc :: "data_row list \<Rightarrow> ((nat \<times> nat \<times> bytes \<times> bytes) \<times> bytes \<times> int) list" where
  "assoc rs = map (\<lambda>r. (row_key r, dr_value r, dr_updated r)) rs"

definition view :: "DataStore \<Rightarrow> data_view" where
  "view s = \<lparr>dv_items = (\<lambda>own f (c, k). map_of (assoc (ds_data s)) (own, f, c, k)), dv_deleted = set (ds_deleted s)\<rparr>"

definition data_wf :: "DataStore \<Rightarrow> bool" where
  "data_wf s \<longleftrightarrow> distinct (map row_key (ds_data s))
     \<and> (\<forall>own f. length (filter (function_row_of own f) (ds_data s)) \<le> 256)
     \<and> (\<forall>r\<in>set (ds_data s). (dr_owner r, dr_function r) \<notin> set (ds_deleted s))"

datatype data_op = OpGet nat nat bytes bytes | OpList nat nat bytes int | OpPut int nat nat bytes bytes bytes
  | OpDelete nat nat bytes bytes | OpDeleteFunction nat nat

datatype data_res = Item DataItem | Items "DataItem list" | Done

definition wrap :: "('a \<Rightarrow> data_res) \<Rightarrow> (fn_err + 'a) \<times> DataStore \<Rightarrow> (fn_err + data_res) \<times> DataStore" where
  "wrap f = (\<lambda>(r, s). (case r of Err e \<Rightarrow> Err e | Ok x \<Rightarrow> Ok (f x), s))"

fun do_op :: "(bytes \<Rightarrow> bool) \<Rightarrow> data_op \<Rightarrow> data_res storeop" where
  "do_op vj (OpGet own f c k) s = wrap Item (data_Get own f c k s)"
| "do_op vj (OpList own f c off) s = wrap Items (data_List own f c off s)"
| "do_op vj (OpPut now own f c k v) s = wrap Item (data_Put vj now own f c k v s)"
| "do_op vj (OpDelete own f c k) s = wrap (\<lambda>_. Done) (data_Delete own f c k s)"
| "do_op vj (OpDeleteFunction own f) s = wrap (\<lambda>_. Done) (data_DeleteFunction own f s)"

definition item_of :: "bytes \<Rightarrow> bytes \<Rightarrow> bytes \<times> int \<Rightarrow> DataItem" where
  "item_of c k = (\<lambda>(v, t). \<lparr>di_Collection = c, di_Key = k, di_Value = v, di_UpdatedAt = t\<rparr>)"

fun spec_op :: "(bytes \<Rightarrow> bool) \<Rightarrow> data_op \<Rightarrow> data_view \<Rightarrow> (fn_err + data_res) \<times> data_view" where
  "spec_op vj (OpGet own f c k) v =
     (if \<not> validCollection c \<or> \<not> validDataKey k then (Err ErrInvalidData, v)
      else (case dv_items v own f (c, k) of None \<Rightarrow> Err ErrDataNotFound | Some x \<Rightarrow> Ok (Item (item_of c k x)), v))"
| "spec_op vj (OpList own f c off) v =
     (if \<not> validCollection c \<or> off < 0 then (Err ErrInvalidData, v)
      else (Ok (Items (map (\<lambda>k. item_of c k (the (dv_items v own f (c, k))))
        (take 100 (drop (nat off) (sorted_list_of_set {k. dv_items v own f (c, k) \<noteq> None}))))), v))"
| "spec_op vj (OpPut now own f c k x) v =
     (if \<not> validCollection c \<or> \<not> validDataKey k \<or> x = [] \<or> 16384 < length x \<or> \<not> vj x then (Err ErrInvalidData, v)
      else if (own, f) \<in> dv_deleted v then (Err ErrDataNotFound, v)
      else if dv_items v own f (c, k) = None \<and> 256 \<le> card (dom (dv_items v own f)) then (Err ErrDataLimit, v)
      else (Ok (Item (item_of c k (x, now))),
        v\<lparr>dv_items := (dv_items v)(own := (dv_items v own)(f := (dv_items v own f)((c, k) \<mapsto> (x, now))))\<rparr>))"
| "spec_op vj (OpDelete own f c k) v =
     (if \<not> validCollection c \<or> \<not> validDataKey k then (Err ErrInvalidData, v)
      else if dv_items v own f (c, k) = None then (Err ErrDataNotFound, v)
      else (Ok Done, v\<lparr>dv_items := (dv_items v)(own := (dv_items v own)(f := (dv_items v own f)((c, k) := None)))\<rparr>))"
| "spec_op vj (OpDeleteFunction own f) v =
     (Ok Done, v\<lparr>dv_items := (dv_items v)(own := (dv_items v own)(f := Map.empty)), dv_deleted := insert (own, f) (dv_deleted v)\<rparr>)"

lemma item_row_key: "item_row own f c k r \<longleftrightarrow> row_key r = (own, f, c, k)"
  by (auto simp: item_row_def row_key_def)

lemma map_of_assoc_None: "map_of (assoc rs) key = None \<longleftrightarrow> (\<forall>r\<in>set rs. row_key r \<noteq> key)"
  by (induction rs) (auto simp: assoc_def)

lemma map_of_assoc_Some:
  "distinct (map row_key rs) \<Longrightarrow> r \<in> set rs \<Longrightarrow> map_of (assoc rs) (row_key r) = Some (dr_value r, dr_updated r)"
proof (induction rs)
  case (Cons a rs)
  show ?case
  proof (cases "r = a")
    case False
    with Cons.prems have "row_key r \<noteq> row_key a" by (metis distinct.simps(2) image_eqI list.set_map list.simps(9) set_ConsD)
    with Cons False show ?thesis by (simp add: assoc_def)
  qed (simp add: assoc_def)
qed simp

lemma map_of_assoc_filter:
  "map_of (assoc (filter (\<lambda>r. P (row_key r)) rs)) key = (if P key then map_of (assoc rs) key else None)"
  by (induction rs) (auto simp: assoc_def)

lemma map_of_replace: "map_of (assoc (map (\<lambda>r. if row_key r = row_key row then row else r) rs)) key =
    (if key = row_key row then (if \<exists>r\<in>set rs. row_key r = row_key row then Some (dr_value row, dr_updated row) else None)
     else map_of (assoc rs) key)"
  by (induction rs) (auto simp: assoc_def)

lemma map_of_append: "map_of (assoc (rs @ [row])) key = (case map_of (assoc rs) key of Some x \<Rightarrow> Some x
      | None \<Rightarrow> if key = row_key row then Some (dr_value row, dr_updated row) else None)"
  by (induction rs) (auto simp: assoc_def)

lemma upsert_item_key: "upsert_item row rs = (if \<exists>r\<in>set rs. row_key r = row_key row
    then map (\<lambda>r. if row_key r = row_key row then row else r) rs else rs @ [row])"
proof -
  have "item_row (dr_owner row) (dr_function row) (dr_collection row) (dr_key row) = (\<lambda>r. row_key r = row_key row)"
    by (rule ext) (simp add: item_row_key row_key_def)
  then show ?thesis by (simp add: upsert_item_def Let_def list_ex_iff)
qed

lemma map_of_upsert:
  "map_of (assoc (upsert_item row rs)) = (map_of (assoc rs))(row_key row \<mapsto> (dr_value row, dr_updated row))"
proof (rule ext)
  fix key
  show "map_of (assoc (upsert_item row rs)) key = ((map_of (assoc rs))(row_key row \<mapsto> (dr_value row, dr_updated row))) key"
  proof (cases "\<exists>r\<in>set rs. row_key r = row_key row")
    case True
    then show ?thesis by (simp add: upsert_item_key map_of_replace)
  next
    case False
    then have "map_of (assoc rs) (row_key row) = None" by (simp add: map_of_assoc_None)
    with False show ?thesis by (auto simp: upsert_item_key map_of_append split: option.splits)
  qed
qed

text \<open>Counting rows is counting items, and the ordered rows are the ordered keys.\<close>

lemma dom_items: "dom (dv_items (view s) own f) = (\<lambda>r. (dr_collection r, dr_key r)) ` set (filter (function_row_of own f) (ds_data s))"
  (is "?l = ?r")
proof (rule set_eqI)
  fix ck show "ck \<in> ?l \<longleftrightarrow> ck \<in> ?r"
  proof (cases ck)
    case (Pair c k)
    have "ck \<in> ?l \<longleftrightarrow> (\<exists>r\<in>set (ds_data s). row_key r = (own, f, c, k))"
      using map_of_assoc_None [of "ds_data s" "(own, f, c, k)"] Pair by (auto simp: view_def dom_def)
    also have "\<dots> \<longleftrightarrow> ck \<in> ?r" using Pair by (auto simp: row_key_def function_row_of_def image_iff)
    finally show ?thesis .
  qed
qed

lemma card_items:
  assumes "distinct (map row_key (ds_data s))"
  shows "card (dom (dv_items (view s) own f)) = length (filter (function_row_of own f) (ds_data s))"
proof -
  let ?rs = "filter (function_row_of own f) (ds_data s)"
  have "distinct (map row_key ?rs)" using assms by (rule distinct_map_filter)
  then have "distinct (map (\<lambda>r. (dr_collection r, dr_key r)) ?rs)"
    by (auto simp: distinct_map inj_on_def row_key_def function_row_of_def)
  then have "card (set (map (\<lambda>r. (dr_collection r, dr_key r)) ?rs)) = length ?rs"
    using distinct_card by fastforce
  then show ?thesis unfolding dom_items by simp
qed

lemma listed_items:
  assumes "distinct (map row_key (ds_data s))" and rs_def: "rs = filter (\<lambda>r. function_row_of own f r \<and> dr_collection r = c) (ds_data s)"
  shows "map row_to_item (take n (drop m (sort_key dr_key rs))) = map (\<lambda>k. item_of c k (the (dv_items (view s) own f (c, k))))
     (take n (drop m (sorted_list_of_set {k. dv_items (view s) own f (c, k) \<noteq> None})))"
proof -
  have "distinct (map row_key rs)" unfolding rs_def using assms(1) by (rule distinct_map_filter)
  then have d: "distinct (map dr_key rs)"
    by (auto simp: distinct_map inj_on_def row_key_def function_row_of_def rs_def)
  have "{k. dv_items (view s) own f (c, k) \<noteq> None} = set (map dr_key (sort_key dr_key rs))"
  proof (rule set_eqI)
    fix k
    have "dv_items (view s) own f (c, k) \<noteq> None \<longleftrightarrow> (c, k) \<in> dom (dv_items (view s) own f)" by auto
    also have "\<dots> \<longleftrightarrow> k \<in> dr_key ` set rs" unfolding dom_items rs_def by (auto simp: image_iff)
    finally show "k \<in> {k. dv_items (view s) own f (c, k) \<noteq> None} \<longleftrightarrow> k \<in> set (map dr_key (sort_key dr_key rs))" by simp
  qed
  moreover have "distinct (map dr_key (sort_key dr_key rs))"
    using d by (simp add: distinct_map)
  ultimately have keys: "sorted_list_of_set {k. dv_items (view s) own f (c, k) \<noteq> None} = map dr_key (sort_key dr_key rs)"
    by (metis sorted_sort_key sorted_list_of_set.idem_if_sorted_distinct)
  have item: "row_to_item r = item_of c (dr_key r) (the (dv_items (view s) own f (c, dr_key r)))" if "r \<in> set rs" for r
  proof -
    have r: "r \<in> set (ds_data s)" "row_key r = (own, f, c, dr_key r)" "dr_collection r = c"
      using that by (auto simp: rs_def row_key_def function_row_of_def)
    have "map_of (assoc (ds_data s)) (own, f, c, dr_key r) = Some (dr_value r, dr_updated r)"
      using map_of_assoc_Some [OF assms(1) r(1)] unfolding r(2) .
    then show ?thesis using r(3) by (simp add: view_def row_to_item_def item_of_def)
  qed
  show ?thesis unfolding keys take_map drop_map map_map
    by (rule map_cong) (auto dest!: in_set_takeD in_set_dropD intro!: item)
qed

lemma stmt_cases:
  obtains (fault) m fs where "stmt f s = (Err (Failed m), s\<lparr>ds_faults := fs\<rparr>)" "ds_faults s \<noteq> []"
    | (run) fs where "stmt f s = f (s\<lparr>ds_faults := fs\<rparr>)"
proof (cases "ds_faults s")
  case Nil
  then have "stmt f s = f (s\<lparr>ds_faults := []\<rparr>)" by (simp add: stmt_def)
  then show ?thesis by (rule run)
next
  case (Cons x xs)
  show ?thesis
  proof (cases x)
    case None
    with Cons have "stmt f s = f (s\<lparr>ds_faults := xs\<rparr>)" by (simp add: stmt_def)
    then show ?thesis by (rule run)
  next
    case (Some m)
    with Cons have "stmt f s = (Err (Failed m), s\<lparr>ds_faults := xs\<rparr>)" "ds_faults s \<noteq> []" by (simp_all add: stmt_def)
    then show ?thesis by (rule fault)
  qed
qed

lemma statements_Nil: "statements n [] = (None, [])"
  by (cases n) auto

lemma view_faults [simp]: "view (s\<lparr>ds_faults := fs\<rparr>) = view s"
  by (simp add: view_def)

lemma wf_faults [simp]: "data_wf (s\<lparr>ds_faults := fs\<rparr>) = data_wf s"
  by (simp add: data_wf_def)

definition refines :: "DataStore \<Rightarrow> (fn_err + data_res) \<times> DataStore \<Rightarrow> (fn_err + data_res) \<times> data_view \<Rightarrow> bool" where
  "refines s = (\<lambda>(r, s') spec. data_wf s'
     \<and> ((\<exists>m. r = Err (Failed m)) \<and> ds_faults s \<noteq> [] \<and> view s' = view s \<or> (r, view s') = spec))"

lemma filter_le: "length (filter P (filter Q xs)) \<le> length (filter P xs)"
  by (induction xs) auto

lemma wf_filter:
  assumes "data_wf s"
  shows "data_wf (s\<lparr>ds_data := filter P (ds_data s)\<rparr>)"
proof -
  have "length (filter (function_row_of own f) (filter P (ds_data s))) \<le> 256" for own f
    using assms filter_le [of "function_row_of own f" P "ds_data s"] order_trans unfolding data_wf_def by blast
  then show ?thesis using assms by (simp add: data_wf_def distinct_map_filter)
qed

lemma count_upsert:
  "length (filter (function_row_of own f) (upsert_item row rs)) =
     length (filter (function_row_of own f) rs)
     + (if (\<exists>r\<in>set rs. row_key r = row_key row) \<or> \<not> function_row_of own f row then 0 else 1)"
proof -
  have "length (filter (function_row_of own f) (map (\<lambda>r. if row_key r = row_key row then row else r) rs))
      = length (filter (function_row_of own f) rs)"
    by (induction rs) (auto simp: function_row_of_def row_key_def)
  then show ?thesis by (auto simp: upsert_item_key)
qed

lemma keys_upsert: "map row_key (upsert_item row rs) = (if row_key row \<in> set (map row_key rs) then map row_key rs else map row_key rs @ [row_key row])"
proof -
  have "row_key row \<in> set (map row_key rs) \<longleftrightarrow> (\<exists>r\<in>set rs. row_key r = row_key row)" by (auto simp: image_iff) metis
  then show ?thesis by (simp add: upsert_item_key)
qed

lemma wf_upsert:
  assumes "data_wf s" and "(dr_owner row, dr_function row) \<notin> set (ds_deleted s)"
    and "(\<exists>r\<in>set (ds_data s). row_key r = row_key row)
      \<or> length (filter (function_row_of (dr_owner row) (dr_function row)) (ds_data s)) < 256"
  shows "data_wf (s\<lparr>ds_data := upsert_item row (ds_data s)\<rparr>)"
proof -
  have "length (filter (function_row_of own f) (upsert_item row (ds_data s))) \<le> 256" for own f
    using assms(1,3) by (auto simp: count_upsert data_wf_def function_row_of_def)
  moreover have "\<forall>r\<in>set (upsert_item row (ds_data s)). (dr_owner r, dr_function r) \<notin> set (ds_deleted s)"
    using assms(1,2) by (auto simp: upsert_item_key data_wf_def split: if_splits)
  ultimately show ?thesis using assms(1) by (simp add: data_wf_def keys_upsert)
qed

lemma lookup_view:
  "dv_items (view s) own f (c, k) = map_of (assoc (ds_data s)) (own, f, c, k)"
  by (simp add: view_def)

lemma lookup_None: "dv_items (view s) own f (c, k) = None \<longleftrightarrow> \<not> list_ex (item_row own f c k) (ds_data s)"
  unfolding lookup_view map_of_assoc_None list_ex_iff item_row_key by blast

lemma get_refines:
  assumes "data_wf s"
  shows "refines s (do_op vj (OpGet own f c k) s) (spec_op vj (OpGet own f c k) (view s))"
proof (cases "\<not> validCollection c \<or> \<not> validDataKey k")
  case True
  with assms show ?thesis by (auto simp: refines_def data_Get_def wrap_def)
next
  case False
  let ?g = "\<lambda>s. (case filter (item_row own f c k) (ds_data s) of [] \<Rightarrow> Err ErrDataNotFound | r # _ \<Rightarrow> Ok (row_to_item r), s)"
  have get: "data_Get own f c k s = stmt ?g s" using False by (simp add: data_Get_def)
  show ?thesis
  proof (rule stmt_cases [of ?g s])
    fix m fs assume "stmt ?g s = (Err (Failed m), s\<lparr>ds_faults := fs\<rparr>)" "ds_faults s \<noteq> []"
    with assms get show ?thesis by (simp add: refines_def wrap_def)
  next
    fix fs assume st: "stmt ?g s = ?g (s\<lparr>ds_faults := fs\<rparr>)"
    show ?thesis
    proof (cases "filter (item_row own f c k) (ds_data s)")
      case Nil
      then have "dv_items (view s) own f (c, k) = None" by (auto simp: lookup_None list_ex_iff filter_empty_conv)
      with Nil False assms st get show ?thesis by (simp add: refines_def wrap_def)
    next
      case (Cons r rest)
      then have "r \<in> set (filter (item_row own f c k) (ds_data s))" by simp
      then have r: "r \<in> set (ds_data s)" "row_key r = (own, f, c, k)" by (simp_all add: item_row_key)
      have "dv_items (view s) own f (c, k) = Some (dr_value r, dr_updated r)"
        using map_of_assoc_Some [OF _ r(1)] assms unfolding lookup_view r(2) data_wf_def by blast
      with Cons False assms st get r(2) show ?thesis
        by (simp add: refines_def wrap_def row_to_item_def item_of_def row_key_def)
    qed
  qed
qed

lemma list_refines:
  assumes "data_wf s"
  shows "refines s (do_op vj (OpList own f c off) s) (spec_op vj (OpList own f c off) (view s))"
proof (cases "\<not> validCollection c \<or> off < 0")
  case True
  with assms show ?thesis by (auto simp: refines_def data_List_def wrap_def)
next
  case False
  let ?g = "\<lambda>s. (Ok (map row_to_item (take MaxDataListItems (drop (nat off) (sort_key dr_key
          (filter (\<lambda>r. function_row_of own f r \<and> dr_collection r = c) (ds_data s)))))), s)"
  have get: "data_List own f c off s = stmt ?g s" using False by (simp add: data_List_def)
  show ?thesis
  proof (rule stmt_cases [of ?g s])
    fix m fs assume "stmt ?g s = (Err (Failed m), s\<lparr>ds_faults := fs\<rparr>)" "ds_faults s \<noteq> []"
    with assms get show ?thesis by (simp add: refines_def wrap_def)
  next
    fix fs assume st: "stmt ?g s = ?g (s\<lparr>ds_faults := fs\<rparr>)"
    have "distinct (map row_key (ds_data s))" using assms by (simp add: data_wf_def)
    note l = listed_items [OF this refl, of MaxDataListItems "nat off" own f c]
    show ?thesis using False assms get st l by (simp add: refines_def wrap_def MaxDataListItems_def)
  qed
qed

lemma put_view:
  "view (s\<lparr>ds_data := upsert_item \<lparr>dr_owner = own, dr_function = f, dr_collection = c, dr_key = k, dr_value = x, dr_updated = now\<rparr> (ds_data s)\<rparr>)
   = (view s)\<lparr>dv_items := (dv_items (view s))(own := (dv_items (view s) own)(f := (dv_items (view s) own f)((c, k) \<mapsto> (x, now))))\<rparr>"
  by (auto simp: view_def map_of_upsert row_key_def intro!: ext split: prod.splits)

lemma put_refines:
  assumes "data_wf s"
  shows "refines s (do_op vj (OpPut now own f c k x) s) (spec_op vj (OpPut now own f c k x) (view s))"
proof -
  let ?row = "\<lparr>dr_owner = own, dr_function = f, dr_collection = c, dr_key = k, dr_value = x, dr_updated = now\<rparr>"
  let ?bad = "\<not> validCollection c \<or> \<not> validDataKey k \<or> x = [] \<or> 16384 < length x \<or> \<not> vj x"
  let ?found = "list_ex (item_row own f c k) (ds_data s)"
  let ?count = "length (filter (function_row_of own f) (ds_data s))"
  obtain r s' where put: "data_Put vj now own f c k x s = (r, s')" by force
  have cases: "?bad \<and> r = Err ErrInvalidData \<and> s' = s
     \<or> (\<exists>fs m. r = Err (Failed m) \<and> ds_faults s \<noteq> [] \<and> s' = s\<lparr>ds_faults := fs\<rparr>)
     \<or> (\<exists>fs. \<not> ?bad \<and> (own, f) \<in> set (ds_deleted s) \<and> r = Err ErrDataNotFound \<and> s' = s\<lparr>ds_faults := fs\<rparr>)
     \<or> (\<exists>fs. \<not> ?bad \<and> (own, f) \<notin> set (ds_deleted s) \<and> \<not> ?found \<and> 256 \<le> ?count \<and> r = Err ErrDataLimit \<and> s' = s\<lparr>ds_faults := fs\<rparr>)
     \<or> (\<exists>fs. \<not> ?bad \<and> (own, f) \<notin> set (ds_deleted s) \<and> (?found \<or> ?count < 256) \<and> r = Ok (row_to_item ?row)
          \<and> s' = s\<lparr>ds_data := upsert_item ?row (ds_data s), ds_faults := fs\<rparr>)"
  proof (cases ?bad)
    case True
    with put show ?thesis by (auto simp: data_Put_def MaxDataValueBytes_def)
  next
    case False
    obtain a fs1 where a: "statements 2 (ds_faults s) = (a, fs1)" by force
    obtain b fs2 where b: "statements 2 fs1 = (b, fs2)" by force
    obtain e fs3 where e: "statements 2 fs2 = (e, fs3)" by force
    have nf: "ds_faults s \<noteq> []" if "a \<noteq> None \<or> b \<noteq> None \<or> e \<noteq> None"
      using that a b e by (auto simp: statements_Nil)
    from put False a b e nf show ?thesis
      by (auto simp: data_Put_def MaxDataValueBytes_def MaxDataItemsPerFunction_def Let_def split: option.splits if_splits)
  qed
  have keys: "distinct (map row_key (ds_data s))" using assms by (simp add: data_wf_def)
  have found: "?found \<longleftrightarrow> (\<exists>r\<in>set (ds_data s). row_key r = row_key ?row)"
    by (simp add: list_ex_iff item_row_key row_key_def)
  have doop: "do_op vj (OpPut now own f c k x) s = (case r of Err e \<Rightarrow> Err e | Ok i \<Rightarrow> Ok (Item i), s')"
    using put by (simp add: wrap_def)
  note spec = card_items [OF keys, of own f] lookup_None [of s own f c k]
  have del: "dv_deleted (view s) = set (ds_deleted s)" by (simp add: view_def)
  from cases consider (bad) "?bad" "r = Err ErrInvalidData" "s' = s"
    | (fault) fs m where "r = Err (Failed m)" "ds_faults s \<noteq> []" "s' = s\<lparr>ds_faults := fs\<rparr>"
    | (deleted) fs where "\<not> ?bad" "(own, f) \<in> set (ds_deleted s)" "r = Err ErrDataNotFound" "s' = s\<lparr>ds_faults := fs\<rparr>"
    | (full) fs where "\<not> ?bad" "(own, f) \<notin> set (ds_deleted s)" "\<not> ?found" "256 \<le> ?count" "r = Err ErrDataLimit" "s' = s\<lparr>ds_faults := fs\<rparr>"
    | (stored) fs where "\<not> ?bad" "(own, f) \<notin> set (ds_deleted s)" "?found \<or> ?count < 256" "r = Ok (row_to_item ?row)"
        "s' = s\<lparr>ds_data := upsert_item ?row (ds_data s), ds_faults := fs\<rparr>" by blast
  then show ?thesis
  proof cases
    case stored
    have wf: "data_wf s'" using wf_upsert [of s ?row] assms stored found by simp
    have "view s' = (view s)\<lparr>dv_items := (dv_items (view s))(own := (dv_items (view s) own)(f := (dv_items (view s) own f)((c, k) \<mapsto> (x, now))))\<rparr>"
      using put_view [where s = s and own = own and f = f and c = c and k = k and x = x and now = now] stored(5) view_faults [where s = "s\<lparr>ds_data := upsert_item ?row (ds_data s)\<rparr>" and fs = fs] by simp
    then show ?thesis
      using stored wf doop spec del by (auto simp: refines_def row_to_item_def item_of_def)
  qed (use assms doop spec del in \<open>auto simp: refines_def\<close>)
qed

lemma filter_view:
  "view (s\<lparr>ds_data := filter (\<lambda>r. \<not> P (row_key r)) (ds_data s)\<rparr>)
   = (view s)\<lparr>dv_items := (\<lambda>own f ck. if P (own, f, ck) then None else dv_items (view s) own f ck)\<rparr>"
  using map_of_assoc_filter [of "\<lambda>key. \<not> P key" "ds_data s"]
  by (auto simp: view_def intro!: ext split: prod.splits)

lemma delete_refines:
  assumes "data_wf s"
  shows "refines s (do_op vj (OpDelete own f c k) s) (spec_op vj (OpDelete own f c k) (view s))"
proof (cases "\<not> validCollection c \<or> \<not> validDataKey k")
  case True
  with assms show ?thesis by (auto simp: refines_def data_Delete_def wrap_def)
next
  case False
  let ?p = "item_row own f c k"
  let ?g = "\<lambda>s. (if list_ex ?p (ds_data s) then Ok () else Err ErrDataNotFound,
          s\<lparr>ds_data := filter (\<lambda>r. \<not> ?p r) (ds_data s)\<rparr>)"
  have get: "data_Delete own f c k s = stmt ?g s" using False by (simp add: data_Delete_def)
  have p: "(\<lambda>r. \<not> ?p r) = (\<lambda>r. \<not> (\<lambda>key. key = (own, f, c, k)) (row_key r))" by (simp add: item_row_key)
  have v: "view (s\<lparr>ds_faults := fs, ds_data := filter (\<lambda>r. \<not> ?p r) (ds_data s)\<rparr>)
      = (view s)\<lparr>dv_items := (\<lambda>a b ck. if (a, b, ck) = (own, f, c, k) then None else dv_items (view s) a b ck)\<rparr>" for fs
    using filter_view [of "\<lambda>key. key = (own, f, c, k)" "s\<lparr>ds_faults := fs\<rparr>"] unfolding p view_faults by simp
  have upd: "(\<lambda>a b ck. if (a, b, ck) = (own, f, c, k) then None else m a b ck)
      = m(own := (m own)(f := (m own f)((c, k) := None)))" for m :: "nat \<Rightarrow> nat \<Rightarrow> bytes \<times> bytes \<rightharpoonup> bytes \<times> int"
    by (auto intro!: ext)
  show ?thesis
  proof (rule stmt_cases [of ?g s])
    fix m fs assume "stmt ?g s = (Err (Failed m), s\<lparr>ds_faults := fs\<rparr>)" "ds_faults s \<noteq> []"
    with assms get show ?thesis by (simp add: refines_def wrap_def)
  next
    fix fs assume st: "stmt ?g s = ?g (s\<lparr>ds_faults := fs\<rparr>)"
    have wf: "data_wf (s\<lparr>ds_faults := fs, ds_data := filter (\<lambda>r. \<not> ?p r) (ds_data s)\<rparr>)"
      using wf_filter [of "s\<lparr>ds_faults := fs\<rparr>" "\<lambda>r. \<not> ?p r"] assms by simp
    show ?thesis
    proof (cases "list_ex ?p (ds_data s)")
      case True
      then have "dv_items (view s) own f (c, k) \<noteq> None" by (simp add: lookup_None)
      then show ?thesis using True False assms st get v [of fs] wf upd [of "dv_items (view s)"] by (simp add: refines_def wrap_def)
    next
      case none: False
      then have n: "dv_items (view s) own f (c, k) = None" by (simp add: lookup_None)
      then have "(dv_items (view s))(own := (dv_items (view s) own)(f := (dv_items (view s) own f)((c, k) := None))) = dv_items (view s)"
        by (metis fun_upd_triv)
      then have "view (s\<lparr>ds_faults := fs, ds_data := filter (\<lambda>r. \<not> ?p r) (ds_data s)\<rparr>) = view s"
        using v [of fs] upd [of "dv_items (view s)"] by simp
      then show ?thesis using none n False assms st get wf by (simp add: refines_def wrap_def)
    qed
  qed
qed

lemma delete_function_refines:
  assumes "data_wf s"
  shows "refines s (do_op vj (OpDeleteFunction own f) s) (spec_op vj (OpDeleteFunction own f) (view s))"
proof -
  let ?p = "function_row_of own f"
  obtain e fs where e: "statements 5 (ds_faults s) = (e, fs)" by force
  let ?s = "s\<lparr>ds_data := filter (\<lambda>r. \<not> ?p r) (ds_data s)\<rparr>"
  let ?s' = "snd (data_DeleteFunction own f s)"
  have p: "(\<lambda>r. \<not> ?p r) = (\<lambda>r. \<not> (\<lambda>(a, b, _). a = own \<and> b = f) (row_key r))"
    by (auto simp: function_row_of_def row_key_def)
  show ?thesis
  proof (cases e)
    case (Some m)
    then have "ds_faults s \<noteq> []" using e by (auto simp: statements_Nil)
    with Some assms e show ?thesis by (simp add: refines_def wrap_def data_DeleteFunction_def)
  next
    case None
    have data: "ds_data ?s' = filter (\<lambda>r. \<not> ?p r) (ds_data s)" "set (ds_deleted ?s') = insert (own, f) (set (ds_deleted s))"
      using None e by (auto simp: data_DeleteFunction_def)
    have "data_wf ?s" by (rule wf_filter [OF assms])
    then have "data_wf ?s'" using data by (auto simp: data_wf_def function_row_of_def)
    moreover have "dv_items (view ?s') = dv_items (view ?s)" using data by (simp add: view_def)
    moreover have "dv_items (view ?s) = (dv_items (view s))(own := (dv_items (view s) own)(f := Map.empty))"
      using filter_view [of "\<lambda>(a, b, _). a = own \<and> b = f" s] unfolding p by (auto intro!: ext)
    moreover have "dv_deleted (view ?s') = insert (own, f) (dv_deleted (view s))" using data by (simp add: view_def)
    ultimately have "data_wf ?s'" "view ?s' = (view s)\<lparr>dv_items := (dv_items (view s))(own := (dv_items (view s) own)(f := Map.empty)),
        dv_deleted := insert (own, f) (dv_deleted (view s))\<rparr>"
      by simp_all
    moreover obtain t where t: "data_DeleteFunction own f s = (Ok (), t)" using None e by (simp add: data_DeleteFunction_def)
    ultimately show ?thesis by (simp add: refines_def wrap_def)
  qed
qed

lemma do_op_refines: "data_wf s \<Longrightarrow> refines s (do_op vj op s) (spec_op vj op (view s))"
  using get_refines list_refines put_refines delete_refines delete_function_refines by (cases op) metis+

text \<open>
  C27. The store of function data is a map from owner, function, collection and key to values. Every
  operation answers and changes the map as its specification says, or a statement fails and nothing
  changes; without failing statements it always does. In particular a function's data is touched by no
  other function, a listing is the first hundred items from the offset in the order of their keys, no
  function holds more than 256 items, and a deleted function holds none and gets none again.
\<close>

theorem data_store_refines:
  assumes "data_wf s" and "do_op valid_json op s = (r, s')"
  shows "data_wf s'
   \<and> ((\<exists>m. r = Err (Failed m)) \<and> ds_faults s \<noteq> [] \<and> view s' = view s \<or> (r, view s') = spec_op valid_json op (view s))"
proof -
  have "refines s (do_op valid_json op s) (spec_op valid_json op (view s))"
    using assms(1) by (rule do_op_refines)
  with assms(2) show ?thesis by (simp add: refines_def)
qed

definition empty_store :: DataStore where
  "empty_store = \<lparr>ds_data = [], ds_deleted = [], ds_databases = [], ds_bindings = [], ds_files = [], ds_faults = []\<rparr>"

definition example_put :: "(fn_err + data_res) \<times> DataStore" where
  "example_put = do_op (\<lambda>_. True) (OpPut 5 1 2 ''notes'' ''k1'' ''{}'') empty_store"

theorem data_store_refines_witness:
  "fst example_put = Ok (Item \<lparr>di_Collection = ''notes'', di_Key = ''k1'', di_Value = ''{}'', di_UpdatedAt = 5\<rparr>)
   \<and> dv_items (view (snd example_put)) 1 2 (''notes'', ''k1'') = Some (''{}'', 5)
   \<and> dv_items (view (snd example_put)) 1 3 (''notes'', ''k1'') = None"
proof -
  have wf: "data_wf empty_store" by (simp add: data_wf_def empty_store_def)
  have names: "validCollection ''notes''" "validDataKey ''k1''"
    by (simp_all add: validCollection_def validDataKey_def name_like_def char_class_defs)
  have "do_op (\<lambda>_. True) (OpPut 5 1 2 ''notes'' ''k1'' ''{}'') empty_store = (fst example_put, snd example_put)"
    by (simp add: example_put_def)
  from data_store_refines [OF wf this] have
    "(fst example_put, view (snd example_put)) = spec_op (\<lambda>_. True) (OpPut 5 1 2 ''notes'' ''k1'' ''{}'') (view empty_store)"
    by (simp add: empty_store_def)
  moreover have "dv_items (view empty_store) = (\<lambda>_ _ _. None)" "dv_deleted (view empty_store) = {}"
    by (auto simp: view_def empty_store_def assoc_def intro!: ext)
  ultimately show ?thesis using names by (simp add: item_of_def)
qed

end
