(* ===== verification/Function_Protocol.thy ===== *)
theory Function_Protocol
  imports Function_Data
begin

text \<open>
  SQL on the databases of a user (\<^verbatim>\<open>QueryDatabase\<close> and \<^verbatim>\<open>QueryBinding\<close> of \<^verbatim>\<open>sql_database.go\<close>) and the
  protocol over which a running function uses its data and databases (\<^verbatim>\<open>data_protocol.go\<close>): the
  function writes requests as lines of its output and reads the replies from its input.

  The SQL engine works on an abstract world \<open>'w\<close>. Its errors are a timeout or a message; a query gives
  the columns, the rows and the error the rows end with, if any. Decoding a request and encoding a reply
  or a result is \<^verbatim>\<open>encoding/json\<close>.
\<close>

subsection \<open>Queries\<close>

record SQLResult =
  sr_Columns :: "bytes list"
  sr_Rows :: "(bytes \<rightharpoonup> any) list"
  sr_RowsAffected :: int

datatype engine_err = TimedOut | SqlError bytes

record 'w sql_engine =
  eng_open :: "nat \<Rightarrow> 'w \<Rightarrow> fn_err option \<times> 'w"
  eng_exec :: "nat \<Rightarrow> bytes \<Rightarrow> any list \<Rightarrow> 'w \<Rightarrow> (engine_err + int) \<times> 'w"
  eng_query :: "nat \<Rightarrow> bytes \<Rightarrow> any list \<Rightarrow> 'w \<Rightarrow> (engine_err + bytes list \<times> any list list \<times> engine_err option) \<times> 'w"
  eng_json_len :: "SQLResult \<Rightarrow> nat option"

definition maxSQLRows :: nat where "maxSQLRows = 100"
definition maxSQLResultBytes :: nat where "maxSQLResultBytes = 65536"

definition sqlQueryError :: "engine_err \<Rightarrow> fn_err" where
  "sqlQueryError e = (case e of TimedOut \<Rightarrow> ErrTimeout | SqlError _ \<Rightarrow> ErrBadDatabase)"

text \<open>A row is a map from column names; of columns with one name the last counts.\<close>

definition row_map :: "bytes list \<Rightarrow> any list \<Rightarrow> (bytes \<rightharpoonup> any)" where
  "row_map columns vals = fold (\<lambda>(n, v) m. m(n \<mapsto> v)) (zip columns vals) Map.empty"

fun collect_rows :: "(SQLResult \<Rightarrow> nat option) \<Rightarrow> any list list \<Rightarrow> SQLResult \<Rightarrow> fn_err + SQLResult" where
  "collect_rows len [] result = Ok result"
| "collect_rows len (vals # rest) result =
     (if maxSQLRows \<le> length (sr_Rows result) then Err ErrSQLLimit
      else let result = result\<lparr>sr_Rows := sr_Rows result @ [row_map (sr_Columns result) vals]\<rparr> in
        case len result of None \<Rightarrow> Err ErrSQLLimit
        | Some n \<Rightarrow> if maxSQLResultBytes < n then Err ErrSQLLimit else collect_rows len rest result)"

definition QueryDatabase :: "'w sql_engine \<Rightarrow> nat \<Rightarrow> nat \<Rightarrow> bytes \<Rightarrow> any list \<Rightarrow> DataStore \<times> 'w
    \<Rightarrow> (fn_err + SQLResult) \<times> DataStore \<times> 'w" where
  "QueryDatabase eng owner ident statement params = (\<lambda>(s, w). case databaseOwned owner ident s of
     (Err e, s) \<Rightarrow> (Err e, s, w)
   | (Ok _, s) \<Rightarrow> (case validateSQL statement params of Err _ \<Rightarrow> (Err ErrBadDatabase, s, w)
     | Ok read \<Rightarrow> (case eng_open eng ident w of (Some e, w) \<Rightarrow> (Err e, s, w)
       | (None, w) \<Rightarrow>
          if \<not> read then (case eng_exec eng ident statement params w of
               (Err e, w) \<Rightarrow> (Err (sqlQueryError e), s, w)
             | (Ok n, w) \<Rightarrow> (Ok \<lparr>sr_Columns = [], sr_Rows = [], sr_RowsAffected = n\<rparr>, s, w))
          else (case eng_query eng ident statement params w of
               (Err e, w) \<Rightarrow> (Err (sqlQueryError e), s, w)
             | (Ok (columns, rows, failed), w) \<Rightarrow>
                 (case collect_rows (eng_json_len eng) rows \<lparr>sr_Columns = columns, sr_Rows = [], sr_RowsAffected = 0\<rparr> of
                    Err e \<Rightarrow> (Err e, s, w)
                  | Ok result \<Rightarrow> (case failed of Some e \<Rightarrow> (Err (sqlQueryError e), s, w)
                      | None \<Rightarrow> (Ok result, s, w)))))))"

definition QueryBinding :: "'w sql_engine \<Rightarrow> nat \<Rightarrow> nat \<Rightarrow> bytes \<Rightarrow> bytes \<Rightarrow> any list \<Rightarrow> DataStore \<times> 'w
    \<Rightarrow> (fn_err + SQLResult) \<times> DataStore \<times> 'w" where
  "QueryBinding eng owner function alias statement params = (\<lambda>(s, w).
     if \<not> validBindingName alias then (Err ErrBadDatabase, s, w)
     else case stmt (\<lambda>s. (case concat (map (bound_databases s)
           (filter (\<lambda>b. bi_owner b = owner \<and> bi_function b = function \<and> bi_alias b = alias) (ds_bindings s))) of
             [] \<Rightarrow> Err ErrNotFound | d # _ \<Rightarrow> Ok (db_id d), s)) s of
       (Err e, s) \<Rightarrow> (Err e, s, w)
     | (Ok ident, s) \<Rightarrow> QueryDatabase eng owner ident statement params (s, w))"

subsection \<open>Requests and replies\<close>

record dataRequest =
  rq_Type :: bytes
  rq_Op :: bytes
  rq_Collection :: bytes
  rq_Key :: bytes
  rq_Value :: bytes
  rq_Offset :: int
  rq_Binding :: bytes
  rq_SQL :: bytes
  rq_Params :: "any list"

text \<open>The error of a reply: its own text, or a fixed message that hides it.\<close>

datatype reply_error = NoError | ErrorText fn_err | Message bytes

record dataReply =
  re_Type :: bytes
  re_OK :: bool
  re_Item :: "DataItem option"
  re_Items :: "DataItem list"
  re_Result :: "SQLResult option"
  re_Error :: reply_error

record 'w function_env =
  fe_engine :: "'w sql_engine"
  fe_valid_json :: "bytes \<Rightarrow> bool"
  fe_now :: "'w \<Rightarrow> int"
  fe_request :: "bytes \<Rightarrow> dataRequest option"
  fe_encode :: "dataReply \<Rightarrow> bytes"

definition empty_reply :: "bytes \<Rightarrow> dataReply" where
  "empty_reply ty = \<lparr>re_Type = ty, re_OK = False, re_Item = None, re_Items = [], re_Result = None, re_Error = NoError\<rparr>"

definition maxDataOperationsPerInvocation :: nat where "maxDataOperationsPerInvocation = 32"
definition MaxOutputBytes :: nat where "MaxOutputBytes = 131072"

definition data_op_of :: "int \<Rightarrow> nat \<Rightarrow> nat \<Rightarrow> dataRequest \<Rightarrow> data_op option" where
  "data_op_of now owner function req =
     (if rq_Op req = ''get'' then Some (OpGet owner function (rq_Collection req) (rq_Key req))
      else if rq_Op req = ''list'' then Some (OpList owner function (rq_Collection req) (rq_Offset req))
      else if rq_Op req = ''put'' then Some (OpPut now owner function (rq_Collection req) (rq_Key req) (rq_Value req))
      else if rq_Op req = ''delete'' then Some (OpDelete owner function (rq_Collection req) (rq_Key req))
      else None)"

text \<open>Execute a request and fill in the reply, or give the error.\<close>

definition perform :: "'w function_env \<Rightarrow> nat \<Rightarrow> nat \<Rightarrow> dataRequest \<Rightarrow> dataReply \<Rightarrow> DataStore \<times> 'w
    \<Rightarrow> (fn_err + dataReply) \<times> DataStore \<times> 'w" where
  "perform env owner function req reply = (\<lambda>(s, w).
     if rq_Type req = ''sql'' then
       (case QueryBinding (fe_engine env) owner function (rq_Binding req) (rq_SQL req) (rq_Params req) (s, w) of
          (Err e, sw) \<Rightarrow> (Err e, sw) | (Ok result, sw) \<Rightarrow> (Ok (reply\<lparr>re_Result := Some result\<rparr>), sw))
     else case data_op_of (fe_now env w) owner function req of
       None \<Rightarrow> (Err ErrInvalidData, s, w)
     | Some op \<Rightarrow> (case do_op (fe_valid_json env) op s of
          (Err e, s) \<Rightarrow> (Err e, s, w)
        | (Ok (Item i), s) \<Rightarrow> (Ok (reply\<lparr>re_Item := Some i\<rparr>), s, w)
        | (Ok (Items is), s) \<Rightarrow> (Ok (reply\<lparr>re_Items := is\<rparr>), s, w)
        | (Ok Done, s) \<Rightarrow> (Ok reply, s, w)))"

definition shown_errors :: "fn_err list" where
  "shown_errors = [ErrInvalidData, ErrDataNotFound, ErrDataLimit, ErrBadDatabase, ErrSQLLimit, ErrNotFound]"

record limitedWriter =
  lw_buf :: bytes
  lw_exceeded :: bool

definition limited_Write :: "bytes \<Rightarrow> limitedWriter \<Rightarrow> fn_err option \<times> limitedWriter" where
  "limited_Write p w = (if MaxOutputBytes < length (lw_buf w) + length p then (Some ErrOutputLimit, w\<lparr>lw_exceeded := True\<rparr>)
     else (None, w\<lparr>lw_buf := lw_buf w @ p\<rparr>))"

text \<open>
  The output of a function in data mode, with the queue of replies it has not read, the store and the
  world. The queue has room for \<open>maxDataOperationsPerInvocation + 1\<close> replies; a function that writes on
  without reading waits, and since it cannot read while it waits, until the invocation is over.
\<close>

record 'w dataOutput =
  out_final :: limitedWriter
  out_pending :: bytes
  out_total :: nat
  out_ops :: nat
  out_exceeded :: bool
  out_replies :: "bytes list"
  out_store :: DataStore
  out_world :: 'w

definition send_reply :: "'w function_env \<Rightarrow> dataReply \<Rightarrow> 'w dataOutput \<Rightarrow> fn_err option \<times> 'w dataOutput" where
  "send_reply env reply out = (if length (out_replies out) < maxDataOperationsPerInvocation + 1
     then (None, out\<lparr>out_replies := out_replies out @ [fe_encode env reply @ [CHR 10]]\<rparr>) else (Some (Failed ''context deadline exceeded''), out))"

definition out_line :: "'w function_env \<Rightarrow> nat \<Rightarrow> nat \<Rightarrow> bytes \<Rightarrow> 'w dataOutput \<Rightarrow> fn_err option \<times> 'w dataOutput" where
  "out_line env owner function line out =
     (case fe_request env line of
        Some req \<Rightarrow>
          if rq_Type req = ''db'' \<or> rq_Type req = ''sql'' then
            let out = out\<lparr>out_ops := out_ops out + 1\<rparr>; reply = empty_reply (rq_Type req @ ''.result'') in
            if maxDataOperationsPerInvocation < out_ops out
            then send_reply env (reply\<lparr>re_Error := Message ''function data operation limit reached''\<rparr>) out
            else (case perform env owner function req reply (out_store out, out_world out) of
              (r, s, w) \<Rightarrow> send_reply env (case r of
                  Err e \<Rightarrow> reply\<lparr>re_Error := (if e \<in> set shown_errors then ErrorText e else Message ''function data operation failed'')\<rparr>
                | Ok reply \<Rightarrow> reply\<lparr>re_OK := True\<rparr>) (out\<lparr>out_store := s, out_world := w\<rparr>))
          else (case limited_Write (line @ [CHR 10]) (out_final out) of (e, f) \<Rightarrow> (e, out\<lparr>out_final := f\<rparr>))
      | None \<Rightarrow> (case limited_Write (line @ [CHR 10]) (out_final out) of (e, f) \<Rightarrow> (e, out\<lparr>out_final := f\<rparr>)))"

text \<open>The loop of \<^verbatim>\<open>Write\<close> over the lines that are complete.\<close>

function drain :: "'w function_env \<Rightarrow> nat \<Rightarrow> nat \<Rightarrow> bytes \<Rightarrow> 'w dataOutput \<Rightarrow> fn_err option \<times> 'w dataOutput" where
  "drain env owner function pending out =
     (if CHR 10 \<notin> set pending then (None, out\<lparr>out_pending := pending\<rparr>)
      else let line = TrimSpace (takeWhile (\<lambda>c. c \<noteq> CHR 10) pending);
               rest = tl (dropWhile (\<lambda>c. c \<noteq> CHR 10) pending) in
        if line = [] then drain env owner function rest out
        else (case out_line env owner function line out of
           (Some e, out) \<Rightarrow> (Some e, out\<lparr>out_pending := rest\<rparr>)
         | (None, out) \<Rightarrow> drain env owner function rest out))"
  by pat_completeness auto
termination
proof (relation "measure (\<lambda>(_, _, _, pending, _). length pending)")
  have shorter: "length (tl (dropWhile (\<lambda>c. c \<noteq> CHR 10) p)) < length p" if "CHR 10 \<in> set p" for p :: bytes
  proof -
    have "p \<noteq> []" using that by auto
    moreover have "length (dropWhile (\<lambda>c. c \<noteq> CHR 10) p) \<le> length p" by (rule length_dropWhile_le)
    moreover have "0 < length p" using \<open>p \<noteq> []\<close> by simp
    ultimately show ?thesis unfolding length_tl by linarith
  qed
  show "\<And>env owner function pending out x xa.
       \<not> CHR 10 \<notin> set pending \<Longrightarrow> x = TrimSpace (takeWhile (\<lambda>c. c \<noteq> CHR 10) pending) \<Longrightarrow>
       xa = tl (dropWhile (\<lambda>c. c \<noteq> CHR 10) pending) \<Longrightarrow> x = [] \<Longrightarrow>
       ((env, owner, function, xa, out), env, owner, function, pending, out) \<in> measure (\<lambda>(_, _, _, pending, _). length pending)"
    using shorter by simp
  show "\<And>env owner function pending out x xa xb y.
       \<not> CHR 10 \<notin> set pending \<Longrightarrow> x = TrimSpace (takeWhile (\<lambda>c. c \<noteq> CHR 10) pending) \<Longrightarrow>
       xa = tl (dropWhile (\<lambda>c. c \<noteq> CHR 10) pending) \<Longrightarrow> x \<noteq> [] \<Longrightarrow> (xb, y) = out_line env owner function x out \<Longrightarrow>
       xb = None \<Longrightarrow>
       ((env, owner, function, xa, y), env, owner, function, pending, out) \<in> measure (\<lambda>(_, _, _, pending, _). length pending)"
    using shorter by simp
qed simp

declare drain.simps [simp del]

definition out_Write :: "'w function_env \<Rightarrow> nat \<Rightarrow> nat \<Rightarrow> bytes \<Rightarrow> 'w dataOutput \<Rightarrow> fn_err option \<times> 'w dataOutput" where
  "out_Write env owner function p out =
     (if MaxOutputBytes < out_total out + length p then (Some ErrOutputLimit, out\<lparr>out_exceeded := True\<rparr>)
      else drain env owner function (out_pending out @ p) (out\<lparr>out_total := out_total out + length p\<rparr>))"

definition out_Finish :: "'w function_env \<Rightarrow> nat \<Rightarrow> nat \<Rightarrow> 'w dataOutput \<Rightarrow> (fn_err + bytes) \<times> 'w dataOutput" where
  "out_Finish env owner function out =
     (case (if TrimSpace (out_pending out) \<noteq> [] then out_line env owner function (TrimSpace (out_pending out)) out
            else (None, out)) of
        (Some e, out) \<Rightarrow> (Err e, out)
      | (None, out) \<Rightarrow> if out_exceeded out \<or> lw_exceeded (out_final out) then (Err ErrOutputLimit, out)
          else (Ok (TrimSpace (lw_buf (out_final out))), out))"

text \<open>
  \<^verbatim>\<open>dataInput.Read\<close>: the rest of the current reply, or the next one; without one it waits until the
  invocation is over and gives the end of the file.
\<close>

record dataInput =
  in_current :: bytes

definition in_Read :: "nat \<Rightarrow> dataInput \<Rightarrow> bytes list \<Rightarrow> bytes \<times> dataInput \<times> bytes list" where
  "in_Read n i replies =
     (if in_current i \<noteq> [] then (take n (in_current i), i\<lparr>in_current := drop n (in_current i)\<rparr>, replies)
      else case dropWhile (\<lambda>r. r = []) replies of [] \<Rightarrow> ([], i, [])
      | r # rest \<Rightarrow> (take n r, i\<lparr>in_current := drop n r\<rparr>, rest))"

subsection \<open>What a running function can reach\<close>

definition other_tables :: "DataStore \<Rightarrow> database_row list \<times> binding_row list \<times> nat list" where
  "other_tables s = (ds_databases s, ds_bindings s, ds_files s)"

lemma other_tables_simps [simp]: "other_tables (s\<lparr>ds_faults := fs\<rparr>) = other_tables s" "other_tables (s\<lparr>ds_data := rs\<rparr>) = other_tables s"
  by (simp_all add: other_tables_def)

text \<open>Only the items of one function may differ.\<close>

definition confined :: "nat \<Rightarrow> nat \<Rightarrow> DataStore \<Rightarrow> DataStore \<Rightarrow> bool" where
  "confined own f s s' \<longleftrightarrow> data_wf s' \<and> other_tables s' = other_tables s \<and> dv_deleted (view s') = dv_deleted (view s)
     \<and> (\<forall>own' f'. (own', f') \<noteq> (own, f) \<longrightarrow> dv_items (view s') own' f' = dv_items (view s) own' f')"

lemma confined_refl: "data_wf s \<Longrightarrow> confined own f s s"
  by (simp add: confined_def)

lemma confined_trans: "confined own f a b \<Longrightarrow> confined own f b c \<Longrightarrow> confined own f a c"
  by (simp add: confined_def)

lemma confined_faults: "data_wf s \<Longrightarrow> confined own f s (s\<lparr>ds_faults := fs\<rparr>)"
  by (simp add: confined_def)

lemma stmt_tables: "(\<And>s. other_tables (snd (g s)) = other_tables s) \<Longrightarrow> other_tables (snd (stmt g s)) = other_tables s"
  by (rule stmt_cases [of g s]) (simp_all)

lemma snd_wrap: "snd (wrap g x) = snd x"
  by (cases x; cases "fst x") (simp_all add: wrap_def)

lemma do_op_tables:
  assumes "op = OpGet own f c k \<or> op = OpList own f c off \<or> op = OpPut now own f c k v \<or> op = OpDelete own f c k"
  shows "other_tables (snd (do_op vj op s)) = other_tables s"
proof -
  have "other_tables (snd (data_Get own f c k s)) = other_tables s"
    unfolding data_Get_def by (simp add: stmt_tables)
  moreover have "other_tables (snd (data_List own f c off s)) = other_tables s"
    unfolding data_List_def by (simp add: stmt_tables)
  moreover have "other_tables (snd (data_Delete own f c k s)) = other_tables s"
    unfolding data_Delete_def by (simp add: stmt_tables)
  moreover have "other_tables (snd (data_Put vj now own f c k v s)) = other_tables s"
    unfolding data_Put_def Let_def by (auto simp: other_tables_def split: prod.splits option.splits)
  ultimately show ?thesis using assms by (elim disjE) (simp_all add: snd_wrap)
qed

lemma data_op_of_cases:
  assumes "data_op_of now own f req = Some op"
  obtains c k off v where "op = OpGet own f c k \<or> op = OpList own f c off \<or> op = OpPut now own f c k v \<or> op = OpDelete own f c k"
  using assms by (auto simp: data_op_of_def split: if_splits)

lemma data_op_confined:
  assumes "data_wf s" and "data_op_of now own f req = Some op"
  shows "confined own f s (snd (do_op vj op s))"
proof -
  obtain r s' where d: "do_op vj op s = (r, s')" by force
  have "refines s (r, s') (spec_op vj op (view s))" using do_op_refines [OF assms(1), of vj op] d by simp
  then have r: "data_wf s'" "view s' = view s \<or> (r, view s') = spec_op vj op (view s)" by (auto simp: refines_def)
  obtain c k off v where op: "op = OpGet own f c k \<or> op = OpList own f c off \<or> op = OpPut now own f c k v \<or> op = OpDelete own f c k"
    using data_op_of_cases [OF assms(2)] by blast
  have "dv_deleted (snd (spec_op vj op x)) = dv_deleted x
      \<and> (\<forall>own' f'. (own', f') \<noteq> (own, f) \<longrightarrow> dv_items (snd (spec_op vj op x)) own' f' = dv_items x own' f')" for x
    using op by (elim disjE; simp split: if_split)
  with r(2) have "dv_deleted (view s') = dv_deleted (view s)
      \<and> (\<forall>own' f'. (own', f') \<noteq> (own, f) \<longrightarrow> dv_items (view s') own' f' = dv_items (view s) own' f')"
    by (metis snd_conv)
  with r(1) do_op_tables [OF op, of vj s] d show ?thesis by (simp add: confined_def)
qed

lemma confined_tables: "confined own f s s' \<Longrightarrow> other_tables s' = other_tables s"
  by (simp add: confined_def)

text \<open>
  The databases bound to a function, and the worlds its statements lead to: opening such a database,
  executing a statement on it the guard takes for a write, or asking a query the guard takes for a read.
\<close>

definition bound_ids :: "nat \<Rightarrow> nat \<Rightarrow> DataStore \<Rightarrow> nat set" where
  "bound_ids own f s = {db_id d | b d. b \<in> set (ds_bindings s) \<and> bi_owner b = own \<and> bi_function b = f \<and> d \<in> set (bound_databases s b)}"

inductive sql_reach :: "'w sql_engine \<Rightarrow> nat set \<Rightarrow> 'w \<Rightarrow> 'w \<Rightarrow> bool" for eng ids where
  reach_refl: "sql_reach eng ids w w"
| reach_open: "sql_reach eng ids w w1 \<Longrightarrow> d \<in> ids \<Longrightarrow> sql_reach eng ids w (snd (eng_open eng d w1))"
| reach_exec: "sql_reach eng ids w w1 \<Longrightarrow> d \<in> ids \<Longrightarrow> validateSQL st ps = Ok False
    \<Longrightarrow> sql_reach eng ids w (snd (eng_exec eng d st ps w1))"
| reach_query: "sql_reach eng ids w w1 \<Longrightarrow> d \<in> ids \<Longrightarrow> validateSQL st ps = Ok True
    \<Longrightarrow> sql_reach eng ids w (snd (eng_query eng d st ps w1))"

lemma bound_ids_tables: "other_tables s' = other_tables s \<Longrightarrow> bound_ids own f s' = bound_ids own f s"
  by (simp add: bound_ids_def bound_databases_def other_tables_def)

lemma databaseOwned_faults: "\<exists>fs. snd (databaseOwned own d s) = s\<lparr>ds_faults := fs\<rparr>"
proof -
  let ?g = "\<lambda>s. (if list_ex (\<lambda>r. db_owner r = own \<and> db_id r = d) (ds_databases s) then Ok () else Err ErrNotFound, s)"
  have "\<exists>fs. snd (stmt ?g s) = s\<lparr>ds_faults := fs\<rparr>"
  proof (rule stmt_cases [of ?g s])
    fix m fs assume "stmt ?g s = (Err (Failed m), s\<lparr>ds_faults := fs\<rparr>)"
    then show ?thesis unfolding snd_conv by (intro exI [of _ fs]) simp
  next
    fix fs assume "stmt ?g s = ?g (s\<lparr>ds_faults := fs\<rparr>)"
    then show ?thesis unfolding snd_conv by (intro exI [of _ fs]) simp
  qed
  then show ?thesis unfolding databaseOwned_def .
qed

lemma QueryDatabase_reach:
  assumes "sql_reach eng ids w0 w" and "d \<in> ids"
  shows "\<exists>fs w'. snd (QueryDatabase eng own d st ps (s, w)) = (s\<lparr>ds_faults := fs\<rparr>, w') \<and> sql_reach eng ids w0 w'"
proof -
  obtain r fs where own: "databaseOwned own d s = (r, s\<lparr>ds_faults := fs\<rparr>)"
    using databaseOwned_faults [of own d s] by (metis prod.collapse)
  obtain oe w1 where op: "eng_open eng d w = (oe, w1)" by force
  obtain er w2 where ex: "eng_exec eng d st ps w1 = (er, w2)" by force
  obtain qr w3 where qu: "eng_query eng d st ps w1 = (qr, w3)" by force
  have r1: "sql_reach eng ids w0 w1" using reach_open [OF assms] op by (metis snd_conv)
  have r2: "validateSQL st ps = Ok False \<Longrightarrow> sql_reach eng ids w0 w2"
    using reach_exec [OF r1 assms(2)] ex by (metis snd_conv)
  have r3: "validateSQL st ps = Ok True \<Longrightarrow> sql_reach eng ids w0 w3"
    using reach_query [OF r1 assms(2)] qu by (metis snd_conv)
  note q = QueryDatabase_def own op ex qu
  show ?thesis
  proof (cases r)
    case (Inl e)
    have "snd (QueryDatabase eng own d st ps (s, w)) = (s\<lparr>ds_faults := fs\<rparr>, w)" by (simp add: q Inl)
    with assms(1) show ?thesis by blast
  next
    case (Inr u)
    show ?thesis
    proof (cases "validateSQL st ps")
      case (Inl e)
      have "snd (QueryDatabase eng own d st ps (s, w)) = (s\<lparr>ds_faults := fs\<rparr>, w)" by (simp add: q Inl \<open>r = Inr u\<close>)
      with assms(1) show ?thesis by blast
    next
      case read: (Inr b)
      show ?thesis
      proof (cases oe)
        case (Some e)
        have "snd (QueryDatabase eng own d st ps (s, w)) = (s\<lparr>ds_faults := fs\<rparr>, w1)"
          by (simp add: q Some read \<open>r = Inr u\<close>)
        with r1 show ?thesis by blast
      next
        case None
        show ?thesis
        proof (cases b)
          case True
          have "snd (QueryDatabase eng own d st ps (s, w)) = (s\<lparr>ds_faults := fs\<rparr>, w3)"
            by (simp add: q None read True \<open>r = Inr u\<close> split: sum.split option.split prod.split)
          with r3 [unfolded read] True show ?thesis by auto
        next
          case False
          have "snd (QueryDatabase eng own d st ps (s, w)) = (s\<lparr>ds_faults := fs\<rparr>, w2)"
            by (simp add: q None read False \<open>r = Inr u\<close> split: sum.split)
          with r2 [unfolded read] False show ?thesis by auto
        qed
      qed
    qed
  qed
qed

lemma QueryBinding_reach:
  assumes "sql_reach eng ids w0 w" and ids: "bound_ids own f s \<subseteq> ids"
  shows "\<exists>fs w'. snd (QueryBinding eng own f alias st ps (s, w)) = (s\<lparr>ds_faults := fs\<rparr>, w') \<and> sql_reach eng ids w0 w'"
proof (cases "validBindingName alias")
  case False
  then have "snd (QueryBinding eng own f alias st ps (s, w)) = (s\<lparr>ds_faults := ds_faults s\<rparr>, w)"
    by (simp add: QueryBinding_def)
  with assms(1) show ?thesis by blast
next
  case True
  let ?ds = "concat (map (bound_databases s) (filter (\<lambda>b. bi_owner b = own \<and> bi_function b = f \<and> bi_alias b = alias) (ds_bindings s)))"
  let ?g = "\<lambda>s. (case concat (map (bound_databases s)
           (filter (\<lambda>b. bi_owner b = own \<and> bi_function b = f \<and> bi_alias b = alias) (ds_bindings s))) of
             [] \<Rightarrow> Err ErrNotFound | d # _ \<Rightarrow> Ok (db_id d), s)"
  have same: "bound_databases (s\<lparr>ds_faults := fs\<rparr>) = bound_databases s" for fs
    by (rule ext) (simp add: bound_databases_def)
  have "\<exists>fs r. stmt ?g s = (r, s\<lparr>ds_faults := fs\<rparr>) \<and> (\<forall>d. r = Ok d \<longrightarrow> d \<in> ids)"
  proof (rule stmt_cases [of ?g s])
    fix m fs assume "stmt ?g s = (Err (Failed m), s\<lparr>ds_faults := fs\<rparr>)"
    then show ?thesis by (intro exI [of _ fs] exI [of _ "Err (Failed m)"]) simp
  next
    fix fs assume st: "stmt ?g s = ?g (s\<lparr>ds_faults := fs\<rparr>)"
    have "db_id d \<in> ids" if "d \<in> set ?ds" for d using that ids by (auto simp: bound_ids_def)
    then show ?thesis using st same by (cases ?ds) auto
  qed
  then obtain fs r where st: "stmt ?g s = (r, s\<lparr>ds_faults := fs\<rparr>)" and ok: "\<And>d. r = Ok d \<Longrightarrow> d \<in> ids" by blast
  show ?thesis
  proof (cases r)
    case (Inl e)
    have "snd (QueryBinding eng own f alias st ps (s, w)) = (s\<lparr>ds_faults := fs\<rparr>, w)"
      using True st Inl by (simp add: QueryBinding_def)
    with assms(1) show ?thesis by blast
  next
    case (Inr d)
    have "QueryBinding eng own f alias st ps (s, w) = QueryDatabase eng own d st ps (s\<lparr>ds_faults := fs\<rparr>, w)"
      using True st Inr by (simp add: QueryBinding_def)
    moreover obtain fs' w' where "snd (QueryDatabase eng own d st ps (s\<lparr>ds_faults := fs\<rparr>, w)) = (s\<lparr>ds_faults := fs\<rparr>\<lparr>ds_faults := fs'\<rparr>, w')"
        "sql_reach eng ids w0 w'"
      using QueryDatabase_reach [OF assms(1) ok [OF Inr]] by blast
    ultimately show ?thesis by auto
  qed
qed

text \<open>
  What a request does to the store and the databases, whatever the reply; and the effect of a list of them.
\<close>

definition effect :: "'w function_env \<Rightarrow> nat \<Rightarrow> nat \<Rightarrow> dataRequest \<Rightarrow> DataStore \<times> 'w \<Rightarrow> DataStore \<times> 'w" where
  "effect env own f req sw = snd (perform env own f req (empty_reply []) sw)"

lemma perform_effect: "snd (perform env own f req reply sw) = effect env own f req sw"
proof (cases sw)
  case (Pair s w)
  show ?thesis
  proof (cases "rq_Type req = ''sql''")
    case True
    then show ?thesis unfolding effect_def perform_def Pair
      by (cases "QueryBinding (fe_engine env) own f (rq_Binding req) (rq_SQL req) (rq_Params req) (s, w)";
          cases "fst (QueryBinding (fe_engine env) own f (rq_Binding req) (rq_SQL req) (rq_Params req) (s, w))") simp_all
  next
    case db: False
    show ?thesis
    proof (cases "data_op_of (fe_now env w) own f req")
      case None
      with db show ?thesis by (simp add: effect_def perform_def Pair)
    next
      case (Some op)
      obtain r s' where d: "do_op (fe_valid_json env) op s = (r, s')" by force
      show ?thesis
      proof (cases r)
        case (Inr x)
        with db Some d show ?thesis by (cases x) (simp_all add: effect_def perform_def Pair)
      qed (use db Some d in \<open>simp add: effect_def perform_def Pair\<close>)
    qed
  qed
qed

lemma effect_confined:
  assumes "data_wf s" and "sql_reach (fe_engine env) ids w0 w" and "bound_ids own f s \<subseteq> ids"
  shows "confined own f s (fst (effect env own f req (s, w))) \<and> sql_reach (fe_engine env) ids w0 (snd (effect env own f req (s, w)))"
proof (cases "rq_Type req = ''sql''")
  case True
  obtain r fs w' where q: "QueryBinding (fe_engine env) own f (rq_Binding req) (rq_SQL req) (rq_Params req) (s, w) = (r, s\<lparr>ds_faults := fs\<rparr>, w')"
      and "sql_reach (fe_engine env) ids w0 w'"
    using QueryBinding_reach [OF assms(2,3)] by (metis prod.collapse)
  moreover have "effect env own f req (s, w) = (s\<lparr>ds_faults := fs\<rparr>, w')"
    using True q by (cases r) (simp_all add: effect_def perform_def)
  ultimately show ?thesis using confined_faults [OF assms(1)] by simp
next
  case db: False
  show ?thesis
  proof (cases "data_op_of (fe_now env w) own f req")
    case None
    with db show ?thesis using confined_refl [OF assms(1)] assms(2) by (simp add: effect_def perform_def)
  next
    case (Some op)
    obtain r s' where d: "do_op (fe_valid_json env) op s = (r, s')" by force
    have "effect env own f req (s, w) = (s', w)"
    proof (cases r)
      case (Inr x)
      with db Some d show ?thesis by (cases x) (simp_all add: effect_def perform_def)
    qed (use db Some d in \<open>simp add: effect_def perform_def\<close>)
    with data_op_confined [OF assms(1) Some, of "fe_valid_json env"] d assms(2) show ?thesis by simp
  qed
qed

subsection \<open>A run of a function\<close>

text \<open>What the guest does: it writes to its output and reads from its input; it may go on after an error.\<close>

datatype guest_event = GWrite bytes | GRead nat

fun guest_step :: "'w function_env \<Rightarrow> nat \<Rightarrow> nat \<Rightarrow> guest_event \<Rightarrow> dataInput \<times> 'w dataOutput \<Rightarrow> dataInput \<times> 'w dataOutput" where
  "guest_step env own f (GWrite p) (i, out) = (i, snd (out_Write env own f p out))"
| "guest_step env own f (GRead n) (i, out) =
     (case in_Read n i (out_replies out) of (_, i, replies) \<Rightarrow> (i, out\<lparr>out_replies := replies\<rparr>))"

text \<open>
  The output after some requests since the store \<open>s0\<close> and the world \<open>w0\<close>.
\<close>

definition out_inv :: "'w function_env \<Rightarrow> nat \<Rightarrow> nat \<Rightarrow> DataStore \<Rightarrow> 'w \<Rightarrow> 'w dataOutput \<Rightarrow> bool" where
  "out_inv env own f s0 w0 out \<longleftrightarrow> length (lw_buf (out_final out)) \<le> MaxOutputBytes
     \<and> confined own f s0 (out_store out) \<and> sql_reach (fe_engine env) (bound_ids own f s0) w0 (out_world out)
     \<and> (\<exists>reqs. length reqs \<le> min (out_ops out) maxDataOperationsPerInvocation
          \<and> (out_store out, out_world out) = foldl (\<lambda>sw req. effect env own f req sw) (s0, w0) reqs)"

lemma send_reply_fields:
  "out_final (snd (send_reply env r out)) = out_final out" "out_store (snd (send_reply env r out)) = out_store out"
  "out_world (snd (send_reply env r out)) = out_world out" "out_ops (snd (send_reply env r out)) = out_ops out"
  by (simp_all add: send_reply_def)

lemma out_inv_cong:
  assumes "out_final out' = out_final out" "out_store out' = out_store out" "out_world out' = out_world out" "out_ops out \<le> out_ops out'"
  shows "out_inv env own f s0 w0 out \<Longrightarrow> out_inv env own f s0 w0 out'"
  using assms unfolding out_inv_def by (metis min.mono order_refl order_trans)

lemma limited_Write_bound:
  "length (lw_buf w) \<le> MaxOutputBytes \<Longrightarrow> length (lw_buf (snd (limited_Write p w))) \<le> MaxOutputBytes"
  by (simp add: limited_Write_def)

lemma out_inv_final:
  assumes "out_inv env own f s0 w0 out"
  shows "out_inv env own f s0 w0 (snd (case limited_Write p (out_final out) of (e, v) \<Rightarrow> (e, out\<lparr>out_final := v\<rparr>)))"
  using assms limited_Write_bound [of "out_final out" p]
  by (cases "limited_Write p (out_final out)") (simp add: out_inv_def)

lemma out_inv_request:
  assumes inv: "out_inv env own f s0 w0 out" and "out_ops out < maxDataOperationsPerInvocation"
    and e: "effect env own f req (out_store out, out_world out) = (s, w)"
  shows "out_inv env own f s0 w0 (out\<lparr>out_ops := out_ops out + 1, out_store := s, out_world := w\<rparr>)"
proof -
  obtain reqs where reqs: "length reqs \<le> min (out_ops out) maxDataOperationsPerInvocation"
      "(out_store out, out_world out) = foldl (\<lambda>sw req. effect env own f req sw) (s0, w0) reqs"
    using inv by (auto simp: out_inv_def)
  have c: "confined own f s0 (out_store out)" and r: "sql_reach (fe_engine env) (bound_ids own f s0) w0 (out_world out)"
    using inv by (simp_all add: out_inv_def)
  have "bound_ids own f (out_store out) \<subseteq> bound_ids own f s0"
    using bound_ids_tables [OF confined_tables [OF c]] by simp
  moreover have "data_wf (out_store out)" using c by (simp add: confined_def)
  ultimately have "confined own f (out_store out) s \<and> sql_reach (fe_engine env) (bound_ids own f s0) w0 w"
    using effect_confined [OF _ r] e by (metis fst_conv snd_conv)
  moreover have "(s, w) = foldl (\<lambda>sw req. effect env own f req sw) (s0, w0) (reqs @ [req])"
    unfolding foldl_append foldl.simps reqs(2) [symmetric] e ..
  moreover have "length (reqs @ [req]) \<le> min (out_ops out + 1) maxDataOperationsPerInvocation"
    using reqs(1) assms(2) by simp
  ultimately have "\<exists>reqs'. length reqs' \<le> min (out_ops out + 1) maxDataOperationsPerInvocation
        \<and> (s, w) = foldl (\<lambda>sw req. effect env own f req sw) (s0, w0) reqs'"
      and "confined own f s0 s" "sql_reach (fe_engine env) (bound_ids own f s0) w0 w"
    using confined_trans [OF c] by blast+
  with inv show ?thesis by (simp add: out_inv_def)
qed

lemma out_line_inv:
  assumes inv: "out_inv env own f s0 w0 out"
  shows "out_inv env own f s0 w0 (snd (out_line env own f line out))"
proof (cases "fe_request env line")
  case None
  then show ?thesis using out_inv_final [OF inv, of "line @ [CHR 10]"] by (simp add: out_line_def)
next
  case (Some req)
  show ?thesis
  proof (cases "rq_Type req = ''db'' \<or> rq_Type req = ''sql''")
    case False
    then show ?thesis using Some out_inv_final [OF inv, of "line @ [CHR 10]"] by (simp add: out_line_def)
  next
    case ours: True
    let ?reply = "empty_reply (rq_Type req @ ''.result'')"
    show ?thesis
    proof (cases "out_ops out < maxDataOperationsPerInvocation")
      case False
      then have "out_line env own f line out = send_reply env (?reply\<lparr>re_Error := Message ''function data operation limit reached''\<rparr>)
          (out\<lparr>out_ops := out_ops out + 1\<rparr>)"
        using Some ours unfolding out_line_def Let_def by simp
      with out_inv_cong [OF _ _ _ _ inv] show ?thesis by (simp add: send_reply_fields)
    next
      case True
      obtain r s w where e: "perform env own f req ?reply (out_store out, out_world out) = (r, s, w)"
        by (metis prod.exhaust)
      then have "effect env own f req (out_store out, out_world out) = (s, w)"
        using perform_effect [of env own f req ?reply "(out_store out, out_world out)"] by simp
      from out_inv_request [OF inv True this]
      have "out_inv env own f s0 w0 (out\<lparr>out_ops := out_ops out + 1, out_store := s, out_world := w\<rparr>)" .
      moreover have "\<exists>reply. out_line env own f line out
          = send_reply env reply (out\<lparr>out_ops := out_ops out + 1, out_store := s, out_world := w\<rparr>)"
        using Some ours True e unfolding out_line_def Let_def by (simp; blast)
      ultimately show ?thesis using out_inv_cong by (metis send_reply_fields order_refl)
    qed
  qed
qed

lemma out_inv_simps [simp]:
  "out_inv env own f s0 w0 (out\<lparr>out_pending := p\<rparr>) = out_inv env own f s0 w0 out"
  "out_inv env own f s0 w0 (out\<lparr>out_replies := rs\<rparr>) = out_inv env own f s0 w0 out"
  "out_inv env own f s0 w0 (out\<lparr>out_exceeded := b\<rparr>) = out_inv env own f s0 w0 out"
  "out_inv env own f s0 w0 (out\<lparr>out_total := n\<rparr>) = out_inv env own f s0 w0 out"
  by (simp_all add: out_inv_def)

lemma drain_inv: "out_inv env own f s0 w0 out \<Longrightarrow> out_inv env own f s0 w0 (snd (drain env own f pending out))"
proof (induction env own f pending out rule: drain.induct)
  case (1 env own f pending out)
  let ?line = "TrimSpace (takeWhile (\<lambda>c. c \<noteq> CHR 10) pending)" and ?rest = "tl (dropWhile (\<lambda>c. c \<noteq> CHR 10) pending)"
  note d = drain.simps [of env own f pending out, unfolded Let_def]
  show ?case
  proof (cases "CHR 10 \<in> set pending")
    case False
    with "1.prems" d show ?thesis by simp
  next
    case nl: True
    show ?thesis
    proof (cases "?line = []")
      case True
      with nl d "1.IH"(1) [OF _ refl refl True "1.prems"] show ?thesis by simp
    next
      case False
      obtain e out' where l: "out_line env own f ?line out = (e, out')" by force
      with out_line_inv [OF "1.prems", of ?line] have inv: "out_inv env own f s0 w0 out'" by simp
      show ?thesis
      proof (cases e)
        case None
        have "out_inv env own f s0 w0 (snd (drain env own f ?rest out'))"
          using "1.IH"(2) [OF _ refl refl False l [symmetric] None inv] nl by simp
        then show ?thesis using nl False l None d by simp
      next
        case (Some x)
        with nl False l d inv show ?thesis by simp
      qed
    qed
  qed
qed

lemma guest_step_inv:
  assumes "out_inv env own f s0 w0 (snd io)"
  shows "out_inv env own f s0 w0 (snd (guest_step env own f ev io))"
proof (cases io)
  case (Pair i out)
  show ?thesis
  proof (cases ev)
    case (GWrite p)
    with assms Pair show ?thesis
      using drain_inv [of env own f s0 w0 "out\<lparr>out_total := out_total out + length p\<rparr>" "out_pending out @ p"]
      by (simp add: out_Write_def)
  next
    case (GRead n)
    with assms Pair show ?thesis by (cases "in_Read n i (out_replies out)") simp
  qed
qed

definition guest_start :: "bytes \<Rightarrow> DataStore \<Rightarrow> 'w \<Rightarrow> dataInput \<times> 'w dataOutput" where
  "guest_start input s w = (\<lparr>in_current = input @ [CHR 10]\<rparr>, \<lparr>out_final = \<lparr>lw_buf = [], lw_exceeded = False\<rparr>, out_pending = [],
     out_total = 0, out_ops = 0, out_exceeded = False, out_replies = [], out_store = s, out_world = w\<rparr>)"

definition guest_run :: "'w function_env \<Rightarrow> nat \<Rightarrow> nat \<Rightarrow> guest_event list \<Rightarrow> dataInput \<times> 'w dataOutput \<Rightarrow> dataInput \<times> 'w dataOutput" where
  "guest_run env own f evs io = foldl (\<lambda>io ev. guest_step env own f ev io) io evs"

lemma guest_run_inv:
  "out_inv env own f s0 w0 (snd io) \<Longrightarrow> out_inv env own f s0 w0 (snd (guest_run env own f evs io))"
  unfolding guest_run_def by (induction evs rule: rev_induct) (simp_all add: guest_step_inv)

lemma guest_start_inv: "data_wf s \<Longrightarrow> out_inv env own f s w (snd (guest_start input s w))"
  by (simp add: out_inv_def guest_start_def confined_refl reach_refl)

lemma out_Finish_inv:
  assumes "out_inv env own f s0 w0 out"
  shows "out_inv env own f s0 w0 (snd (out_Finish env own f out))"
  using out_line_inv [OF assms, of "TrimSpace (out_pending out)"] assms
  by (cases "out_line env own f (TrimSpace (out_pending out)) out") (auto simp: out_Finish_def split: option.splits)

text \<open>
  C28. Whatever a function writes and reads, up to the end of its run: it has the effect of at most 32
  requests on the store and its databases, one after the other; only its own items differ; in SQL it reaches only databases
  that are bound to it, with statements the guard accepts; and its output has at most 131072 bytes.
\<close>

theorem function_confined:
  assumes "data_wf s0" and "guest_run env own f evs (guest_start input s0 w0) = (i, out)"
    and "out_Finish env own f out = (r, out')"
  shows "length (lw_buf (out_final out')) \<le> 131072 \<and> confined own f s0 (out_store out')
     \<and> sql_reach (fe_engine env) (bound_ids own f s0) w0 (out_world out')
     \<and> (\<exists>reqs. length reqs \<le> 32 \<and> (out_store out', out_world out') = foldl (\<lambda>sw req. effect env own f req sw) (s0, w0) reqs)"
proof -
  have "out_inv env own f s0 w0 (snd (guest_run env own f evs (guest_start input s0 w0)))"
    by (rule guest_run_inv [OF guest_start_inv [OF assms(1)]])
  then have "out_inv env own f s0 w0 out'" using out_Finish_inv assms(2,3) by (metis snd_conv)
  then show ?thesis by (auto simp: out_inv_def maxDataOperationsPerInvocation_def MaxOutputBytes_def)
qed

text \<open>A function that writes one item and prints its answer.\<close>

definition example_engine :: "unit sql_engine" where
  "example_engine = \<lparr>eng_open = (\<lambda>_ w. (None, w)), eng_exec = (\<lambda>_ _ _ w. (Ok 0, w)),
     eng_query = (\<lambda>_ _ _ w. (Ok ([], [], None), w)), eng_json_len = (\<lambda>_. Some 2)\<rparr>"

definition example_request :: dataRequest where
  "example_request = \<lparr>rq_Type = ''db'', rq_Op = ''put'', rq_Collection = ''c'', rq_Key = ''k'', rq_Value = ''1'', rq_Offset = 0,
     rq_Binding = [], rq_SQL = [], rq_Params = []\<rparr>"

definition example_env :: "unit function_env" where
  "example_env = \<lparr>fe_engine = example_engine, fe_valid_json = (\<lambda>_. True), fe_now = (\<lambda>_. 5),
     fe_request = (\<lambda>line. if line = ''p'' then Some example_request else None), fe_encode = (\<lambda>_. ''r'')\<rparr>"

definition example_run :: "dataInput \<times> unit dataOutput" where
  "example_run = guest_run example_env 3 2 [GRead 9, GWrite (''p'' @ [CHR 10]), GWrite ''{}''] (guest_start ''{}'' empty_store ())"

definition example_end :: "(fn_err + bytes) \<times> unit dataOutput" where
  "example_end = out_Finish example_env 3 2 (snd example_run)"

lemma example_trim: "TrimSpace [] = []" "TrimSpace ''p'' = ''p''" "TrimSpace ''{}'' = ''{}''" "TrimSpace (''{}'' @ [CHR 10]) = ''{}''"
  by code_simp+

definition example_item :: data_row where
  "example_item = \<lparr>dr_owner = 3, dr_function = 2, dr_collection = ''c'', dr_key = ''k'', dr_value = ''1'', dr_updated = 5\<rparr>"

lemma example_perform: "perform example_env 3 2 example_request r (empty_store, ())
   = (Ok (r\<lparr>re_Item := Some (row_to_item example_item)\<rparr>), empty_store\<lparr>ds_data := [example_item]\<rparr>, ())"
proof -
  have "do_op (\<lambda>_. True) (OpPut 5 3 2 ''c'' ''k'' ''1'') empty_store
      = (Ok (Item (row_to_item example_item)), empty_store\<lparr>ds_data := [example_item]\<rparr>)"
    by (simp add: data_Put_def empty_store_def MaxDataValueBytes_def MaxDataItemsPerFunction_def eval_nat_numeral
        upsert_item_def row_to_item_def validCollection_def validDataKey_def name_like_def char_class_defs wrap_def example_item_def)
  then show ?thesis
    by (simp add: perform_def example_env_def example_request_def data_op_of_def)
qed

definition example_out :: "nat \<Rightarrow> bytes \<Rightarrow> nat \<Rightarrow> bytes list \<Rightarrow> DataStore \<Rightarrow> unit dataOutput" where
  "example_out n p k rs s = \<lparr>out_final = \<lparr>lw_buf = [], lw_exceeded = False\<rparr>, out_pending = p, out_total = n, out_ops = k,
     out_exceeded = False, out_replies = rs, out_store = s, out_world = ()\<rparr>"

lemma example_line: "out_line example_env 3 2 ''p'' (example_out 2 [] 0 [] empty_store)
   = (None, example_out 2 [] 1 [''r'' @ [CHR 10]] (empty_store\<lparr>ds_data := [example_item]\<rparr>))"
proof -
  have "fe_request example_env ''p'' = Some example_request" "rq_Type example_request = ''db''" "fe_encode example_env r = ''r''" for r
    by (simp_all add: example_env_def example_request_def)
  then show ?thesis
    unfolding out_line_def Let_def
    by (simp add: maxDataOperationsPerInvocation_def example_perform send_reply_def example_out_def)
qed

lemma example_run_value: "snd example_run = example_out 4 ''{}'' 1 [''r'' @ [CHR 10]] (empty_store\<lparr>ds_data := [example_item]\<rparr>)"
proof -
  have w1: "snd (out_Write example_env 3 2 (''p'' @ [CHR 10]) (example_out 0 [] 0 [] empty_store))
      = example_out 2 [] 1 [''r'' @ [CHR 10]] (empty_store\<lparr>ds_data := [example_item]\<rparr>)"
  proof -
    have "out_Write example_env 3 2 (''p'' @ [CHR 10]) (example_out 0 [] 0 [] empty_store)
        = drain example_env 3 2 (''p'' @ [CHR 10]) (example_out 2 [] 0 [] empty_store)"
      by (simp add: out_Write_def example_out_def MaxOutputBytes_def numeral_2_eq_2)
    also have "\<dots> = drain example_env 3 2 [] (example_out 2 [] 1 [''r'' @ [CHR 10]] (empty_store\<lparr>ds_data := [example_item]\<rparr>))"
      by (subst drain.simps) (simp add: example_trim example_line del: One_nat_def)
    finally show ?thesis by (simp add: drain.simps example_out_def)
  qed
  have w2: "snd (out_Write example_env 3 2 ''{}'' (example_out 2 [] 1 rs s)) = example_out 4 ''{}'' 1 rs s" for rs s
    by (simp add: out_Write_def example_out_def MaxOutputBytes_def drain.simps)
  have "snd (guest_step example_env 3 2 (GRead 9) (guest_start ''{}'' empty_store ())) = example_out 0 [] 0 [] empty_store"
    by (simp add: guest_start_def in_Read_def example_out_def)
  with w1 w2 show ?thesis
    unfolding example_run_def guest_run_def foldl.simps by (metis guest_step.simps(1) prod.collapse snd_conv)
qed

lemma example_end_value: "fst example_end = Ok ''{}''" "ds_data (out_store (snd example_end)) = [example_item]"
proof -
  have "fe_request example_env ''{}'' = None" by (simp add: example_env_def)
  then have "out_Finish example_env 3 2 (snd example_run)
      = (Ok ''{}'', (example_out 4 ''{}'' 1 [''r'' @ [CHR 10]] (empty_store\<lparr>ds_data := [example_item]\<rparr>))
           \<lparr>out_final := \<lparr>lw_buf = ''{}'' @ [CHR 10], lw_exceeded = False\<rparr>\<rparr>)"
    unfolding example_run_value out_Finish_def
    by (simp add: example_out_def example_trim example_trim(4) [simplified] out_line_def limited_Write_def MaxOutputBytes_def)
  then show "fst example_end = Ok ''{}''" "ds_data (out_store (snd example_end)) = [example_item]"
    unfolding example_end_def by (simp_all add: example_out_def)
qed

theorem function_confined_witness:
  "fst example_end = Ok ''{}'' \<and> confined 3 2 empty_store (out_store (snd example_end))
   \<and> ds_data (out_store (snd example_end)) = [example_item] \<and> length (lw_buf (out_final (snd example_end))) \<le> 131072"
proof -
  have wf: "data_wf empty_store" by (simp add: data_wf_def empty_store_def)
  have run: "guest_run example_env 3 2 [GRead 9, GWrite (''p'' @ [CHR 10]), GWrite ''{}''] (guest_start ''{}'' empty_store ())
      = (fst example_run, snd example_run)"
    by (simp add: example_run_def)
  have fin: "out_Finish example_env 3 2 (snd example_run) = (fst example_end, snd example_end)" by (simp add: example_end_def)
  from function_confined [OF wf run fin] example_end_value show ?thesis by simp
qed

end
