(* ===== verification/Functions_Service.thy ===== *)
theory Functions_Service
  imports Ent_Db Function_Protocol "HOL-Library.Word"
begin

text \<open>
  User functions, \<^verbatim>\<open>internal/domain/functions\<close>: \<^verbatim>\<open>types.go\<close>, \<^verbatim>\<open>repository.go\<close>, \<^verbatim>\<open>service.go\<close>,
  \<^verbatim>\<open>key.go\<close> and \<^verbatim>\<open>builder.go\<close>. A function is a WASI module in the database; it is run on the server,
  by its owner or, with a key, by anyone.

  The WebAssembly runtime, the builder, SHA-256 and the random source are parameters. What a guest does
  while it runs is a list of writes and reads, which the theorems take as arbitrary. The texts that
  wrapping adds to an error are left out.
\<close>

subsection \<open>Types\<close>

text \<open>An owner of \<open>None\<close> is \<^verbatim>\<open>uuid.Nil\<close>: the query did not load the owner.\<close>

record Function =
  fn_ID :: nat
  fn_OwnerID :: "nat option"
  fn_Name :: bytes
  fn_Wasm :: bytes
  fn_Language :: bytes
  fn_DataMode :: bool
  fn_Source :: bytes
  fn_KeyHash :: bytes
  fn_KeyEnabled :: bool
  fn_KeyCreatedAt :: "int option"
  fn_KeyExpiresAt :: "int option"
  fn_CreatedAt :: int
  fn_UpdatedAt :: int

record Result =
  rs_Stdout :: bytes
  rs_Stderr :: bytes
  rs_ExitCode :: "32 word"

record Deployment =
  dp_Language :: bytes
  dp_Source :: bytes
  dp_Wasm :: bytes
  dp_DataMode :: bool

definition MaxWasmBytes :: nat where "MaxWasmBytes = 33554432"
definition MaxSourceBytes :: nat where "MaxSourceBytes = 262144"
definition MaxInputBytes :: nat where "MaxInputBytes = 131072"
definition MaxFunctionsPerUser :: nat where "MaxFunctionsPerUser = 20"

subsection \<open>Repository\<close>

text \<open>The errors of the database the repository hands on.\<close>

fun raw_err :: "db_err \<Rightarrow> fn_err" where
  "raw_err (Driver m) = Failed m"
| "raw_err Constraint = Failed ''constraint failed''"
| "raw_err db_err.NotFound = ErrNotFound"
| "raw_err NotSingular = Failed ''not singular''"

definition owned_fn :: "nat \<Rightarrow> function_row \<Rightarrow> bool" where
  "owned_fn owner r \<longleftrightarrow> f_owner r = owner"

definition toFunction :: "nat option \<Rightarrow> function_row \<Rightarrow> Function" where
  "toFunction owner row = \<lparr>fn_ID = f_id row, fn_OwnerID = owner, fn_Name = f_name row, fn_Wasm = f_wasm row,
     fn_Language = f_language row, fn_DataMode = f_data_mode row, fn_Source = f_source row, fn_KeyHash = f_key_hash row,
     fn_KeyEnabled = (0 < length (f_key_hash row)), fn_KeyCreatedAt = f_key_created_at row,
     fn_KeyExpiresAt = f_key_expires_at row, fn_CreatedAt = f_created_at row, fn_UpdatedAt = f_updated_at row\<rparr>"

type_synonym 'a fnop = "db \<Rightarrow> (fn_err + 'a) \<times> db"

text \<open>The list selects neither the module nor the source.\<close>

definition fr_List :: "nat \<Rightarrow> Function list fnop" where
  "fr_List owner d = (case query (\<lambda>d. all_rows (function_tbl d) (owned_fn owner)) d of
     (Err e, d) \<Rightarrow> (Err (raw_err e), d)
   | (Ok rows, d) \<Rightarrow> (Ok (map (\<lambda>r. toFunction None (r\<lparr>f_wasm := [], f_source := []\<rparr>)) (sort_key (\<lambda>r. - f_created_at r) rows)), d))"

definition fr_Get :: "nat \<Rightarrow> nat \<Rightarrow> Function fnop" where
  "fr_Get owner ident d = (case query (\<lambda>d. only_row (function_tbl d) (\<lambda>r. f_id r = ident \<and> owned_fn owner r)) d of
     (Err e, d) \<Rightarrow> (Err (raw_err e), d)
   | (Ok row, d) \<Rightarrow> (Ok ((toFunction None row)\<lparr>fn_OwnerID := Some owner\<rparr>), d))"

definition fr_GetPublic :: "nat \<Rightarrow> Function fnop" where
  "fr_GetPublic ident d = (case query (\<lambda>d. only_row (function_tbl d) (\<lambda>r. f_id r = ident)) d of
     (Err e, d) \<Rightarrow> (Err (raw_err e), d)
   | (Ok row, d) \<Rightarrow> (Ok (toFunction (Some (f_owner row)) row), d))"

text \<open>\<^verbatim>\<open>UpdateOneID(id).Where(owned(owner))...Save\<close>: the updated row, if there is one; it is stamped.\<close>

definition update_one :: "nat \<Rightarrow> nat \<Rightarrow> (function_row \<Rightarrow> function_row) \<Rightarrow> Function fnop" where
  "update_one owner ident g d = (case exec (\<lambda>d. let p = (\<lambda>r. f_id r = ident \<and> owned_fn owner r);
         g' = (\<lambda>r. (g r)\<lparr>f_updated_at := clock d\<rparr>) in
       (map g' (filter p (function_tbl d)), d\<lparr>function_tbl := update_rows p g' (function_tbl d)\<rparr>)) d of
     (Err e, d) \<Rightarrow> (Err (raw_err e), d)
   | (Ok [], d) \<Rightarrow> (Err ErrNotFound, d)
   | (Ok (row # _), d) \<Rightarrow> (Ok (toFunction None row), d))"

definition fr_SetKey :: "nat \<Rightarrow> nat \<Rightarrow> bytes \<Rightarrow> int \<Rightarrow> int \<Rightarrow> Function fnop" where
  "fr_SetKey owner ident hash created expires = update_one owner ident
     (\<lambda>r. r\<lparr>f_key_hash := hash, f_key_created_at := Some created, f_key_expires_at := Some expires\<rparr>)"

definition fr_DeleteKey :: "nat \<Rightarrow> nat \<Rightarrow> Function fnop" where
  "fr_DeleteKey owner ident = update_one owner ident
     (\<lambda>r. r\<lparr>f_key_hash := [], f_key_created_at := None, f_key_expires_at := None\<rparr>)"

text \<open>The validators of the schema refuse an empty name and an empty module before the statement.\<close>

definition fr_CreateDeployment :: "nat \<Rightarrow> bytes \<Rightarrow> Deployment \<Rightarrow> Function fnop" where
  "fr_CreateDeployment owner name dep d =
     (if name = [] \<or> dp_Wasm dep = [] then (Err (Failed ''validator failed''), d)
      else case exec (\<lambda>d. let row = \<lparr>f_id = seq d, f_name = name, f_wasm = dp_Wasm dep, f_language = dp_Language dep,
             f_data_mode = dp_DataMode dep, f_source = dp_Source dep, f_key_hash = [], f_key_created_at = None,
             f_key_expires_at = None, f_created_at = clock d, f_updated_at = clock d, f_owner = owner\<rparr> in
           (row, d\<lparr>function_tbl := function_tbl d @ [row], seq := Suc (seq d)\<rparr>)) d of
        (Err e, d) \<Rightarrow> (Err (if e = Constraint then ErrConflict else raw_err e), d)
      | (Ok row, d) \<Rightarrow> (Ok (toFunction None row), d))"

definition fr_Create :: "nat \<Rightarrow> bytes \<Rightarrow> bytes \<Rightarrow> Function fnop" where
  "fr_Create owner name wasm = fr_CreateDeployment owner name
     \<lparr>dp_Language = ''wasm'', dp_Source = [], dp_Wasm = wasm, dp_DataMode = False\<rparr>"

definition fr_UpdateDeployment :: "nat \<Rightarrow> nat \<Rightarrow> Deployment \<Rightarrow> Function fnop" where
  "fr_UpdateDeployment owner ident dep d =
     (if dp_Wasm dep = [] then (Err (Failed ''validator failed''), d)
      else update_one owner ident (\<lambda>r. r\<lparr>f_wasm := dp_Wasm dep, f_language := dp_Language dep,
        f_data_mode := dp_DataMode dep, f_source := dp_Source dep\<rparr>) d)"

definition fr_Update :: "nat \<Rightarrow> nat \<Rightarrow> bytes \<Rightarrow> Function fnop" where
  "fr_Update owner ident wasm = fr_UpdateDeployment owner ident
     \<lparr>dp_Language = ''wasm'', dp_Source = [], dp_Wasm = wasm, dp_DataMode = False\<rparr>"

definition fr_Delete :: "nat \<Rightarrow> nat \<Rightarrow> unit fnop" where
  "fr_Delete owner ident d = (case exec (\<lambda>d. let p = (\<lambda>r. f_id r = ident \<and> owned_fn owner r) in
       (length (filter p (function_tbl d)), d\<lparr>function_tbl := filter (\<lambda>r. \<not> p r) (function_tbl d)\<rparr>)) d of
     (Err e, d) \<Rightarrow> (Err (raw_err e), d)
   | (Ok n, d) \<Rightarrow> if n = 0 then (Err ErrNotFound, d) else (Ok (), d))"

subsection \<open>The service\<close>

text \<open>A compiled module: its imported functions, imported memories and exported functions, with their types.\<close>

record wasm_module =
  md_imports :: "(bytes \<times> bytes \<times> nat list \<times> nat list) list"
  md_memories :: nat
  md_exports :: "(bytes \<times> nat list \<times> nat list) list"

text \<open>How a run ends: \<^verbatim>\<open>_start\<close> returns, exits with a code other than 0, traps, or the time is over.\<close>

datatype stop = Finished | Exited "32 word" | Trapped | Expired

record guest_trace =
  gr_events :: "guest_event list"
  gr_stderr :: "bytes list"
  gr_stop :: stop

text \<open>
  What the service is made of. \<open>sv_rand\<close> gives 32 bytes or an error, \<open>sv_wasi\<close> the types of the host
  functions, \<open>sv_guest\<close> the run of a module with its arguments and its input, \<open>sv_compact\<close> is
  \<^verbatim>\<open>json.Compact\<close>. The builder may be missing.
\<close>

record 'w function_svc =
  sv_now :: "'w \<Rightarrow> int"
  sv_rand :: "'w \<Rightarrow> (bytes + bytes) \<times> 'w"
  sv_sha256 :: "bytes \<Rightarrow> bytes"
  sv_builder :: "(bytes \<Rightarrow> bytes \<Rightarrow> 'w \<Rightarrow> (fn_err + bytes) \<times> 'w) option"
  sv_compile :: "bytes \<Rightarrow> 'w \<Rightarrow> (engine_err + wasm_module) \<times> 'w"
  sv_wasi :: "bytes \<Rightarrow> (nat list \<times> nat list) option"
  sv_guest :: "bytes \<Rightarrow> bytes list \<Rightarrow> bytes \<Rightarrow> 'w \<Rightarrow> guest_trace \<times> 'w"
  sv_compact :: "bytes \<Rightarrow> bytes option"
  sv_protocol :: "'w function_env"

text \<open>The state: the database, the slots other requests hold, the data store, if it is set, and the world.\<close>

record 'w fstate =
  fs_db :: db
  fs_slots :: nat
  fs_data :: "DataStore option"
  fs_world :: 'w

type_synonym ('w, 'a) svcop = "'w fstate \<Rightarrow> (fn_err + 'a) \<times> 'w fstate"

definition validName :: "bytes \<Rightarrow> bool" where
  "validName = name_like is_lower (\<lambda>c. is_lower c \<or> is_digit c \<or> c = CHR ''-'') 62"

definition on_db :: "'a fnop \<Rightarrow> ('w, 'a) svcop" where
  "on_db f st = (case f (fs_db st) of (r, d) \<Rightarrow> (r, st\<lparr>fs_db := d\<rparr>))"

fun import_ok :: "(bytes \<Rightarrow> (nat list \<times> nat list) option) \<Rightarrow> bytes \<times> bytes \<times> nat list \<times> nat list \<Rightarrow> bool" where
  "import_ok wasi (m, name, params, results) \<longleftrightarrow> m = ''wasi_snapshot_preview1'' \<and> wasi name = Some (params, results)"

definition fs_validate :: "'w function_svc \<Rightarrow> bytes \<Rightarrow> 'w fstate \<Rightarrow> fn_err option \<times> 'w fstate" where
  "fs_validate svc wasm st =
     (if wasm = [] \<or> MaxWasmBytes < length wasm then (Some ErrInvalidWasm, st)
      else if 4 \<le> fs_slots st then (Some ErrBusy, st)
      else case sv_compile svc wasm (fs_world st) of
        (Err TimedOut, w) \<Rightarrow> (Some ErrTimeout, st\<lparr>fs_world := w\<rparr>)
      | (Err (SqlError _), w) \<Rightarrow> (Some ErrInvalidWasm, st\<lparr>fs_world := w\<rparr>)
      | (Ok m, w) \<Rightarrow>
          (if \<not> list_all (import_ok (sv_wasi svc)) (md_imports m) then Some ErrInvalidWasm
           else if md_memories m \<noteq> 0 then Some ErrInvalidWasm
           else if md_exports m = [] then Some ErrInvalidWasm
           else if map_of (md_exports m) ''_start'' \<noteq> Some ([], []) then Some ErrInvalidWasm
           else None, st\<lparr>fs_world := w\<rparr>))"

definition fs_build :: "'w function_svc \<Rightarrow> bytes \<Rightarrow> bytes \<Rightarrow> ('w, Deployment) svcop" where
  "fs_build svc language source st =
     (if language \<notin> {''rust'', ''go'', ''javascript'', ''python''} then (Err ErrInvalidLanguage, st)
      else if source = [] \<or> MaxSourceBytes < length source then (Err (Failed ''source must be 1 to 262144 bytes''), st)
      else case sv_builder svc of None \<Rightarrow> (Err ErrBuildUnavailable, st)
      | Some build \<Rightarrow> (case build language source (fs_world st) of
          (Err e, w) \<Rightarrow> (Err e, st\<lparr>fs_world := w\<rparr>)
        | (Ok wasm, w) \<Rightarrow> (case fs_validate svc wasm (st\<lparr>fs_world := w\<rparr>) of
            (Some e, st) \<Rightarrow> (Err e, st)
          | (None, st) \<Rightarrow> (Ok \<lparr>dp_Language = language, dp_Source = source, dp_Wasm = wasm, dp_DataMode = False\<rparr>, st))))"

text \<open>The part of \<^verbatim>\<open>Create\<close> and \<^verbatim>\<open>CreateSource\<close> that holds \<^verbatim>\<open>createMu\<close>.\<close>

definition create_locked :: "nat \<Rightarrow> bytes \<Rightarrow> (DataStore option \<Rightarrow> fn_err + Deployment) \<Rightarrow> ('w, Function) svcop" where
  "create_locked owner name dep st = (case on_db (fr_List owner) st of
     (Err e, st) \<Rightarrow> (Err e, st)
   | (Ok items, st) \<Rightarrow> if MaxFunctionsPerUser \<le> length items then (Err ErrLimit, st)
      else case dep (fs_data st) of Err e \<Rightarrow> (Err e, st)
      | Ok dep \<Rightarrow> on_db (fr_CreateDeployment owner name dep) st)"

definition CreateSource :: "'w function_svc \<Rightarrow> nat \<Rightarrow> bytes \<Rightarrow> bytes \<Rightarrow> bytes \<Rightarrow> bool \<Rightarrow> ('w, Function) svcop" where
  "CreateSource svc owner rawName language source dataMode st = (let name = TrimSpace (ToLower rawName) in
     if \<not> validName name then (Err ErrInvalidName, st)
     else case fs_build svc language source st of
       (Err e, st) \<Rightarrow> (Err e, st)
     | (Ok dep, st) \<Rightarrow> if dataMode \<and> fs_data st = None then (Err ErrDataUnavailable, st)
         else create_locked owner name (\<lambda>_. Ok (dep\<lparr>dp_DataMode := dataMode\<rparr>)) st)"

definition UpdateSource :: "'w function_svc \<Rightarrow> nat \<Rightarrow> nat \<Rightarrow> bytes \<Rightarrow> bytes \<Rightarrow> bool \<Rightarrow> ('w, Function) svcop" where
  "UpdateSource svc owner ident language source dataMode st = (case on_db (fr_Get owner ident) st of
     (Err e, st) \<Rightarrow> (Err e, st)
   | (Ok _, st) \<Rightarrow> (case fs_build svc language source st of
       (Err e, st) \<Rightarrow> (Err e, st)
     | (Ok dep, st) \<Rightarrow> if dataMode \<and> fs_data st = None then (Err ErrDataUnavailable, st)
         else on_db (fr_UpdateDeployment owner ident (dep\<lparr>dp_DataMode := dataMode\<rparr>)) st))"

definition fs_Create :: "'w function_svc \<Rightarrow> nat \<Rightarrow> bytes \<Rightarrow> bytes \<Rightarrow> bool \<Rightarrow> ('w, Function) svcop" where
  "fs_Create svc owner rawName wasm dataMode st = (let name = TrimSpace (ToLower rawName) in
     if \<not> validName name then (Err ErrInvalidName, st)
     else case fs_validate svc wasm st of
       (Some e, st) \<Rightarrow> (Err e, st)
     | (None, st) \<Rightarrow> create_locked owner name (\<lambda>data. if dataMode \<and> data = None then Err ErrDataUnavailable
         else Ok \<lparr>dp_Language = ''wasm'', dp_Source = [], dp_Wasm = wasm, dp_DataMode = dataMode\<rparr>) st)"

definition fs_Update :: "'w function_svc \<Rightarrow> nat \<Rightarrow> nat \<Rightarrow> bytes \<Rightarrow> bool \<Rightarrow> ('w, Function) svcop" where
  "fs_Update svc owner ident wasm dataMode st = (case fs_validate svc wasm st of
     (Some e, st) \<Rightarrow> (Err e, st)
   | (None, st) \<Rightarrow> if dataMode \<and> fs_data st = None then (Err ErrDataUnavailable, st)
      else on_db (fr_UpdateDeployment owner ident
        \<lparr>dp_Language = ''wasm'', dp_Source = [], dp_Wasm = wasm, dp_DataMode = dataMode\<rparr>) st)"

text \<open>An operation of the data store, which may be missing.\<close>

definition on_data :: "'a storeop \<Rightarrow> ('w, 'a) svcop" where
  "on_data f st = (case fs_data st of None \<Rightarrow> (Err ErrDataUnavailable, st)
   | Some s \<Rightarrow> (case f s of (r, s) \<Rightarrow> (r, st\<lparr>fs_data := Some s\<rparr>)))"

definition fs_Delete :: "nat \<Rightarrow> nat \<Rightarrow> ('w, unit) svcop" where
  "fs_Delete owner ident st = (case on_db (fr_Delete owner ident) st of
     (Err e, st) \<Rightarrow> (Err e, st)
   | (Ok _, st) \<Rightarrow> if fs_data st = None then (Ok (), st) else on_data (data_DeleteFunction owner ident) st)"

text \<open>\<^verbatim>\<open>dataFor\<close> followed by an operation of the store it returns.\<close>

definition dataFor :: "nat \<Rightarrow> nat \<Rightarrow> 'a storeop \<Rightarrow> ('w, 'a) svcop" where
  "dataFor owner ident f st = (case on_db (fr_Get owner ident) st of
     (Err e, st) \<Rightarrow> (Err e, st) | (Ok _, st) \<Rightarrow> on_data f st)"

definition fs_CreateDatabase :: "fn_err option \<Rightarrow> nat \<Rightarrow> int \<Rightarrow> nat \<Rightarrow> bytes \<Rightarrow> ('w, AppDatabase) svcop" where
  "fs_CreateDatabase file_ok ident now owner name = on_data (data_CreateDatabase file_ok ident now owner name)"

definition fs_ListDatabases :: "nat \<Rightarrow> ('w, AppDatabase list) svcop" where
  "fs_ListDatabases owner = on_data (data_ListDatabases owner)"

definition fs_DeleteDatabase :: "nat \<Rightarrow> nat \<Rightarrow> ('w, unit) svcop" where
  "fs_DeleteDatabase owner ident = on_data (data_DeleteDatabase owner ident)"

definition fs_QueryDatabase :: "'w function_svc \<Rightarrow> nat \<Rightarrow> nat \<Rightarrow> bytes \<Rightarrow> any list \<Rightarrow> ('w, SQLResult) svcop" where
  "fs_QueryDatabase svc owner ident statement params st = (case fs_data st of None \<Rightarrow> (Err ErrDataUnavailable, st)
   | Some s \<Rightarrow> (case QueryDatabase (fe_engine (sv_protocol svc)) owner ident statement params (s, fs_world st) of
       (r, s, w) \<Rightarrow> (r, st\<lparr>fs_data := Some s, fs_world := w\<rparr>)))"

definition fs_BindDatabase :: "nat \<Rightarrow> nat \<Rightarrow> nat \<Rightarrow> bytes \<Rightarrow> ('w, unit) svcop" where
  "fs_BindDatabase owner function database alias st = (case on_db (fr_Get owner function) st of
     (Err e, st) \<Rightarrow> (Err e, st)
   | (Ok fn, st) \<Rightarrow> if \<not> fn_DataMode fn \<or> fs_data st = None then (Err ErrDataUnavailable, st)
      else on_data (data_BindDatabase owner function database alias) st)"

definition fs_UnbindDatabase :: "nat \<Rightarrow> nat \<Rightarrow> bytes \<Rightarrow> ('w, unit) svcop" where
  "fs_UnbindDatabase owner function alias = dataFor owner function (data_UnbindDatabase owner function alias)"

definition fs_ListBindings :: "nat \<Rightarrow> nat \<Rightarrow> ('w, DatabaseBinding list) svcop" where
  "fs_ListBindings owner function = dataFor owner function (data_ListBindings owner function)"

definition fs_ListData :: "nat \<Rightarrow> nat \<Rightarrow> bytes \<Rightarrow> int \<Rightarrow> ('w, DataItem list) svcop" where
  "fs_ListData owner ident collection offset = dataFor owner ident (data_List owner ident collection offset)"

definition fs_GetData :: "nat \<Rightarrow> nat \<Rightarrow> bytes \<Rightarrow> bytes \<Rightarrow> ('w, DataItem) svcop" where
  "fs_GetData owner ident collection key = dataFor owner ident (data_Get owner ident collection key)"

definition fs_PutData :: "'w function_svc \<Rightarrow> nat \<Rightarrow> nat \<Rightarrow> bytes \<Rightarrow> bytes \<Rightarrow> bytes \<Rightarrow> ('w, DataItem) svcop" where
  "fs_PutData svc owner ident collection key value st = dataFor owner ident
     (data_Put (fe_valid_json (sv_protocol svc)) (fe_now (sv_protocol svc) (fs_world st)) owner ident collection key value) st"

definition fs_DeleteData :: "nat \<Rightarrow> nat \<Rightarrow> bytes \<Rightarrow> bytes \<Rightarrow> ('w, unit) svcop" where
  "fs_DeleteData owner ident collection key = dataFor owner ident (data_Delete owner ident collection key)"

subsection \<open>Running a function\<close>

definition jsonObject :: "(bytes \<Rightarrow> bool) \<Rightarrow> bytes \<Rightarrow> bool" where
  "jsonObject valid data = (let data = TrimSpace data in (case data of [] \<Rightarrow> False | c # _ \<Rightarrow> c = CHR ''{'' \<and> valid data))"

definition limited_all :: "bytes list \<Rightarrow> limitedWriter" where
  "limited_all ps = foldl (\<lambda>w p. snd (limited_Write p w)) \<lparr>lw_buf = [], lw_exceeded = False\<rparr> ps"

fun written :: "guest_event list \<Rightarrow> bytes list" where
  "written [] = []"
| "written (GWrite p # es) = p # written es"
| "written (GRead n # es) = written es"

text \<open>The end of \<^verbatim>\<open>execute\<close>, for a run that was not cut off.\<close>

definition run_result :: "(bytes \<Rightarrow> bool) \<Rightarrow> limitedWriter \<Rightarrow> limitedWriter \<Rightarrow> stop \<Rightarrow> fn_err + Result" where
  "run_result valid out er stop =
     (if lw_exceeded out \<or> lw_exceeded er then Err ErrOutputLimit
      else case stop of
        Exited c \<Rightarrow> Ok \<lparr>rs_Stdout = lw_buf out, rs_Stderr = lw_buf er, rs_ExitCode = c\<rparr>
      | Trapped \<Rightarrow> Err (Failed ''execute function'')
      | _ \<Rightarrow> if jsonObject valid (lw_buf out)
          then Ok \<lparr>rs_Stdout = lw_buf out, rs_Stderr = lw_buf er, rs_ExitCode = 0\<rparr> else Err ErrInvalidOutput)"

definition fs_execute :: "'w function_svc \<Rightarrow> Function \<Rightarrow> bytes \<Rightarrow> ('w, Result) svcop" where
  "fs_execute svc fn input st = (let env = sv_protocol svc; valid = fe_valid_json env in
     if MaxInputBytes < length input then (Err (Failed ''input exceeds 131072 bytes''), st)
     else if \<not> jsonObject valid input then (Err ErrInvalidInput, st)
     else if 4 \<le> fs_slots st then (Err ErrBusy, st)
     else case sv_compile svc (fn_Wasm fn) (fs_world st) of
       (Err _, w) \<Rightarrow> (Err (Failed ''compile function''), st\<lparr>fs_world := w\<rparr>)
     | (Ok _, w) \<Rightarrow>
        (let args = (if fn_Language fn = ''python'' then [''python'', ''-c'', fn_Source fn] else []) in
         if \<not> fn_DataMode fn then
           (case sv_guest svc (fn_Wasm fn) args input w of (tr, w) \<Rightarrow>
             (if gr_stop tr = Expired then Err ErrTimeout
              else run_result valid (limited_all (written (gr_events tr))) (limited_all (gr_stderr tr)) (gr_stop tr),
              st\<lparr>fs_world := w\<rparr>))
         else case (fs_data st, fn_OwnerID fn) of
           (Some s, Some owner) \<Rightarrow>
             (case sv_compact svc input of None \<Rightarrow> (Err ErrInvalidInput, st\<lparr>fs_world := w\<rparr>)
              | Some line \<Rightarrow> (case sv_guest svc (fn_Wasm fn) args (line @ [CHR 10]) w of (tr, w) \<Rightarrow>
                 (case guest_run env owner (fn_ID fn) (gr_events tr) (guest_start line s w) of (_, out) \<Rightarrow>
                   if gr_stop tr = Expired then (Err ErrTimeout, st\<lparr>fs_data := Some (out_store out), fs_world := out_world out\<rparr>)
                   else (case out_Finish env owner (fn_ID fn) out of (fin, out) \<Rightarrow>
                     (case fin of Err e \<Rightarrow> Err e
                      | Ok _ \<Rightarrow> run_result valid (out_final out) (limited_all (gr_stderr tr)) (gr_stop tr),
                      st\<lparr>fs_data := Some (out_store out), fs_world := out_world out\<rparr>)))))
         | _ \<Rightarrow> (Err ErrDataUnavailable, st\<lparr>fs_world := w\<rparr>)))"

definition Invoke :: "'w function_svc \<Rightarrow> nat \<Rightarrow> nat \<Rightarrow> bytes \<Rightarrow> ('w, Result) svcop" where
  "Invoke svc owner ident input st = (case on_db (fr_Get owner ident) st of
     (Err e, st) \<Rightarrow> (Err e, st) | (Ok fn, st) \<Rightarrow> fs_execute svc fn input st)"

subsection \<open>Keys\<close>

record IssuedKey =
  ik_Key :: bytes
  ik_ExpiresAt :: int

definition keyPrefix :: bytes where "keyPrefix = ''rcpf_''"
definition defaultKeyDays :: int where "defaultKeyDays = 30"
definition maxKeyDays :: int where "maxKeyDays = 90"

text \<open>In UTC a day of \<^verbatim>\<open>AddDate\<close> has 24 hours; times are in nanoseconds.\<close>

definition add_days :: "int \<Rightarrow> int \<Rightarrow> int" where
  "add_days t days = t + days * 86400000000000"

definition IssueKey :: "'w function_svc \<Rightarrow> nat \<Rightarrow> nat \<Rightarrow> int \<Rightarrow> ('w, IssuedKey) svcop" where
  "IssueKey svc owner ident rawDays st = (let days = (if rawDays = 0 then defaultKeyDays else rawDays) in
     if days < 1 \<or> maxKeyDays < days then (Err ErrInvalidExpiry, st)
     else case sv_rand svc (fs_world st) of
       (Err e, w) \<Rightarrow> (Err (Failed e), st\<lparr>fs_world := w\<rparr>)
     | (Ok raw, w) \<Rightarrow>
        (let key = keyPrefix @ RawURLEncoding raw; created = sv_now svc w; expires = add_days created days in
         case on_db (fr_SetKey owner ident (sv_sha256 svc key) created expires) (st\<lparr>fs_world := w\<rparr>) of
           (Err e, st) \<Rightarrow> (Err e, st)
         | (Ok _, st) \<Rightarrow> (Ok \<lparr>ik_Key = key, ik_ExpiresAt = expires\<rparr>, st)))"

definition RevokeKey :: "nat \<Rightarrow> nat \<Rightarrow> ('w, unit) svcop" where
  "RevokeKey owner ident st = (case on_db (fr_DeleteKey owner ident) st of
     (Err e, st) \<Rightarrow> (Err e, st) | (Ok _, st) \<Rightarrow> (Ok (), st))"

definition checkKey :: "'w function_svc \<Rightarrow> Function \<Rightarrow> bytes \<Rightarrow> 'w \<Rightarrow> fn_err option" where
  "checkKey svc fn key w = (case fn_KeyExpiresAt fn of None \<Rightarrow> Some ErrInvalidKey
   | Some expires \<Rightarrow>
      if length (fn_KeyHash fn) \<noteq> 32 \<or> \<not> sv_now svc w < expires then Some ErrInvalidKey
      else if sv_sha256 svc key \<noteq> fn_KeyHash fn \<or> length key \<noteq> length keyPrefix + 43 then Some ErrInvalidKey
      else None)"

definition InvokePublic :: "'w function_svc \<Rightarrow> nat \<Rightarrow> bytes \<Rightarrow> bytes \<Rightarrow> ('w, Result) svcop" where
  "InvokePublic svc ident key input st = (case on_db (fr_GetPublic ident) st of
     (Err e, st) \<Rightarrow> (Err e, st)
   | (Ok fn, st) \<Rightarrow> (case checkKey svc fn key (fs_world st) of
       Some e \<Rightarrow> (Err e, st) | None \<Rightarrow> fs_execute svc fn input st))"

text \<open>\<^verbatim>\<open>SocketBuilder.Build\<close>: what becomes of the answer of the builder.\<close>

datatype build_reply = NoConnection | Reply nat bytes | BrokenBody

definition Build :: "(bytes \<Rightarrow> bytes \<Rightarrow> 'w \<Rightarrow> build_reply \<times> 'w) \<Rightarrow> bytes \<Rightarrow> bytes \<Rightarrow> 'w \<Rightarrow> (fn_err + bytes) \<times> 'w" where
  "Build post language source w = (case post language source w of
     (NoConnection, w) \<Rightarrow> (Err ErrBuildUnavailable, w)
   | (BrokenBody, w) \<Rightarrow> (Err (Failed ''read''), w)
   | (Reply status body, w) \<Rightarrow>
      (if status \<noteq> 200 then Err (if 500 \<le> status then ErrBuildUnavailable else ErrBuildFailed)
       else if MaxWasmBytes < length body then Err ErrInvalidWasm else Ok body, w))"

subsection \<open>What the operations do to the table\<close>

lemma update_one_cases:
  assumes "update_one owner ident g d = (r, d')" and "db_wf d"
  obtains (failed) e where "r = Err e" "function_tbl d' = function_tbl d" "db_wf d'"
    | (updated) f c row where "r = Ok f" "row \<in> set (function_tbl d)" "f_id row = ident" "f_owner row = owner" "db_wf d'"
        "function_tbl d' = update_rows (\<lambda>r. f_id r = ident \<and> owned_fn owner r) (\<lambda>r. (g r)\<lparr>f_updated_at := c\<rparr>) (function_tbl d)"
proof -
  let ?p = "\<lambda>r. f_id r = ident \<and> owned_fn owner r"
  let ?w = "\<lambda>d. let p = ?p; g' = (\<lambda>r. (g r)\<lparr>f_updated_at := clock d\<rparr>) in
       (map g' (filter p (function_tbl d)), d\<lparr>function_tbl := update_rows p g' (function_tbl d)\<rparr>)"
  obtain x d1 where e: "exec ?w d = (x, d1)" by force
  have wf: "db_wf d1" by (rule exec_wf [OF e assms(2)])
  show thesis
  proof (cases x)
    case (Inl err)
    have "r = Err (raw_err err)" "d' = d1" using assms(1) e Inl by (simp_all add: update_one_def)
    moreover have "same_tables d d1" by (rule exec_err [OF e [unfolded Inl]])
    ultimately show thesis using failed wf by (simp add: same_tables_def)
  next
    case (Inr rows)
    obtain d0 where d0: "same_tables d d0" "?w d0 = (rows, d1)" using exec_ok [OF e [unfolded Inr]] .
    have t: "function_tbl d0 = function_tbl d" using d0(1) by (simp add: same_tables_def)
    have rows: "rows = map (\<lambda>r. (g r)\<lparr>f_updated_at := clock d0\<rparr>) (filter ?p (function_tbl d))"
      and tbl: "function_tbl d1 = update_rows ?p (\<lambda>r. (g r)\<lparr>f_updated_at := clock d0\<rparr>) (function_tbl d)"
      using d0(2) t by (auto simp: Let_def)
    show thesis
    proof (cases "filter ?p (function_tbl d)")
      case Nil
      then have "r = Err ErrNotFound" "d' = d1" using assms(1) e Inr rows by (simp_all add: update_one_def)
      moreover have "function_tbl d1 = map (\<lambda>r. r) (function_tbl d)"
        unfolding tbl update_rows_def using Nil by (intro map_cong) (auto simp: filter_empty_conv)
      ultimately show thesis using failed wf by simp
    next
      case (Cons row rest)
      have "r = Ok (toFunction None ((g row)\<lparr>f_updated_at := clock d0\<rparr>))" "d' = d1"
        using assms(1) e Inr rows Cons by (simp_all add: update_one_def)
      moreover have "row \<in> set (filter ?p (function_tbl d))" using Cons by simp
      ultimately show thesis using updated tbl wf by (auto simp: owned_fn_def)
    qed
  qed
qed

lemma CreateDeployment_cases:
  assumes "fr_CreateDeployment owner name dep d = (r, d')" and "db_wf d"
  obtains (failed) e where "r = Err e" "function_tbl d' = function_tbl d" "db_wf d'"
    | (created) f row where "r = Ok f" "function_tbl d' = function_tbl d @ [row]" "f_owner row = owner" "f_key_hash row = []"
        "f_key_expires_at row = None" "f_id row \<notin> f_id ` set (function_tbl d)" "db_wf d'"
proof (cases "name = [] \<or> dp_Wasm dep = []")
  case True
  then have "r = Err (Failed ''validator failed'')" "d' = d" using assms(1) by (simp_all add: fr_CreateDeployment_def)
  then show thesis using failed assms(2) by simp
next
  case False
  let ?row = "\<lambda>d. \<lparr>f_id = seq d, f_name = name, f_wasm = dp_Wasm dep, f_language = dp_Language dep,
             f_data_mode = dp_DataMode dep, f_source = dp_Source dep, f_key_hash = [], f_key_created_at = None,
             f_key_expires_at = None, f_created_at = clock d, f_updated_at = clock d, f_owner = owner\<rparr>"
  let ?w = "\<lambda>d. let row = ?row d in (row, d\<lparr>function_tbl := function_tbl d @ [row], seq := Suc (seq d)\<rparr>)"
  obtain x d1 where e: "exec ?w d = (x, d1)" by force
  have wf: "db_wf d1" by (rule exec_wf [OF e assms(2)])
  have d: "d' = d1" using assms(1) e False by (cases x) (auto simp: fr_CreateDeployment_def)
  show thesis
  proof (cases x)
    case (Inl err)
    have "\<exists>e. r = Err e" using assms(1) e Inl False by (auto simp: fr_CreateDeployment_def)
    moreover have "same_tables d d1" by (rule exec_err [OF e [unfolded Inl]])
    ultimately show thesis using failed wf d by (auto simp: same_tables_def)
  next
    case (Inr row)
    obtain d0 where d0: "same_tables d d0" "?w d0 = (row, d1)" using exec_ok [OF e [unfolded Inr]] .
    have tbl: "function_tbl d1 = function_tbl d @ [?row d0]" using d0 by (auto simp: Let_def same_tables_def)
    have "distinct (map f_id (function_tbl d1))" using wf by (simp add: db_wf_def functions_wf_def)
    then have new: "seq d0 \<notin> f_id ` set (function_tbl d)" unfolding tbl by simp
    have "r = Ok (toFunction None row)" using assms(1) e Inr False by (simp add: fr_CreateDeployment_def)
    from created [OF this _ _ _ _ _ wf [folded d], of "?row d0"] show thesis using tbl new d by simp
  qed
qed

lemma Delete_cases:
  assumes "fr_Delete owner ident d = (r, d')" and "db_wf d"
  obtains (failed) e where "r = Err e" "function_tbl d' = function_tbl d" "db_wf d'"
    | (deleted) row where "r = Ok ()" "row \<in> set (function_tbl d)" "f_id row = ident" "f_owner row = owner" "db_wf d'"
        "function_tbl d' = filter (\<lambda>r. \<not> (f_id r = ident \<and> owned_fn owner r)) (function_tbl d)"
proof -
  let ?p = "\<lambda>r. f_id r = ident \<and> owned_fn owner r"
  let ?w = "\<lambda>d. let p = ?p in (length (filter p (function_tbl d)), d\<lparr>function_tbl := filter (\<lambda>r. \<not> p r) (function_tbl d)\<rparr>)"
  obtain x d1 where e: "exec ?w d = (x, d1)" by force
  have wf: "db_wf d1" by (rule exec_wf [OF e assms(2)])
  show thesis
  proof (cases x)
    case (Inl err)
    have "r = Err (raw_err err)" "d' = d1" using assms(1) e Inl by (simp_all add: fr_Delete_def)
    moreover have "same_tables d d1" by (rule exec_err [OF e [unfolded Inl]])
    ultimately show thesis using failed wf by (simp add: same_tables_def)
  next
    case (Inr n)
    obtain d0 where d0: "same_tables d d0" "?w d0 = (n, d1)" using exec_ok [OF e [unfolded Inr]] .
    have t: "function_tbl d0 = function_tbl d" using d0(1) by (simp add: same_tables_def)
    have n: "n = length (filter ?p (function_tbl d))" and tbl: "function_tbl d1 = filter (\<lambda>r. \<not> ?p r) (function_tbl d)"
      using d0(2) t by (auto simp: Let_def)
    show thesis
    proof (cases "filter ?p (function_tbl d)")
      case Nil
      then have "r = Err ErrNotFound" "d' = d1" using assms(1) e Inr n by (simp_all add: fr_Delete_def)
      moreover have "function_tbl d1 = function_tbl d"
        unfolding tbl using Nil by (simp add: filter_empty_conv filter_id_conv)
      ultimately show thesis using failed wf by simp
    next
      case (Cons row rest)
      have "r = Ok ()" "d' = d1" using assms(1) e Inr n Cons by (simp_all add: fr_Delete_def)
      moreover have "row \<in> set (filter ?p (function_tbl d))" using Cons by simp
      ultimately show thesis using deleted tbl wf by (auto simp: owned_fn_def)
    qed
  qed
qed

lemma validate_db: "fs_validate svc wasm st = (r, st') \<Longrightarrow> fs_db st' = fs_db st"
  unfolding fs_validate_def by (auto split: if_splits sum.splits prod.splits engine_err.splits)

lemma build_db:
  assumes "fs_build svc language source st = (r, st')"
  shows "fs_db st' = fs_db st"
proof (cases "sv_builder svc")
  case None
  then show ?thesis using assms by (auto simp: fs_build_def split: if_splits)
next
  case (Some build)
  obtain b w where b: "build language source (fs_world st) = (b, w)" by force
  obtain v st1 where v: "fs_validate svc (projr b) (st\<lparr>fs_world := w\<rparr>) = (v, st1)" by force
  from validate_db [OF v] assms Some b v show ?thesis
    by (cases b; cases v) (auto simp: fs_build_def split: if_splits)
qed

lemma on_data_db: "on_data f st = (r, st') \<Longrightarrow> fs_db st' = fs_db st"
  by (auto simp: on_data_def split: option.splits prod.splits)

lemma execute_db: "fs_execute svc fn input st = (r, st') \<Longrightarrow> fs_db st' = fs_db st"
  unfolding fs_execute_def Let_def by (auto split: if_splits sum.splits option.splits prod.splits)

lemma fr_List_tables: "fr_List owner d = (r, d') \<Longrightarrow> same_tables d d'"
  using query_tables by (fastforce simp: fr_List_def split: prod.splits sum.splits)

lemma fr_Get_tables: "fr_Get owner ident d = (r, d') \<Longrightarrow> same_tables d d'"
  using query_tables by (fastforce simp: fr_Get_def split: prod.splits sum.splits)

lemma fr_GetPublic_tables: "fr_GetPublic ident d = (r, d') \<Longrightarrow> same_tables d d'"
  using query_tables by (fastforce simp: fr_GetPublic_def split: prod.splits sum.splits)

text \<open>
  The changes of the table of functions that the operations make. \<open>Stamp\<close> is an update of the
  deployment, which leaves the key.
\<close>

datatype table_change = NoChange | Added nat | Keyed nat bytes int | Unkeyed nat | Redeployed nat | Removed nat

inductive changes :: "table_change \<Rightarrow> function_row list \<Rightarrow> function_row list \<Rightarrow> bool" where
  same: "changes NoChange t t"
| added: "f_key_hash row = [] \<Longrightarrow> f_key_expires_at row = None \<Longrightarrow> f_id row \<notin> f_id ` set t
    \<Longrightarrow> changes (Added (f_owner row)) t (t @ [row])"
| updated: "row \<in> set t \<Longrightarrow> p row \<Longrightarrow> (\<And>r. p r \<Longrightarrow> f_id r = f_id row)
    \<Longrightarrow> (\<And>r. f_id (g r) = f_id r \<and> f_owner (g r) = f_owner r)
    \<Longrightarrow> c = Keyed (f_id row) h e \<and> (\<forall>r. f_key_hash (g r) = h \<and> f_key_expires_at (g r) = Some e)
       \<or> c = Unkeyed (f_id row) \<and> (\<forall>r. f_key_hash (g r) = [] \<and> f_key_expires_at (g r) = None)
       \<or> c = Redeployed (f_id row) \<and> (\<forall>r. f_key_hash (g r) = f_key_hash r \<and> f_key_expires_at (g r) = f_key_expires_at r)
    \<Longrightarrow> changes c t (update_rows p g t)"
| removed: "row \<in> set t \<Longrightarrow> p row \<Longrightarrow> (\<And>r. p r \<Longrightarrow> f_id r = f_id row)
    \<Longrightarrow> changes (Removed (f_id row)) t (filter (\<lambda>r. \<not> p r) t)"

text \<open>An operation either fails and changes nothing, or has the change that belongs to it.\<close>

definition op_changes :: "table_change \<Rightarrow> fn_err + 'a \<Rightarrow> 'w fstate \<Rightarrow> 'w fstate \<Rightarrow> bool" where
  "op_changes c r st st' \<longleftrightarrow> db_wf (fs_db st')
     \<and> changes (if is_ok r then c else NoChange) (function_tbl (fs_db st)) (function_tbl (fs_db st'))"

lemma op_changes_same:
  "db_wf (fs_db st) \<Longrightarrow> same_tables (fs_db st) (fs_db st') \<Longrightarrow> op_changes NoChange r st st'"
  unfolding op_changes_def using same_tables_wf [of "fs_db st" "fs_db st'"] by (simp add: same_tables_def changes.same)

lemma op_changes_Err: "op_changes NoChange (Err e) st st' \<Longrightarrow> op_changes c (Err e') st st'"
  by (simp add: op_changes_def)

lemma SetKey_changes:
  assumes "on_db (fr_SetKey owner ident h t e) st = (r, st')" and "db_wf (fs_db st)"
  shows "op_changes (Keyed ident h e) r st st'"
proof -
  obtain d' where u: "fr_SetKey owner ident h t e (fs_db st) = (r, d')" and st': "st' = st\<lparr>fs_db := d'\<rparr>"
    using assms(1) by (auto simp: on_db_def split: prod.splits)
  show ?thesis using u [unfolded fr_SetKey_def] assms(2)
  proof (cases rule: update_one_cases)
    case (failed err)
    then show ?thesis by (simp add: op_changes_def st' changes.same)
  next
    case (updated f c row)
    show ?thesis unfolding op_changes_def using updated
      by (auto simp: st' owned_fn_def intro!: changes.updated [of row])
  qed
qed

lemma DeleteKey_changes:
  assumes "on_db (fr_DeleteKey owner ident) st = (r, st')" and "db_wf (fs_db st)"
  shows "op_changes (Unkeyed ident) r st st'"
proof -
  obtain d' where u: "fr_DeleteKey owner ident (fs_db st) = (r, d')" and st': "st' = st\<lparr>fs_db := d'\<rparr>"
    using assms(1) by (auto simp: on_db_def split: prod.splits)
  show ?thesis using u [unfolded fr_DeleteKey_def] assms(2)
  proof (cases rule: update_one_cases)
    case (failed err)
    then show ?thesis by (simp add: op_changes_def st' changes.same)
  next
    case (updated f c row)
    show ?thesis unfolding op_changes_def using updated
      by (auto simp: st' owned_fn_def intro!: changes.updated [of row])
  qed
qed

lemma UpdateDeployment_changes:
  assumes "on_db (fr_UpdateDeployment owner ident dep) st = (r, st')" and "db_wf (fs_db st)"
  shows "op_changes (Redeployed ident) r st st'"
proof -
  obtain d' where u: "fr_UpdateDeployment owner ident dep (fs_db st) = (r, d')" and st': "st' = st\<lparr>fs_db := d'\<rparr>"
    using assms(1) by (auto simp: on_db_def split: prod.splits)
  show ?thesis
  proof (cases "dp_Wasm dep = []")
    case True
    then have "r = Err (Failed ''validator failed'')" "d' = fs_db st" using u by (simp_all add: fr_UpdateDeployment_def)
    then show ?thesis using assms(2) by (simp add: op_changes_def st' changes.same)
  next
    case False
    then have "update_one owner ident (\<lambda>r. r\<lparr>f_wasm := dp_Wasm dep, f_language := dp_Language dep,
        f_data_mode := dp_DataMode dep, f_source := dp_Source dep\<rparr>) (fs_db st) = (r, d')"
      using u by (simp add: fr_UpdateDeployment_def)
    then show ?thesis using assms(2)
    proof (cases rule: update_one_cases)
      case (failed err)
      then show ?thesis by (simp add: op_changes_def st' changes.same)
    next
      case (updated f c row)
      show ?thesis unfolding op_changes_def using updated
        by (auto simp: st' owned_fn_def intro!: changes.updated [of row])
    qed
  qed
qed

lemma create_locked_changes:
  assumes "create_locked owner name dep st = (r, st')" and "db_wf (fs_db st)"
  shows "op_changes (Added owner) r st st'"
proof -
  obtain l st1 where l: "on_db (fr_List owner) st = (l, st1)" by force
  then have t1: "same_tables (fs_db st) (fs_db st1)" using fr_List_tables by (auto simp: on_db_def split: prod.splits)
  have same: "op_changes NoChange q st st1" for q :: "fn_err + Function"
    by (rule op_changes_same [OF assms(2) t1])
  show ?thesis
  proof (cases l)
    case (Inl e)
    then have "r = Err e" "st' = st1" using assms(1) l by (simp_all add: create_locked_def)
    with op_changes_Err [OF same] show ?thesis by simp
  next
    case items: (Inr items)
    show ?thesis
    proof (cases "MaxFunctionsPerUser \<le> length items")
      case True
      then have "r = Err ErrLimit" "st' = st1" using assms(1) l items by (simp_all add: create_locked_def)
      with op_changes_Err [OF same] show ?thesis by simp
    next
      case few: False
      show ?thesis
      proof (cases "dep (fs_data st1)")
        case (Inl e)
        then have "r = Err e" "st' = st1" using assms(1) l items few by (simp_all add: create_locked_def)
        with op_changes_Err [OF same] show ?thesis by simp
      next
        case (Inr dp)
        then have "on_db (fr_CreateDeployment owner name dp) st1 = (r, st')"
          using assms(1) l items few by (simp add: create_locked_def)
        then obtain d' where c: "fr_CreateDeployment owner name dp (fs_db st1) = (r, d')" and st': "st' = st1\<lparr>fs_db := d'\<rparr>"
          by (auto simp: on_db_def split: prod.splits)
        have t: "function_tbl (fs_db st1) = function_tbl (fs_db st)" using t1 by (simp add: same_tables_def)
        have wf1: "db_wf (fs_db st1)" using same_tables_wf [OF t1] assms(2) by simp
        show ?thesis using c wf1
        proof (cases rule: CreateDeployment_cases)
          case (failed e)
          then show ?thesis by (simp add: op_changes_def st' t changes.same)
        next
          case (created f row)
          then show ?thesis using changes.added [of row "function_tbl (fs_db st)"]
            by (simp add: op_changes_def st' t)
        qed
      qed
    qed
  qed
qed

lemma op_changes_db: "op_changes c r st1 st' \<Longrightarrow> fs_db st1 = fs_db st \<Longrightarrow> op_changes c r st st'"
  by (simp add: op_changes_def)

lemma op_changes_refl: "db_wf (fs_db st) \<Longrightarrow> fs_db st' = fs_db st \<Longrightarrow> op_changes c (Err e) st st'"
  by (simp add: op_changes_def changes.same)

lemma Create_changes:
  assumes "fs_Create svc owner rawName wasm dm st = (r, st')" and "db_wf (fs_db st)"
  shows "op_changes (Added owner) r st st'"
proof -
  obtain v st1 where v: "fs_validate svc wasm st = (v, st1)" by force
  note same = validate_db [OF v]
  show ?thesis
  proof (cases "validName (TrimSpace (ToLower rawName)) \<and> v = None")
    case True
    then have "create_locked owner (TrimSpace (ToLower rawName)) (\<lambda>data. if dm \<and> data = None then Err ErrDataUnavailable
         else Ok \<lparr>dp_Language = ''wasm'', dp_Source = [], dp_Wasm = wasm, dp_DataMode = dm\<rparr>) st1 = (r, st')"
      using assms(1) v by (simp add: fs_Create_def)
    from op_changes_db [OF create_locked_changes [OF this] same] assms(2) same show ?thesis by simp
  next
    case False
    then have "\<exists>e. r = Err e \<and> fs_db st' = fs_db st" using assms(1) v same
      by (cases v) (auto simp: fs_Create_def Let_def split: if_splits)
    with op_changes_refl [OF assms(2)] show ?thesis by blast
  qed
qed

lemma CreateSource_changes:
  assumes "CreateSource svc owner rawName language source dm st = (r, st')" and "db_wf (fs_db st)"
  shows "op_changes (Added owner) r st st'"
proof -
  obtain b st1 where b: "fs_build svc language source st = (b, st1)" by force
  note same = build_db [OF b]
  show ?thesis
  proof (cases "validName (TrimSpace (ToLower rawName)) \<and> is_ok b \<and> \<not> (dm \<and> fs_data st1 = None)")
    case True
    then obtain dep where "b = Ok dep" by (auto simp: is_ok_iff)
    then have "create_locked owner (TrimSpace (ToLower rawName)) (\<lambda>_. Ok (dep\<lparr>dp_DataMode := dm\<rparr>)) st1 = (r, st')"
      using assms(1) b True by (auto simp: CreateSource_def)
    from op_changes_db [OF create_locked_changes [OF this] same] assms(2) same show ?thesis by simp
  next
    case False
    then have "\<exists>e. r = Err e \<and> fs_db st' = fs_db st" using assms(1) b same
      by (cases b) (auto simp: CreateSource_def Let_def split: if_splits)
    with op_changes_refl [OF assms(2)] show ?thesis by blast
  qed
qed

lemma Update_changes:
  assumes "fs_Update svc owner ident wasm dm st = (r, st')" and "db_wf (fs_db st)"
  shows "op_changes (Redeployed ident) r st st'"
proof -
  obtain v st1 where v: "fs_validate svc wasm st = (v, st1)" by force
  note same = validate_db [OF v]
  show ?thesis
  proof (cases "v = None \<and> \<not> (dm \<and> fs_data st1 = None)")
    case True
    then have "on_db (fr_UpdateDeployment owner ident
        \<lparr>dp_Language = ''wasm'', dp_Source = [], dp_Wasm = wasm, dp_DataMode = dm\<rparr>) st1 = (r, st')"
      using assms(1) v by (auto simp: fs_Update_def)
    from op_changes_db [OF UpdateDeployment_changes [OF this] same] assms(2) same show ?thesis by simp
  next
    case False
    then have "\<exists>e. r = Err e \<and> fs_db st' = fs_db st" using assms(1) v same
      by (cases v) (auto simp: fs_Update_def split: if_splits)
    with op_changes_refl [OF assms(2)] show ?thesis by blast
  qed
qed

lemma op_changes_after:
  assumes "op_changes c r st1 st'" and "same_tables (fs_db st) (fs_db st1)"
  shows "op_changes c r st st'"
  using assms by (simp add: op_changes_def same_tables_def)

lemma UpdateSource_changes:
  assumes "UpdateSource svc owner ident language source dm st = (r, st')" and "db_wf (fs_db st)"
  shows "op_changes (Redeployed ident) r st st'"
proof -
  obtain g st1 where g: "on_db (fr_Get owner ident) st = (g, st1)" by force
  then have t1: "same_tables (fs_db st) (fs_db st1)" using fr_Get_tables by (auto simp: on_db_def split: prod.splits)
  have wf1: "db_wf (fs_db st1)" using same_tables_wf [OF t1] assms(2) by simp
  obtain b st2 where b: "fs_build svc language source st1 = (b, st2)" by force
  note same = build_db [OF b]
  show ?thesis
  proof (cases "is_ok g \<and> is_ok b \<and> \<not> (dm \<and> fs_data st2 = None)")
    case True
    then obtain f dep where "g = Ok f" "b = Ok dep" by (auto simp: is_ok_iff)
    then have "on_db (fr_UpdateDeployment owner ident (dep\<lparr>dp_DataMode := dm\<rparr>)) st2 = (r, st')"
      using assms(1) g b True by (auto simp: UpdateSource_def)
    from op_changes_db [OF UpdateDeployment_changes [OF this] same] wf1 same op_changes_after [OF _ t1] show ?thesis by simp
  next
    case False
    then have "\<exists>e. r = Err e \<and> fs_db st' = fs_db st1" using assms(1) g b same
      by (cases g; cases b) (auto simp: UpdateSource_def split: if_splits)
    with op_changes_after [OF op_changes_refl [OF wf1] t1] show ?thesis by blast
  qed
qed

lemma IssueKey_changes:
  assumes "IssueKey svc owner ident days st = (r, st')" and "db_wf (fs_db st)"
  obtains (failed) e where "r = Err e" "op_changes NoChange r st st'"
    | (issued) raw ik where "r = Ok ik" "ik_Key ik = keyPrefix @ RawURLEncoding raw" "\<exists>w w'. sv_rand svc w = (Ok raw, w')"
        "op_changes (Keyed ident (sv_sha256 svc (ik_Key ik)) (ik_ExpiresAt ik)) r st st'"
        "sv_now svc (fs_world st') < ik_ExpiresAt ik" "ik_ExpiresAt ik \<le> add_days (sv_now svc (fs_world st')) 90"
proof -
  let ?days = "if days = 0 then defaultKeyDays else days"
  show thesis
  proof (cases "?days < 1 \<or> maxKeyDays < ?days")
    case True
    then have "r = Err ErrInvalidExpiry" "st' = st" using assms(1) unfolding IssueKey_def Let_def by simp_all
    then show thesis using failed op_changes_refl [OF assms(2)] by blast
  next
    case days: False
    obtain raw w where raw: "sv_rand svc (fs_world st) = (raw, w)" by force
    show thesis
    proof (cases raw)
      case (Inl e)
      then have "r = Err (Failed e)" "st' = st\<lparr>fs_world := w\<rparr>" using assms(1) days raw unfolding IssueKey_def Let_def by simp_all
      then show thesis using failed by (simp add: op_changes_refl [OF assms(2)])
    next
      case (Inr bs)
      let ?key = "keyPrefix @ RawURLEncoding bs" and ?e = "add_days (sv_now svc w) ?days"
      obtain q st1 where q: "on_db (fr_SetKey owner ident (sv_sha256 svc ?key) (sv_now svc w) ?e) (st\<lparr>fs_world := w\<rparr>) = (q, st1)"
        by force
      have ch: "op_changes (Keyed ident (sv_sha256 svc ?key) ?e) q st st1"
        by (rule op_changes_db [OF SetKey_changes [OF q]]) (simp_all add: assms(2))
      have st1: "fs_world st1 = w" using q by (auto simp: on_db_def split: prod.splits)
      have res: "(r, st') = (case q of Err e \<Rightarrow> (Err e, st1) | Ok _ \<Rightarrow> (Ok \<lparr>ik_Key = ?key, ik_ExpiresAt = ?e\<rparr>, st1))"
        using assms(1) days raw Inr q unfolding IssueKey_def Let_def by (simp split: sum.splits)
      show thesis
      proof (cases q)
        case (Inl e)
        then show thesis using failed res ch by (simp add: op_changes_def)
      next
        case (Inr f)
        have "sv_now svc w < ?e" "?e \<le> add_days (sv_now svc w) 90" using days by (auto simp: add_days_def maxKeyDays_def)
        then show thesis using issued [of "\<lparr>ik_Key = ?key, ik_ExpiresAt = ?e\<rparr>" bs] res ch Inr st1 raw \<open>raw = Inr bs\<close>
          by (auto simp: op_changes_def)
      qed
    qed
  qed
qed

subsection \<open>The life of a key\<close>

text \<open>
  The keys that are current after a history of operations on functions: for each function the last key
  \<open>IssueKey\<close> returned, with the time it was issued and the time it expires; none after \<open>RevokeKey\<close>, and none
  once the function is gone. Between the operations everything but the table of functions may change, as
  other requests, the clock and failing statements do.
\<close>

type_synonym current_keys = "nat \<rightharpoonup> bytes \<times> int \<times> int"

inductive key_reach :: "'w function_svc \<Rightarrow> 'w fstate \<Rightarrow> 'w fstate \<Rightarrow> current_keys \<Rightarrow> bool" for svc st0 where
  kr_start: "key_reach svc st0 st0 Map.empty"
| kr_other: "key_reach svc st0 st cur \<Longrightarrow> function_tbl (fs_db st') = function_tbl (fs_db st) \<Longrightarrow> db_wf (fs_db st')
    \<Longrightarrow> key_reach svc st0 st' cur"
| kr_issue: "key_reach svc st0 st cur \<Longrightarrow> IssueKey svc owner ident days st = (r, st')
    \<Longrightarrow> key_reach svc st0 st' (case r of Inl _ \<Rightarrow> cur
        | Inr ik \<Rightarrow> cur(ident \<mapsto> (ik_Key ik, sv_now svc (fs_world st'), ik_ExpiresAt ik)))"
| kr_revoke: "key_reach svc st0 st cur \<Longrightarrow> RevokeKey owner ident st = (r, st')
    \<Longrightarrow> key_reach svc st0 st' (case r of Inl _ \<Rightarrow> cur | Inr _ \<Rightarrow> cur(ident := None))"
| kr_create: "key_reach svc st0 st cur \<Longrightarrow> fs_Create svc owner name wasm dm st = (r, st') \<Longrightarrow> key_reach svc st0 st' cur"
| kr_create_source: "key_reach svc st0 st cur \<Longrightarrow> CreateSource svc owner name language source dm st = (r, st')
    \<Longrightarrow> key_reach svc st0 st' cur"
| kr_update: "key_reach svc st0 st cur \<Longrightarrow> fs_Update svc owner ident wasm dm st = (r, st') \<Longrightarrow> key_reach svc st0 st' cur"
| kr_update_source: "key_reach svc st0 st cur \<Longrightarrow> UpdateSource svc owner ident language source dm st = (r, st')
    \<Longrightarrow> key_reach svc st0 st' cur"
| kr_delete: "key_reach svc st0 st cur \<Longrightarrow> fs_Delete owner ident st = (r, st')
    \<Longrightarrow> key_reach svc st0 st' (cur |` (f_id ` set (function_tbl (fs_db st'))))"

definition key_row_ok :: "(bytes \<Rightarrow> bytes) \<Rightarrow> (bytes \<times> int \<times> int) option \<Rightarrow> function_row \<Rightarrow> bool" where
  "key_row_ok sha k r = (case k of None \<Rightarrow> f_key_hash r = [] \<and> f_key_expires_at r = None
     | Some (key, t, e) \<Rightarrow> f_key_hash r = sha key \<and> f_key_expires_at r = Some e)"

definition keys_inv :: "(bytes \<Rightarrow> bytes) \<Rightarrow> function_row list \<Rightarrow> current_keys \<Rightarrow> bool" where
  "keys_inv sha tbl cur \<longleftrightarrow> (\<forall>r\<in>set tbl. key_row_ok sha (cur (f_id r)) r) \<and> dom cur \<subseteq> f_id ` set tbl
     \<and> (\<forall>i k t e. cur i = Some (k, t, e) \<longrightarrow> length k = 48 \<and> t < e \<and> e \<le> add_days t 90)"

lemma same_row: "distinct (map f_id t) \<Longrightarrow> r \<in> set t \<Longrightarrow> row \<in> set t \<Longrightarrow> f_id r = f_id row \<Longrightarrow> r = row"
  by (simp add: distinct_map inj_on_def)

lemma update_rows_mem:
  assumes "distinct (map f_id t)" "row \<in> set t" "p row" "\<And>r. p r \<Longrightarrow> f_id r = f_id row" "r' \<in> set (update_rows p g t)"
  shows "r' = g row \<or> r' \<in> set t \<and> f_id r' \<noteq> f_id row"
proof -
  obtain r where r: "r \<in> set t" "r' = (if p r then g r else r)" using assms(5) by (auto simp: update_rows_def)
  show ?thesis
  proof (cases "f_id r = f_id row")
    case True
    then have "r = row" using same_row [OF assms(1) r(1) assms(2)] by simp
    with r assms(3) show ?thesis by simp
  next
    case False
    then have "\<not> p r" using assms(4) by blast
    with r False show ?thesis by simp
  qed
qed

lemma update_rows_ids: "(\<And>r. f_id (g r) = f_id r) \<Longrightarrow> f_id ` set (update_rows p g t) = f_id ` set t"
proof -
  assume g: "\<And>r. f_id (g r) = f_id r"
  have "map f_id (update_rows p g t) = map f_id t" using g by (induction t) (simp_all add: update_rows_def)
  then show ?thesis by (metis list.set_map)
qed

text \<open>What a change of the table makes of the current keys.\<close>

fun key_change :: "(bytes \<Rightarrow> bytes) \<Rightarrow> table_change \<Rightarrow> current_keys \<Rightarrow> current_keys \<Rightarrow> bool" where
  "key_change sha (Keyed i h e) cur cur' = (\<exists>k now. h = sha k \<and> length k = 48 \<and> now < e \<and> e \<le> add_days now 90 \<and> cur' = cur(i \<mapsto> (k, now, e)))"
| "key_change sha (Unkeyed i) cur cur' = (cur' = cur(i := None))"
| "key_change sha (Removed i) cur cur' = (cur' = cur(i := None))"
| "key_change sha _ cur cur' = (cur' = cur)"

lemma keys_inv_change:
  assumes "changes c t t'" and dist: "distinct (map f_id t)" and inv: "keys_inv sha t cur" and cur: "key_change sha c cur cur'"
  shows "keys_inv sha t' cur'"
  using assms(1)
proof (cases)
  case same
  then show ?thesis using inv cur by simp
next
  case (added row)
  then have "cur (f_id row) = None" using inv by (auto simp: keys_inv_def)
  then show ?thesis using inv added cur by (auto simp: keys_inv_def key_row_ok_def)
next
  case (updated row p g h e)
  note mem = update_rows_mem [where p = p, OF dist updated(2,3,4)]
  have ids: "f_id ` set t' = f_id ` set t" unfolding updated(1) by (rule update_rows_ids) (simp add: updated(5))
  have gid: "f_id (g row) = f_id row" using updated(5) by simp
  have row: "key_row_ok sha (cur (f_id row)) row" "f_id row \<in> f_id ` set t" using inv updated(2) by (auto simp: keys_inv_def)
  have "key_row_ok sha (cur' (f_id row)) (g row) \<and> (\<forall>i. i \<noteq> f_id row \<longrightarrow> cur' i = cur i)
      \<and> (\<forall>k t e. cur' (f_id row) = Some (k, t, e) \<longrightarrow> length k = 48 \<and> t < e \<and> e \<le> add_days t 90)"
    using updated(6)
  proof (elim disjE conjE)
    assume "c = Keyed (f_id row) h e" "\<forall>r. f_key_hash (g r) = h \<and> f_key_expires_at (g r) = Some e"
    then show ?thesis using cur by (auto simp: key_row_ok_def)
  next
    assume "c = Unkeyed (f_id row)" "\<forall>r. f_key_hash (g r) = [] \<and> f_key_expires_at (g r) = None"
    then show ?thesis using cur by (auto simp: key_row_ok_def)
  next
    assume "c = Redeployed (f_id row)" "\<forall>r. f_key_hash (g r) = f_key_hash r \<and> f_key_expires_at (g r) = f_key_expires_at r"
    then show ?thesis using cur inv row(1) by (auto simp: key_row_ok_def keys_inv_def split: option.splits)
  qed
  then have new: "key_row_ok sha (cur' (f_id row)) (g row)" "\<And>i. i \<noteq> f_id row \<Longrightarrow> cur' i = cur i"
      "\<And>k t e. cur' (f_id row) = Some (k, t, e) \<Longrightarrow> length k = 48 \<and> t < e \<and> e \<le> add_days t 90" by blast+
  have "key_row_ok sha (cur' (f_id r)) r" if "r \<in> set t'" for r
  proof (cases "r = g row")
    case True
    with new(1) gid show ?thesis by simp
  next
    case False
    then have "r \<in> set t" "f_id r \<noteq> f_id row" using mem [of r g] that unfolding updated(1) by auto
    with inv new(2) show ?thesis by (simp add: keys_inv_def)
  qed
  moreover have "dom cur' \<subseteq> f_id ` set t"
  proof
    fix i assume "i \<in> dom cur'"
    then show "i \<in> f_id ` set t" using inv row(2) new(2) by (cases "i = f_id row") (auto simp: keys_inv_def)
  qed
  moreover have "length k = 48 \<and> ti < x \<and> x \<le> add_days ti 90" if "cur' i = Some (k, ti, x)" for i k ti x
    using that inv new(2,3) by (cases "i = f_id row") (auto simp: keys_inv_def)
  ultimately show ?thesis unfolding keys_inv_def ids by blast
next
  case (removed row p)
  have gone: "r \<in> set t \<and> f_id r \<noteq> f_id row" if "r \<in> set t'" for r
    using that same_row [OF dist _ removed(3)] removed(4) unfolding removed(2) by auto
  have kept: "r \<in> set t'" if "r \<in> set t" "f_id r \<noteq> f_id row" for r
    using that removed(5) unfolding removed(2) by auto
  have c': "cur' = cur(f_id row := None)" using cur removed(1) by simp
  have "dom cur' \<subseteq> f_id ` set t'"
  proof
    fix i assume "i \<in> dom cur'"
    then have "i \<noteq> f_id row" "i \<in> f_id ` set t" using inv by (auto simp: c' keys_inv_def split: if_splits)
    with kept show "i \<in> f_id ` set t'" by auto
  qed
  with gone inv show ?thesis unfolding keys_inv_def c' by auto
qed

lemma keys_inv_op:
  assumes "op_changes c r st st'" and "db_wf (fs_db st)" and "keys_inv sha (function_tbl (fs_db st)) cur"
    and "key_change sha (if is_ok r then c else NoChange) cur cur'"
  shows "db_wf (fs_db st') \<and> keys_inv sha (function_tbl (fs_db st')) cur'"
proof -
  have "distinct (map f_id (function_tbl (fs_db st)))" using assms(2) by (simp add: db_wf_def functions_wf_def)
  with keys_inv_change [OF _ this assms(3,4)] assms(1) show ?thesis by (simp add: op_changes_def)
qed

lemma keys_inv_keep:
  assumes "op_changes c r st st'" and "db_wf (fs_db st) \<and> keys_inv sha (function_tbl (fs_db st)) cur" and "key_change sha c cur cur"
  shows "db_wf (fs_db st') \<and> keys_inv sha (function_tbl (fs_db st')) cur"
proof -
  have "key_change sha (if is_ok r then c else NoChange) cur cur" using assms(3) by simp
  with keys_inv_op [OF assms(1)] assms(2) show ?thesis by blast
qed

lemma RevokeKey_changes:
  assumes "RevokeKey owner ident st = (r, st')" and "db_wf (fs_db st)"
  shows "op_changes (Unkeyed ident) r st st'"
proof -
  obtain q st1 where q: "on_db (fr_DeleteKey owner ident) st = (q, st1)" by force
  from DeleteKey_changes [OF this assms(2)] assms(1) q show ?thesis
    by (cases q) (auto simp: RevokeKey_def op_changes_def)
qed

lemma fs_Delete_inv:
  assumes "fs_Delete owner ident st = (r, st')" and wf: "db_wf (fs_db st)" and inv: "keys_inv sha (function_tbl (fs_db st)) cur"
  shows "db_wf (fs_db st') \<and> keys_inv sha (function_tbl (fs_db st')) (cur |` (f_id ` set (function_tbl (fs_db st'))))"
proof -
  obtain q d where q: "fr_Delete owner ident (fs_db st) = (q, d)" by force
  have d: "fs_db st' = d"
  proof (cases "is_ok q \<and> fs_data st \<noteq> None")
    case True
    then have "on_data (data_DeleteFunction owner ident) (st\<lparr>fs_db := d\<rparr>) = (r, st')"
      using assms(1) q by (auto simp: fs_Delete_def on_db_def is_ok_iff)
    from on_data_db [OF this] show ?thesis by simp
  next
    case False
    with assms(1) q show ?thesis by (cases q) (auto simp: fs_Delete_def on_db_def)
  qed
  have dist: "distinct (map f_id (function_tbl (fs_db st)))" using wf by (simp add: db_wf_def functions_wf_def)
  have "db_wf d \<and> (\<exists>cur'. keys_inv sha (function_tbl d) cur' \<and> cur |` (f_id ` set (function_tbl d)) = cur')"
    using q wf
  proof (cases rule: Delete_cases)
    case (failed e)
    have "dom cur \<subseteq> f_id ` set (function_tbl d)" using inv failed(2) by (simp add: keys_inv_def)
    then have "cur x = None" if "x \<notin> f_id ` set (function_tbl d)" for x using that by blast
    then have "cur |` (f_id ` set (function_tbl d)) = cur" by (simp add: restrict_map_def fun_eq_iff)
    with failed inv show ?thesis by simp
  next
    case (deleted row)
    let ?p = "\<lambda>r. f_id r = ident \<and> owned_fn owner r"
    have "changes (Removed (f_id row)) (function_tbl (fs_db st)) (function_tbl d)"
      unfolding deleted(6) by (rule changes.removed) (use deleted in \<open>auto simp: owned_fn_def\<close>)
    from keys_inv_change [OF this dist inv] have k: "keys_inv sha (function_tbl d) (cur(ident := None))"
      using deleted(3) by simp
    have "ident \<notin> f_id ` set (function_tbl d)"
      using same_row [OF dist _ deleted(2)] deleted(3,4) unfolding deleted(6) by (auto simp: owned_fn_def)
    moreover have "cur x = None" if "x \<notin> f_id ` set (function_tbl d)" "x \<noteq> ident" for x
      using k that unfolding keys_inv_def by (metis domIff fun_upd_other subsetD)
    ultimately have "cur |` (f_id ` set (function_tbl d)) = cur(ident := None)"
      by (simp add: restrict_map_def fun_eq_iff)
    with k deleted(5) show ?thesis by simp
  qed
  then show ?thesis unfolding d by blast
qed

lemma RawURLEncoding_length: "length (RawURLEncoding s) = (4 * length s + 2) div 3"
  by (induction s rule: RawURLEncoding.induct) (simp_all add: Let_def)

text \<open>What is relied on: SHA-256 gives 32 bytes, and so does the random source.\<close>

definition lawful_keys :: "'w function_svc \<Rightarrow> bool" where
  "lawful_keys svc \<longleftrightarrow> (\<forall>x. length (sv_sha256 svc x) = 32) \<and> (\<forall>w raw w'. sv_rand svc w = (Ok raw, w') \<longrightarrow> length raw = 32)"

lemma key_reach_inv:
  assumes "key_reach svc st0 st cur" and "lawful_keys svc" and "db_wf (fs_db st0)"
    and "\<forall>r\<in>set (function_tbl (fs_db st0)). f_key_hash r = [] \<and> f_key_expires_at r = None"
  shows "db_wf (fs_db st) \<and> keys_inv (sv_sha256 svc) (function_tbl (fs_db st)) cur"
  using assms(1)
proof (induction rule: key_reach.induct)
  case kr_start
  then show ?case using assms by (simp add: keys_inv_def key_row_ok_def)
next
  case (kr_other st cur st')
  then show ?case by simp
next
  case (kr_issue st cur owner ident days r st')
  show ?case using kr_issue.hyps(2) conjunct1 [OF kr_issue.IH]
  proof (cases rule: IssueKey_changes)
    case (failed e)
    from keys_inv_op [OF failed(2) conjunct1 [OF kr_issue.IH] conjunct2 [OF kr_issue.IH]] failed(1) show ?thesis by simp
  next
    case (issued raw ik)
    have "length raw = 32" using issued(3) assms(2) by (auto simp: lawful_keys_def)
    then have "length (ik_Key ik) = 48" using issued(2) by (simp add: RawURLEncoding_length keyPrefix_def)
    with issued(1,5,6) have "key_change (sv_sha256 svc) (if is_ok r then Keyed ident (sv_sha256 svc (ik_Key ik)) (ik_ExpiresAt ik) else NoChange)
        cur (cur(ident \<mapsto> (ik_Key ik, sv_now svc (fs_world st'), ik_ExpiresAt ik)))" by auto
    from keys_inv_op [OF issued(4) conjunct1 [OF kr_issue.IH] conjunct2 [OF kr_issue.IH] this]
    show ?thesis unfolding issued(1) sum.case .
  qed
next
  case (kr_revoke st cur owner ident r st')
  note k = keys_inv_op [OF RevokeKey_changes [OF kr_revoke.hyps(2) conjunct1 [OF kr_revoke.IH]]
      conjunct1 [OF kr_revoke.IH] conjunct2 [OF kr_revoke.IH]]
  show ?case
  proof (cases r)
    case (Inl e)
    with k [of cur] show ?thesis by simp
  next
    case (Inr u)
    with k [of "cur(ident := None)"] show ?thesis by (simp del: fun_upd_apply)
  qed
next
  case (kr_create st cur owner name wasm dm r st')
  show ?case by (rule keys_inv_keep [OF Create_changes [OF kr_create.hyps(2) conjunct1 [OF kr_create.IH]] kr_create.IH]) simp
next
  case (kr_create_source st cur owner name language source dm r st')
  show ?case by (rule keys_inv_keep [OF CreateSource_changes [OF kr_create_source.hyps(2) conjunct1 [OF kr_create_source.IH]] kr_create_source.IH]) simp
next
  case (kr_update st cur owner ident wasm dm r st')
  show ?case by (rule keys_inv_keep [OF Update_changes [OF kr_update.hyps(2) conjunct1 [OF kr_update.IH]] kr_update.IH]) simp
next
  case (kr_update_source st cur owner ident language source dm r st')
  show ?case by (rule keys_inv_keep [OF UpdateSource_changes [OF kr_update_source.hyps(2) conjunct1 [OF kr_update_source.IH]] kr_update_source.IH]) simp
next
  case (kr_delete st cur owner ident r st')
  then show ?case using fs_Delete_inv by blast
qed

lemma GetPublic_row:
  assumes "fr_GetPublic ident d = (Ok fn, d')"
  obtains row where "row \<in> set (function_tbl d)" "f_id row = ident" "fn = toFunction (Some (f_owner row)) row"
proof -
  obtain x d1 where q: "query (\<lambda>d. only_row (function_tbl d) (\<lambda>r. f_id r = ident)) d = (x, d1)" by force
  have "\<exists>row. x = Ok row \<and> toFunction (Some (f_owner row)) row = fn"
    using assms unfolding fr_GetPublic_def q by (cases x) simp_all
  then obtain row where x: "x = Ok row" "fn = toFunction (Some (f_owner row)) row" by blast
  have "only_row (function_tbl d1) (\<lambda>r. f_id r = ident) = Ok row"
    using query_ok [OF q [unfolded x(1)]] .
  moreover have "function_tbl d1 = function_tbl d" using query_tables [OF q] by (simp add: same_tables_def)
  ultimately show thesis using that x(2) only_row_Ok by fastforce
qed

text \<open>
  C29. After any history of the operations on functions, a public call runs a function exactly when
  the key it brings hashes to that of the current key of the function, is as long, and the current key has not expired; every current key
  expires at most ninety days after it was issued. A key that was replaced or revoked, or one of a deleted
  function, runs nothing.
\<close>

theorem key_lifecycle:
  assumes "lawful_keys svc" and "db_wf (fs_db st0)"
    and "\<forall>r\<in>set (function_tbl (fs_db st0)). f_key_hash r = [] \<and> f_key_expires_at r = None"
    and "key_reach svc st0 st cur"
  shows "InvokePublic svc ident key input st = (case on_db (fr_GetPublic ident) st of
       (Err e, st1) \<Rightarrow> (Err e, st1)
     | (Ok fn, st1) \<Rightarrow>
         if \<exists>k t e. cur ident = Some (k, t, e) \<and> sv_sha256 svc key = sv_sha256 svc k \<and> length key = length k
              \<and> sv_now svc (fs_world st) < e \<and> e \<le> add_days t 90
         then fs_execute svc fn input st1 else (Err ErrInvalidKey, st1))"
proof -
  have inv: "keys_inv (sv_sha256 svc) (function_tbl (fs_db st)) cur"
    using key_reach_inv [OF assms(4,1,2,3)] by simp
  obtain q st1 where q: "on_db (fr_GetPublic ident) st = (q, st1)" by force
  then have w: "fs_world st1 = fs_world st" by (auto simp: on_db_def split: prod.splits)
  show ?thesis
  proof (cases q)
    case (Inl e)
    with q show ?thesis by (simp add: InvokePublic_def)
  next
    case (Inr fn)
    obtain row where row: "row \<in> set (function_tbl (fs_db st))" "f_id row = ident" "fn = toFunction (Some (f_owner row)) row"
      using q Inr GetPublic_row [of ident "fs_db st" fn] by (cases "fr_GetPublic ident (fs_db st)") (simp add: on_db_def, blast)
    then have "key_row_ok (sv_sha256 svc) (cur ident) row" using inv by (auto simp: keys_inv_def)
    moreover have "length k = 48 \<and> e \<le> add_days t 90" if "cur ident = Some (k, t, e)" for k t e
      using inv that by (auto simp: keys_inv_def)
    moreover have "length (sv_sha256 svc x) = 32" for x using assms(1) by (simp add: lawful_keys_def)
    ultimately have "checkKey svc fn key (fs_world st1) = None \<longleftrightarrow>
        (\<exists>k t e. cur ident = Some (k, t, e) \<and> sv_sha256 svc key = sv_sha256 svc k \<and> length key = length k
              \<and> sv_now svc (fs_world st) < e \<and> e \<le> add_days t 90)"
      using w by (cases "cur ident") (auto simp: checkKey_def row(3) toFunction_def key_row_ok_def keyPrefix_def split: if_splits)
    moreover have "checkKey svc fn key (fs_world st1) = None \<or> checkKey svc fn key (fs_world st1) = Some ErrInvalidKey"
      by (simp add: checkKey_def split: option.splits)
    ultimately show ?thesis using q Inr by (auto simp: InvokePublic_def)
  qed
qed

text \<open>A service on a world that is the clock; its function prints an empty object.\<close>

definition example_raw :: bytes where "example_raw = replicate 32 CHR ''a''"

definition example_svc :: "int function_svc" where
  "example_svc = \<lparr>sv_now = (\<lambda>w. w), sv_rand = (\<lambda>w. (Ok example_raw, w)),
     sv_sha256 = (\<lambda>x. take 32 (drop 5 x @ replicate 32 CHR ''-'')), sv_builder = None,
     sv_compile = (\<lambda>_ w. (Ok \<lparr>md_imports = [], md_memories = 0, md_exports = [(''_start'', [], [])]\<rparr>, w)),
     sv_wasi = (\<lambda>_. None), sv_guest = (\<lambda>_ _ _ w. (\<lparr>gr_events = [GWrite ''{}''], gr_stderr = [], gr_stop = Finished\<rparr>, w)),
     sv_compact = Some,
     sv_protocol = \<lparr>fe_engine = \<lparr>eng_open = (\<lambda>_ w. (None, w)), eng_exec = (\<lambda>_ _ _ w. (Ok 0, w)),
         eng_query = (\<lambda>_ _ _ w. (Ok ([], [], None), w)), eng_json_len = (\<lambda>_. Some 2)\<rparr>,
       fe_valid_json = (\<lambda>_. True), fe_now = (\<lambda>w. w), fe_request = (\<lambda>_. None), fe_encode = (\<lambda>_. [])\<rparr>\<rparr>"

definition example_function :: function_row where
  "example_function = \<lparr>f_id = 9, f_name = ''hello'', f_wasm = ''m'', f_language = ''wasm'', f_data_mode = False, f_source = [],
     f_key_hash = [], f_key_created_at = None, f_key_expires_at = None, f_created_at = 0, f_updated_at = 0, f_owner = 7\<rparr>"

definition example_functions_db :: db where
  "example_functions_db = \<lparr>users = [\<lparr>u_id = 7, u_email = ''a@b'', u_name = [], u_google_id = ''g'', u_google_access_token = [],
       u_google_refresh_token = [], u_google_token_expiry = 0, u_current_refresh_jti = None, u_created_at = 0\<rparr>],
     key_pairs = [], instances = [], containers = [], apps = [], function_tbl = [example_function], seq = 10, clock = 0, faults = []\<rparr>"

definition example_fstate :: "int \<Rightarrow> int fstate" where
  "example_fstate t = \<lparr>fs_db = example_functions_db, fs_slots = 0, fs_data = None, fs_world = t\<rparr>"

definition issued_example :: "(fn_err + IssuedKey) \<times> int fstate" where
  "issued_example = IssueKey example_svc 7 9 0 (example_fstate 0)"

definition example_key :: bytes where
  "example_key = keyPrefix @ RawURLEncoding example_raw"

lemma example_svc_parts: "sv_rand example_svc w = (Ok example_raw, w)" "sv_now example_svc w = w"
  "length (sv_sha256 example_svc x) = 32" "length example_raw = 32"
  by (simp_all add: example_svc_def example_raw_def min_def)

lemma example_keyed_wf: "db_wf (example_functions_db\<lparr>function_tbl := [example_function\<lparr>f_key_hash := h, f_key_created_at := c,
    f_key_expires_at := e, f_updated_at := u\<rparr>]\<rparr>)"
  by (simp add: db_wf_def table_wf_defs example_functions_db_def example_function_def)

lemma issued_example_value: "issued_example = (Ok \<lparr>ik_Key = example_key, ik_ExpiresAt = 2592000000000000\<rparr>,
    (example_fstate 0)\<lparr>fs_db := example_functions_db\<lparr>function_tbl := [example_function\<lparr>f_key_hash := sv_sha256 example_svc example_key,
      f_key_created_at := Some 0, f_key_expires_at := Some 2592000000000000\<rparr>]\<rparr>\<rparr>)"
proof -
  have tick: "tick example_functions_db = (None, example_functions_db)" by (simp add: tick_def example_functions_db_def)
  have rows: "function_tbl example_functions_db = [example_function]" "clock example_functions_db = 0"
    by (simp_all add: example_functions_db_def)
  have f: "f_id example_function = 9" "owned_fn 7 example_function" "f_updated_at example_function = 0"
    by (simp_all add: example_function_def owned_fn_def)
  have "fr_SetKey 7 9 h 0 e example_functions_db = (Ok (toFunction None (example_function\<lparr>f_key_hash := h,
      f_key_created_at := Some 0, f_key_expires_at := Some e, f_updated_at := 0\<rparr>)),
      example_functions_db\<lparr>function_tbl := [example_function\<lparr>f_key_hash := h, f_key_created_at := Some 0,
        f_key_expires_at := Some e, f_updated_at := 0\<rparr>]\<rparr>)" for h e
    unfolding fr_SetKey_def update_one_def exec_def tick
    by (simp add: rows f update_rows_def example_keyed_wf)
  moreover have "example_function\<lparr>f_key_hash := h, f_key_created_at := c, f_key_expires_at := e, f_updated_at := 0\<rparr>
      = example_function\<lparr>f_key_hash := h, f_key_created_at := c, f_key_expires_at := e\<rparr>" for h c e
    by (simp add: example_function_def)
  ultimately show ?thesis
    unfolding issued_example_def IssueKey_def Let_def on_db_def
    by (simp add: defaultKeyDays_def maxKeyDays_def example_fstate_def add_days_def example_key_def example_svc_parts)
qed

lemma example_public:
  assumes "function_tbl (fs_db st) = [row]" and "faults (fs_db st) = []" and "f_id row = 9" and "f_data_mode row = False"
    and "f_wasm row = ''m''" and "f_language row = ''wasm''" and "fs_slots st = 0"
  shows "on_db (fr_GetPublic 9) st = (Ok (toFunction (Some (f_owner row)) row), st)"
    and "fst (fs_execute example_svc (toFunction ow row) ''{}'' st) = Ok \<lparr>rs_Stdout = ''{}'', rs_Stderr = [], rs_ExitCode = 0\<rparr>"
proof -
  have "tick (fs_db st) = (None, fs_db st)" by (simp add: tick_def assms(2))
  then show "on_db (fr_GetPublic 9) st = (Ok (toFunction (Some (f_owner row)) row), st)"
    by (simp add: on_db_def fr_GetPublic_def query_def only_row_def assms(1,3))
  have json: "jsonObject (\<lambda>_. True) ''{}''" by (simp add: jsonObject_def example_trim)
  show "fst (fs_execute example_svc (toFunction ow row) ''{}'' st) = Ok \<lparr>rs_Stdout = ''{}'', rs_Stderr = [], rs_ExitCode = 0\<rparr>"
    using json by (simp add: fs_execute_def example_svc_def toFunction_def assms MaxInputBytes_def run_result_def limited_all_def
        limited_Write_def MaxOutputBytes_def)
qed

theorem key_lifecycle_witness:
  "fst (InvokePublic example_svc 9 example_key ''{}'' (snd issued_example)) = Ok \<lparr>rs_Stdout = ''{}'', rs_Stderr = [], rs_ExitCode = 0\<rparr>
   \<and> fst (InvokePublic example_svc 9 example_key ''{}'' ((snd issued_example)\<lparr>fs_world := 2592000000000000\<rparr>)) = Err ErrInvalidKey
   \<and> fst (InvokePublic example_svc 9 [] ''{}'' (snd issued_example)) = Err ErrInvalidKey"
proof -
  let ?st = "snd issued_example" and ?late = "(snd issued_example)\<lparr>fs_world := 2592000000000000\<rparr>"
  let ?cur = "[9 \<mapsto> (example_key, 0, 2592000000000000)] :: current_keys"
  have wf: "db_wf (fs_db (example_fstate 0))"
    by (simp add: example_fstate_def db_wf_def table_wf_defs example_functions_db_def example_function_def)
  have lawful: "lawful_keys example_svc" by (simp add: lawful_keys_def example_svc_parts)
  have no_keys: "\<forall>r\<in>set (function_tbl (fs_db (example_fstate 0))). f_key_hash r = [] \<and> f_key_expires_at r = None"
    by (simp add: example_fstate_def example_functions_db_def example_function_def)
  have "IssueKey example_svc 7 9 0 (example_fstate 0) = (fst issued_example, ?st)" by (simp add: issued_example_def)
  from kr_issue [OF kr_start this] have reach: "key_reach example_svc (example_fstate 0) ?st ?cur"
    by (simp add: issued_example_value example_fstate_def example_svc_parts)
  have "db_wf (fs_db ?st)" using key_reach_inv [OF reach lawful wf no_keys] ..
  then have late: "key_reach example_svc (example_fstate 0) ?late ?cur" by (intro kr_other [OF reach]) simp_all
  have row: "\<exists>row. function_tbl (fs_db st) = [row] \<and> faults (fs_db st) = [] \<and> f_id row = 9 \<and> f_data_mode row = False
      \<and> f_wasm row = ''m'' \<and> f_language row = ''wasm'' \<and> fs_slots st = 0" if "st = ?st \<or> st = ?late" for st
    using that by (auto simp: issued_example_value example_fstate_def example_functions_db_def example_function_def)
  have world: "sv_now example_svc (fs_world ?st) = 0" "sv_now example_svc (fs_world ?late) = 2592000000000000"
    by (simp_all add: issued_example_value example_fstate_def example_svc_parts)
  have len: "length example_key = 48"
    by (simp add: example_key_def keyPrefix_def RawURLEncoding_length example_svc_parts)
  then have "example_key \<noteq> []" by auto
  obtain row1 where r1: "on_db (fr_GetPublic 9) ?st = (Ok (toFunction (Some (f_owner row1)) row1), ?st)"
      "fst (fs_execute example_svc (toFunction (Some (f_owner row1)) row1) ''{}'' ?st) = Ok \<lparr>rs_Stdout = ''{}'', rs_Stderr = [], rs_ExitCode = 0\<rparr>"
    using row [of ?st] example_public by blast
  obtain row2 where r2: "on_db (fr_GetPublic 9) ?late = (Ok (toFunction (Some (f_owner row2)) row2), ?late)"
    using row [of ?late] example_public by blast
  note kl = key_lifecycle [OF lawful wf no_keys, of _ _ 9 _ "''{}''"]
  show ?thesis
    using kl [OF reach, of example_key] kl [OF late, of example_key] kl [OF reach, of "[]"] r1 r2 world len \<open>example_key \<noteq> []\<close>
    by (simp add: add_days_def)
qed

end
