(* ===== verification/Functions_Http.thy ===== *)
theory Functions_Http
  imports Functions_Service
begin

text \<open>
  The HTTP side of user functions: \<^verbatim>\<open>http.go\<close> (public calls), \<^verbatim>\<open>handler.go\<close> and
  \<^verbatim>\<open>database_handler.go\<close> of \<^verbatim>\<open>internal/domain/functions\<close>. Path parameters that are UUIDs come as the
  parsed value, \<open>None\<close> when they do not parse; a JSON body comes as the framework bound it. Encoding
  events and decoding responses, standard Base64 and the check for UTF-8 are libraries.
\<close>

subsection \<open>Headers\<close>

text \<open>\<^verbatim>\<open>headerName\<close>, which is also the set of characters \<^verbatim>\<open>http.CanonicalHeaderKey\<close> accepts.\<close>

definition token_char :: "char \<Rightarrow> bool" where
  "token_char c \<longleftrightarrow> is_lower c \<or> is_upper c \<or> is_digit c \<or> c \<in> set ''!#$%&*+.^_`|~-'' \<or> byte c = 39"

definition headerName :: "bytes \<Rightarrow> bool" where
  "headerName s \<longleftrightarrow> s \<noteq> [] \<and> list_all token_char s"

fun canon :: "bool \<Rightarrow> bytes \<Rightarrow> bytes" where
  "canon up [] = []"
| "canon up (c # s) = (if up then upper_char c else lower_char c) # canon (c = CHR ''-'') s"

definition CanonicalHeaderKey :: "bytes \<Rightarrow> bytes" where
  "CanonicalHeaderKey s = (if list_all token_char s then canon True s else s)"

definition sensitiveRequestHeader :: "bytes \<Rightarrow> bool" where
  "sensitiveRequestHeader name \<longleftrightarrow> name = ''Cookie'' \<or> name = ''Authorization'' \<or> name = ''Proxy-Authorization''
     \<or> HasPrefix name ''X-Forwarded-'' \<or> HasPrefix name ''Cf-'' \<or> HasPrefix name ''X-Rcp-''"

definition refused_headers :: "bytes list" where
  "refused_headers = [''Set-Cookie'', ''Content-Length'', ''Transfer-Encoding'', ''Connection'', ''Keep-Alive'', ''Upgrade'',
     ''Server'', ''Proxy-Authenticate'', ''Proxy-Authorization'']"

definition safeResponseHeader :: "bytes \<Rightarrow> bytes \<Rightarrow> bool" where
  "safeResponseHeader name value = (let canonical = CanonicalHeaderKey name in
     if \<not> headerName name \<or> CHR 13 \<in> set value \<or> CHR 10 \<in> set value then False
     else if canonical \<in> set refused_headers then False
     else \<not> HasPrefix canonical ''X-Rcp-'')"

subsection \<open>Public calls\<close>

record HTTPEvent =
  ev_Method :: bytes
  ev_Path :: bytes
  ev_Query :: bytes
  ev_Headers :: "bytes \<rightharpoonup> bytes"
  ev_Body :: bytes
  ev_IsBase64Encoded :: bool

text \<open>The headers of a response are listed in the order the loop over the map sees them.\<close>

record HTTPResponse =
  hp_StatusCode :: int
  hp_Headers :: "(bytes \<times> bytes) list"
  hp_Body :: bytes
  hp_IsBase64Encoded :: bool

record http_lib =
  hl_event :: "HTTPEvent \<Rightarrow> bytes option"
  hl_response :: "bytes \<Rightarrow> HTTPResponse option"
  hl_encode64 :: "bytes \<Rightarrow> bytes"
  hl_decode64 :: "bytes \<Rightarrow> bytes option"
  hl_utf8 :: "bytes \<Rightarrow> bool"

text \<open>A request, with its headers in the order of the loop. The body is \<open>None\<close> when reading it fails.\<close>

record http_request =
  hr_Method :: bytes
  hr_RawQuery :: bytes
  hr_Header :: "(bytes \<times> bytes list) list"
  hr_Body :: "bytes option"

definition MaxHTTPBodyBytes :: nat where "MaxHTTPBodyBytes = 65536"

text \<open>Reading a body through \<^verbatim>\<open>http.MaxBytesReader\<close>.\<close>

definition read_limited :: "nat \<Rightarrow> bytes option \<Rightarrow> bytes option" where
  "read_limited limit body = (case body of None \<Rightarrow> None | Some b \<Rightarrow> if limit < length b then None else Some b)"

definition GetHeader :: "http_request \<Rightarrow> bytes \<Rightarrow> bytes" where
  "GetHeader req name = (case map_of (hr_Header req) (CanonicalHeaderKey name) of Some (v # _) \<Rightarrow> v | _ \<Rightarrow> [])"

definition newHTTPEvent :: "http_lib \<Rightarrow> http_request \<Rightarrow> bytes \<Rightarrow> bytes \<Rightarrow> HTTPEvent" where
  "newHTTPEvent lib req rawPath body = (let path = (if rawPath = [] then ''/'' else rawPath) in
     \<lparr>ev_Method = hr_Method req, ev_Path = path, ev_Query = hr_RawQuery req,
      ev_Headers = fold (\<lambda>(name, values) h. let canonical = CanonicalHeaderKey name in
          if sensitiveRequestHeader canonical then h else h(canonical \<mapsto> join_with '', '' values)) (hr_Header req) Map.empty,
      ev_Body = (if hl_utf8 lib body then body else hl_encode64 lib body),
      ev_IsBase64Encoded = (\<not> hl_utf8 lib body)\<rparr>)"

text \<open>An answer: \<open>Json b\<close> is here the body \<open>b\<close> as it is. \<^verbatim>\<open>c.Header\<close> removes a header that gets an empty value.\<close>

record answer =
  an_Status :: nat
  an_Header :: "bytes \<rightharpoonup> bytes"
  an_Body :: "(fn_err, bytes) body"

definition set_header :: "bytes \<Rightarrow> bytes \<Rightarrow> (bytes \<rightharpoonup> bytes) \<Rightarrow> (bytes \<rightharpoonup> bytes)" where
  "set_header name value h = (if value = [] then h(CanonicalHeaderKey name := None) else h(CanonicalHeaderKey name \<mapsto> value))"

definition cors_headers :: "bytes \<rightharpoonup> bytes" where
  "cors_headers = [''Access-Control-Allow-Origin'' \<mapsto> ''*'',
     ''Access-Control-Allow-Methods'' \<mapsto> ''GET, HEAD, POST, PUT, PATCH, DELETE, OPTIONS'',
     ''Access-Control-Allow-Headers'' \<mapsto> ''Authorization, Content-Type'']"

definition writeError :: "fn_err \<Rightarrow> (fn_err, 'a) response" where
  "writeError e =
     (let status =
        (if e \<in> {ErrNotFound, ErrDataNotFound} then 404
         else if e \<in> {ErrInvalidName, ErrInvalidWasm, ErrInvalidInput, ErrInvalidExpiry, ErrInvalidData, ErrBadDatabase} then 400
         else if e = ErrInvalidKey then 401
         else if e \<in> {ErrInvalidLanguage, ErrBuildFailed} then 400
         else if e \<in> {ErrBuildUnavailable, ErrDataUnavailable} then 503
         else if e \<in> {ErrConflict, ErrLimit, ErrDataLimit, ErrDatabaseLimit} then 409
         else if e = ErrBusy then 429
         else if e = ErrTimeout then 504
         else if e \<in> {ErrOutputLimit, ErrInvalidOutput, ErrSQLLimit} then 422
         else 500) in
      if status = 500 then (500, ErrMsg ''function operation failed'') else (status, ErrText e))"

definition answer_with :: "(fn_err, bytes) response \<Rightarrow> (bytes \<rightharpoonup> bytes) \<Rightarrow> answer" where
  "answer_with res h = \<lparr>an_Status = fst res, an_Header = h, an_Body = snd res\<rparr>"

text \<open>What becomes of the result of the function.\<close>

definition relay_response :: "http_lib \<Rightarrow> Result \<Rightarrow> answer" where
  "relay_response lib result =
     (if rs_ExitCode result \<noteq> 0 then answer_with (502, ErrMsg ''function exited with an error'') cors_headers
      else case hl_response lib (rs_Stdout result) of
        None \<Rightarrow> answer_with (502, ErrMsg ''invalid function HTTP response'') cors_headers
      | Some response \<Rightarrow>
          if hp_StatusCode response < 200 \<or> 599 < hp_StatusCode response
          then answer_with (502, ErrMsg ''invalid function HTTP response'') cors_headers
          else case (if hp_IsBase64Encoded response then hl_decode64 lib (hp_Body response) else Some (hp_Body response)) of
            None \<Rightarrow> answer_with (502, ErrMsg ''invalid function response body'') cors_headers
          | Some output \<Rightarrow>
              if MaxHTTPBodyBytes < length output then answer_with (502, ErrMsg ''function response body exceeds limit'') cors_headers
              else answer_with (nat (hp_StatusCode response), Json output)
                (fold (\<lambda>(name, value) h. if safeResponseHeader name value then set_header name value h else h)
                  (hp_Headers response) cors_headers))"

definition publicHTTP :: "http_lib \<Rightarrow> 'w function_svc \<Rightarrow> http_request \<Rightarrow> nat option \<Rightarrow> bytes \<Rightarrow> 'w fstate
    \<Rightarrow> answer \<times> 'w fstate" where
  "publicHTTP lib svc req ident path st =
     (if hr_Method req = ''OPTIONS'' then (answer_with (204, NoBody) cors_headers, st)
      else case ident of None \<Rightarrow> (answer_with (404, ErrMsg ''function not found'') cors_headers, st)
      | Some ident \<Rightarrow> (case Fields (GetHeader req ''Authorization'') of
          [scheme, key] \<Rightarrow>
            if \<not> EqualFold scheme ''Bearer'' then (answer_with (401, ErrText ErrInvalidKey) cors_headers, st)
            else (case read_limited MaxHTTPBodyBytes (hr_Body req) of
              None \<Rightarrow> (answer_with (413, ErrMsg ''request body exceeds 65536 bytes'') cors_headers, st)
            | Some body \<Rightarrow> (case hl_event lib (newHTTPEvent lib req path body) of
                None \<Rightarrow> (answer_with (413, ErrMsg ''request metadata exceeds limit'') cors_headers, st)
              | Some input \<Rightarrow>
                  if MaxInputBytes < length input then (answer_with (413, ErrMsg ''request metadata exceeds limit'') cors_headers, st)
                  else (case InvokePublic svc ident key input st of
                    (Err e, st) \<Rightarrow> (answer_with (writeError e) cors_headers, st)
                  | (Ok result, st) \<Rightarrow> (relay_response lib result, st))))
        | _ \<Rightarrow> (answer_with (401, ErrText ErrInvalidKey) cors_headers, st)))"

subsection \<open>Handlers of the owner\<close>

text \<open>A handler for an owner and a function; what the owner of the request is comes from the filter.\<close>

definition ownerAndID :: "nat option \<Rightarrow> nat option \<Rightarrow> (nat \<Rightarrow> nat \<Rightarrow> 's \<Rightarrow> (fn_err, 'a) response \<times> 's) \<Rightarrow> 's
    \<Rightarrow> (fn_err, 'a) response \<times> 's" where
  "ownerAndID owner ident k st = (case owner of None \<Rightarrow> (unauthorized, st)
   | Some owner \<Rightarrow> (case ident of None \<Rightarrow> ((400, ErrMsg ''invalid function id''), st) | Some ident \<Rightarrow> k owner ident st))"

text \<open>The end of a handler: \<^verbatim>\<open>writeError\<close>, or a status with the result or with no body.\<close>

definition reply_json :: "nat \<Rightarrow> (fn_err + 'a) \<times> 's \<Rightarrow> (fn_err, 'a) response \<times> 's" where
  "reply_json status rst = (case rst of (Err e, st) \<Rightarrow> (writeError e, st) | (Ok x, st) \<Rightarrow> ((status, Json x), st))"

definition reply_empty :: "(fn_err + unit) \<times> 's \<Rightarrow> (fn_err, unit) response \<times> 's" where
  "reply_empty rst = (case rst of (Err e, st) \<Rightarrow> (writeError e, st) | (Ok x, st) \<Rightarrow> ((204, NoBody), st))"

definition h_issueKey :: "'w function_svc \<Rightarrow> nat option \<Rightarrow> nat option \<Rightarrow> int option \<Rightarrow> 'w fstate
    \<Rightarrow> (fn_err, IssuedKey) response \<times> 'w fstate" where
  "h_issueKey svc owner ident bound = ownerAndID owner ident (\<lambda>owner ident st. case bound of
     None \<Rightarrow> ((400, ErrMsg ''invalid key expiry request''), st)
   | Some days \<Rightarrow> reply_json 201 (IssueKey svc owner ident days st))"

definition h_revokeKey :: "nat option \<Rightarrow> nat option \<Rightarrow> 'w fstate \<Rightarrow> (fn_err, unit) response \<times> 'w fstate" where
  "h_revokeKey owner ident = ownerAndID owner ident (\<lambda>owner ident st. reply_empty (RevokeKey owner ident st))"

text \<open>An uploaded form; the file is \<open>None\<close> when it is missing or the request is too large.\<close>

record upload_form =
  up_name :: bytes
  up_language :: bytes
  up_data_mode :: bytes
  up_file :: "bytes option"

definition readUpload :: "upload_form \<Rightarrow> (fn_err, 'a) response + bytes \<times> bytes \<times> bool" where
  "readUpload form = (let language = (if up_language form = [] then ''wasm'' else up_language form);
       limit = (if language = ''wasm'' then MaxWasmBytes else MaxSourceBytes) in
     case up_file form of None \<Rightarrow> Inl (400, ErrMsg ''function file is required'')
     | Some data \<Rightarrow> if data = [] \<or> limit < length data then Inl (413, ErrMsg ''function file exceeds size limit'')
         else Inr (data, language, up_data_mode form = ''true''))"

definition h_fn_list :: "nat option \<Rightarrow> 'w fstate \<Rightarrow> (fn_err, Function list) response \<times> 'w fstate" where
  "h_fn_list owner st = (case owner of None \<Rightarrow> (unauthorized, st)
   | Some owner \<Rightarrow> reply_json 200 (on_db (fr_List owner) st))"

definition h_fn_create :: "'w function_svc \<Rightarrow> nat option \<Rightarrow> upload_form \<Rightarrow> 'w fstate \<Rightarrow> (fn_err, Function) response \<times> 'w fstate" where
  "h_fn_create svc owner form st = (case owner of None \<Rightarrow> (unauthorized, st)
   | Some owner \<Rightarrow> (case readUpload form of Inl res \<Rightarrow> (res, st)
     | Inr (data, language, dataMode) \<Rightarrow>
         reply_json 201 (if language = ''wasm'' then fs_Create svc owner (up_name form) data dataMode st
           else CreateSource svc owner (up_name form) language data dataMode st)))"

definition h_fn_update :: "'w function_svc \<Rightarrow> nat option \<Rightarrow> nat option \<Rightarrow> upload_form \<Rightarrow> 'w fstate
    \<Rightarrow> (fn_err, Function) response \<times> 'w fstate" where
  "h_fn_update svc owner ident form = ownerAndID owner ident (\<lambda>owner ident st. case readUpload form of Inl res \<Rightarrow> (res, st)
     | Inr (data, language, dataMode) \<Rightarrow>
         reply_json 200 (if language = ''wasm'' then fs_Update svc owner ident data dataMode st
           else UpdateSource svc owner ident language data dataMode st))"

definition h_fn_delete :: "nat option \<Rightarrow> nat option \<Rightarrow> 'w fstate \<Rightarrow> (fn_err, unit) response \<times> 'w fstate" where
  "h_fn_delete owner ident = ownerAndID owner ident (\<lambda>owner ident st. reply_empty (fs_Delete owner ident st))"

definition h_invoke :: "'w function_svc \<Rightarrow> nat option \<Rightarrow> nat option \<Rightarrow> bytes option \<Rightarrow> 'w fstate
    \<Rightarrow> (fn_err, Result) response \<times> 'w fstate" where
  "h_invoke svc owner ident body = ownerAndID owner ident (\<lambda>owner ident st. case read_limited MaxHTTPBodyBytes body of
     None \<Rightarrow> ((413, ErrMsg ''input exceeds 65536 bytes''), st)
   | Some input \<Rightarrow> reply_json 200 (Invoke svc owner ident input st))"

definition h_listData :: "nat option \<Rightarrow> nat option \<Rightarrow> bytes \<Rightarrow> bytes \<Rightarrow> 'w fstate \<Rightarrow> (fn_err, DataItem list) response \<times> 'w fstate" where
  "h_listData owner ident collection rawOffset = ownerAndID owner ident (\<lambda>owner ident st.
     case (if rawOffset = [] then Some 0 else case Atoi rawOffset of None \<Rightarrow> None | Some n \<Rightarrow> if n < 0 then None else Some n) of
       None \<Rightarrow> ((400, ErrMsg ''invalid data offset''), st)
     | Some offset \<Rightarrow> reply_json 200 (fs_ListData owner ident collection offset st))"

definition h_getData :: "nat option \<Rightarrow> nat option \<Rightarrow> bytes \<Rightarrow> bytes \<Rightarrow> 'w fstate \<Rightarrow> (fn_err, DataItem) response \<times> 'w fstate" where
  "h_getData owner ident collection key = ownerAndID owner ident (\<lambda>owner ident st.
     reply_json 200 (fs_GetData owner ident collection key st))"

definition h_putData :: "'w function_svc \<Rightarrow> nat option \<Rightarrow> nat option \<Rightarrow> bytes \<Rightarrow> bytes \<Rightarrow> bytes option \<Rightarrow> 'w fstate
    \<Rightarrow> (fn_err, DataItem) response \<times> 'w fstate" where
  "h_putData svc owner ident collection key body = ownerAndID owner ident (\<lambda>owner ident st.
     case read_limited MaxDataValueBytes body of None \<Rightarrow> ((400, ErrText ErrInvalidData), st)
     | Some value \<Rightarrow> if \<not> fe_valid_json (sv_protocol svc) value then ((400, ErrText ErrInvalidData), st)
         else reply_json 200 (fs_PutData svc owner ident collection key value st))"

definition h_deleteData :: "nat option \<Rightarrow> nat option \<Rightarrow> bytes \<Rightarrow> bytes \<Rightarrow> 'w fstate \<Rightarrow> (fn_err, unit) response \<times> 'w fstate" where
  "h_deleteData owner ident collection key = ownerAndID owner ident (\<lambda>owner ident st.
     reply_empty (fs_DeleteData owner ident collection key st))"

text \<open>The handlers of databases. A bound database of \<open>None\<close> is a body that does not bind or \<^verbatim>\<open>uuid.Nil\<close>.\<close>

definition with_database :: "nat option \<Rightarrow> nat option \<Rightarrow> (nat \<Rightarrow> nat \<Rightarrow> 's \<Rightarrow> (fn_err, 'a) response \<times> 's) \<Rightarrow> 's
    \<Rightarrow> (fn_err, 'a) response \<times> 's" where
  "with_database owner ident k st = (case owner of None \<Rightarrow> (unauthorized, st)
   | Some owner \<Rightarrow> (case ident of None \<Rightarrow> ((400, ErrMsg ''invalid database id''), st) | Some ident \<Rightarrow> k owner ident st))"

definition h_listDatabases :: "nat option \<Rightarrow> 'w fstate \<Rightarrow> (fn_err, AppDatabase list) response \<times> 'w fstate" where
  "h_listDatabases owner st = (case owner of None \<Rightarrow> (unauthorized, st)
   | Some owner \<Rightarrow> reply_json 200 (fs_ListDatabases owner st))"

definition h_createDatabase :: "fn_err option \<Rightarrow> nat \<Rightarrow> int \<Rightarrow> nat option \<Rightarrow> bytes option \<Rightarrow> 'w fstate
    \<Rightarrow> (fn_err, AppDatabase) response \<times> 'w fstate" where
  "h_createDatabase file_ok ident now owner bound st = (case owner of None \<Rightarrow> (unauthorized, st)
   | Some owner \<Rightarrow> (case bound of None \<Rightarrow> ((400, ErrMsg ''invalid database request''), st)
     | Some name \<Rightarrow> reply_json 201 (fs_CreateDatabase file_ok ident now owner name st)))"

definition h_deleteDatabase :: "nat option \<Rightarrow> nat option \<Rightarrow> 'w fstate \<Rightarrow> (fn_err, unit) response \<times> 'w fstate" where
  "h_deleteDatabase owner ident = with_database owner ident (\<lambda>owner ident st. reply_empty (fs_DeleteDatabase owner ident st))"

definition h_queryDatabase :: "'w function_svc \<Rightarrow> nat option \<Rightarrow> nat option \<Rightarrow> (bytes \<times> any list) option \<Rightarrow> 'w fstate
    \<Rightarrow> (fn_err, SQLResult) response \<times> 'w fstate" where
  "h_queryDatabase svc owner ident bound = with_database owner ident (\<lambda>owner ident st. case bound of
     None \<Rightarrow> ((400, ErrMsg ''invalid SQL request''), st)
   | Some (statement, params) \<Rightarrow> reply_json 200 (fs_QueryDatabase svc owner ident statement params st))"

definition h_listBindings :: "nat option \<Rightarrow> nat option \<Rightarrow> 'w fstate \<Rightarrow> (fn_err, DatabaseBinding list) response \<times> 'w fstate" where
  "h_listBindings owner ident = ownerAndID owner ident (\<lambda>owner ident st. reply_json 200 (fs_ListBindings owner ident st))"

definition h_bindDatabase :: "nat option \<Rightarrow> nat option \<Rightarrow> bytes \<Rightarrow> nat option \<Rightarrow> 'w fstate \<Rightarrow> (fn_err, unit) response \<times> 'w fstate" where
  "h_bindDatabase owner ident alias bound = ownerAndID owner ident (\<lambda>owner ident st. case bound of
     None \<Rightarrow> ((400, ErrMsg ''invalid database binding''), st)
   | Some database \<Rightarrow> reply_empty (fs_BindDatabase owner ident database alias st))"

definition h_unbindDatabase :: "nat option \<Rightarrow> nat option \<Rightarrow> bytes \<Rightarrow> 'w fstate \<Rightarrow> (fn_err, unit) response \<times> 'w fstate" where
  "h_unbindDatabase owner ident alias = ownerAndID owner ident (\<lambda>owner ident st. reply_empty (fs_UnbindDatabase owner ident alias st))"

subsection \<open>What passes between a caller and a function\<close>

definition good_answer :: "(bytes \<rightharpoonup> bytes) \<Rightarrow> bool" where
  "good_answer h \<longleftrightarrow> (\<forall>n v. h n = Some v \<longrightarrow> n \<notin> set refused_headers \<and> \<not> HasPrefix n ''X-Rcp-'' \<and> CHR 13 \<notin> set v \<and> CHR 10 \<notin> set v)"

lemma good_cors: "good_answer cors_headers"
  by (auto simp: good_answer_def cors_headers_def refused_headers_def HasPrefix_def split: if_splits)

lemma good_fold:
  "good_answer h \<Longrightarrow> good_answer (fold (\<lambda>(name, value) h. if safeResponseHeader name value then set_header name value h else h) hs h)"
proof (induction hs arbitrary: h)
  case (Cons nv hs)
  obtain n v where nv: "nv = (n, v)" by force
  have "good_answer (if safeResponseHeader n v then set_header n v h else h)"
    using Cons.prems by (auto simp: good_answer_def set_header_def safeResponseHeader_def Let_def split: if_splits)
  with Cons.IH show ?case by (simp add: nv)
qed simp

lemma good_relay: "good_answer (an_Header (relay_response lib result))"
  unfolding relay_response_def answer_with_def using good_fold [OF good_cors] good_cors by (simp split: option.split)

lemma good_public: "good_answer (an_Header (fst (publicHTTP lib svc req ident path st)))"
  unfolding publicHTTP_def using good_cors good_relay
  by (simp add: answer_with_def split: option.split list.split prod.split sum.split)

lemma event_fold:
  "(\<forall>n v. h n = Some v \<longrightarrow> \<not> sensitiveRequestHeader n) \<Longrightarrow>
   fold (\<lambda>(name, values) h. let canonical = CanonicalHeaderKey name in
       if sensitiveRequestHeader canonical then h else h(canonical \<mapsto> join_with '', '' values)) hs h n = Some v
   \<Longrightarrow> \<not> sensitiveRequestHeader n"
proof (induction hs arbitrary: h)
  case (Cons nv hs)
  obtain m vs where nv: "nv = (m, vs)" by force
  let ?h = "if sensitiveRequestHeader (CanonicalHeaderKey m) then h else h(CanonicalHeaderKey m \<mapsto> join_with '', '' vs)"
  have "\<forall>n v. ?h n = Some v \<longrightarrow> \<not> sensitiveRequestHeader n" using Cons.prems(1) by auto
  from Cons.IH [OF this] Cons.prems(2) show ?case by (simp add: nv Let_def)
qed simp

text \<open>
  C30. In a public call the function never sees the caller's cookies and credentials, nor what the
  proxies in front of the server tell it; and whatever the function answers, the server's answer sets no
  cookie, no header of the connection and none of the server's own, and no header it sets can break out of its line.
\<close>

theorem publicHTTP_isolates:
  "(\<forall>n v. ev_Headers (newHTTPEvent lib req path body) n = Some v \<longrightarrow>
      n \<notin> {''Cookie'', ''Authorization'', ''Proxy-Authorization''} \<and> \<not> HasPrefix n ''X-Forwarded-'' \<and> \<not> HasPrefix n ''Cf-''
      \<and> \<not> HasPrefix n ''X-Rcp-'')
   \<and> (\<forall>n v. an_Header (fst (publicHTTP lib svc req ident path st)) n = Some v \<longrightarrow>
      n \<notin> {''Set-Cookie'', ''Content-Length'', ''Transfer-Encoding'', ''Connection'', ''Keep-Alive'', ''Upgrade'', ''Server'',
            ''Proxy-Authenticate'', ''Proxy-Authorization''}
      \<and> \<not> HasPrefix n ''X-Rcp-'' \<and> CHR 13 \<notin> set v \<and> CHR 10 \<notin> set v)"
proof -
  have "\<not> sensitiveRequestHeader n" if "ev_Headers (newHTTPEvent lib req path body) n = Some v" for n v
    using that event_fold [of Map.empty "hr_Header req" n v] by (simp add: newHTTPEvent_def Let_def)
  moreover have "n \<notin> set refused_headers \<and> \<not> HasPrefix n ''X-Rcp-'' \<and> CHR 13 \<notin> set v \<and> CHR 10 \<notin> set v"
    if "an_Header (fst (publicHTTP lib svc req ident path st)) n = Some v" for n v
    using that good_public [of lib svc req ident path st] unfolding good_answer_def by blast
  ultimately show ?thesis unfolding sensitiveRequestHeader_def refused_headers_def by simp
qed

text \<open>A caller with a cookie, and a function that tries to set one.\<close>

definition example_lib :: http_lib where
  "example_lib = \<lparr>hl_event = (\<lambda>_. Some ''{}''), hl_response = (\<lambda>_. Some \<lparr>hp_StatusCode = 200,
       hp_Headers = [(''set-cookie'', ''x''), (''x-a'', ''1'')], hp_Body = ''ok'', hp_IsBase64Encoded = False\<rparr>),
     hl_encode64 = (\<lambda>b. b), hl_decode64 = Some, hl_utf8 = (\<lambda>_. True)\<rparr>"

definition example_call :: http_request where
  "example_call = \<lparr>hr_Method = ''GET'', hr_RawQuery = [],
     hr_Header = [(''Cookie'', [''s'']), (''Authorization'', [''Bearer '' @ example_key]), (''Accept'', [''a'', ''b''])], hr_Body = Some []\<rparr>"

lemma take_word_printable: "list_all printable w \<Longrightarrow> take_word (w @ r) = (case take_word r of (a, b) \<Rightarrow> (w @ a, b))"
proof (induction w)
  case (Cons c w)
  then have "space_len space_seqs ((c # w) @ r) = 0" by (intro space_len_printable) auto
  with Cons show ?case by (simp split: prod.splits)
qed (simp split: prod.splits)

lemma trim_front_printable: "list_all printable w \<Longrightarrow> w \<noteq> [] \<Longrightarrow> trim_front space_seqs (w @ r) = w @ r"
  by (intro trim_front_id space_len_printable) (auto simp: list_all_iff hd_append)

lemma space_blank: "space_len space_seqs (CHR '' '' # s) = 1"
  by (simp add: space_len_def space_seqs_def byte_def)

lemma Fields_word: "list_all printable w \<Longrightarrow> w \<noteq> [] \<Longrightarrow> Fields w = [w]"
  using trim_front_printable [of w "[]"] take_word_printable [of w "[]"]
  by (simp add: Fields.simps [of w] Fields.simps [of "[]"])

lemma Fields_two:
  assumes "list_all printable a" "list_all printable b" "a \<noteq> []" "b \<noteq> []"
  shows "Fields (a @ CHR '' '' # b) = [a, b]"
proof -
  have "take_word (a @ CHR '' '' # b) = (a, CHR '' '' # b)"
    using assms(1) by (simp add: take_word_printable space_blank)
  moreover have "trim_front space_seqs (a @ CHR '' '' # b) = a @ CHR '' '' # b" using assms by (intro trim_front_printable)
  ultimately have "Fields (a @ CHR '' '' # b) = a # Fields (CHR '' '' # b)"
    using assms(3) by (simp add: Fields.simps [of "a @ CHR '' '' # b"])
  moreover have "trim_front space_seqs (CHR '' '' # b) = b"
    using trim_front_printable [of b "[]"] assms by (simp add: trim_front.simps [of _ "CHR '' '' # b"] space_blank)
  then have "Fields (CHR '' '' # b) = Fields b"
    using trim_front_printable [of b "[]"] assms by (simp add: Fields.simps [of "CHR '' '' # b"] Fields.simps [of b])
  ultimately show ?thesis using Fields_word assms by simp
qed

lemma printable_b64: "printable (b64_char n)"
proof -
  let ?a = "''ABCDEFGHIJKLMNOPQRSTUVWXYZabcdefghijklmnopqrstuvwxyz0123456789-_''"
  have "list_all printable ?a" by (simp add: printable_def byte_def)
  moreover have "n mod 64 < length ?a" by simp
  ultimately show ?thesis unfolding b64_char_def list_all_length by blast
qed

lemma example_key_printable: "list_all printable example_key"
  using RawURLEncoding_chars printable_b64
  by (fastforce simp: example_key_def keyPrefix_def list_all_iff printable_def byte_def)

lemma example_canonical: "CanonicalHeaderKey ''x-a'' = ''X-A''" "CanonicalHeaderKey ''set-cookie'' = ''Set-Cookie''"
  "CanonicalHeaderKey ''Cookie'' = ''Cookie''" "CanonicalHeaderKey ''Authorization'' = ''Authorization''"
  "CanonicalHeaderKey ''Accept'' = ''Accept''"
  by code_simp+

lemma example_bearer: "EqualFold ''Bearer'' ''Bearer''"
  by (simp add: EqualFold_def)

lemma example_invoke: "fst (InvokePublic example_svc 9 example_key ''{}'' (snd issued_example))
   = Ok \<lparr>rs_Stdout = ''{}'', rs_Stderr = [], rs_ExitCode = 0\<rparr>"
proof -
  let ?row = "example_function\<lparr>f_key_hash := sv_sha256 example_svc example_key, f_key_created_at := Some 0,
      f_key_expires_at := Some 2592000000000000\<rparr>"
  have st: "function_tbl (fs_db (snd issued_example)) = [?row]" "faults (fs_db (snd issued_example)) = []"
      "fs_slots (snd issued_example) = 0" "fs_world (snd issued_example) = 0"
    by (simp_all add: issued_example_value example_fstate_def example_functions_db_def)
  have row: "f_id ?row = 9" "f_data_mode ?row = False" "f_wasm ?row = ''m''" "f_language ?row = ''wasm''"
    by (simp_all add: example_function_def)
  have "length example_key = 48" by (simp add: example_key_def keyPrefix_def RawURLEncoding_length example_svc_parts)
  then have "checkKey example_svc (toFunction ow ?row) example_key 0 = None" for ow
    by (simp add: checkKey_def toFunction_def example_svc_parts keyPrefix_def)
  with example_public [OF st(1,2) row st(3)] st(4) show ?thesis by (simp add: InvokePublic_def)
qed

definition public_example :: "answer \<times> int fstate" where
  "public_example = publicHTTP example_lib example_svc example_call (Some 9) ''/'' (snd issued_example)"

lemma public_example_value: "an_Status (fst public_example) = 200" "an_Header (fst public_example) ''X-A'' = Some ''1''"
proof -
  have auth: "GetHeader example_call ''Authorization'' = ''Bearer'' @ CHR '' '' # example_key"
    by (simp add: GetHeader_def example_call_def CanonicalHeaderKey_def token_char_def char_class_defs
        upper_char_def lower_char_def)
  have "example_key \<noteq> []" by (simp add: example_key_def keyPrefix_def)
  then have "Fields (GetHeader example_call ''Authorization'') = [''Bearer'', example_key]"
    unfolding auth by (intro Fields_two example_key_printable) (simp_all add: printable_def byte_def)
  moreover obtain st where "InvokePublic example_svc 9 example_key ''{}'' (snd issued_example)
      = (Ok \<lparr>rs_Stdout = ''{}'', rs_Stderr = [], rs_ExitCode = 0\<rparr>, st)"
    using example_invoke by (metis prod.collapse)
  ultimately have "fst public_example = relay_response example_lib \<lparr>rs_Stdout = ''{}'', rs_Stderr = [], rs_ExitCode = 0\<rparr>"
    by (simp add: public_example_def publicHTTP_def example_call_def read_limited_def example_lib_def MaxInputBytes_def example_bearer)
  moreover have "safeResponseHeader ''x-a'' ''1''"
    by (simp add: safeResponseHeader_def example_canonical headerName_def token_char_def char_class_defs refused_headers_def HasPrefix_def)
  moreover have "\<not> safeResponseHeader ''set-cookie'' ''x''"
    by (simp add: safeResponseHeader_def example_canonical refused_headers_def)
  ultimately show "an_Status (fst public_example) = 200" "an_Header (fst public_example) ''X-A'' = Some ''1''"
    by (simp_all add: relay_response_def example_lib_def MaxHTTPBodyBytes_def answer_with_def set_header_def example_canonical)
qed

theorem publicHTTP_isolates_witness:
  "an_Header (fst public_example) ''X-A'' = Some ''1'' \<and> an_Header (fst public_example) ''Set-Cookie'' = None
   \<and> ev_Headers (newHTTPEvent example_lib example_call ''/'' []) ''Accept'' = Some ''a, b''
   \<and> ev_Headers (newHTTPEvent example_lib example_call ''/'' []) ''Cookie'' = None"
proof -
  note iso = publicHTTP_isolates [where lib = example_lib and req = example_call and path = "''/''" and body = "[]" and svc = example_svc and ident = "Some 9" and st = "snd issued_example"]
  have "an_Header (fst public_example) ''Set-Cookie'' = None" "ev_Headers (newHTTPEvent example_lib example_call ''/'' []) ''Cookie'' = None"
    using iso unfolding public_example_def [symmetric] by (metis insertI1 not_None_eq)+
  moreover have "ev_Headers (newHTTPEvent example_lib example_call ''/'' []) ''Accept'' = Some ''a, b''"
    by (simp add: newHTTPEvent_def example_call_def example_canonical sensitiveRequestHeader_def HasPrefix_def)
  ultimately show ?thesis using public_example_value by simp
qed

end
