(* ===== verification/Block_Storage.thy ===== *)
theory Block_Storage
  imports Ent_Db
begin

text \<open>
  Volumes and snapshots, \<^verbatim>\<open>internal/domain/blockstorage\<close>. They live in OpenStack only; the owner is an
  entry of their metadata. The calls of gophercloud are a record of functions on an abstract world \<open>'w\<close>;
  \<open>uuid_text\<close> is the text of a UUID.
\<close>

subsection \<open>Types\<close>

definition ownerMetadataKey :: bytes where "ownerMetadataKey = ''rcp_owner_id''"

record VolumeAttachment =
  va_InstanceID :: bytes
  va_InstanceName :: bytes
  va_Device :: bytes
  va_AttachedAt :: int

record Volume =
  vo_ID :: bytes
  vo_Name :: bytes
  vo_Description :: bytes
  vo_SizeGiB :: int
  vo_Status :: bytes
  vo_Bootable :: bool
  vo_Encrypted :: bool
  vo_VolumeType :: bytes
  vo_AvailabilityZone :: bytes
  vo_CreatedAt :: int
  vo_Attachments :: "VolumeAttachment list"
  vo_Metadata :: "bytes \<rightharpoonup> bytes"

record Snapshot =
  sn_ID :: bytes
  sn_Name :: bytes
  sn_Description :: bytes
  sn_VolumeID :: bytes
  sn_SizeGiB :: int
  sn_Status :: bytes
  sn_CreatedAt :: int
  sn_Metadata :: "bytes \<rightharpoonup> bytes"

record CreateVolumeRequest =
  cv_Name :: bytes
  cv_Description :: bytes
  cv_SizeGiB :: int
  cv_VolumeType :: bytes
  cv_AvailabilityZone :: bytes
  cv_SnapshotID :: bytes

record UpdateVolumeRequest =
  uv_Name :: bytes
  uv_Description :: bytes

record CreateSnapshotRequest =
  cs_Name :: bytes
  cs_Description :: bytes

record VolumeResponse =
  vr_ID :: bytes
  vr_Name :: bytes
  vr_Description :: bytes
  vr_SizeGiB :: int
  vr_Status :: bytes
  vr_Bootable :: bool
  vr_Encrypted :: bool
  vr_VolumeType :: bytes
  vr_AvailabilityZone :: bytes
  vr_CreatedAt :: int
  vr_Attachments :: "VolumeAttachment list"

record SnapshotResponse =
  sr_ID :: bytes
  sr_Name :: bytes
  sr_Description :: bytes
  sr_VolumeID :: bytes
  sr_SizeGiB :: int
  sr_Status :: bytes
  sr_CreatedAt :: int

record AttachmentResponse =
  at_VolumeID :: bytes
  at_InstanceID :: bytes
  at_Status :: bytes

datatype block_cause = BOs os_err | BDb db_err

datatype block_err = ErrVolumeNotFound | ErrSnapshotNotFound | ErrInstanceNotFound | ErrVolumeNameRequired
  | ErrVolumeSizeInvalid | ErrSnapshotNameRequired | ErrVolumeNotAvailable | ErrVolumeAttached | ErrSnapshotBusy
  | ErrSnapshotSmallerThanSource | ErrVolumeAttachmentNotFound | ErrBlockStorageOperationFailed block_cause

record 'w blockStorageClient =
  bc_ListVolumes :: "bytes \<Rightarrow> 'w \<Rightarrow> (os_err + Volume list) \<times> 'w"
  bc_GetVolume :: "bytes \<Rightarrow> 'w \<Rightarrow> (os_err + Volume) \<times> 'w"
  bc_CreateVolume :: "CreateVolumeRequest \<Rightarrow> bytes \<Rightarrow> 'w \<Rightarrow> (os_err + Volume) \<times> 'w"
  bc_UpdateVolume :: "bytes \<Rightarrow> UpdateVolumeRequest \<Rightarrow> 'w \<Rightarrow> (os_err + Volume) \<times> 'w"
  bc_DeleteVolume :: "bytes \<Rightarrow> 'w \<Rightarrow> os_err option \<times> 'w"
  bc_AttachVolume :: "bytes \<Rightarrow> bytes \<Rightarrow> 'w \<Rightarrow> (os_err + VolumeAttachment) \<times> 'w"
  bc_DetachVolume :: "bytes \<Rightarrow> bytes \<Rightarrow> 'w \<Rightarrow> os_err option \<times> 'w"
  bc_GetInstance :: "bytes \<Rightarrow> 'w \<Rightarrow> os_err option \<times> 'w"
  bc_ListSnapshots :: "bytes \<Rightarrow> 'w \<Rightarrow> (os_err + Snapshot list) \<times> 'w"
  bc_GetSnapshot :: "bytes \<Rightarrow> 'w \<Rightarrow> (os_err + Snapshot) \<times> 'w"
  bc_CreateSnapshot :: "bytes \<Rightarrow> CreateSnapshotRequest \<Rightarrow> bytes \<Rightarrow> 'w \<Rightarrow> (os_err + Snapshot) \<times> 'w"
  bc_DeleteSnapshot :: "bytes \<Rightarrow> 'w \<Rightarrow> os_err option \<times> 'w"

subsection \<open>The client\<close>

text \<open>
  gophercloud's answers. \<open>ci_block\<close> and \<open>ci_compute\<close> look up the endpoints; a volume is asked for, listed
  by a metadata filter, created and changed by its ID.
\<close>

record RawAttachment =
  ra_ServerID :: bytes
  ra_Device :: bytes
  ra_AttachedAt :: int

record RawVolume =
  rv_ID :: bytes
  rv_Name :: bytes
  rv_Description :: bytes
  rv_Size :: int
  rv_Status :: bytes
  rv_Bootable :: bytes
  rv_Encrypted :: bool
  rv_VolumeType :: bytes
  rv_AvailabilityZone :: bytes
  rv_CreatedAt :: int
  rv_Attachments :: "RawAttachment list"
  rv_Metadata :: "bytes \<rightharpoonup> bytes"

record RawSnapshot =
  rs_ID :: bytes
  rs_Name :: bytes
  rs_Description :: bytes
  rs_VolumeID :: bytes
  rs_Size :: int
  rs_Status :: bytes
  rs_CreatedAt :: int
  rs_Metadata :: "bytes \<rightharpoonup> bytes"

record 'w cinder =
  ci_block :: "'w \<Rightarrow> os_err option \<times> 'w"
  ci_compute :: "'w \<Rightarrow> os_err option \<times> 'w"
  ci_list :: "(bytes \<rightharpoonup> bytes) \<Rightarrow> 'w \<Rightarrow> (os_err + RawVolume list) \<times> 'w"
  ci_get :: "bytes \<Rightarrow> 'w \<Rightarrow> (os_err + RawVolume) \<times> 'w"
  ci_create :: "CreateVolumeRequest \<Rightarrow> (bytes \<rightharpoonup> bytes) \<Rightarrow> 'w \<Rightarrow> (os_err + RawVolume) \<times> 'w"
  ci_update :: "bytes \<Rightarrow> UpdateVolumeRequest \<Rightarrow> 'w \<Rightarrow> (os_err + RawVolume) \<times> 'w"
  ci_delete :: "bytes \<Rightarrow> 'w \<Rightarrow> os_err option \<times> 'w"
  ci_attach :: "bytes \<Rightarrow> bytes \<Rightarrow> 'w \<Rightarrow> (os_err + RawAttachment) \<times> 'w"
  ci_detach :: "bytes \<Rightarrow> bytes \<Rightarrow> 'w \<Rightarrow> os_err option \<times> 'w"
  ci_server :: "bytes \<Rightarrow> 'w \<Rightarrow> os_err option \<times> 'w"
  ci_list_snapshots :: "'w \<Rightarrow> (os_err + RawSnapshot list) \<times> 'w"
  ci_get_snapshot :: "bytes \<Rightarrow> 'w \<Rightarrow> (os_err + RawSnapshot) \<times> 'w"
  ci_create_snapshot :: "bytes \<Rightarrow> CreateSnapshotRequest \<Rightarrow> (bytes \<rightharpoonup> bytes) \<Rightarrow> 'w \<Rightarrow> (os_err + RawSnapshot) \<times> 'w"
  ci_delete_snapshot :: "bytes \<Rightarrow> 'w \<Rightarrow> os_err option \<times> 'w"

definition convertVolume :: "RawVolume \<Rightarrow> Volume" where
  "convertVolume raw = \<lparr>vo_ID = rv_ID raw, vo_Name = rv_Name raw, vo_Description = rv_Description raw,
     vo_SizeGiB = rv_Size raw, vo_Status = rv_Status raw, vo_Bootable = (rv_Bootable raw = ''true''),
     vo_Encrypted = rv_Encrypted raw, vo_VolumeType = rv_VolumeType raw, vo_AvailabilityZone = rv_AvailabilityZone raw,
     vo_CreatedAt = rv_CreatedAt raw,
     vo_Attachments = map (\<lambda>a. \<lparr>va_InstanceID = ra_ServerID a, va_InstanceName = [], va_Device = ra_Device a,
       va_AttachedAt = ra_AttachedAt a\<rparr>) (rv_Attachments raw),
     vo_Metadata = rv_Metadata raw\<rparr>"

definition convertSnapshot :: "RawSnapshot \<Rightarrow> Snapshot" where
  "convertSnapshot raw = \<lparr>sn_ID = rs_ID raw, sn_Name = rs_Name raw, sn_Description = rs_Description raw,
     sn_VolumeID = rs_VolumeID raw, sn_SizeGiB = rs_Size raw, sn_Status = rs_Status raw,
     sn_CreatedAt = rs_CreatedAt raw, sn_Metadata = rs_Metadata raw\<rparr>"

text \<open>A call at an endpoint, and a conversion of its result.\<close>

definition at_endpoint :: "('w \<Rightarrow> os_err option \<times> 'w) \<Rightarrow> ('w \<Rightarrow> (os_err + 'a) \<times> 'w) \<Rightarrow> 'w \<Rightarrow> (os_err + 'a) \<times> 'w" where
  "at_endpoint ep call w = (case ep w of (Some e, w) \<Rightarrow> (Err e, w) | (None, w) \<Rightarrow> call w)"

definition try_endpoint :: "('w \<Rightarrow> os_err option \<times> 'w) \<Rightarrow> ('w \<Rightarrow> os_err option \<times> 'w) \<Rightarrow> 'w \<Rightarrow> os_err option \<times> 'w" where
  "try_endpoint ep call w = (case ep w of (Some e, w) \<Rightarrow> (Some e, w) | (None, w) \<Rightarrow> call w)"

definition converted :: "('a \<Rightarrow> 'b) \<Rightarrow> ('w \<Rightarrow> (os_err + 'a) \<times> 'w) \<Rightarrow> 'w \<Rightarrow> (os_err + 'b) \<times> 'w" where
  "converted f call w = (case call w of (Err e, w) \<Rightarrow> (Err e, w) | (Ok x, w) \<Rightarrow> (Ok (f x), w))"

text \<open>The value of a key of a Go map of strings.\<close>

definition meta :: "(bytes \<rightharpoonup> bytes) \<Rightarrow> bytes \<Rightarrow> bytes" where
  "meta m k = (case m k of None \<Rightarrow> [] | Some v \<Rightarrow> v)"

definition c_ListVolumes :: "'w cinder \<Rightarrow> bytes \<Rightarrow> 'w \<Rightarrow> (os_err + Volume list) \<times> 'w" where
  "c_ListVolumes ci ownerID = at_endpoint (ci_block ci) (converted (map convertVolume) (ci_list ci [ownerMetadataKey \<mapsto> ownerID]))"

definition c_GetVolume :: "'w cinder \<Rightarrow> bytes \<Rightarrow> 'w \<Rightarrow> (os_err + Volume) \<times> 'w" where
  "c_GetVolume ci ident = at_endpoint (ci_block ci) (converted convertVolume (ci_get ci ident))"

definition c_CreateVolume :: "'w cinder \<Rightarrow> CreateVolumeRequest \<Rightarrow> bytes \<Rightarrow> 'w \<Rightarrow> (os_err + Volume) \<times> 'w" where
  "c_CreateVolume ci req ownerID = at_endpoint (ci_block ci)
     (converted convertVolume (ci_create ci req [ownerMetadataKey \<mapsto> ownerID]))"

definition c_UpdateVolume :: "'w cinder \<Rightarrow> bytes \<Rightarrow> UpdateVolumeRequest \<Rightarrow> 'w \<Rightarrow> (os_err + Volume) \<times> 'w" where
  "c_UpdateVolume ci ident req = at_endpoint (ci_block ci) (converted convertVolume (ci_update ci ident req))"

definition c_DeleteVolume :: "'w cinder \<Rightarrow> bytes \<Rightarrow> 'w \<Rightarrow> os_err option \<times> 'w" where
  "c_DeleteVolume ci ident = try_endpoint (ci_block ci) (ci_delete ci ident)"

definition c_AttachVolume :: "'w cinder \<Rightarrow> bytes \<Rightarrow> bytes \<Rightarrow> 'w \<Rightarrow> (os_err + VolumeAttachment) \<times> 'w" where
  "c_AttachVolume ci instanceID volumeID = at_endpoint (ci_compute ci)
     (converted (\<lambda>a. \<lparr>va_InstanceID = ra_ServerID a, va_InstanceName = [], va_Device = ra_Device a, va_AttachedAt = zero_time\<rparr>)
       (ci_attach ci instanceID volumeID))"

definition c_DetachVolume :: "'w cinder \<Rightarrow> bytes \<Rightarrow> bytes \<Rightarrow> 'w \<Rightarrow> os_err option \<times> 'w" where
  "c_DetachVolume ci instanceID volumeID = try_endpoint (ci_compute ci) (ci_detach ci instanceID volumeID)"

definition c_GetInstance :: "'w cinder \<Rightarrow> bytes \<Rightarrow> 'w \<Rightarrow> os_err option \<times> 'w" where
  "c_GetInstance ci instanceID = try_endpoint (ci_compute ci) (ci_server ci instanceID)"

definition c_ListSnapshots :: "'w cinder \<Rightarrow> bytes \<Rightarrow> 'w \<Rightarrow> (os_err + Snapshot list) \<times> 'w" where
  "c_ListSnapshots ci ownerID = at_endpoint (ci_block ci)
     (converted (\<lambda>raw. filter (\<lambda>s. meta (sn_Metadata s) ownerMetadataKey = ownerID) (map convertSnapshot raw)) (ci_list_snapshots ci))"

definition c_GetSnapshot :: "'w cinder \<Rightarrow> bytes \<Rightarrow> 'w \<Rightarrow> (os_err + Snapshot) \<times> 'w" where
  "c_GetSnapshot ci ident = at_endpoint (ci_block ci) (converted convertSnapshot (ci_get_snapshot ci ident))"

definition c_CreateSnapshot :: "'w cinder \<Rightarrow> bytes \<Rightarrow> CreateSnapshotRequest \<Rightarrow> bytes \<Rightarrow> 'w \<Rightarrow> (os_err + Snapshot) \<times> 'w" where
  "c_CreateSnapshot ci volumeID req ownerID = at_endpoint (ci_block ci)
     (converted convertSnapshot (ci_create_snapshot ci volumeID req [ownerMetadataKey \<mapsto> ownerID]))"

definition c_DeleteSnapshot :: "'w cinder \<Rightarrow> bytes \<Rightarrow> 'w \<Rightarrow> os_err option \<times> 'w" where
  "c_DeleteSnapshot ci ident = try_endpoint (ci_block ci) (ci_delete_snapshot ci ident)"

definition block_client :: "'w cinder \<Rightarrow> 'w blockStorageClient" where
  "block_client ci = \<lparr>bc_ListVolumes = c_ListVolumes ci, bc_GetVolume = c_GetVolume ci, bc_CreateVolume = c_CreateVolume ci,
     bc_UpdateVolume = c_UpdateVolume ci, bc_DeleteVolume = c_DeleteVolume ci, bc_AttachVolume = c_AttachVolume ci,
     bc_DetachVolume = c_DetachVolume ci, bc_GetInstance = c_GetInstance ci, bc_ListSnapshots = c_ListSnapshots ci,
     bc_GetSnapshot = c_GetSnapshot ci, bc_CreateSnapshot = c_CreateSnapshot ci, bc_DeleteSnapshot = c_DeleteSnapshot ci\<rparr>"

subsection \<open>Repository\<close>

definition FindInstanceName :: "nat \<Rightarrow> bytes \<Rightarrow> bytes option dbop" where
  "FindInstanceName ownerID openstackID =
     find_opt instances (\<lambda>i. i_openstack_id i = openstackID \<and> i_owner i = ownerID) (\<lambda>_ i. i_name i)"

definition InstanceExists :: "nat \<Rightarrow> bytes \<Rightarrow> bool dbop" where
  "InstanceExists ownerID openstackID d = (case FindInstanceName ownerID openstackID d of
     (Err e, d) \<Rightarrow> (Err e, d) | (Ok name, d) \<Rightarrow> (Ok (name \<noteq> None), d))"

subsection \<open>Service\<close>

text \<open>The names of instances are looked up one after the other; a failing lookup leaves the name empty.\<close>

fun name_attachments :: "nat \<Rightarrow> VolumeAttachment list \<Rightarrow> db \<Rightarrow> VolumeAttachment list \<times> db" where
  "name_attachments ownerID [] d = ([], d)"
| "name_attachments ownerID (a # as) d = (case FindInstanceName ownerID (va_InstanceID a) d of
     (r, d) \<Rightarrow> (case name_attachments ownerID as d of
       (rest, d) \<Rightarrow> ((case r of Inr (Some name) \<Rightarrow> a\<lparr>va_InstanceName := name\<rparr> | _ \<Rightarrow> a) # rest, d)))"

definition volumeResponse :: "nat \<Rightarrow> Volume \<Rightarrow> db \<Rightarrow> VolumeResponse \<times> db" where
  "volumeResponse ownerID v d = (case name_attachments ownerID (vo_Attachments v) d of (as, d) \<Rightarrow>
     (\<lparr>vr_ID = vo_ID v, vr_Name = vo_Name v, vr_Description = vo_Description v, vr_SizeGiB = vo_SizeGiB v,
       vr_Status = vo_Status v, vr_Bootable = vo_Bootable v, vr_Encrypted = vo_Encrypted v, vr_VolumeType = vo_VolumeType v,
       vr_AvailabilityZone = vo_AvailabilityZone v, vr_CreatedAt = vo_CreatedAt v, vr_Attachments = as\<rparr>, d))"

fun volumeResponses :: "nat \<Rightarrow> Volume list \<Rightarrow> db \<Rightarrow> VolumeResponse list \<times> db" where
  "volumeResponses ownerID [] d = ([], d)"
| "volumeResponses ownerID (v # vs) d = (case volumeResponse ownerID v d of (r, d) \<Rightarrow>
     (case volumeResponses ownerID vs d of (rs, d) \<Rightarrow> (r # rs, d)))"

definition snapshotResponse :: "Snapshot \<Rightarrow> SnapshotResponse" where
  "snapshotResponse s = \<lparr>sr_ID = sn_ID s, sr_Name = sn_Name s, sr_Description = sn_Description s, sr_VolumeID = sn_VolumeID s,
     sr_SizeGiB = sn_SizeGiB s, sr_Status = sn_Status s, sr_CreatedAt = sn_CreatedAt s\<rparr>"

definition normalizeCreateVolumeRequest :: "CreateVolumeRequest \<Rightarrow> CreateVolumeRequest" where
  "normalizeCreateVolumeRequest req = req\<lparr>cv_Name := TrimSpace (cv_Name req), cv_Description := TrimSpace (cv_Description req),
     cv_VolumeType := TrimSpace (cv_VolumeType req), cv_AvailabilityZone := TrimSpace (cv_AvailabilityZone req),
     cv_SnapshotID := TrimSpace (cv_SnapshotID req)\<rparr>"

definition normalizeUpdateVolumeRequest :: "UpdateVolumeRequest \<Rightarrow> Volume \<Rightarrow> UpdateVolumeRequest" where
  "normalizeUpdateVolumeRequest req current = (let name = TrimSpace (uv_Name req) in
     \<lparr>uv_Name = (if name = [] then vo_Name current else name), uv_Description = TrimSpace (uv_Description req)\<rparr>)"

definition normalizeCreateSnapshotRequest :: "CreateSnapshotRequest \<Rightarrow> CreateSnapshotRequest" where
  "normalizeCreateSnapshotRequest req = \<lparr>cs_Name = TrimSpace (cs_Name req), cs_Description = TrimSpace (cs_Description req)\<rparr>"

definition validateCreateVolumeRequest :: "CreateVolumeRequest \<Rightarrow> block_err option" where
  "validateCreateVolumeRequest req = (if cv_Name req = [] then Some ErrVolumeNameRequired
     else if cv_SizeGiB req \<le> 0 then Some ErrVolumeSizeInvalid else None)"

type_synonym ('w, 'a) blockop = "db \<times> 'w \<Rightarrow> (block_err + 'a) \<times> db \<times> 'w"

definition bs_failed :: "os_err \<Rightarrow> block_err" where
  "bs_failed e = ErrBlockStorageOperationFailed (BOs e)"

text \<open>\<^verbatim>\<open>isOpenStackNotFound\<close> is the check for a 404.\<close>

definition resolveVolume :: "'w blockStorageClient \<Rightarrow> (nat \<Rightarrow> bytes) \<Rightarrow> nat \<Rightarrow> bytes \<Rightarrow> 'w \<Rightarrow> (block_err + Volume) \<times> 'w" where
  "resolveVolume client uuid_text ownerID ident w = (case bc_GetVolume client (TrimSpace ident) w of
     (Err e, w) \<Rightarrow> (Err (if hasStatusCode e 404 then ErrVolumeNotFound else bs_failed e), w)
   | (Ok v, w) \<Rightarrow> if meta (vo_Metadata v) ownerMetadataKey \<noteq> uuid_text ownerID then (Err ErrVolumeNotFound, w) else (Ok v, w))"

definition resolveSnapshot :: "'w blockStorageClient \<Rightarrow> (nat \<Rightarrow> bytes) \<Rightarrow> nat \<Rightarrow> bytes \<Rightarrow> 'w \<Rightarrow> (block_err + Snapshot) \<times> 'w" where
  "resolveSnapshot client uuid_text ownerID ident w = (case bc_GetSnapshot client (TrimSpace ident) w of
     (Err e, w) \<Rightarrow> (Err (if hasStatusCode e 404 then ErrSnapshotNotFound else bs_failed e), w)
   | (Ok s, w) \<Rightarrow> if meta (sn_Metadata s) ownerMetadataKey \<noteq> uuid_text ownerID then (Err ErrSnapshotNotFound, w) else (Ok s, w))"

definition bs_ListVolumes :: "'w blockStorageClient \<Rightarrow> (nat \<Rightarrow> bytes) \<Rightarrow> nat \<Rightarrow> ('w, VolumeResponse list) blockop" where
  "bs_ListVolumes client uuid_text ownerID = (\<lambda>(d, w). case bc_ListVolumes client (uuid_text ownerID) w of
     (Err e, w) \<Rightarrow> (Err (bs_failed e), d, w)
   | (Ok raw, w) \<Rightarrow> (case volumeResponses ownerID raw d of (rs, d) \<Rightarrow> (Ok rs, d, w)))"

definition bs_GetVolume :: "'w blockStorageClient \<Rightarrow> (nat \<Rightarrow> bytes) \<Rightarrow> nat \<Rightarrow> bytes \<Rightarrow> ('w, VolumeResponse) blockop" where
  "bs_GetVolume client uuid_text ownerID ident = (\<lambda>(d, w). case resolveVolume client uuid_text ownerID ident w of
     (Err e, w) \<Rightarrow> (Err e, d, w)
   | (Ok v, w) \<Rightarrow> (case volumeResponse ownerID v d of (r, d) \<Rightarrow> (Ok r, d, w)))"

definition bs_CreateVolume :: "'w blockStorageClient \<Rightarrow> (nat \<Rightarrow> bytes) \<Rightarrow> nat \<Rightarrow> CreateVolumeRequest \<Rightarrow> ('w, VolumeResponse) blockop" where
  "bs_CreateVolume client uuid_text ownerID rawReq = (\<lambda>(d, w). let req = normalizeCreateVolumeRequest rawReq in
     case validateCreateVolumeRequest req of Some e \<Rightarrow> (Err e, d, w)
     | None \<Rightarrow> (case (if cv_SnapshotID req = [] then (None, w)
          else (case resolveSnapshot client uuid_text ownerID (cv_SnapshotID req) w of
            (Err e, w) \<Rightarrow> (Some e, w)
          | (Ok s, w) \<Rightarrow> (if cv_SizeGiB req < sn_SizeGiB s then Some ErrSnapshotSmallerThanSource else None, w))) of
         (Some e, w) \<Rightarrow> (Err e, d, w)
       | (None, w) \<Rightarrow> (case bc_CreateVolume client req (uuid_text ownerID) w of
           (Err e, w) \<Rightarrow> (Err (bs_failed e), d, w)
         | (Ok v, w) \<Rightarrow> (case volumeResponse ownerID v d of (r, d) \<Rightarrow> (Ok r, d, w)))))"

definition bs_UpdateVolume :: "'w blockStorageClient \<Rightarrow> (nat \<Rightarrow> bytes) \<Rightarrow> nat \<Rightarrow> bytes \<Rightarrow> UpdateVolumeRequest
    \<Rightarrow> ('w, VolumeResponse) blockop" where
  "bs_UpdateVolume client uuid_text ownerID ident req = (\<lambda>(d, w). case resolveVolume client uuid_text ownerID ident w of
     (Err e, w) \<Rightarrow> (Err e, d, w)
   | (Ok v, w) \<Rightarrow> (case bc_UpdateVolume client ident (normalizeUpdateVolumeRequest req v) w of
       (Err e, w) \<Rightarrow> (Err (bs_failed e), d, w)
     | (Ok v, w) \<Rightarrow> (case volumeResponse ownerID v d of (r, d) \<Rightarrow> (Ok r, d, w))))"

definition bs_DeleteVolume :: "'w blockStorageClient \<Rightarrow> (nat \<Rightarrow> bytes) \<Rightarrow> nat \<Rightarrow> bytes \<Rightarrow> ('w, unit) blockop" where
  "bs_DeleteVolume client uuid_text ownerID ident = (\<lambda>(d, w). case resolveVolume client uuid_text ownerID ident w of
     (Err e, w) \<Rightarrow> (Err e, d, w)
   | (Ok v, w) \<Rightarrow> if vo_Status v \<noteq> ''available'' then (Err ErrVolumeAttached, d, w)
      else (case bc_DeleteVolume client ident w of
        (Some e, w) \<Rightarrow> (Err (bs_failed e), d, w) | (None, w) \<Rightarrow> (Ok (), d, w)))"

definition bs_AttachVolume :: "'w blockStorageClient \<Rightarrow> (nat \<Rightarrow> bytes) \<Rightarrow> nat \<Rightarrow> bytes \<Rightarrow> bytes \<Rightarrow> ('w, AttachmentResponse) blockop" where
  "bs_AttachVolume client uuid_text ownerID volumeID rawInstanceID = (\<lambda>(d, w). let instanceID = TrimSpace rawInstanceID in
     case resolveVolume client uuid_text ownerID volumeID w of
       (Err e, w) \<Rightarrow> (Err e, d, w)
     | (Ok v, w) \<Rightarrow> if vo_Status v \<noteq> ''available'' then (Err ErrVolumeNotAvailable, d, w)
        else (case InstanceExists ownerID instanceID d of
          (Err e, d) \<Rightarrow> (Err (ErrBlockStorageOperationFailed (BDb e)), d, w)
        | (Ok False, d) \<Rightarrow> (Err ErrInstanceNotFound, d, w)
        | (Ok True, d) \<Rightarrow> (case bc_GetInstance client instanceID w of
            (Some e, w) \<Rightarrow> (Err (if hasStatusCode e 404 then ErrInstanceNotFound else bs_failed e), d, w)
          | (None, w) \<Rightarrow> (case bc_AttachVolume client instanceID volumeID w of
              (Err e, w) \<Rightarrow> (Err (bs_failed e), d, w)
            | (Ok _, w) \<Rightarrow> (Ok \<lparr>at_VolumeID = volumeID, at_InstanceID = instanceID, at_Status = ''attaching''\<rparr>, d, w)))))"

definition bs_DetachVolume :: "'w blockStorageClient \<Rightarrow> (nat \<Rightarrow> bytes) \<Rightarrow> nat \<Rightarrow> bytes \<Rightarrow> bytes \<Rightarrow> ('w, AttachmentResponse) blockop" where
  "bs_DetachVolume client uuid_text ownerID volumeID instanceID = (\<lambda>(d, w).
     case resolveVolume client uuid_text ownerID volumeID w of
       (Err e, w) \<Rightarrow> (Err e, d, w)
     | (Ok v, w) \<Rightarrow> if \<not> list_ex (\<lambda>a. va_InstanceID a = instanceID) (vo_Attachments v) then (Err ErrVolumeAttachmentNotFound, d, w)
        else (case InstanceExists ownerID instanceID d of
          (Err e, d) \<Rightarrow> (Err (ErrBlockStorageOperationFailed (BDb e)), d, w)
        | (Ok False, d) \<Rightarrow> (Err ErrInstanceNotFound, d, w)
        | (Ok True, d) \<Rightarrow> (case bc_DetachVolume client instanceID volumeID w of
            (Some e, w) \<Rightarrow> (Err (bs_failed e), d, w)
          | (None, w) \<Rightarrow> (Ok \<lparr>at_VolumeID = volumeID, at_InstanceID = instanceID, at_Status = ''detaching''\<rparr>, d, w))))"

definition bs_ListSnapshots :: "'w blockStorageClient \<Rightarrow> (nat \<Rightarrow> bytes) \<Rightarrow> nat \<Rightarrow> ('w, SnapshotResponse list) blockop" where
  "bs_ListSnapshots client uuid_text ownerID = (\<lambda>(d, w). case bc_ListSnapshots client (uuid_text ownerID) w of
     (Err e, w) \<Rightarrow> (Err (bs_failed e), d, w) | (Ok raw, w) \<Rightarrow> (Ok (map snapshotResponse raw), d, w))"

definition bs_CreateSnapshot :: "'w blockStorageClient \<Rightarrow> (nat \<Rightarrow> bytes) \<Rightarrow> nat \<Rightarrow> bytes \<Rightarrow> CreateSnapshotRequest
    \<Rightarrow> ('w, SnapshotResponse) blockop" where
  "bs_CreateSnapshot client uuid_text ownerID volumeID rawReq = (\<lambda>(d, w). let req = normalizeCreateSnapshotRequest rawReq in
     if cs_Name req = [] then (Err ErrSnapshotNameRequired, d, w)
     else case resolveVolume client uuid_text ownerID volumeID w of
       (Err e, w) \<Rightarrow> (Err e, d, w)
     | (Ok v, w) \<Rightarrow> if vo_Status v \<noteq> ''available'' then (Err ErrVolumeNotAvailable, d, w)
        else (case bc_CreateSnapshot client volumeID req (uuid_text ownerID) w of
          (Err e, w) \<Rightarrow> (Err (bs_failed e), d, w) | (Ok s, w) \<Rightarrow> (Ok (snapshotResponse s), d, w)))"

definition bs_DeleteSnapshot :: "'w blockStorageClient \<Rightarrow> (nat \<Rightarrow> bytes) \<Rightarrow> nat \<Rightarrow> bytes \<Rightarrow> ('w, unit) blockop" where
  "bs_DeleteSnapshot client uuid_text ownerID ident = (\<lambda>(d, w). case resolveSnapshot client uuid_text ownerID ident w of
     (Err e, w) \<Rightarrow> (Err e, d, w)
   | (Ok s, w) \<Rightarrow> if sn_Status s \<noteq> ''available'' \<and> sn_Status s \<noteq> ''error'' then (Err ErrSnapshotBusy, d, w)
      else (case bc_DeleteSnapshot client ident w of
        (Some e, w) \<Rightarrow> (Err (bs_failed e), d, w) | (None, w) \<Rightarrow> (Ok (), d, w)))"

subsection \<open>Handlers\<close>

definition bs_writeError :: "block_err \<Rightarrow> (block_err, 'a) response" where
  "bs_writeError e =
     (if e \<in> {ErrVolumeNotFound, ErrSnapshotNotFound, ErrInstanceNotFound, ErrVolumeAttachmentNotFound} then (404, ErrText e)
      else if e \<in> {ErrVolumeNameRequired, ErrVolumeSizeInvalid, ErrSnapshotNameRequired, ErrSnapshotSmallerThanSource} then (400, ErrText e)
      else if e \<in> {ErrVolumeNotAvailable, ErrVolumeAttached, ErrSnapshotBusy} then (409, ErrText e)
      else (500, ErrText e))"

text \<open>The handlers: the owner, the bound body if there is one, the operation, and its answer.\<close>

definition bs_handler :: "nat option \<Rightarrow> nat \<Rightarrow> 'r option \<Rightarrow> (nat \<Rightarrow> 'r \<Rightarrow> ('w, 'a) blockop) \<Rightarrow> db \<times> 'w
    \<Rightarrow> (block_err, 'a) response \<times> db \<times> 'w" where
  "bs_handler owner status bound f st = (case owner of None \<Rightarrow> (unauthorized, st)
   | Some ownerID \<Rightarrow> (case bound of None \<Rightarrow> ((400, ErrMsg ''invalid request body''), st)
     | Some req \<Rightarrow> (case f ownerID req st of
         (Err e, st) \<Rightarrow> (bs_writeError e, st)
       | (Ok x, st) \<Rightarrow> ((status, if status = 204 then NoBody else Json x), st))))"

definition h_ListVolumes :: "'w blockStorageClient \<Rightarrow> (nat \<Rightarrow> bytes) \<Rightarrow> nat option \<Rightarrow> db \<times> 'w
    \<Rightarrow> (block_err, VolumeResponse list) response \<times> db \<times> 'w" where
  "h_ListVolumes client uuid_text owner = bs_handler owner 200 (Some ()) (\<lambda>own _. bs_ListVolumes client uuid_text own)"

definition h_GetVolume :: "'w blockStorageClient \<Rightarrow> (nat \<Rightarrow> bytes) \<Rightarrow> nat option \<Rightarrow> bytes \<Rightarrow> db \<times> 'w
    \<Rightarrow> (block_err, VolumeResponse) response \<times> db \<times> 'w" where
  "h_GetVolume client uuid_text owner ident = bs_handler owner 200 (Some ()) (\<lambda>own _. bs_GetVolume client uuid_text own ident)"

definition h_CreateVolume :: "'w blockStorageClient \<Rightarrow> (nat \<Rightarrow> bytes) \<Rightarrow> nat option \<Rightarrow> CreateVolumeRequest option \<Rightarrow> db \<times> 'w
    \<Rightarrow> (block_err, VolumeResponse) response \<times> db \<times> 'w" where
  "h_CreateVolume client uuid_text owner bound = bs_handler owner 202 bound (bs_CreateVolume client uuid_text)"

definition h_UpdateVolume :: "'w blockStorageClient \<Rightarrow> (nat \<Rightarrow> bytes) \<Rightarrow> nat option \<Rightarrow> bytes \<Rightarrow> UpdateVolumeRequest option \<Rightarrow> db \<times> 'w
    \<Rightarrow> (block_err, VolumeResponse) response \<times> db \<times> 'w" where
  "h_UpdateVolume client uuid_text owner ident bound = bs_handler owner 200 bound (\<lambda>own. bs_UpdateVolume client uuid_text own ident)"

definition h_DeleteVolume :: "'w blockStorageClient \<Rightarrow> (nat \<Rightarrow> bytes) \<Rightarrow> nat option \<Rightarrow> bytes \<Rightarrow> db \<times> 'w
    \<Rightarrow> (block_err, unit) response \<times> db \<times> 'w" where
  "h_DeleteVolume client uuid_text owner ident = bs_handler owner 204 (Some ()) (\<lambda>own _. bs_DeleteVolume client uuid_text own ident)"

definition h_AttachVolume :: "'w blockStorageClient \<Rightarrow> (nat \<Rightarrow> bytes) \<Rightarrow> nat option \<Rightarrow> bytes \<Rightarrow> bytes option \<Rightarrow> db \<times> 'w
    \<Rightarrow> (block_err, AttachmentResponse) response \<times> db \<times> 'w" where
  "h_AttachVolume client uuid_text owner ident bound = bs_handler owner 202 bound (\<lambda>own. bs_AttachVolume client uuid_text own ident)"

definition h_DetachVolume :: "'w blockStorageClient \<Rightarrow> (nat \<Rightarrow> bytes) \<Rightarrow> nat option \<Rightarrow> bytes \<Rightarrow> bytes \<Rightarrow> db \<times> 'w
    \<Rightarrow> (block_err, AttachmentResponse) response \<times> db \<times> 'w" where
  "h_DetachVolume client uuid_text owner ident instanceID =
     bs_handler owner 202 (Some ()) (\<lambda>own _. bs_DetachVolume client uuid_text own ident instanceID)"

definition h_ListSnapshots :: "'w blockStorageClient \<Rightarrow> (nat \<Rightarrow> bytes) \<Rightarrow> nat option \<Rightarrow> db \<times> 'w
    \<Rightarrow> (block_err, SnapshotResponse list) response \<times> db \<times> 'w" where
  "h_ListSnapshots client uuid_text owner = bs_handler owner 200 (Some ()) (\<lambda>own _. bs_ListSnapshots client uuid_text own)"

definition h_CreateSnapshot :: "'w blockStorageClient \<Rightarrow> (nat \<Rightarrow> bytes) \<Rightarrow> nat option \<Rightarrow> bytes \<Rightarrow> CreateSnapshotRequest option \<Rightarrow> db \<times> 'w
    \<Rightarrow> (block_err, SnapshotResponse) response \<times> db \<times> 'w" where
  "h_CreateSnapshot client uuid_text owner ident bound = bs_handler owner 202 bound (\<lambda>own. bs_CreateSnapshot client uuid_text own ident)"

definition h_DeleteSnapshot :: "'w blockStorageClient \<Rightarrow> (nat \<Rightarrow> bytes) \<Rightarrow> nat option \<Rightarrow> bytes \<Rightarrow> db \<times> 'w
    \<Rightarrow> (block_err, unit) response \<times> db \<times> 'w" where
  "h_DeleteSnapshot client uuid_text owner ident = bs_handler owner 204 (Some ()) (\<lambda>own _. bs_DeleteSnapshot client uuid_text own ident)"

subsection \<open>Users do not reach each other's volumes\<close>

text \<open>
  What is relied on of OpenStack: \<open>vols w\<close> and \<open>snaps w\<close> are the volumes and snapshots by their ID.
  Asking changes nothing and answers what there is; creating adds one with the given metadata; changing,
  deleting, attaching and detaching concern the volume with the given ID only, keep its metadata and make
  none; a snapshot is of the same kind. No ID has white space around it.
\<close>

definition untouched :: "('w \<Rightarrow> bytes \<rightharpoonup> RawVolume) \<Rightarrow> ('w \<Rightarrow> bytes \<rightharpoonup> RawSnapshot) \<Rightarrow> 'w \<Rightarrow> 'w \<Rightarrow> bool" where
  "untouched vols snaps w w' \<longleftrightarrow> vols w' = vols w \<and> snaps w' = snaps w"

definition touched :: "(bytes \<rightharpoonup> 'v) \<Rightarrow> ('v \<Rightarrow> bytes \<rightharpoonup> bytes) \<Rightarrow> bytes \<Rightarrow> (bytes \<rightharpoonup> 'v) \<Rightarrow> bool" where
  "touched m md i m' \<longleftrightarrow> (\<forall>j. j \<noteq> i \<longrightarrow> m' j = m j)
     \<and> (\<forall>v'. m' i = Some v' \<longrightarrow> (\<exists>v. m i = Some v \<and> md v' = md v))"

definition made :: "(bytes \<rightharpoonup> 'v) \<Rightarrow> ('v \<Rightarrow> bytes \<rightharpoonup> bytes) \<Rightarrow> (bytes \<rightharpoonup> bytes) \<Rightarrow> (bytes \<rightharpoonup> 'v) \<Rightarrow> bool" where
  "made m md meta_data m' \<longleftrightarrow> m' = m \<or> (\<exists>i v. m i = None \<and> md v = meta_data \<and> m' = m(i \<mapsto> v))"

definition lawful_cinder :: "'w cinder \<Rightarrow> ('w \<Rightarrow> bytes \<rightharpoonup> RawVolume) \<Rightarrow> ('w \<Rightarrow> bytes \<rightharpoonup> RawSnapshot) \<Rightarrow> bool" where
  "lawful_cinder ci vols snaps \<longleftrightarrow>
     (\<forall>w. untouched vols snaps w (snd (ci_block ci w)) \<and> untouched vols snaps w (snd (ci_compute ci w)))
   \<and> (\<forall>w m i. untouched vols snaps w (snd (ci_list ci m w)) \<and> untouched vols snaps w (snd (ci_get ci i w))
        \<and> untouched vols snaps w (snd (ci_server ci i w)) \<and> untouched vols snaps w (snd (ci_list_snapshots ci w))
        \<and> untouched vols snaps w (snd (ci_get_snapshot ci i w)))
   \<and> (\<forall>w i v. fst (ci_get ci i w) = Ok v \<longrightarrow> vols w i = Some v)
   \<and> (\<forall>w i v. fst (ci_get_snapshot ci i w) = Ok v \<longrightarrow> snaps w i = Some v)
   \<and> (\<forall>w r m. made (vols w) rv_Metadata m (vols (snd (ci_create ci r m w))) \<and> snaps (snd (ci_create ci r m w)) = snaps w)
   \<and> (\<forall>w i r m. made (snaps w) rs_Metadata m (snaps (snd (ci_create_snapshot ci i r m w)))
        \<and> vols (snd (ci_create_snapshot ci i r m w)) = vols w)
   \<and> (\<forall>w i r. touched (vols w) rv_Metadata i (vols (snd (ci_update ci i r w))) \<and> snaps (snd (ci_update ci i r w)) = snaps w)
   \<and> (\<forall>w i. touched (vols w) rv_Metadata i (vols (snd (ci_delete ci i w))) \<and> snaps (snd (ci_delete ci i w)) = snaps w)
   \<and> (\<forall>w s i. touched (vols w) rv_Metadata i (vols (snd (ci_attach ci s i w))) \<and> snaps (snd (ci_attach ci s i w)) = snaps w)
   \<and> (\<forall>w s i. touched (vols w) rv_Metadata i (vols (snd (ci_detach ci s i w))) \<and> snaps (snd (ci_detach ci s i w)) = snaps w)
   \<and> (\<forall>w i. touched (snaps w) rs_Metadata i (snaps (snd (ci_delete_snapshot ci i w))) \<and> vols (snd (ci_delete_snapshot ci i w)) = vols w)
   \<and> (\<forall>w i. vols w i \<noteq> None \<longrightarrow> TrimSpace i = i) \<and> (\<forall>w i. snaps w i \<noteq> None \<longrightarrow> TrimSpace i = i)"

text \<open>What belongs to others than the user with the text \<open>t\<close>.\<close>

definition foreign :: "bytes \<Rightarrow> ('v \<Rightarrow> bytes \<rightharpoonup> bytes) \<Rightarrow> (bytes \<rightharpoonup> 'v) \<Rightarrow> (bytes \<rightharpoonup> 'v)" where
  "foreign t md m = (\<lambda>i. case m i of None \<Rightarrow> None | Some v \<Rightarrow> if meta (md v) ownerMetadataKey = t then None else Some v)"

lemma foreign_made: "made m md [ownerMetadataKey \<mapsto> t] m' \<Longrightarrow> foreign t md m' = foreign t md m"
  by (auto simp: made_def foreign_def meta_def fun_eq_iff)

lemma foreign_touched:
  assumes "touched m md i m'" and "m i = None \<or> foreign t md m i = None"
  shows "foreign t md m' = foreign t md m"
proof
  fix j
  show "foreign t md m' j = foreign t md m j"
  proof (cases "j = i")
    case False
    then show ?thesis using assms(1) by (simp add: touched_def foreign_def)
  next
    case True
    show ?thesis
    proof (cases "m' i")
      case None
      then show ?thesis using assms(2) True by (auto simp: foreign_def)
    next
      case (Some v')
      then obtain v where "m i = Some v" "md v' = md v" using assms(1) by (auto simp: touched_def)
      then show ?thesis using assms(2) Some True by (auto simp: foreign_def split: if_splits)
    qed
  qed
qed

text \<open>The operations of the service.\<close>

datatype block_op = BListVolumes | BGetVolume bytes | BCreateVolume CreateVolumeRequest | BUpdateVolume bytes UpdateVolumeRequest
  | BDeleteVolume bytes | BAttachVolume bytes bytes | BDetachVolume bytes bytes | BListSnapshots
  | BCreateSnapshot bytes CreateSnapshotRequest | BDeleteSnapshot bytes

fun block_do :: "'w blockStorageClient \<Rightarrow> (nat \<Rightarrow> bytes) \<Rightarrow> nat \<Rightarrow> block_op \<Rightarrow> db \<times> 'w \<Rightarrow> db \<times> 'w" where
  "block_do c u own BListVolumes st = snd (bs_ListVolumes c u own st)"
| "block_do c u own (BGetVolume i) st = snd (bs_GetVolume c u own i st)"
| "block_do c u own (BCreateVolume r) st = snd (bs_CreateVolume c u own r st)"
| "block_do c u own (BUpdateVolume i r) st = snd (bs_UpdateVolume c u own i r st)"
| "block_do c u own (BDeleteVolume i) st = snd (bs_DeleteVolume c u own i st)"
| "block_do c u own (BAttachVolume i s) st = snd (bs_AttachVolume c u own i s st)"
| "block_do c u own (BDetachVolume i s) st = snd (bs_DetachVolume c u own i s st)"
| "block_do c u own BListSnapshots st = snd (bs_ListSnapshots c u own st)"
| "block_do c u own (BCreateSnapshot i r) st = snd (bs_CreateSnapshot c u own i r st)"
| "block_do c u own (BDeleteSnapshot i) st = snd (bs_DeleteSnapshot c u own i st)"

definition isolated :: "bytes \<Rightarrow> ('w \<Rightarrow> bytes \<rightharpoonup> RawVolume) \<Rightarrow> ('w \<Rightarrow> bytes \<rightharpoonup> RawSnapshot) \<Rightarrow> 'w \<Rightarrow> 'w \<Rightarrow> bool" where
  "isolated t vols snaps w w' \<longleftrightarrow> foreign t rv_Metadata (vols w') = foreign t rv_Metadata (vols w)
     \<and> foreign t rs_Metadata (snaps w') = foreign t rs_Metadata (snaps w)"

lemma isolated_untouched: "untouched vols snaps w w' \<Longrightarrow> isolated t vols snaps w w'"
  by (simp add: untouched_def isolated_def)

lemma isolated_trans: "isolated t vols snaps a b \<Longrightarrow> isolated t vols snaps b c \<Longrightarrow> isolated t vols snaps a c"
  by (simp add: isolated_def)

lemma untouched_trans: "untouched vols snaps a b \<Longrightarrow> untouched vols snaps b c \<Longrightarrow> untouched vols snaps a c"
  by (simp add: untouched_def)

lemma untouched_refl: "untouched vols snaps a a"
  by (simp add: untouched_def)

lemma at_endpoint_world: "snd (at_endpoint ep call w) = snd (ep w) \<or> snd (at_endpoint ep call w) = snd (call (snd (ep w)))"
  by (cases "ep w"; cases "fst (ep w)") (simp_all add: at_endpoint_def)

lemma try_endpoint_world: "snd (try_endpoint ep call w) = snd (ep w) \<or> snd (try_endpoint ep call w) = snd (call (snd (ep w)))"
  by (cases "ep w"; cases "fst (ep w)") (simp_all add: try_endpoint_def)

lemma converted_world: "snd (converted f call w) = snd (call w)"
  by (cases "call w"; cases "fst (call w)") (simp_all add: converted_def)

lemma at_endpoint_Ok:
  "fst (at_endpoint ep (converted f call) w) = Ok x \<Longrightarrow> \<exists>y. fst (call (snd (ep w))) = Ok y \<and> x = f y"
  by (cases "ep w"; cases "fst (ep w)"; cases "call (snd (ep w))"; cases "fst (call (snd (ep w)))")
    (auto simp: at_endpoint_def converted_def)

lemmas client_defs = block_client_def c_ListVolumes_def c_GetVolume_def c_CreateVolume_def c_UpdateVolume_def c_DeleteVolume_def
  c_AttachVolume_def c_DetachVolume_def c_GetInstance_def c_ListSnapshots_def c_GetSnapshot_def c_CreateSnapshot_def c_DeleteSnapshot_def

lemma lawful_endpoints:
  assumes "lawful_cinder ci vols snaps"
  shows "untouched vols snaps w (snd (ci_block ci w))" "untouched vols snaps w (snd (ci_compute ci w))"
  using assms by (simp_all add: lawful_cinder_def)

lemma lawful_asks:
  assumes "lawful_cinder ci vols snaps"
  shows "untouched vols snaps w (snd (ci_list ci m w))" "untouched vols snaps w (snd (ci_get ci i w))"
    "untouched vols snaps w (snd (ci_server ci i w))" "untouched vols snaps w (snd (ci_list_snapshots ci w))"
    "untouched vols snaps w (snd (ci_get_snapshot ci i w))"
  using assms by (simp_all add: lawful_cinder_def)

lemma endpoint_untouched:
  assumes "untouched vols snaps w (snd (ep w))" and "untouched vols snaps (snd (ep w)) (snd (call (snd (ep w))))"
  shows "untouched vols snaps w (snd (at_endpoint ep call w))"
  using at_endpoint_world [of ep call w] assms untouched_trans [OF assms] by auto

lemma try_untouched:
  assumes "untouched vols snaps w (snd (ep w))" and "untouched vols snaps (snd (ep w)) (snd (call (snd (ep w))))"
  shows "untouched vols snaps w (snd (try_endpoint ep call w))"
  using try_endpoint_world [of ep call w] assms untouched_trans [OF assms] by auto

lemma ask_untouched:
  assumes "lawful_cinder ci vols snaps"
  shows "untouched vols snaps w (snd (bc_ListVolumes (block_client ci) t w))" "untouched vols snaps w (snd (bc_GetVolume (block_client ci) i w))"
    "untouched vols snaps w (snd (bc_GetInstance (block_client ci) i w))" "untouched vols snaps w (snd (bc_ListSnapshots (block_client ci) t w))"
    "untouched vols snaps w (snd (bc_GetSnapshot (block_client ci) i w))"
  by (simp_all add: client_defs endpoint_untouched try_untouched converted_world lawful_endpoints [OF assms] lawful_asks [OF assms])

lemma get_volume_Ok:
  assumes "lawful_cinder ci vols snaps" and "fst (bc_GetVolume (block_client ci) i w) = Ok v"
  shows "\<exists>rv. vols w i = Some rv \<and> v = convertVolume rv"
proof -
  obtain rv where rv: "fst (ci_get ci i (snd (ci_block ci w))) = Ok rv" "v = convertVolume rv"
    using at_endpoint_Ok assms(2) by (fastforce simp: client_defs)
  have "vols (snd (ci_block ci w)) i = Some rv" using assms(1) rv(1) by (simp add: lawful_cinder_def)
  with lawful_endpoints [OF assms(1), of w] rv(2) show ?thesis by (simp add: untouched_def)
qed

lemma get_snapshot_Ok:
  assumes "lawful_cinder ci vols snaps" and "fst (bc_GetSnapshot (block_client ci) i w) = Ok v"
  shows "\<exists>rv. snaps w i = Some rv \<and> v = convertSnapshot rv"
proof -
  obtain rv where rv: "fst (ci_get_snapshot ci i (snd (ci_block ci w))) = Ok rv" "v = convertSnapshot rv"
    using at_endpoint_Ok assms(2) by (fastforce simp: client_defs)
  have "snaps (snd (ci_block ci w)) i = Some rv" using assms(1) rv(1) by (simp add: lawful_cinder_def)
  with lawful_endpoints [OF assms(1), of w] rv(2) show ?thesis by (simp add: untouched_def)
qed

lemma resolve_volume:
  assumes L: "lawful_cinder ci vols snaps" and r: "resolveVolume (block_client ci) u own i w = (r, w')"
  shows "untouched vols snaps w w'"
    and "r = Ok v \<Longrightarrow> vols w' i = None \<or> foreign (u own) rv_Metadata (vols w') i = None"
proof -
  obtain g w1 where g: "bc_GetVolume (block_client ci) (TrimSpace i) w = (g, w1)" by force
  have w1: "w' = w1" using r g by (cases g) (auto simp: resolveVolume_def split: if_splits)
  show unt: "untouched vols snaps w w'" using ask_untouched(2) [OF L, of w "TrimSpace i"] g w1 by simp
  assume ok: "r = Ok v"
  then obtain v' where v': "g = Ok v'" "meta (vo_Metadata v') ownerMetadataKey = u own"
    using r g by (cases g) (auto simp: resolveVolume_def split: if_splits)
  obtain rv where rv: "vols w (TrimSpace i) = Some rv" "v' = convertVolume rv"
    using get_volume_Ok [OF L, of "TrimSpace i" w v'] g v'(1) by auto
  have "TrimSpace i = i" if "vols w' i \<noteq> None" using L that by (simp add: lawful_cinder_def)
  with rv v'(2) unt show "vols w' i = None \<or> foreign (u own) rv_Metadata (vols w') i = None"
    by (cases "vols w' i") (simp_all add: untouched_def foreign_def convertVolume_def)
qed

lemma resolve_snapshot:
  assumes L: "lawful_cinder ci vols snaps" and r: "resolveSnapshot (block_client ci) u own i w = (r, w')"
  shows "untouched vols snaps w w'"
    and "r = Ok v \<Longrightarrow> snaps w' i = None \<or> foreign (u own) rs_Metadata (snaps w') i = None"
proof -
  obtain g w1 where g: "bc_GetSnapshot (block_client ci) (TrimSpace i) w = (g, w1)" by force
  have w1: "w' = w1" using r g by (cases g) (auto simp: resolveSnapshot_def split: if_splits)
  show unt: "untouched vols snaps w w'" using ask_untouched(5) [OF L, of w "TrimSpace i"] g w1 by simp
  assume ok: "r = Ok v"
  then obtain v' where v': "g = Ok v'" "meta (sn_Metadata v') ownerMetadataKey = u own"
    using r g by (cases g) (auto simp: resolveSnapshot_def split: if_splits)
  obtain rv where rv: "snaps w (TrimSpace i) = Some rv" "v' = convertSnapshot rv"
    using get_snapshot_Ok [OF L, of "TrimSpace i" w v'] g v'(1) by auto
  have "TrimSpace i = i" if "snaps w' i \<noteq> None" using L that by (simp add: lawful_cinder_def)
  with rv v'(2) unt show "snaps w' i = None \<or> foreign (u own) rs_Metadata (snaps w') i = None"
    by (cases "snaps w' i") (simp_all add: untouched_def foreign_def convertSnapshot_def)
qed

text \<open>The calls that change something change nothing of others.\<close>

lemma isolated_call:
  assumes L: "lawful_cinder ci vols snaps" and "ep = ci_block ci \<or> ep = ci_compute ci"
    and "isolated t vols snaps (snd (ep w)) (snd (call (snd (ep w))))"
  shows "isolated t vols snaps w (snd (at_endpoint ep call w))"
proof -
  have u: "isolated t vols snaps w (snd (ep w))"
    using assms(2) lawful_endpoints [OF L, of w] isolated_untouched by (metis (full_types))
  show ?thesis using at_endpoint_world [of ep call w] u isolated_trans [OF u assms(3)] by auto
qed

lemma isolated_try:
  assumes L: "lawful_cinder ci vols snaps" and "ep = ci_block ci \<or> ep = ci_compute ci"
    and "isolated t vols snaps (snd (ep w)) (snd (call (snd (ep w))))"
  shows "isolated t vols snaps w (snd (try_endpoint ep call w))"
proof -
  have u: "isolated t vols snaps w (snd (ep w))"
    using assms(2) lawful_endpoints [OF L, of w] isolated_untouched by (metis (full_types))
  show ?thesis using try_endpoint_world [of ep call w] u isolated_trans [OF u assms(3)] by auto
qed

lemma endpoint_same:
  assumes "lawful_cinder ci vols snaps"
  shows "vols (snd (ci_block ci w)) = vols w" "snaps (snd (ci_block ci w)) = snaps w"
    "vols (snd (ci_compute ci w)) = vols w" "snaps (snd (ci_compute ci w)) = snaps w"
  using lawful_endpoints [OF assms, of w] by (simp_all add: untouched_def)

lemma create_isolated:
  assumes L: "lawful_cinder ci vols snaps"
  shows "isolated t vols snaps w (snd (bc_CreateVolume (block_client ci) req t w))"
    and "isolated t vols snaps w (snd (bc_CreateSnapshot (block_client ci) i sreq t w))"
proof -
  have "made (vols w) rv_Metadata m (vols (snd (ci_create ci req m w))) \<and> snaps (snd (ci_create ci req m w)) = snaps w"
    "made (snaps w) rs_Metadata m (snaps (snd (ci_create_snapshot ci i sreq m w))) \<and> vols (snd (ci_create_snapshot ci i sreq m w)) = vols w"
    for w m using L by (simp_all add: lawful_cinder_def)
  then have "isolated t vols snaps w (snd (ci_create ci req [ownerMetadataKey \<mapsto> t] w))"
    "isolated t vols snaps w (snd (ci_create_snapshot ci i sreq [ownerMetadataKey \<mapsto> t] w))" for w
    using foreign_made by (simp_all add: isolated_def) blast+
  then show "isolated t vols snaps w (snd (bc_CreateVolume (block_client ci) req t w))"
    "isolated t vols snaps w (snd (bc_CreateSnapshot (block_client ci) i sreq t w))"
    by (simp_all add: client_defs isolated_call [OF L] converted_world)
qed

lemma volume_call_isolated:
  assumes L: "lawful_cinder ci vols snaps" and mine: "vols w i = None \<or> foreign t rv_Metadata (vols w) i = None"
  shows "isolated t vols snaps w (snd (bc_UpdateVolume (block_client ci) i req w))"
    and "isolated t vols snaps w (snd (bc_DeleteVolume (block_client ci) i w))"
    and "isolated t vols snaps w (snd (bc_AttachVolume (block_client ci) s i w))"
    and "isolated t vols snaps w (snd (bc_DetachVolume (block_client ci) s i w))"
proof -
  have touch: "isolated t vols snaps w1 w2" if "vols w1 = vols w" "touched (vols w1) rv_Metadata i (vols w2) \<and> snaps w2 = snaps w1" for w1 w2
    using foreign_touched [OF conjunct1 [OF that(2)]] mine that by (simp add: isolated_def)
  have law: "touched (vols w) rv_Metadata i (vols (snd (ci_update ci i req w))) \<and> snaps (snd (ci_update ci i req w)) = snaps w"
    "touched (vols w) rv_Metadata i (vols (snd (ci_delete ci i w))) \<and> snaps (snd (ci_delete ci i w)) = snaps w"
    "touched (vols w) rv_Metadata i (vols (snd (ci_attach ci s i w))) \<and> snaps (snd (ci_attach ci s i w)) = snaps w"
    "touched (vols w) rv_Metadata i (vols (snd (ci_detach ci s i w))) \<and> snaps (snd (ci_detach ci s i w)) = snaps w" for w
    using L by (simp_all add: lawful_cinder_def)
  note same = endpoint_same [OF L]
  have call: "isolated t vols snaps (snd (ci_block ci w)) (snd (ci_update ci i req (snd (ci_block ci w))))"
    "isolated t vols snaps (snd (ci_block ci w)) (snd (ci_delete ci i (snd (ci_block ci w))))"
    "isolated t vols snaps (snd (ci_compute ci w)) (snd (ci_attach ci s i (snd (ci_compute ci w))))"
    "isolated t vols snaps (snd (ci_compute ci w)) (snd (ci_detach ci s i (snd (ci_compute ci w))))"
    by (rule touch [OF _ law(1)] touch [OF _ law(2)] touch [OF _ law(3)] touch [OF _ law(4)], simp add: same)+
  show "isolated t vols snaps w (snd (bc_UpdateVolume (block_client ci) i req w))"
    "isolated t vols snaps w (snd (bc_DeleteVolume (block_client ci) i w))"
    "isolated t vols snaps w (snd (bc_AttachVolume (block_client ci) s i w))"
    "isolated t vols snaps w (snd (bc_DetachVolume (block_client ci) s i w))"
    by (simp_all add: client_defs isolated_call [OF L] isolated_try [OF L] converted_world call)
qed

lemma snapshot_call_isolated:
  assumes L: "lawful_cinder ci vols snaps" and mine: "snaps w i = None \<or> foreign t rs_Metadata (snaps w) i = None"
  shows "isolated t vols snaps w (snd (bc_DeleteSnapshot (block_client ci) i w))"
proof -
  have law: "touched (snaps w) rs_Metadata i (snaps (snd (ci_delete_snapshot ci i w))) \<and> vols (snd (ci_delete_snapshot ci i w)) = vols w" for w
    using L by (simp add: lawful_cinder_def)
  have "isolated t vols snaps (snd (ci_block ci w)) (snd (ci_delete_snapshot ci i (snd (ci_block ci w))))"
    using foreign_touched [OF conjunct1 [OF law [of "snd (ci_block ci w)"]], where t = t] mine law [of "snd (ci_block ci w)"] endpoint_same [OF L]
    by (simp add: isolated_def)
  then show ?thesis unfolding client_defs blockStorageClient.simps by (intro isolated_try [OF L]) simp_all
qed

text \<open>The operations, one by one: after the check of the owner the call can only concern what is the user's own.\<close>

lemma after_resolve:
  assumes "untouched vols snaps w w1" and "isolated t vols snaps w1 (snd r)" and "r = (a, w2)"
  shows "isolated t vols snaps w w2"
  using isolated_trans [OF isolated_untouched [OF assms(1)] assms(2)] assms(3) by simp

lemma update_isolated:
  assumes L: "lawful_cinder ci vols snaps"
  shows "isolated (u own) vols snaps w (snd (snd (bs_UpdateVolume (block_client ci) u own i r (d, w))))"
proof -
  obtain res w1 where R: "resolveVolume (block_client ci) u own i w = (res, w1)" by force
  note unt = resolve_volume(1) [OF L R]
  show ?thesis
  proof (cases res)
    case (Inl e)
    then show ?thesis by (simp add: bs_UpdateVolume_def R isolated_untouched [OF unt])
  next
    case (Inr v)
    obtain c w2 where C: "bc_UpdateVolume (block_client ci) i (normalizeUpdateVolumeRequest r v) w1 = (c, w2)" by force
    have "isolated (u own) vols snaps w w2"
      by (rule after_resolve [OF unt volume_call_isolated(1) [OF L resolve_volume(2) [OF L R Inr]] C])
    then show ?thesis by (cases c) (simp_all add: bs_UpdateVolume_def R Inr C split: prod.split)
  qed
qed

lemma delete_isolated:
  assumes L: "lawful_cinder ci vols snaps"
  shows "isolated (u own) vols snaps w (snd (snd (bs_DeleteVolume (block_client ci) u own i (d, w))))"
proof -
  obtain res w1 where R: "resolveVolume (block_client ci) u own i w = (res, w1)" by force
  note unt = resolve_volume(1) [OF L R]
  show ?thesis
  proof (cases res)
    case (Inl e)
    then show ?thesis by (simp add: bs_DeleteVolume_def R isolated_untouched [OF unt])
  next
    case (Inr v)
    obtain c w2 where C: "bc_DeleteVolume (block_client ci) i w1 = (c, w2)" by force
    have "isolated (u own) vols snaps w w2"
      by (rule after_resolve [OF unt volume_call_isolated(2) [OF L resolve_volume(2) [OF L R Inr]] C])
    then show ?thesis by (cases c) (simp_all add: bs_DeleteVolume_def R Inr C isolated_untouched [OF unt])
  qed
qed

lemma attach_isolated:
  assumes L: "lawful_cinder ci vols snaps"
  shows "isolated (u own) vols snaps w (snd (snd (bs_AttachVolume (block_client ci) u own i s (d, w))))"
proof -
  obtain res w1 where R: "resolveVolume (block_client ci) u own i w = (res, w1)" by force
  obtain ex d1 where E: "InstanceExists own (TrimSpace s) d = (ex, d1)" by force
  obtain g w2 where G: "bc_GetInstance (block_client ci) (TrimSpace s) w1 = (g, w2)" by force
  obtain c w3 where C: "bc_AttachVolume (block_client ci) (TrimSpace s) i w2 = (c, w3)" by force
  note unt = resolve_volume(1) [OF L R]
  have unt2: "untouched vols snaps w w2" using untouched_trans [OF unt] ask_untouched(3) [OF L, of w1 "TrimSpace s"] G by simp
  show ?thesis
  proof (cases res)
    case (Inl e)
    then show ?thesis by (simp add: bs_AttachVolume_def R isolated_untouched [OF unt])
  next
    case (Inr v)
    have "vols w2 = vols w1" using unt unt2 by (simp add: untouched_def)
    then have "isolated (u own) vols snaps w w3"
      using after_resolve [OF unt2 volume_call_isolated(3) [OF L] C] resolve_volume(2) [OF L R Inr] by simp
    then show ?thesis
      by (simp add: bs_AttachVolume_def R Inr E G C Let_def isolated_untouched [OF unt] isolated_untouched [OF unt2]
        split: sum.split bool.split option.split)
  qed
qed

lemma detach_isolated:
  assumes L: "lawful_cinder ci vols snaps"
  shows "isolated (u own) vols snaps w (snd (snd (bs_DetachVolume (block_client ci) u own i s (d, w))))"
proof -
  obtain res w1 where R: "resolveVolume (block_client ci) u own i w = (res, w1)" by force
  obtain ex d1 where E: "InstanceExists own s d = (ex, d1)" by force
  obtain c w2 where C: "bc_DetachVolume (block_client ci) s i w1 = (c, w2)" by force
  note unt = resolve_volume(1) [OF L R]
  show ?thesis
  proof (cases res)
    case (Inl e)
    then show ?thesis by (simp add: bs_DetachVolume_def R isolated_untouched [OF unt])
  next
    case (Inr v)
    have "isolated (u own) vols snaps w w2"
      by (rule after_resolve [OF unt volume_call_isolated(4) [OF L resolve_volume(2) [OF L R Inr]] C])
    then show ?thesis
      by (simp add: bs_DetachVolume_def R Inr E C isolated_untouched [OF unt] split: sum.split bool.split option.split)
  qed
qed

lemma snapshot_isolated:
  assumes L: "lawful_cinder ci vols snaps"
  shows "isolated (u own) vols snaps w (snd (snd (bs_CreateSnapshot (block_client ci) u own i r (d, w))))"
    and "isolated (u own) vols snaps w (snd (snd (bs_DeleteSnapshot (block_client ci) u own i (d, w))))"
proof -
  obtain res w1 where R: "resolveVolume (block_client ci) u own i w = (res, w1)" by force
  note unt = resolve_volume(1) [OF L R]
  obtain c w2 where C: "bc_CreateSnapshot (block_client ci) i (normalizeCreateSnapshotRequest r) (u own) w1 = (c, w2)" by force
  have "isolated (u own) vols snaps w w2" by (rule after_resolve [OF unt create_isolated(2) [OF L] C])
  then show "isolated (u own) vols snaps w (snd (snd (bs_CreateSnapshot (block_client ci) u own i r (d, w))))"
    by (simp add: bs_CreateSnapshot_def R C Let_def isolated_untouched [OF unt] isolated_untouched [OF untouched_refl]
      split: sum.split)
next
  obtain res w1 where R: "resolveSnapshot (block_client ci) u own i w = (res, w1)" by force
  note unt = resolve_snapshot(1) [OF L R]
  show "isolated (u own) vols snaps w (snd (snd (bs_DeleteSnapshot (block_client ci) u own i (d, w))))"
  proof (cases res)
    case (Inl e)
    then show ?thesis by (simp add: bs_DeleteSnapshot_def R isolated_untouched [OF unt])
  next
    case (Inr v)
    obtain c w2 where C: "bc_DeleteSnapshot (block_client ci) i w1 = (c, w2)" by force
    have "isolated (u own) vols snaps w w2"
      by (rule after_resolve [OF unt snapshot_call_isolated [OF L resolve_snapshot(2) [OF L R Inr]] C])
    then show ?thesis by (cases c) (simp_all add: bs_DeleteSnapshot_def R Inr C isolated_untouched [OF unt])
  qed
qed

lemma create_volume_isolated:
  assumes L: "lawful_cinder ci vols snaps"
  shows "isolated (u own) vols snaps w (snd (snd (bs_CreateVolume (block_client ci) u own r (d, w))))"
proof -
  let ?q = "normalizeCreateVolumeRequest r"
  obtain res w1 where R: "resolveSnapshot (block_client ci) u own (cv_SnapshotID ?q) w = (res, w1)" by force
  note unt = resolve_snapshot(1) [OF L R]
  obtain c w2 where C: "bc_CreateVolume (block_client ci) ?q (u own) w1 = (c, w2)" by force
  obtain c' w2' where C': "bc_CreateVolume (block_client ci) ?q (u own) w = (c', w2')" by force
  have i2: "isolated (u own) vols snaps w w2" by (rule after_resolve [OF unt create_isolated(1) [OF L] C])
  have i2': "isolated (u own) vols snaps w w2'" using create_isolated(1) [OF L, of "u own" w ?q] C' by simp
  show ?thesis
  proof (cases "cv_SnapshotID ?q = []")
    case True
    then show ?thesis
      by (simp add: bs_CreateVolume_def C' Let_def i2' isolated_untouched [OF untouched_refl] split: sum.split option.split prod.split)
  next
    case False
    then show ?thesis
      by (simp add: bs_CreateVolume_def R C Let_def i2 isolated_untouched [OF unt] isolated_untouched [OF untouched_refl]
        split: sum.split option.split prod.split)
  qed
qed

lemma read_isolated:
  assumes L: "lawful_cinder ci vols snaps"
  shows "isolated t vols snaps w (snd (snd (bs_ListVolumes (block_client ci) u own (d, w))))"
    and "isolated t vols snaps w (snd (snd (bs_GetVolume (block_client ci) u own i (d, w))))"
    and "isolated t vols snaps w (snd (snd (bs_ListSnapshots (block_client ci) u own (d, w))))"
proof -
  obtain l w1 where A: "bc_ListVolumes (block_client ci) (u own) w = (l, w1)" by force
  obtain res w2 where R: "resolveVolume (block_client ci) u own i w = (res, w2)" by force
  obtain l' w3 where B: "bc_ListSnapshots (block_client ci) (u own) w = (l', w3)" by force
  have "untouched vols snaps w w1" "untouched vols snaps w w2" "untouched vols snaps w w3"
    using ask_untouched(1,4) [OF L, of w "u own"] resolve_volume(1) [OF L R] A B by simp_all
  note iso = isolated_untouched [OF this(1)] isolated_untouched [OF this(2)] isolated_untouched [OF this(3)]
  show "isolated t vols snaps w (snd (snd (bs_ListVolumes (block_client ci) u own (d, w))))"
    "isolated t vols snaps w (snd (snd (bs_GetVolume (block_client ci) u own i (d, w))))"
    "isolated t vols snaps w (snd (snd (bs_ListSnapshots (block_client ci) u own (d, w))))"
    by (simp_all add: bs_ListVolumes_def bs_GetVolume_def bs_ListSnapshots_def A B R iso split: sum.split prod.split)
qed

text \<open>
  C31. No operation on block storage changes or deletes what belongs to others: whatever ID it
  is given and whatever OpenStack answers, every volume and every snapshot that does not carry the user's own
  ID in its metadata is there afterwards as it was, and none appears.
\<close>

theorem block_isolation:
  assumes "lawful_cinder ci vols snaps"
  shows "isolated (u own) vols snaps w (snd (block_do (block_client ci) u own action (d, w)))"
  using assms
  by (cases action) (simp_all add: read_isolated update_isolated delete_isolated attach_isolated detach_isolated
    snapshot_isolated create_volume_isolated)

text \<open>A small cinder: one world is the volumes and the snapshots there are.\<close>

definition small_vols :: "(bytes \<rightharpoonup> RawVolume) \<times> (bytes \<rightharpoonup> RawSnapshot) \<Rightarrow> bytes \<rightharpoonup> RawVolume" where
  "small_vols w = (\<lambda>i. if TrimSpace i = i then fst w i else None)"

definition small_snaps :: "(bytes \<rightharpoonup> RawVolume) \<times> (bytes \<rightharpoonup> RawSnapshot) \<Rightarrow> bytes \<rightharpoonup> RawSnapshot" where
  "small_snaps w = (\<lambda>i. if TrimSpace i = i then snd w i else None)"

definition small_volume :: "(bytes \<rightharpoonup> bytes) \<Rightarrow> RawVolume" where
  "small_volume m = \<lparr>rv_ID = ''v1'', rv_Name = ''disk'', rv_Description = [], rv_Size = 10, rv_Status = ''available'',
     rv_Bootable = ''false'', rv_Encrypted = False, rv_VolumeType = [], rv_AvailabilityZone = [], rv_CreatedAt = 0,
     rv_Attachments = [], rv_Metadata = m\<rparr>"

definition looked :: "'v option \<Rightarrow> os_err + 'v" where
  "looked r = (case r of None \<Rightarrow> Err (StatusError 404 ''gone'') | Some v \<Rightarrow> Ok v)"

definition small_cinder :: "((bytes \<rightharpoonup> RawVolume) \<times> (bytes \<rightharpoonup> RawSnapshot)) cinder" where
  "small_cinder = \<lparr>ci_block = (\<lambda>w. (None, w)), ci_compute = (\<lambda>w. (None, w)), ci_list = (\<lambda>m w. (Ok [], w)),
     ci_get = (\<lambda>i w. (looked (small_vols w i), w)),
     ci_create = (\<lambda>r m w. if small_vols w ''v1'' = None
        then (Ok (small_volume m), ((fst w)(''v1'' \<mapsto> small_volume m), snd w)) else (Err (OtherErr ''quota''), w)),
     ci_update = (\<lambda>i r w. (looked (small_vols w i), w)),
     ci_delete = (\<lambda>i w. (None, ((fst w)(i := None), snd w))),
     ci_attach = (\<lambda>s i w. (Ok \<lparr>ra_ServerID = s, ra_Device = [], ra_AttachedAt = 0\<rparr>, w)), ci_detach = (\<lambda>s i w. (None, w)),
     ci_server = (\<lambda>s w. (None, w)), ci_list_snapshots = (\<lambda>w. (Ok [], w)),
     ci_get_snapshot = (\<lambda>i w. (looked (small_snaps w i), w)), ci_create_snapshot = (\<lambda>i r m w. (Err (OtherErr ''quota''), w)),
     ci_delete_snapshot = (\<lambda>i w. (None, (fst w, (snd w)(i := None))))\<rparr>"

lemma touched_refl: "touched m md i m"
  by (simp add: touched_def)

lemma small_lawful: "lawful_cinder small_cinder small_vols small_snaps"
proof -
  have t: "TrimSpace ''v1'' = ''v1''" by (simp add: trim_eval)
  have create: "made (small_vols w) rv_Metadata m (small_vols (snd (ci_create small_cinder r m w)))
      \<and> small_snaps (snd (ci_create small_cinder r m w)) = small_snaps w" for w r m
  proof (cases "small_vols w ''v1''")
    case None
    then have "small_vols (snd (ci_create small_cinder r m w)) = (small_vols w)(''v1'' \<mapsto> small_volume m)"
      by (auto simp: small_cinder_def small_vols_def t)
    moreover have "rv_Metadata (small_volume m) = m" by (simp add: small_volume_def)
    ultimately show ?thesis using None unfolding made_def by (fastforce simp: small_cinder_def small_snaps_def)
  next
    case (Some v)
    then show ?thesis by (simp add: small_cinder_def made_def)
  qed
  have delete: "touched (small_vols w) rv_Metadata i (small_vols ((fst w)(i := None), snd w))"
    "small_snaps ((fst w)(i := None), snd w) = small_snaps w"
    "touched (small_snaps w) rs_Metadata i (small_snaps (fst w, (snd w)(i := None)))"
    "small_vols (fst w, (snd w)(i := None)) = small_vols w" for w i
    by (auto simp: touched_def small_vols_def small_snaps_def fun_eq_iff)
  have trimmed: "small_vols w i \<noteq> None \<longrightarrow> TrimSpace i = i" "small_snaps w i \<noteq> None \<longrightarrow> TrimSpace i = i" for w i
    by (simp_all add: small_vols_def small_snaps_def)
  have look2: "looked a = Ok x \<Longrightarrow> a = Some x" for a and x :: RawSnapshot by (cases a) (simp_all add: looked_def)
  have look1: "looked a = Ok x \<Longrightarrow> a = Some x" for a and x :: RawVolume by (cases a) (simp_all add: looked_def)
  show ?thesis
    unfolding lawful_cinder_def
    by (intro conjI allI create [THEN conjunct1] create [THEN conjunct2] trimmed)
      (simp_all add: small_cinder_def delete touched_refl made_def untouched_def look1 look2)
qed

definition small_world :: "bytes \<Rightarrow> (bytes \<rightharpoonup> RawVolume) \<times> (bytes \<rightharpoonup> RawSnapshot)" where
  "small_world own = ([''v1'' \<mapsto> small_volume [ownerMetadataKey \<mapsto> own]], Map.empty)"

definition small_db :: db where
  "small_db = \<lparr>users = [], key_pairs = [],
     instances = [\<lparr>i_id = 2, i_openstack_id = ''s1'', i_name = ''vm'', i_status = ''ACTIVE'',
       i_image_id = [], i_flavor_id = [], i_key_name = [], i_note = [], i_provider_created_at = 0,
       i_created_at = 0, i_keypair = None, i_owner = 7\<rparr>],
     containers = [], apps = [], function_tbl = [], seq = 10, clock = 0, faults = []\<rparr>"

lemma block_isolation_witness:
  "isolated ''ann'' small_vols small_snaps (small_world ''bob'')
    (snd (block_do (block_client small_cinder) (\<lambda>n. if n = 7 then ''ann'' else ''bob'') 7 (BDeleteVolume ''v1'')
      (small_db, small_world ''bob'')))"
  using block_isolation [OF small_lawful, of "\<lambda>n. if n = 7 then ''ann'' else ''bob''" 7 "small_world ''bob''"
    "BDeleteVolume ''v1''" small_db] by simp

text \<open>
  A volume is attached to an instance only when both are the user's: when \<^verbatim>\<open>AttachVolume\<close> succeeds, OpenStack
  holds a volume of that ID, free, whose metadata name the user, and the database an instance row of the user
  with the OpenStack ID given.
\<close>

theorem attach_own:
  assumes "lawful_cinder ci vols snaps"
    and "bs_AttachVolume (block_client ci) u own i s (d, w) = (Ok r, d', w')"
  shows "(\<exists>rv. vols w (TrimSpace i) = Some rv \<and> rv_Status rv = ''available'' \<and> meta (rv_Metadata rv) ownerMetadataKey = u own)
    \<and> (\<exists>row\<in>set (instances d'). i_openstack_id row = TrimSpace s \<and> i_owner row = own)
    \<and> r = \<lparr>at_VolumeID = i, at_InstanceID = TrimSpace s, at_Status = ''attaching''\<rparr>"
proof -
  obtain g w1 where G: "bc_GetVolume (block_client ci) (TrimSpace i) w = (g, w1)" by force
  obtain ex d1 where E: "InstanceExists own (TrimSpace s) d = (ex, d1)" by force
  obtain v where v: "g = Ok v" "meta (vo_Metadata v) ownerMetadataKey = u own" "vo_Status v = ''available''"
    using assms(2) G by (auto simp: bs_AttachVolume_def resolveVolume_def Let_def split: sum.splits if_splits)
  obtain rv where rv: "vols w (TrimSpace i) = Some rv" "v = convertVolume rv"
    using get_volume_Ok [OF assms(1), of "TrimSpace i" w v] G v(1) by auto
  have res: "resolveVolume (block_client ci) u own i w = (Ok v, w1)" using G v by (simp add: resolveVolume_def)
  have "ex = Ok True" "d' = d1" "r = \<lparr>at_VolumeID = i, at_InstanceID = TrimSpace s, at_Status = ''attaching''\<rparr>"
    using assms(2) by (auto simp: bs_AttachVolume_def res v(3) E Let_def split: sum.splits bool.splits prod.splits option.splits)
  moreover then obtain n where "FindInstanceName own (TrimSpace s) d = (Ok (Some n), d1)"
    using E by (auto simp: InstanceExists_def split: prod.splits sum.splits)
  then have "\<exists>row\<in>set (instances d1). i_openstack_id row = TrimSpace s \<and> i_owner row = own"
    unfolding FindInstanceName_def by (elim find_opt_Some) auto
  ultimately show ?thesis using rv v(2,3) by (simp add: convertVolume_def)
qed

lemma attach_own_witness:
  "\<exists>rv. small_vols (small_world ''ann'') (TrimSpace ''v1'') = Some rv \<and> rv_Status rv = ''available''
    \<and> meta (rv_Metadata rv) ownerMetadataKey = ''ann''"
proof -
  have t: "TrimSpace ''v1'' = ''v1''" "TrimSpace ''s1'' = ''s1''" by (simp_all add: trim_eval)
  have g: "bc_GetVolume (block_client small_cinder) ''v1'' (small_world ''ann'') = (Ok (convertVolume (small_volume [ownerMetadataKey \<mapsto> ''ann''])), small_world ''ann'')"
    by (simp add: client_defs at_endpoint_def converted_def small_cinder_def looked_def small_vols_def t small_world_def)
  have e: "InstanceExists 7 ''s1'' small_db = (Ok True, small_db)"
    by (simp add: InstanceExists_def FindInstanceName_def find_opt_def query_def only_row_def tick_def small_db_def)
  have "bs_AttachVolume (block_client small_cinder) (\<lambda>_. ''ann'') 7 ''v1'' ''s1'' (small_db, small_world ''ann'')
    = (Ok \<lparr>at_VolumeID = ''v1'', at_InstanceID = ''s1'', at_Status = ''attaching''\<rparr>, small_db, small_world ''ann'')"
    by (simp add: bs_AttachVolume_def resolveVolume_def t g e convertVolume_def small_volume_def meta_def Let_def)
      (simp add: client_defs at_endpoint_def try_endpoint_def converted_def small_cinder_def)
  from attach_own [OF small_lawful this] show ?thesis by blast
qed

end
