(* ===== verification/Admin_Service.thy ===== *)
theory Admin_Service
  imports Compute_Service Auth_Service
begin

text \<open>
  The views of the administrators, \<^verbatim>\<open>internal/domain/admin\<close>: pages over the tables of users,
  instances and containers, with the live status of OpenStack laid over the stored one, and the health of
  the other processes. The time stamps \<^verbatim>\<open>updated_at\<close> and the constant source type of the answers are
  left out, as they are in the tables.
\<close>

subsection \<open>Types\<close>

record UserResponse =
  ur_ID :: bytes
  ur_Email :: bytes
  ur_Name :: bytes
  ur_Role :: bytes
  ur_CreatedAt :: int
  ur_InstanceCount :: nat
  ur_ContainerCount :: nat
  ur_KeypairCount :: nat

record PaginationResponse =
  pn_Page :: int
  pn_PerPage :: int
  pn_Total :: int
  pn_TotalPages :: int

record PageParams =
  pg_Page :: int
  pg_Limit :: int

record AdminInstance =
  ai_ID :: bytes
  ai_Name :: bytes
  ai_Status :: bytes
  ai_OwnerID :: bytes
  ai_OwnerEmail :: bytes
  ai_OwnerName :: bytes
  ai_FlavorID :: bytes
  ai_ImageID :: bytes
  ai_CreatedAt :: int

record AdminContainer =
  ac_ID :: bytes
  ac_Name :: bytes
  ac_Status :: bytes
  ac_OpenstackName :: bytes
  ac_OwnerID :: bytes
  ac_OwnerEmail :: bytes
  ac_OwnerName :: bytes
  ac_CreatedAt :: int

record KeypairResponse =
  kr_ID :: bytes
  kr_Name :: bytes
  kr_Status :: bytes
  kr_Fingerprint :: bytes
  kr_InstanceCount :: nat
  kr_CreatedAt :: int

record UserResourcesResponse =
  rr_User :: UserResponse
  rr_Instances :: "AdminInstance list"
  rr_Containers :: "AdminContainer list"
  rr_Keypairs :: "KeypairResponse list"

record summaryCounts =
  sc_Users :: nat
  sc_Containers :: nat
  sc_Keypairs :: nat
  sc_Instances :: "(bytes \<times> bytes) list"

record SummaryResponse =
  sm_Users :: nat
  sm_Instances :: nat
  sm_Containers :: nat
  sm_Keypairs :: nat
  sm_StatusCounts :: "bytes \<rightharpoonup> nat"

text \<open>
  The environment, the text of a UUID and its parser, the order of texts in the database (a collation, given
  by a key to sort by), and what the driver says to a negative offset: PostgreSQL refuses it, SQLite takes it
  as zero.
\<close>

record 'k admin_env =
  ad_getenv :: "bytes \<Rightarrow> bytes"
  ad_uuid :: "nat \<Rightarrow> bytes"
  ad_parse :: "bytes \<Rightarrow> nat option"
  ad_coll :: "bytes \<Rightarrow> 'k"
  ad_negative :: "bytes option"

datatype admin_err = ADb db_err | AInvalidUUID bytes

subsection \<open>Repository\<close>

text \<open>\<^verbatim>\<open>Order(ByCreatedAt(desc), By...)\<close>: by the second key, then stably by the first.\<close>

definition newest :: "('r \<Rightarrow> int) \<Rightarrow> ('r \<Rightarrow> 'k::linorder) \<Rightarrow> 'r list \<Rightarrow> 'r list" where
  "newest created key rs = sort_key (\<lambda>r. - created r) (sort_key key rs)"

definition pageOffset :: "PageParams \<Rightarrow> int" where
  "pageOffset params = wrap64 (wrap64 (pg_Page params - 1) * pg_Limit params)"

definition paginationResponse :: "PageParams \<Rightarrow> int \<Rightarrow> PaginationResponse" where
  "paginationResponse params n = \<lparr>pn_Page = pg_Page params, pn_PerPage = pg_Limit params, pn_Total = n,
     pn_TotalPages = (if n > 0 then quot (wrap64 (wrap64 (n + pg_Limit params) - 1)) (pg_Limit params) else 0)\<rparr>"

definition page_rows :: "bytes option \<Rightarrow> int \<Rightarrow> int \<Rightarrow> 'r list \<Rightarrow> db_err + 'r list" where
  "page_rows negative off limit rs = (if off < 0 \<and> negative \<noteq> None then Err (Driver (the negative))
     else Ok (take (nat limit) (drop (nat off) rs)))"

definition owner_of :: "db \<Rightarrow> nat \<Rightarrow> user_row option" where
  "owner_of d own = find (\<lambda>u. u_id u = own) (users d)"

definition userResponse :: "'k admin_env \<Rightarrow> db \<Rightarrow> user_row \<Rightarrow> UserResponse" where
  "userResponse env d row = \<lparr>ur_ID = ad_uuid env (u_id row), ur_Email = u_email row, ur_Name = u_name row,
     ur_Role = RoleForEmail (ad_getenv env) (u_email row), ur_CreatedAt = u_created_at row,
     ur_InstanceCount = length (filter (\<lambda>i. i_owner i = u_id row) (instances d)),
     ur_ContainerCount = length (filter (\<lambda>c. c_owner c = u_id row) (containers d)),
     ur_KeypairCount = length (filter (\<lambda>k. k_owner k = u_id row) (key_pairs d))\<rparr>"

definition instanceResponse :: "'k admin_env \<Rightarrow> db \<Rightarrow> instance_row \<Rightarrow> AdminInstance" where
  "instanceResponse env d row = (let item = \<lparr>ai_ID = i_openstack_id row, ai_Name = i_name row, ai_Status = i_status row,
       ai_OwnerID = [], ai_OwnerEmail = [], ai_OwnerName = [], ai_FlavorID = i_flavor_id row, ai_ImageID = i_image_id row,
       ai_CreatedAt = i_created_at row\<rparr> in
     case owner_of d (i_owner row) of None \<Rightarrow> item
     | Some u \<Rightarrow> item\<lparr>ai_OwnerID := ad_uuid env (u_id u), ai_OwnerEmail := u_email u, ai_OwnerName := u_name u\<rparr>)"

definition containerResponse :: "'k admin_env \<Rightarrow> db \<Rightarrow> container_row \<Rightarrow> AdminContainer" where
  "containerResponse env d row = (let item = \<lparr>ac_ID = ad_uuid env (c_id row), ac_Name = c_name row, ac_Status = ''ready'',
       ac_OpenstackName = ad_uuid env (c_openstack_name row), ac_OwnerID = [], ac_OwnerEmail = [], ac_OwnerName = [],
       ac_CreatedAt = c_created_at row\<rparr> in
     case owner_of d (c_owner row) of None \<Rightarrow> item
     | Some u \<Rightarrow> item\<lparr>ac_OwnerID := ad_uuid env (u_id u), ac_OwnerEmail := u_email u, ac_OwnerName := u_name u\<rparr>)"

definition keypairResponse :: "'k admin_env \<Rightarrow> db \<Rightarrow> keypair_row \<Rightarrow> KeypairResponse" where
  "keypairResponse env d row = \<lparr>kr_ID = ad_uuid env (k_id row), kr_Name = k_openstack_name row, kr_Status = ''registered'',
     kr_Fingerprint = k_fingerprint row,
     kr_InstanceCount = length (filter (\<lambda>i. i_keypair i = Some (k_id row)) (instances d)), kr_CreatedAt = k_created_at row\<rparr>"

text \<open>The four counts run at the same time and all of them run; the first error in their order is the result.\<close>

definition SummaryCounts :: "summaryCounts dbop" where
  "SummaryCounts d =
    (case query (\<lambda>d. Ok (length (users d))) d of (r0, d) \<Rightarrow>
     case query (\<lambda>d. Ok (length (containers d))) d of (r1, d) \<Rightarrow>
     case query (\<lambda>d. Ok (length (key_pairs d))) d of (r2, d) \<Rightarrow>
     case query (\<lambda>d. Ok (map (\<lambda>i. (i_openstack_id i, i_status i)) (instances d))) d of (r3, d) \<Rightarrow>
     (case (r0, r1, r2, r3) of
        (Inl e, _, _, _) \<Rightarrow> (Err e, d) | (_, Inl e, _, _) \<Rightarrow> (Err e, d)
      | (_, _, Inl e, _) \<Rightarrow> (Err e, d) | (_, _, _, Inl e) \<Rightarrow> (Err e, d)
      | (Inr us, Inr cs, Inr ks, Inr ins) \<Rightarrow>
          (Ok \<lparr>sc_Users = us, sc_Containers = cs, sc_Keypairs = ks, sc_Instances = ins\<rparr>, d)))"

text \<open>A page: count the table, take the rows of the page in order, convert each.\<close>

definition list_page :: "(db \<Rightarrow> 'r list) \<Rightarrow> ('r list \<Rightarrow> 'r list) \<Rightarrow> (db \<Rightarrow> 'r \<Rightarrow> 'a) \<Rightarrow> bytes option \<Rightarrow> PageParams
    \<Rightarrow> ('a list \<times> PaginationResponse) dbop" where
  "list_page tbl ordered conv negative params d = (case query (\<lambda>d. Ok (int (length (tbl d)))) d of
     (Err e, d) \<Rightarrow> (Err e, d)
   | (Ok n, d) \<Rightarrow>
      (case query (\<lambda>d. page_rows negative (pageOffset params) (pg_Limit params) (ordered (tbl d))) d of
        (Err e, d) \<Rightarrow> (Err e, d)
      | (Ok rows, d) \<Rightarrow> (Ok (map (conv d) rows, paginationResponse params n), d)))"

definition ad_Users :: "'k::linorder admin_env \<Rightarrow> PageParams \<Rightarrow> (UserResponse list \<times> PaginationResponse) dbop" where
  "ad_Users env = list_page users (newest u_created_at (\<lambda>u. ad_coll env (u_email u))) (userResponse env) (ad_negative env)"

definition ad_Instances :: "'k::linorder admin_env \<Rightarrow> PageParams \<Rightarrow> (AdminInstance list \<times> PaginationResponse) dbop" where
  "ad_Instances env = list_page instances (newest i_created_at (\<lambda>i. ad_coll env (i_openstack_id i))) (instanceResponse env)
     (ad_negative env)"

definition ad_Containers :: "'k::linorder admin_env \<Rightarrow> PageParams \<Rightarrow> (AdminContainer list \<times> PaginationResponse) dbop" where
  "ad_Containers env = list_page containers (newest c_created_at (\<lambda>c. ad_coll env (c_name c))) (containerResponse env)
     (ad_negative env)"

definition ad_Instance :: "'k admin_env \<Rightarrow> bytes \<Rightarrow> AdminInstance dbop" where
  "ad_Instance env i d = (case query (\<lambda>d. only_row (instances d) (\<lambda>r. i_openstack_id r = i)) d of
     (Err e, d) \<Rightarrow> (Err e, d) | (Ok row, d) \<Rightarrow> (Ok (instanceResponse env d row), d))"

definition ad_Container :: "'k admin_env \<Rightarrow> bytes \<Rightarrow> db \<Rightarrow> (admin_err + AdminContainer) \<times> db" where
  "ad_Container env rawID d = (case ad_parse env rawID of None \<Rightarrow> (Err (AInvalidUUID rawID), d)
   | Some containerID \<Rightarrow> (case query (\<lambda>d. only_row (containers d) (\<lambda>r. c_id r = containerID)) d of
       (Err e, d) \<Rightarrow> (Err (ADb e), d) | (Ok row, d) \<Rightarrow> (Ok (containerResponse env d row), d)))"

definition ad_UserResources :: "'k::linorder admin_env \<Rightarrow> bytes \<Rightarrow> db \<Rightarrow> (admin_err + UserResourcesResponse) \<times> db" where
  "ad_UserResources env rawID d = (case ad_parse env rawID of None \<Rightarrow> (Err (AInvalidUUID rawID), d)
   | Some userID \<Rightarrow> (case query (\<lambda>d. only_row (users d) (\<lambda>u. u_id u = userID)) d of
       (Err e, d) \<Rightarrow> (Err (ADb e), d)
     | (Ok row, d) \<Rightarrow> (case query (\<lambda>d. Ok (newest i_created_at (\<lambda>i. ad_coll env (i_openstack_id i))
           (filter (\<lambda>i. i_owner i = userID) (instances d)))) d of
       (Err e, d) \<Rightarrow> (Err (ADb e), d)
     | (Ok instanceRows, d) \<Rightarrow> (case query (\<lambda>d. Ok (newest c_created_at (\<lambda>c. ad_coll env (c_name c))
           (filter (\<lambda>c. c_owner c = userID) (containers d)))) d of
       (Err e, d) \<Rightarrow> (Err (ADb e), d)
     | (Ok containerRows, d) \<Rightarrow> (case query (\<lambda>d. Ok (newest k_created_at (\<lambda>k. ad_coll env (k_openstack_name k))
           (filter (\<lambda>k. k_owner k = userID) (key_pairs d)))) d of
       (Err e, d) \<Rightarrow> (Err (ADb e), d)
     | (Ok keypairRows, d) \<Rightarrow>
         (Ok \<lparr>rr_User = (userResponse env d row)\<lparr>ur_InstanceCount := length instanceRows,
              ur_ContainerCount := length containerRows, ur_KeypairCount := length keypairRows\<rparr>,
            rr_Instances = map (instanceResponse env d) instanceRows,
            rr_Containers = map (containerResponse env d) containerRows,
            rr_Keypairs = map (keypairResponse env d) keypairRows\<rparr>, d))))))"

subsection \<open>Live statuses\<close>

text \<open>
  The source of live statuses keeps the map of the last listing for fifteen seconds. \<open>now\<close> is the
  clock at the call, \<open>now'\<close> the clock after the listing.
\<close>

definition statusCacheTTL :: int where "statusCacheTTL = 15 * 10 ^ 9"

record statusSource =
  ss_cache :: "bytes \<rightharpoonup> bytes"
  ss_expire :: int

definition statuses_of :: "Server list \<Rightarrow> bytes \<rightharpoonup> bytes" where
  "statuses_of servers = fold (\<lambda>srv m. m(sv_ID srv \<mapsto> sv_Status srv)) servers Map.empty"

definition InstanceStatuses :: "'w computeClient \<Rightarrow> int \<Rightarrow> int \<Rightarrow> statusSource \<times> 'w
    \<Rightarrow> (os_err + (bytes \<rightharpoonup> bytes)) \<times> statusSource \<times> 'w" where
  "InstanceStatuses client now now' = (\<lambda>(s, w). if now < ss_expire s then (Ok (ss_cache s), s, w)
     else (case cc_FetchInstances client w of
       (Err e, w) \<Rightarrow> (Err e, s, w)
     | (Ok servers, w) \<Rightarrow> (let statuses = statuses_of servers in
         (Ok statuses, \<lparr>ss_cache = statuses, ss_expire = now' + statusCacheTTL\<rparr>, w))))"

definition InstanceStatus :: "'w computeClient \<Rightarrow> bytes \<Rightarrow> 'w \<Rightarrow> (os_err + bytes) \<times> 'w" where
  "InstanceStatus client i w = (case cc_FetchInstance client i w of
     (Err e, w) \<Rightarrow> (Err e, w) | (Ok srv, w) \<Rightarrow> (Ok (sv_Status srv), w))"

subsection \<open>Service\<close>

text \<open>The status source may be absent. The state is the database, the source and the cloud.\<close>

type_synonym 'w admin_state = "db \<times> statusSource \<times> 'w"

definition parsePositiveInt :: "bytes \<Rightarrow> int \<Rightarrow> int" where
  "parsePositiveInt raw fallback = (case Atoi raw of None \<Rightarrow> fallback
     | Some value \<Rightarrow> if value \<le> 0 then fallback else value)"

definition parsePageParams :: "bytes \<Rightarrow> bytes \<Rightarrow> PageParams" where
  "parsePageParams rawPage rawLimit = (let limit = parsePositiveInt rawLimit 10 in
     \<lparr>pg_Page = parsePositiveInt rawPage 1, pg_Limit = (if limit > 500 then 500 else limit)\<rparr>)"

definition liveStatuses :: "'w computeClient option \<Rightarrow> int \<Rightarrow> int \<Rightarrow> statusSource \<times> 'w \<Rightarrow> (bytes \<rightharpoonup> bytes) \<times> statusSource \<times> 'w" where
  "liveStatuses source now now' sw = (case source of None \<Rightarrow> (Map.empty, sw)
     | Some client \<Rightarrow> (case InstanceStatuses client now now' sw of
         (Err _, sw) \<Rightarrow> (Map.empty, sw) | (Ok statuses, sw) \<Rightarrow> (statuses, sw)))"

definition overlay :: "(bytes \<rightharpoonup> bytes) \<Rightarrow> AdminInstance \<Rightarrow> AdminInstance" where
  "overlay statuses item = (case statuses (ai_ID item) of
     Some live \<Rightarrow> if live \<noteq> [] then item\<lparr>ai_Status := live\<rparr> else item | None \<Rightarrow> item)"

definition overlayLiveStatuses :: "'w computeClient option \<Rightarrow> int \<Rightarrow> int \<Rightarrow> AdminInstance list \<Rightarrow> statusSource \<times> 'w
    \<Rightarrow> AdminInstance list \<times> statusSource \<times> 'w" where
  "overlayLiveStatuses source now now' items sw = (if items = [] then ([], sw)
     else (case liveStatuses source now now' sw of (statuses, sw) \<Rightarrow> (map (overlay statuses) items, sw)))"

text \<open>The status of a row in the summary. The texts of statuses are ASCII.\<close>

definition summary_status :: "(bytes \<rightharpoonup> bytes) \<Rightarrow> bytes \<times> bytes \<Rightarrow> bytes" where
  "summary_status live row = (let status = (case live (fst row) of Some l \<Rightarrow> if l \<noteq> [] then l else snd row | None \<Rightarrow> snd row);
       status = map upper_char (TrimSpace status) in
     if status = [] then ''UNKNOWN'' else status)"

definition count_status :: "bytes \<Rightarrow> (bytes \<rightharpoonup> nat) \<Rightarrow> (bytes \<rightharpoonup> nat)" where
  "count_status s m = m(s \<mapsto> (case m s of None \<Rightarrow> 1 | Some n \<Rightarrow> n + 1))"

definition Summary :: "'w computeClient option \<Rightarrow> int \<Rightarrow> int \<Rightarrow> 'w admin_state \<Rightarrow> (admin_err + SummaryResponse) \<times> 'w admin_state" where
  "Summary source now now' = (\<lambda>(d, sw). case SummaryCounts d of
     (Err e, d) \<Rightarrow> (Err (ADb e), d, sw)
   | (Ok counts, d) \<Rightarrow> (case liveStatuses source now now' sw of (live, sw) \<Rightarrow>
       (Ok \<lparr>sm_Users = sc_Users counts, sm_Instances = length (sc_Instances counts), sm_Containers = sc_Containers counts,
          sm_Keypairs = sc_Keypairs counts,
          sm_StatusCounts = fold (\<lambda>row. count_status (summary_status live row)) (sc_Instances counts) Map.empty\<rparr>, d, sw)))"

definition Users :: "'k::linorder admin_env \<Rightarrow> bytes \<Rightarrow> bytes \<Rightarrow> (UserResponse list \<times> PaginationResponse) dbop" where
  "Users env rawPage rawLimit = ad_Users env (parsePageParams rawPage rawLimit)"

definition admin_Instances :: "'k::linorder admin_env \<Rightarrow> 'w computeClient option \<Rightarrow> int \<Rightarrow> int \<Rightarrow> bytes \<Rightarrow> bytes \<Rightarrow> 'w admin_state
    \<Rightarrow> (db_err + (AdminInstance list \<times> PaginationResponse)) \<times> 'w admin_state" where
  "admin_Instances env source now now' rawPage rawLimit = (\<lambda>(d, sw).
     case ad_Instances env (parsePageParams rawPage rawLimit) d of
       (Err e, d) \<Rightarrow> (Err e, d, sw)
     | (Ok (items, pg), d) \<Rightarrow> (case overlayLiveStatuses source now now' items sw of (items, sw) \<Rightarrow> (Ok (items, pg), d, sw)))"

definition admin_Instance :: "'k admin_env \<Rightarrow> 'w computeClient option \<Rightarrow> bytes \<Rightarrow> 'w admin_state
    \<Rightarrow> (db_err + AdminInstance) \<times> 'w admin_state" where
  "admin_Instance env source i = (\<lambda>(d, s, w). case ad_Instance env i d of
     (Err e, d) \<Rightarrow> (Err e, d, s, w)
   | (Ok res, d) \<Rightarrow> (case source of None \<Rightarrow> (Ok res, d, s, w)
     | Some client \<Rightarrow> (case InstanceStatus client (ai_ID res) w of
         (Err _, w) \<Rightarrow> (Ok res, d, s, w)
       | (Ok live, w) \<Rightarrow> (Ok (if live \<noteq> [] then res\<lparr>ai_Status := live\<rparr> else res), d, s, w))))"

definition admin_Containers :: "'k::linorder admin_env \<Rightarrow> bytes \<Rightarrow> bytes \<Rightarrow> (AdminContainer list \<times> PaginationResponse) dbop" where
  "admin_Containers env rawPage rawLimit = ad_Containers env (parsePageParams rawPage rawLimit)"

definition UserResources :: "'k::linorder admin_env \<Rightarrow> 'w computeClient option \<Rightarrow> int \<Rightarrow> int \<Rightarrow> bytes \<Rightarrow> 'w admin_state
    \<Rightarrow> (admin_err + UserResourcesResponse) \<times> 'w admin_state" where
  "UserResources env source now now' rawID = (\<lambda>(d, sw). case ad_UserResources env rawID d of
     (Err e, d) \<Rightarrow> (Err e, d, sw)
   | (Ok res, d) \<Rightarrow> (case overlayLiveStatuses source now now' (rr_Instances res) sw of (items, sw) \<Rightarrow>
       (Ok (res\<lparr>rr_Instances := items\<rparr>), d, sw)))"

subsection \<open>Health\<close>

text \<open>
  The checks ask OpenStack for its compute and storage endpoints and dial the sockets of the other
  processes; what comes of it is a parameter. \<^verbatim>\<open>timeout\<close> bounds each of them.
\<close>

datatype health_err = HUnconfigured | HFailed bytes

record health_net =
  hn_compute :: "bytes option"
  hn_storage :: "bytes option"
  hn_dial :: "bytes \<Rightarrow> bytes \<Rightarrow> bytes option"

record liveHealthChecker =
  hc_provider :: bool
  hc_sshGatewaySock :: bytes
  hc_nsProxySock :: bytes
  hc_httpProxyAddress :: bytes

definition failed_if :: "bytes option \<Rightarrow> health_err option" where
  "failed_if r = (case r of None \<Rightarrow> None | Some e \<Rightarrow> Some (HFailed e))"

definition CheckOpenStack :: "health_net \<Rightarrow> liveHealthChecker \<Rightarrow> health_err option" where
  "CheckOpenStack net c = (if \<not> hc_provider c then Some HUnconfigured else failed_if (hn_compute net))"

definition CheckStorage :: "health_net \<Rightarrow> liveHealthChecker \<Rightarrow> health_err option" where
  "CheckStorage net c = (if \<not> hc_provider c then Some HUnconfigured else failed_if (hn_storage net))"

definition checkUnixSocket :: "health_net \<Rightarrow> bytes \<Rightarrow> health_err option" where
  "checkUnixSocket net path = (if TrimSpace path = [] then Some HUnconfigured else failed_if (hn_dial net ''unix'' path))"

definition CheckHTTPProxy :: "health_net \<Rightarrow> liveHealthChecker \<Rightarrow> health_err option" where
  "CheckHTTPProxy net c = (if TrimSpace (hc_httpProxyAddress c) = [] then Some HUnconfigured
     else failed_if (hn_dial net ''tcp'' (hc_httpProxyAddress c)))"

definition healthStatus :: "health_err option \<Rightarrow> bytes" where
  "healthStatus err = (case err of None \<Rightarrow> ''healthy'' | Some HUnconfigured \<Rightarrow> ''unconfigured'' | Some (HFailed _) \<Rightarrow> ''unhealthy'')"

record SystemResponse =
  sy_APIStatus :: bytes
  sy_OpenStackStatus :: bytes
  sy_SSHGatewayStatus :: bytes
  sy_NSProxyStatus :: bytes
  sy_HTTPProxyStatus :: bytes
  sy_StorageStatus :: bytes
  sy_LastUpdatedAt :: int

definition System :: "health_net \<Rightarrow> liveHealthChecker option \<Rightarrow> int \<Rightarrow> SystemResponse" where
  "System net health now = (let st = (\<lambda>check. case health of None \<Rightarrow> ''unconfigured'' | Some c \<Rightarrow> healthStatus (check c)) in
     \<lparr>sy_APIStatus = ''healthy'', sy_OpenStackStatus = st (CheckOpenStack net),
      sy_SSHGatewayStatus = st (\<lambda>c. checkUnixSocket net (hc_sshGatewaySock c)),
      sy_NSProxyStatus = st (\<lambda>c. checkUnixSocket net (hc_nsProxySock c)),
      sy_HTTPProxyStatus = st (CheckHTTPProxy net), sy_StorageStatus = st (CheckStorage net), sy_LastUpdatedAt = now\<rparr>)"

subsection \<open>Handlers\<close>

definition or_500 :: "('e + 'a) \<times> 's \<Rightarrow> ('e, 'a) response \<times> 's" where
  "or_500 rs = (case rs of (Err e, s) \<Rightarrow> ((500, ErrText e), s) | (Ok x, s) \<Rightarrow> ((200, Json x), s))"

definition h_Summary :: "'w computeClient option \<Rightarrow> int \<Rightarrow> int \<Rightarrow> 'w admin_state
    \<Rightarrow> (admin_err, SummaryResponse) response \<times> 'w admin_state" where
  "h_Summary source now now' st = or_500 (Summary source now now' st)"

definition h_Users :: "'k::linorder admin_env \<Rightarrow> bytes \<Rightarrow> bytes \<Rightarrow> db
    \<Rightarrow> (db_err, UserResponse list \<times> PaginationResponse) response \<times> db" where
  "h_Users env page limit d = or_500 (Users env page limit d)"

definition h_Instances :: "'k::linorder admin_env \<Rightarrow> 'w computeClient option \<Rightarrow> int \<Rightarrow> int \<Rightarrow> bytes \<Rightarrow> bytes \<Rightarrow> 'w admin_state
    \<Rightarrow> (db_err, AdminInstance list \<times> PaginationResponse) response \<times> 'w admin_state" where
  "h_Instances env source now now' page limit st = or_500 (admin_Instances env source now now' page limit st)"

definition h_Instance :: "'k admin_env \<Rightarrow> 'w computeClient option \<Rightarrow> bytes \<Rightarrow> 'w admin_state
    \<Rightarrow> (db_err, AdminInstance) response \<times> 'w admin_state" where
  "h_Instance env source i st = (if i = [] then ((400, ErrMsg ''invalid instance id''), st)
     else (case admin_Instance env source i st of
       (Err NotFound, st) \<Rightarrow> ((404, ErrMsg ''instance not found''), st)
     | (Err e, st) \<Rightarrow> ((500, ErrText e), st)
     | (Ok x, st) \<Rightarrow> ((200, Json x), st)))"

definition h_Containers :: "'k::linorder admin_env \<Rightarrow> bytes \<Rightarrow> bytes \<Rightarrow> db
    \<Rightarrow> (db_err, AdminContainer list \<times> PaginationResponse) response \<times> db" where
  "h_Containers env page limit d = or_500 (admin_Containers env page limit d)"

definition h_Container :: "'k admin_env \<Rightarrow> bytes \<Rightarrow> db \<Rightarrow> (admin_err, AdminContainer) response \<times> db" where
  "h_Container env i d = (if ad_parse env i = None then ((400, ErrMsg ''invalid container id''), d)
     else (case ad_Container env i d of
       (Err (ADb NotFound), d) \<Rightarrow> ((404, ErrMsg ''container not found''), d)
     | (Err e, d) \<Rightarrow> ((500, ErrText e), d)
     | (Ok x, d) \<Rightarrow> ((200, Json x), d)))"

definition h_UserResources :: "'k::linorder admin_env \<Rightarrow> 'w computeClient option \<Rightarrow> int \<Rightarrow> int \<Rightarrow> bytes \<Rightarrow> 'w admin_state
    \<Rightarrow> (admin_err, UserResourcesResponse) response \<times> 'w admin_state" where
  "h_UserResources env source now now' i st = (if ad_parse env i = None then ((400, ErrMsg ''invalid user id''), st)
     else (case UserResources env source now now' i st of
       (Err (ADb NotFound), st) \<Rightarrow> ((404, ErrMsg ''user not found''), st)
     | (Err e, st) \<Rightarrow> ((500, ErrText e), st)
     | (Ok x, st) \<Rightarrow> ((200, Json x), st)))"

definition h_System :: "health_net \<Rightarrow> liveHealthChecker option \<Rightarrow> int \<Rightarrow> (unit, SystemResponse) response" where
  "h_System net health now = (200, Json (System net health now))"

subsection \<open>Pages\<close>

lemma parsePageParams_range:
  "1 \<le> pg_Page (parsePageParams rawPage rawLimit) \<and> pg_Page (parsePageParams rawPage rawLimit) < 2 ^ 63
   \<and> 1 \<le> pg_Limit (parsePageParams rawPage rawLimit) \<and> pg_Limit (parsePageParams rawPage rawLimit) \<le> 500"
  using Atoi_range [of rawPage] Atoi_range [of rawLimit]
  by (auto simp: parsePageParams_def parsePositiveInt_def Let_def split: option.splits)

lemma pages_cover: "concat (map (\<lambda>p. take l (drop ((p - 1) * l) xs)) [1..<Suc n]) = take (n * l) xs"
proof (induction n)
  case 0
  then show ?case by simp
next
  case (Suc n)
  have "take (n * l) xs @ take l (drop (n * l) xs) = take (Suc n * l) xs"
    by (simp only: mult_Suc add.commute [of l] take_add)
  with Suc show ?case by simp
qed

text \<open>The number of pages of \<open>l\<close> rows that \<open>n\<close> rows fill.\<close>

lemma ceil_pages:
  fixes n l :: nat
  assumes "0 < l"
  shows "n \<le> (n + l - 1) div l * l" "(n + l - 1) div l \<le> n" "k < (n + l - 1) div l \<Longrightarrow> k * l < n"
proof -
  show "n \<le> (n + l - 1) div l * l"
    using assms div_mult_mod_eq [of "n + l - 1" l] mod_less_divisor [OF assms, of "n + l - 1"] by linarith
  have "n \<le> n * l" using assms by simp
  then have "n + l - 1 < Suc n * l" using assms unfolding mult_Suc by linarith
  then show "(n + l - 1) div l \<le> n" using assms by (metis div_less_iff_less_mult less_Suc_eq_le)
  assume "k < (n + l - 1) div l"
  then have "Suc k * l \<le> n + l - 1" using assms by (metis Suc_leI less_eq_div_iff_mult_less_eq)
  then show "k * l < n" using assms by simp
qed

text \<open>What a client sees that reads the pages one after the other, up to the number of pages the first one names.\<close>

definition page_at :: "(PageParams \<Rightarrow> ('a list \<times> PaginationResponse) dbop) \<Rightarrow> int \<Rightarrow> db \<Rightarrow> nat \<Rightarrow> 'a list" where
  "page_at f limit d p = (case fst (f \<lparr>pg_Page = int p, pg_Limit = limit\<rparr> d) of Inl _ \<Rightarrow> [] | Inr (items, _) \<Rightarrow> items)"

definition page_count :: "(PageParams \<Rightarrow> ('a list \<times> PaginationResponse) dbop) \<Rightarrow> int \<Rightarrow> db \<Rightarrow> nat" where
  "page_count f limit d = (case fst (f \<lparr>pg_Page = 1, pg_Limit = limit\<rparr> d) of Inl _ \<Rightarrow> 0 | Inr (_, pg) \<Rightarrow> nat (pn_TotalPages pg))"

definition all_pages :: "(PageParams \<Rightarrow> ('a list \<times> PaginationResponse) dbop) \<Rightarrow> int \<Rightarrow> db \<Rightarrow> 'a list" where
  "all_pages f limit d = concat (map (page_at f limit d) [1..<Suc (page_count f limit d)])"

lemma query_no_fault: "faults d = [] \<Longrightarrow> query q d = (q d, d)"
  by (simp add: query_def tick_def)

lemma page_rows_nat: "page_rows negative (int m) (int l) rs = Ok (take l (drop m rs))"
  by (simp add: page_rows_def)

lemma list_page_value:
  assumes "faults d = []" "p - 1 < 2 ^ 62" "(p - 1) * l < 2 ^ 62" "1 \<le> p"
  shows "list_page tbl ordered conv negative \<lparr>pg_Page = int p, pg_Limit = int l\<rparr> d
    = (Ok (map (conv d) (take l (drop ((p - 1) * l) (ordered (tbl d)))),
        paginationResponse \<lparr>pg_Page = int p, pg_Limit = int l\<rparr> (int (length (tbl d)))), d)"
proof -
  have p: "int p - 1 = int (p - 1)" using assms(4) by simp
  have "int (p - 1) < 2 ^ 62" "int (p - 1) * int l < 2 ^ 62" "- (2 ^ 63) \<le> int (p - 1) * int l"
    using assms(2,3) order_trans [of "- (2 ^ 63)" 0 "int (p - 1) * int l"] by (simp_all flip: of_nat_mult)
  then have off: "pageOffset \<lparr>pg_Page = int p, pg_Limit = int l\<rparr> = int ((p - 1) * l)"
    using wrap64_id [of "int (p - 1) * int l"] by (simp add: pageOffset_def p wrap64_id)
  show ?thesis
    by (simp add: list_page_def query_no_fault [OF assms(1)] off page_rows_nat del: of_nat_mult of_nat_diff One_nat_def)
qed

lemma total_pages:
  assumes "0 < l" "l \<le> 500" "n < 2 ^ 62"
  shows "pn_TotalPages (paginationResponse \<lparr>pg_Page = p, pg_Limit = int l\<rparr> (int n)) = int ((n + l - 1) div l)"
proof (cases "n = 0")
  case True
  with assms(1) show ?thesis by (simp add: paginationResponse_def)
next
  case False
  have n: "int n < 2 ^ 62" using assms(3) by simp
  have "wrap64 (wrap64 (int n + int l) - 1) = int (n + l - 1)" using n assms by (simp add: wrap64_id of_nat_diff)
  then show ?thesis using False assms by (simp add: paginationResponse_def quot_nonneg zdiv_int)
qed

lemma list_page_all:
  assumes "faults d = []" "0 < l" "l \<le> 500" "length (tbl d) < 2 ^ 62" "length (ordered (tbl d)) = length (tbl d)"
  shows "all_pages (list_page tbl ordered conv negative) (int l) d = map (conv d) (ordered (tbl d))"
proof -
  let ?f = "list_page tbl ordered conv negative"
  define k where "k = (length (tbl d) + l - 1) div l"
  have bound: "p - 1 < 2 ^ 62" "(p - 1) * l < 2 ^ 62" if "1 \<le> p" "p \<le> k" for p
  proof -
    have "p - 1 < k" using that by simp
    then have "(p - 1) * l < length (tbl d)" "p - 1 < length (tbl d)"
      using ceil_pages(3) [OF assms(2), of "p - 1" "length (tbl d)"] ceil_pages(2) [OF assms(2), of "length (tbl d)"]
      unfolding k_def by linarith+
    then show "p - 1 < 2 ^ 62" "(p - 1) * l < 2 ^ 62" using assms(4) by linarith+
  qed
  have count: "page_count ?f (int l) d = k"
    by (simp add: page_count_def k_def list_page_value [OF assms(1), of 1 l, simplified] total_pages [OF assms(2-4), simplified])
  have "page_at ?f (int l) d p = map (conv d) (take l (drop ((p - 1) * l) (ordered (tbl d))))" if "1 \<le> p" "p \<le> k" for p
    by (simp add: page_at_def list_page_value [OF assms(1) bound [OF that] that(1), simplified])
  then have "all_pages ?f (int l) d = concat (map (\<lambda>p. map (conv d) (take l (drop ((p - 1) * l) (ordered (tbl d))))) [1..<Suc k])"
    unfolding all_pages_def count by (intro arg_cong [where f = concat] map_cong) auto
  also have "\<dots> = map (conv d) (concat (map (\<lambda>p. take l (drop ((p - 1) * l) (ordered (tbl d)))) [1..<Suc k]))"
    by (simp only: map_concat map_map comp_def)
  also have "\<dots> = map (conv d) (ordered (tbl d))"
    using ceil_pages(1) [OF assms(2), of "length (tbl d)"] assms(5) by (simp only: pages_cover k_def) simp
  finally show ?thesis .
qed

text \<open>
  The offset is computed in 64 bits and a page number is only bounded by them: a page far past the last
  one comes out as the first one.
\<close>

lemma huge_page_is_first:
  "pageOffset \<lparr>pg_Page = 2 ^ 62 + 1, pg_Limit = 4\<rparr> = pageOffset \<lparr>pg_Page = 1, pg_Limit = 4\<rparr>"
  by (simp add: pageOffset_def wrap64_def)


definition example_admin :: "nat admin_env" where
  "example_admin = \<lparr>ad_getenv = (\<lambda>_. []), ad_uuid = (\<lambda>n. []), ad_parse = (\<lambda>_. None), ad_coll = length, ad_negative = None\<rparr>"


subsection \<open>The age of live statuses\<close>

text \<open>
  Histories of the source: calls with clock readings that never go back, and between them anything that
  happens to the cloud. The log holds the listings that succeeded, with the time each was kept.
\<close>

inductive status_reach :: "'w computeClient \<Rightarrow> statusSource \<Rightarrow> 'w \<Rightarrow> (int \<times> Server list) list \<Rightarrow> int \<Rightarrow> bool"
  for client :: "'w computeClient" where
  status_start: "expire \<le> t \<Longrightarrow> status_reach client \<lparr>ss_cache = Map.empty, ss_expire = expire\<rparr> w [] t"
| status_other: "status_reach client s w hist t \<Longrightarrow> t \<le> t' \<Longrightarrow> status_reach client s w' hist t'"
| status_cached: "status_reach client s w hist t \<Longrightarrow> t \<le> now \<Longrightarrow> now \<le> now' \<Longrightarrow> now < ss_expire s
    \<Longrightarrow> InstanceStatuses client now now' (s, w) = (r, s', w') \<Longrightarrow> status_reach client s' w' hist now'"
| status_listed: "status_reach client s w hist t \<Longrightarrow> t \<le> now \<Longrightarrow> now \<le> now' \<Longrightarrow> \<not> now < ss_expire s
    \<Longrightarrow> fst (cc_FetchInstances client w) = Inr servers
    \<Longrightarrow> InstanceStatuses client now now' (s, w) = (r, s', w') \<Longrightarrow> status_reach client s' w' ((now', servers) # hist) now'"
| status_failed: "status_reach client s w hist t \<Longrightarrow> t \<le> now \<Longrightarrow> now \<le> now' \<Longrightarrow> \<not> now < ss_expire s
    \<Longrightarrow> fst (cc_FetchInstances client w) = Inl e
    \<Longrightarrow> InstanceStatuses client now now' (s, w) = (r, s', w') \<Longrightarrow> status_reach client s' w' hist now'"

definition cache_inv :: "statusSource \<Rightarrow> (int \<times> Server list) list \<Rightarrow> int \<Rightarrow> bool" where
  "cache_inv s hist t \<longleftrightarrow> ss_expire s \<le> t
     \<or> (\<exists>tf servers. (tf, servers) \<in> set hist \<and> tf \<le> t \<and> ss_expire s = tf + statusCacheTTL \<and> ss_cache s = statuses_of servers)"

lemma cache_inv_later: "cache_inv s hist t \<Longrightarrow> t \<le> t' \<Longrightarrow> cache_inv s hist t'"
  by (fastforce simp: cache_inv_def)

lemma InstanceStatuses_cached:
  "now < ss_expire s \<Longrightarrow> InstanceStatuses client now now' (s, w) = (r, s', w') \<Longrightarrow> s' = s \<and> r = Ok (ss_cache s)"
  by (auto simp: InstanceStatuses_def)

lemma InstanceStatuses_failed:
  "\<not> now < ss_expire s \<Longrightarrow> fst (cc_FetchInstances client w) = Inl e
    \<Longrightarrow> InstanceStatuses client now now' (s, w) = (r, s', w') \<Longrightarrow> s' = s \<and> r = Inl e"
  by (cases "cc_FetchInstances client w") (simp add: InstanceStatuses_def)

lemma InstanceStatuses_listed:
  "\<not> now < ss_expire s \<Longrightarrow> fst (cc_FetchInstances client w) = Inr servers
    \<Longrightarrow> InstanceStatuses client now now' (s, w) = (r, s', w')
    \<Longrightarrow> s' = \<lparr>ss_cache = statuses_of servers, ss_expire = now' + statusCacheTTL\<rparr> \<and> r = Ok (statuses_of servers)"
  by (cases "cc_FetchInstances client w") (auto simp: InstanceStatuses_def Let_def)

lemma status_reach_inv: "status_reach client s w hist t \<Longrightarrow> cache_inv s hist t"
proof (induction rule: status_reach.induct)
  case (status_start expire t w)
  then show ?case by (simp add: cache_inv_def)
next
  case (status_other s w hist t t' w')
  then show ?case by (blast intro: cache_inv_later)
next
  case (status_cached s w hist t now now' r s' w')
  then have "s' = s" by (blast dest: InstanceStatuses_cached)
  then show ?case using status_cached by (metis cache_inv_later order_trans)
next
  case (status_listed s w hist t now now' servers r s' w')
  then have "s' = \<lparr>ss_cache = statuses_of servers, ss_expire = now' + statusCacheTTL\<rparr>"
    by (blast dest: InstanceStatuses_listed)
  then show ?case unfolding cache_inv_def by (intro disjI2 exI [of _ now'] exI [of _ servers]) simp
next
  case (status_failed s w hist t now now' e r s' w')
  then have "s' = s" by (blast dest: InstanceStatuses_failed)
  then show ?case using status_failed by (metis cache_inv_later order_trans)
qed

text \<open>
  A live status is never older than fifteen seconds: whatever the history of the cache, an answer is
  the listing this very call made of the cloud, or one that an earlier call made and kept less than
  fifteen seconds before.
\<close>

theorem live_statuses_fresh:
  assumes "status_reach client s w hist t" "t \<le> now"
    and "InstanceStatuses client now now' (s, w) = (Ok m, s', w')"
  shows "\<exists>servers. m = statuses_of servers \<and> (fst (cc_FetchInstances client w) = Ok servers
    \<or> (\<exists>tf. (tf, servers) \<in> set hist \<and> tf \<le> now \<and> now < tf + 15 * 10 ^ 9))"
proof (cases "now < ss_expire s")
  case True
  then obtain tf servers where h: "(tf, servers) \<in> set hist" "tf \<le> t" "ss_expire s = tf + statusCacheTTL"
      "ss_cache s = statuses_of servers"
    using status_reach_inv [OF assms(1)] assms(2) by (auto simp: cache_inv_def)
  have "m = ss_cache s" using InstanceStatuses_cached [OF True assms(3)] by simp
  then show ?thesis using h True assms(2) by (intro exI [of _ servers]) (auto simp: statusCacheTTL_def)
next
  case False
  show ?thesis
  proof (cases "fst (cc_FetchInstances client w)")
    case (Inl e)
    then show ?thesis using InstanceStatuses_failed [OF False Inl assms(3)] by simp
  next
    case (Inr servers)
    then show ?thesis using InstanceStatuses_listed [OF False Inr assms(3)] by auto
  qed
qed

text \<open>Listed at five seconds, asked again at ten after the server is gone.\<close>

lemma live_statuses_fresh_witness:
  "\<exists>servers. [''a'' \<mapsto> ''ACTIVE''] = statuses_of servers \<and> (fst (cc_FetchInstances tiny_compute []) = Ok servers
    \<or> (\<exists>tf. (tf, servers) \<in> set [(6 * 10 ^ 9, [tiny_server ''a''])] \<and> tf \<le> 10 ^ 10 \<and> (10 :: int) ^ 10 < tf + 15 * 10 ^ 9))"
proof -
  let ?s = "\<lparr>ss_cache = [''a'' \<mapsto> ''ACTIVE''], ss_expire = 21 * 10 ^ 9\<rparr>"
  have "status_reach tiny_compute \<lparr>ss_cache = Map.empty, ss_expire = 0\<rparr> [''a''] [] 0"
    by (rule status_start) simp
  then have "status_reach tiny_compute ?s [''a''] [(6 * 10 ^ 9, [tiny_server ''a''])] (6 * 10 ^ 9)"
    by (rule status_listed [where now = "5 * 10 ^ 9"])
      (simp_all add: tiny_compute_def InstanceStatuses_def statuses_of_def tiny_server_def statusCacheTTL_def Let_def)
  then have reach: "status_reach tiny_compute ?s [] [(6 * 10 ^ 9, [tiny_server ''a''])] (7 * 10 ^ 9)"
    by (rule status_other) simp
  have later: "7 * 10 ^ 9 \<le> (10 :: int) ^ 10" by simp
  have "InstanceStatuses tiny_compute (10 ^ 10) (10 ^ 10) (?s, []) = (Ok [''a'' \<mapsto> ''ACTIVE''], ?s, [])"
    by (simp add: InstanceStatuses_def)
  from live_statuses_fresh [OF reach later this] show ?thesis .
qed

end
