(* ===== verification/Host_Keys.thy ===== *)
theory Host_Keys
  imports Rcp_Prelude
begin

text \<open>
  Trust in host keys: the callbacks that trust the key of a VM on first use, in the API
  (\<^verbatim>\<open>internal/domain/access/handler.go\<close>) and in the SSH gateway (\<^verbatim>\<open>cmd/ssh-gateway/hostkey.go\<close>), and the gateway's
  own host key.
\<close>

subsection \<open>The library and the file\<close>

text \<open>
  \<^verbatim>\<open>golang.org/x/crypto/ssh/knownhosts\<close> over a file of type \<open>'f\<close>: opening it, checking a key, the normal form
  of a host name, and the file with a line for a host and a key at its end.
\<close>

datatype kh_open = Opened | NotExist | BadFile bytes

datatype kh_result = KeyKnown | KeyErrorNoWant | KeyErrorWant | KeyRefused bytes

record ('f, 'key) known_hosts =
  kh_New :: "'f \<Rightarrow> kh_open"
  kh_check :: "'f \<Rightarrow> bytes \<Rightarrow> 'key \<Rightarrow> kh_result"
  kh_Normalize :: "bytes \<Rightarrow> bytes"
  kh_append :: "bytes \<Rightarrow> 'key \<Rightarrow> 'f \<Rightarrow> 'f"

datatype hostkey_err = TrustUnavailable bytes | KeyMismatch | KeyError bytes | StoreError bytes

subsection \<open>The callbacks\<close>

text \<open>
  What a callback decides from the file as it finds it: accept, refuse, or write the key to the file first.
  \<open>load\<close> is the outcome of loading the file.
\<close>

datatype hostkey_decision = Accept | Refuse hostkey_err | TrustFirst

definition decide :: "('f, 'key) known_hosts \<Rightarrow> kh_open \<Rightarrow> 'f \<Rightarrow> bytes \<Rightarrow> 'key \<Rightarrow> hostkey_decision" where
  "decide lib loaded f hostname key = (case loaded of
     NotExist \<Rightarrow> TrustFirst
   | BadFile e \<Rightarrow> Refuse (TrustUnavailable e)
   | Opened \<Rightarrow> (case kh_check lib f hostname key of
       KeyKnown \<Rightarrow> Accept | KeyErrorNoWant \<Rightarrow> TrustFirst
     | KeyErrorWant \<Rightarrow> Refuse KeyMismatch | KeyRefused e \<Rightarrow> Refuse (KeyError e)))"

text \<open>\<open>io\<close> is what goes wrong in making the directory, opening the file or writing the line.\<close>

definition trustOnFirstUse :: "('f, 'key) known_hosts \<Rightarrow> bytes option \<Rightarrow> bytes \<Rightarrow> 'key \<Rightarrow> 'f \<Rightarrow> hostkey_err option \<times> 'f" where
  "trustOnFirstUse lib io hostname key f = (case io of Some e \<Rightarrow> (Some (StoreError e), f)
     | None \<Rightarrow> (None, kh_append lib (kh_Normalize lib hostname) key f))"

definition reloadingCallback :: "('f, 'key) known_hosts \<Rightarrow> kh_open \<Rightarrow> bytes option \<Rightarrow> bytes \<Rightarrow> 'key \<Rightarrow> 'f \<Rightarrow> hostkey_err option \<times> 'f" where
  "reloadingCallback lib loaded io hostname key f = (case decide lib loaded f hostname key of
     Accept \<Rightarrow> (None, f) | Refuse e \<Rightarrow> (Some e, f) | TrustFirst \<Rightarrow> trustOnFirstUse lib io hostname key f)"

text \<open>The gateway loads the configured path as it is, the API its trimmed form, which must be absolute.\<close>

definition reloadingInnerHostKeyCallback :: "('f, 'key) known_hosts \<Rightarrow> bytes option \<Rightarrow> bytes \<Rightarrow> 'key \<Rightarrow> 'f
    \<Rightarrow> hostkey_err option \<times> 'f" where
  "reloadingInnerHostKeyCallback lib io hostname key f = reloadingCallback lib (kh_New lib f) io hostname key f"

definition configuredVMKnownHostsPath :: "(bytes \<Rightarrow> bytes) \<Rightarrow> bytes" where
  "configuredVMKnownHostsPath getenv = (let v = TrimSpace (getenv ''RCP_VM_KNOWN_HOSTS_PATH''); g = TrimSpace (getenv ''RCP_SSH_GW_KNOWN_HOSTS_PATH'') in
     if v \<noteq> [] then v else if g \<noteq> [] then g else ''/etc/rcp/ssh-gateway/known_hosts'')"

definition loadVMHostKeyCallback :: "('f, 'key) known_hosts \<Rightarrow> bytes \<Rightarrow> 'f \<Rightarrow> kh_open" where
  "loadVMHostKeyCallback lib path f = (let clean = TrimSpace path;
       clean = (if clean = [] then ''/etc/rcp/ssh-gateway/known_hosts'' else clean) in
     if \<not> HasPrefix clean ''/'' then BadFile ''known_hosts path must be absolute'' else kh_New lib f)"

definition reloadingVMHostKeyCallback :: "('f, 'key) known_hosts \<Rightarrow> bytes \<Rightarrow> bytes option \<Rightarrow> bytes \<Rightarrow> 'key \<Rightarrow> 'f
    \<Rightarrow> hostkey_err option \<times> 'f" where
  "reloadingVMHostKeyCallback lib path io hostname key f =
     reloadingCallback lib (loadVMHostKeyCallback lib path f) io hostname key f"

subsection \<open>Keys are pinned\<close>

text \<open>
  What the library documents, with \<open>trusted f h\<close> the keys the file \<open>f\<close> has for the host \<open>h\<close> in its normal form: a key is
  known when it is one of them, a host is unknown when there are none, a file that does not exist has
  none, and a line adds its key to its host and to no other.
\<close>

definition lawful_known_hosts :: "('f, 'key) known_hosts \<Rightarrow> ('f \<Rightarrow> bytes \<Rightarrow> 'key set) \<Rightarrow> bool" where
  "lawful_known_hosts lib trusted \<longleftrightarrow>
     (\<forall>f. kh_New lib f = NotExist \<longrightarrow> (\<forall>h. trusted f h = {}))
   \<and> (\<forall>f h k. kh_check lib f h k = KeyKnown \<longrightarrow> k \<in> trusted f (kh_Normalize lib h))
   \<and> (\<forall>f h k. kh_check lib f h k = KeyErrorNoWant \<longrightarrow> trusted f (kh_Normalize lib h) = {})
   \<and> (\<forall>f h k h'. trusted (kh_append lib h k f) h' = (if h' = h then insert k (trusted f h) else trusted f h'))"

text \<open>
  A call of one of the two callbacks: the path of the API's file (\<open>None\<close> for the gateway), the outcome of
  writing, the host and its key. Both programs share the file.
\<close>

type_synonym 'key hostkey_call = "bytes option \<times> bytes option \<times> bytes \<times> 'key"

definition hostkey_call :: "('f, 'key) known_hosts \<Rightarrow> 'key hostkey_call \<Rightarrow> 'f \<Rightarrow> hostkey_err option \<times> 'f" where
  "hostkey_call lib c f = (case c of (path, io, hostname, key) \<Rightarrow> (case path of
     None \<Rightarrow> reloadingInnerHostKeyCallback lib io hostname key f
   | Some p \<Rightarrow> reloadingVMHostKeyCallback lib p io hostname key f))"

text \<open>The accepted (host, key) pairs of a sequence of calls, and the file after it.\<close>

fun hostkey_calls :: "('f, 'key) known_hosts \<Rightarrow> 'key hostkey_call list \<Rightarrow> 'f \<Rightarrow> (bytes \<times> 'key) list \<times> 'f" where
  "hostkey_calls lib [] f = ([], f)"
| "hostkey_calls lib (c # cs) f = (case hostkey_call lib c f of (r, f) \<Rightarrow>
     (case hostkey_calls lib cs f of (acc, f) \<Rightarrow>
       (if r = None then (fst (snd (snd c)), snd (snd (snd c))) # acc else acc, f)))"

lemma known_hostsD:
  assumes "lawful_known_hosts lib trusted"
  shows "kh_New lib f = NotExist \<Longrightarrow> trusted f h = {}"
    and "kh_check lib f h k = KeyKnown \<Longrightarrow> k \<in> trusted f (kh_Normalize lib h)"
    and "kh_check lib f h k = KeyErrorNoWant \<Longrightarrow> trusted f (kh_Normalize lib h) = {}"
    and "trusted (kh_append lib h k f) h' = (if h' = h then insert k (trusted f h) else trusted f h')"
  using assms unfolding lawful_known_hosts_def by blast+

lemma decide_effect:
  assumes "lawful_known_hosts lib trusted" "loaded = kh_New lib f \<or> (\<exists>e. loaded = BadFile e)"
  shows "decide lib loaded f hostname key = Accept \<Longrightarrow> key \<in> trusted f (kh_Normalize lib hostname)"
    and "decide lib loaded f hostname key = TrustFirst \<Longrightarrow> trusted f (kh_Normalize lib hostname) = {}"
  using assms(2) known_hostsD(1-3) [OF assms(1), of f]
  by (cases loaded; cases "kh_check lib f hostname key"; simp add: decide_def; metis kh_open.distinct(1,3,5))+

lemma callback_effect:
  assumes "lawful_known_hosts lib trusted" "loaded = kh_New lib f \<or> (\<exists>e. loaded = BadFile e)"
    and "reloadingCallback lib loaded io hostname key f = (r, f')"
  shows "(f' = f \<and> (r = None \<longrightarrow> key \<in> trusted f (kh_Normalize lib hostname)))
    \<or> (r = None \<and> trusted f (kh_Normalize lib hostname) = {} \<and> f' = kh_append lib (kh_Normalize lib hostname) key f)"
  using assms(3) decide_effect [OF assms(1,2), of hostname key]
  by (cases "decide lib loaded f hostname key"; cases io) (auto simp: reloadingCallback_def trustOnFirstUse_def)

lemma call_effect:
  assumes "lawful_known_hosts lib trusted" "hostkey_call lib (path, io, hostname, key) f = (r, f')"
  shows "(f' = f \<and> (r = None \<longrightarrow> key \<in> trusted f (kh_Normalize lib hostname)))
    \<or> (r = None \<and> trusted f (kh_Normalize lib hostname) = {} \<and> f' = kh_append lib (kh_Normalize lib hostname) key f)"
proof (cases path)
  case None
  then show ?thesis using assms(2) callback_effect [OF assms(1), of "kh_New lib f"]
    by (simp add: hostkey_call_def reloadingInnerHostKeyCallback_def)
next
  case (Some p)
  have "loadVMHostKeyCallback lib p f = kh_New lib f \<or> (\<exists>e. loadVMHostKeyCallback lib p f = BadFile e)"
    by (simp add: loadVMHostKeyCallback_def Let_def)
  then show ?thesis using assms(2) Some callback_effect [OF assms(1), of "loadVMHostKeyCallback lib p f"]
    by (simp add: hostkey_call_def reloadingVMHostKeyCallback_def)
qed

text \<open>Once a host has a key, sequences of calls accept nothing else for it.\<close>

lemma pinned_stays:
  assumes "lawful_known_hosts lib trusted" "trusted f h \<noteq> {}" "hostkey_calls lib cs f = (acc, f')"
  shows "trusted f' h = trusted f h \<and> (\<forall>(host, key)\<in>set acc. kh_Normalize lib host = h \<longrightarrow> key \<in> trusted f h)"
  using assms(2,3)
proof (induction cs arbitrary: f acc)
  case (Cons c cs)
  obtain path io host key where c: "c = (path, io, host, key)" by (cases c) auto
  obtain r f1 where r: "hostkey_call lib (path, io, host, key) f = (r, f1)" by force
  obtain acc1 where a: "hostkey_calls lib cs f1 = (acc1, f')" "acc = (if r = None then (host, key) # acc1 else acc1)"
    using Cons.prems(2) r c by (auto split: prod.splits)
  have app: "trusted (kh_append lib (kh_Normalize lib host) key f) h = trusted f h" if "kh_Normalize lib host \<noteq> h"
    using known_hostsD(4) [OF assms(1)] that by simp
  have t: "trusted f1 h = trusted f h" "r = None \<Longrightarrow> kh_Normalize lib host = h \<Longrightarrow> key \<in> trusted f h"
    using call_effect [OF assms(1) r] Cons.prems(1) app by metis+
  then show ?case using Cons.IH [of f1 acc1] Cons.prems(1) a by auto
qed simp

text \<open>
  C34. The key of a host is pinned: for a host the file does not know yet, whatever sequence of calls the two
  programs make one after the other, with whatever errors in between, all calls that are accepted for it
  are for the same key.
\<close>

theorem host_keys_pinned:
  assumes "lawful_known_hosts lib trusted" "trusted f (kh_Normalize lib host) = {}" "hostkey_calls lib cs f = (acc, f')"
    and "(host, k1) \<in> set acc" "(host2, k2) \<in> set acc" "kh_Normalize lib host2 = kh_Normalize lib host"
  shows "k1 = k2"
  using assms(2-5)
proof (induction cs arbitrary: f acc)
  case (Cons c cs)
  let ?h = "kh_Normalize lib host"
  obtain path io h key where c: "c = (path, io, h, key)" by (cases c) auto
  obtain r f1 where r: "hostkey_call lib (path, io, h, key) f = (r, f1)" by force
  obtain acc1 where a: "hostkey_calls lib cs f1 = (acc1, f')" "acc = (if r = None then (h, key) # acc1 else acc1)"
    using Cons.prems(2) r c by (auto split: prod.splits)
  have app: "trusted (kh_append lib (kh_Normalize lib h) key f) ?h = (if kh_Normalize lib h = ?h then {key} else {})"
    using known_hostsD(4) [OF assms(1)] Cons.prems(1) by simp
  show ?case
  proof (cases "r = None \<and> kh_Normalize lib h = ?h")
    case True
    then have "trusted f1 ?h = {key}" using call_effect [OF assms(1) r] app Cons.prems(1) by auto
    then have "\<forall>(g, k)\<in>set acc1. kh_Normalize lib g = ?h \<longrightarrow> k = key"
      using pinned_stays [OF assms(1) _ a(1), of ?h] by auto
    then have "k = key" if "(g, k) \<in> set acc" "kh_Normalize lib g = ?h" for g k
      using that a(2) True by fastforce
    then show ?thesis using Cons.prems(3,4) assms(6) by metis
  next
    case False
    then have "trusted f1 ?h = {}" using call_effect [OF assms(1) r] app Cons.prems(1) by auto
    moreover have "(host, k1) \<in> set acc1" "(host2, k2) \<in> set acc1"
      using Cons.prems(3,4) a(2) False assms(6) by (auto split: if_splits)
    ultimately show ?thesis using Cons.IH a(1) by blast
  qed
qed simp

text \<open>A file of lines, for the witness.\<close>

definition small_known_hosts :: "((bytes \<times> nat) list, nat) known_hosts" where
  "small_known_hosts = \<lparr>kh_New = (\<lambda>f. Opened),
     kh_check = (\<lambda>f h k. if (h, k) \<in> set f then KeyKnown else if h \<in> fst ` set f then KeyErrorWant else KeyErrorNoWant),
     kh_Normalize = (\<lambda>h. h), kh_append = (\<lambda>h k f. f @ [(h, k)])\<rparr>"

lemma small_known_hosts_lawful: "lawful_known_hosts small_known_hosts (\<lambda>f h. {k. (h, k) \<in> set f})"
  by (force simp: lawful_known_hosts_def small_known_hosts_def split: if_splits)

lemma host_keys_pinned_witness:
  "list_all (\<lambda>(host, k). k = 5) (fst (hostkey_calls small_known_hosts
      [(None, None, ''vm'', 5), (Some ''/k'', None, ''vm'', 6), (None, None, ''vm'', 5)] []))"
proof -
  let ?run = "hostkey_calls small_known_hosts [(None, None, ''vm'', 5), (Some ''/k'', None, ''vm'', 6), (None, None, ''vm'', 5)] []"
  have path: "loadVMHostKeyCallback small_known_hosts ''/k'' f = Opened" for f
  proof -
    have "TrimSpace ''/k'' = ''/k''" by (simp add: trim_eval)
    then show ?thesis by (simp add: loadVMHostKeyCallback_def HasPrefix_def small_known_hosts_def Let_def)
  qed
  have acc: "?run = ([(''vm'', 5), (''vm'', 5)], [(''vm'', 5)])"
    by (simp add: hostkey_call_def reloadingInnerHostKeyCallback_def reloadingVMHostKeyCallback_def reloadingCallback_def
      decide_def path) (simp add: small_known_hosts_def trustOnFirstUse_def)
  have five: "(''vm'', 5) \<in> set [(''vm'', 5 :: nat), (''vm'', 5)]" by simp
  have "k = 5" if "(''vm'', k) \<in> set [(''vm'', 5 :: nat), (''vm'', 5)]" for k
    using host_keys_pinned [OF small_known_hosts_lawful _ acc that five] by (simp add: small_known_hosts_def)
  then show ?thesis unfolding acc by simp
qed

text \<open>
  Two calls at the same time are not pinned: both find the host unknown, both write their line, and from
  then on both keys are known.
\<close>

lemma concurrent_first_use:
  assumes "lawful_known_hosts lib trusted" "decide lib Opened f host k1 = TrustFirst" "decide lib Opened f host k2 = TrustFirst"
  shows "trusted (snd (trustOnFirstUse lib None host k2 (snd (trustOnFirstUse lib None host k1 f)))) (kh_Normalize lib host) = {k1, k2}"
proof -
  have "kh_check lib f host k1 = KeyErrorNoWant" using assms(2) by (simp add: decide_def split: kh_result.splits)
  then have "trusted f (kh_Normalize lib host) = {}" by (rule known_hostsD(3) [OF assms(1)])
  then show ?thesis by (auto simp: trustOnFirstUse_def known_hostsD(4) [OF assms(1)])
qed

subsection \<open>The gateway's own host key\<close>

text \<open>
  \<open>raw\<close> is the outcome of reading the file; \<open>parse\<close> is \<^verbatim>\<open>ssh.ParsePrivateKey\<close>, \<open>marshal\<close> the PEM text of a new
  key, \<open>gen\<close> the generated key, \<open>wr\<close> the outcome of writing. The result is the key, and the file after.
\<close>

datatype read_result = Content bytes | ReadNotExist | ReadFailed bytes

definition LoadOrCreateHostKey :: "(bytes \<Rightarrow> 'key option) \<Rightarrow> ('key \<Rightarrow> bytes option) \<Rightarrow> bytes option \<Rightarrow> 'key option \<Rightarrow> bytes option
    \<Rightarrow> read_result \<Rightarrow> 'key option \<times> read_result" where
  "LoadOrCreateHostKey parse marshal mkdir gen wr raw = (case raw of
     Content text \<Rightarrow> (parse text, raw)
   | ReadFailed e \<Rightarrow> (None, raw)
   | ReadNotExist \<Rightarrow> (case mkdir of Some e \<Rightarrow> (None, raw)
     | None \<Rightarrow> (case gen of None \<Rightarrow> (None, raw)
       | Some priv \<Rightarrow> (case marshal priv of None \<Rightarrow> (None, raw)
         | Some text \<Rightarrow> (case wr of Some e \<Rightarrow> (None, raw) | None \<Rightarrow> (Some priv, Content text))))))"

text \<open>The host key stays: what one start of the gateway uses, every later start uses again.\<close>

lemma host_key_stays:
  assumes "\<forall>k text. marshal k = Some text \<longrightarrow> parse text = Some k"
    and "LoadOrCreateHostKey parse marshal mkdir gen wr raw = (Some key, raw')"
  shows "LoadOrCreateHostKey parse marshal mkdir' gen' wr' raw' = (Some key, raw')"
  using assms by (auto simp: LoadOrCreateHostKey_def split: read_result.splits option.splits)

end
