(* ===== verification/Console_Stream.thy ===== *)
theory Console_Stream
  imports Rcp_Prelude
begin

text \<open>
  The output of a web console, \<^verbatim>\<open>webSocketConsole\<close> of \<^verbatim>\<open>internal/domain/access/handler.go\<close>: the two pumps of
  the SSH session write into a buffer, a flush loop sends what is in it as one frame, and closing waits for
  the loop to have sent the rest. Each step below is one access to the shared state: a section under the mutex, a
  send on or a receive from a channel, or the end of a write to the WebSocket.
\<close>

subsection \<open>State\<close>

definition webConsoleFlushMaxBytes :: nat where "webConsoleFlushMaxBytes = 64 * 1024"

definition webConsoleBufferLimit :: nat where "webConsoleBufferLimit = 2 ^ 20"

text \<open>
  Where the flush loop is: at the outer select, at the inner select, before the lock of \<^verbatim>\<open>flush\<close>, in the
  write of a frame, before the lock after a failed write, or at its end. \<open>True\<close> marks the flush after which
  the loop returns.
\<close>

datatype flusher = AtWake | AtGather | AtFlush bool | is_InWrite: InWrite bytes bool | AfterFailure | Stopped

text \<open>A call of \<^verbatim>\<open>Write\<close> that has left the mutex and has to notify: \<^verbatim>\<open>wake\<close> first, \<^verbatim>\<open>flushNow\<close> after it.\<close>

datatype notifier = NotifyWake bool | NotifyNow

text \<open>The call of \<^verbatim>\<open>Close\<close>: not made, after its locked section, after closing \<^verbatim>\<open>done\<close>, and past \<^verbatim>\<open>stopped\<close>.\<close>

datatype closer = NotClosing | Marked | DoneClosed | Returned

text \<open>
  \<open>ws_accepted\<close> is what calls of \<^verbatim>\<open>Write\<close> took, in the order of their locked sections, and \<open>ws_sent\<close> the frames
  the WebSocket took; \<open>ws_failed\<close> says that it refused one.
\<close>

record webSocketConsole =
  ws_buf :: bytes
  ws_closed :: bool
  ws_wake :: bool
  ws_flushNow :: bool
  ws_done :: bool
  ws_flusher :: flusher
  ws_notifiers :: "notifier list"
  ws_closer :: closer
  ws_accepted :: bytes
  ws_sent :: "bytes list"
  ws_failed :: bool

definition newWebSocketConsole :: webSocketConsole where
  "newWebSocketConsole = \<lparr>ws_buf = [], ws_closed = False, ws_wake = False, ws_flushNow = False, ws_done = False,
     ws_flusher = AtWake, ws_notifiers = [], ws_closer = NotClosing, ws_accepted = [], ws_sent = [], ws_failed = False\<rparr>"

subsection \<open>Steps\<close>

text \<open>
  The locked section of \<^verbatim>\<open>Write\<close>: \<open>None\<close> while it waits for the buffer to drain, otherwise whether it took
  the bytes.
\<close>

definition Write_locked :: "bytes \<Rightarrow> webSocketConsole \<Rightarrow> (bool \<times> webSocketConsole) option" where
  "Write_locked p w =
     (if webConsoleBufferLimit \<le> length (ws_buf w) \<and> \<not> ws_closed w then None
      else if ws_closed w then Some (False, w)
      else let buf = ws_buf w @ p; large = webConsoleFlushMaxBytes \<le> length buf in
        Some (True, w\<lparr>ws_buf := buf, ws_accepted := ws_accepted w @ p,
          ws_notifiers := NotifyWake large # ws_notifiers w\<rparr>))"

text \<open>The two notifications. A notification on a full channel is dropped.\<close>

definition notify_step :: "notifier \<Rightarrow> webSocketConsole \<Rightarrow> webSocketConsole" where
  "notify_step n w = (let rest = remove1 n (ws_notifiers w) in case n of
     NotifyWake large \<Rightarrow> w\<lparr>ws_wake := True, ws_notifiers := (if large then NotifyNow # rest else rest)\<rparr>
   | NotifyNow \<Rightarrow> w\<lparr>ws_flushNow := True, ws_notifiers := rest\<rparr>)"

text \<open>The first locked section of \<^verbatim>\<open>flush\<close>. The loop goes on when the buffer is empty.\<close>

definition flush_locked :: "bool \<Rightarrow> webSocketConsole \<Rightarrow> webSocketConsole" where
  "flush_locked final w = (if ws_buf w = [] then w\<lparr>ws_flusher := (if final then Stopped else AtWake)\<rparr>
     else w\<lparr>ws_buf := [], ws_flusher := InWrite (ws_buf w) final\<rparr>)"

text \<open>The end of the write of a frame.\<close>

definition write_end :: "bool \<Rightarrow> bytes \<Rightarrow> bool \<Rightarrow> webSocketConsole \<Rightarrow> webSocketConsole" where
  "write_end ok out final w = (if ok then w\<lparr>ws_sent := ws_sent w @ [out], ws_flusher := (if final then Stopped else AtWake)\<rparr>
     else w\<lparr>ws_failed := True, ws_flusher := AfterFailure\<rparr>)"

text \<open>
  All steps. A pump writes at most \<open>chunk\<close> bytes at a time (\<^verbatim>\<open>io.Copy\<close> uses a buffer of 32 KiB).
\<close>

inductive ws_step :: "nat \<Rightarrow> webSocketConsole \<Rightarrow> webSocketConsole \<Rightarrow> bool" for chunk where
  ws_write: "length p \<le> chunk \<Longrightarrow> Write_locked p w = Some (r, w') \<Longrightarrow> ws_step chunk w w'"
| ws_notify: "n \<in> set (ws_notifiers w) \<Longrightarrow> ws_step chunk w (notify_step n w)"
| ws_close: "ws_closer w = NotClosing \<Longrightarrow> ws_step chunk w (w\<lparr>ws_closed := True, ws_closer := Marked\<rparr>)"
| ws_close_done: "ws_closer w = Marked \<Longrightarrow> ws_step chunk w (w\<lparr>ws_done := True, ws_closer := DoneClosed\<rparr>)"
| ws_close_end: "ws_closer w = DoneClosed \<Longrightarrow> ws_flusher w = Stopped \<Longrightarrow> ws_step chunk w (w\<lparr>ws_closer := Returned\<rparr>)"
| ws_outer_done: "ws_flusher w = AtWake \<Longrightarrow> ws_done w \<Longrightarrow> ws_step chunk w (w\<lparr>ws_flusher := AtFlush True\<rparr>)"
| ws_outer_wake: "ws_flusher w = AtWake \<Longrightarrow> ws_wake w \<Longrightarrow> ws_step chunk w (w\<lparr>ws_wake := False, ws_flusher := AtGather\<rparr>)"
| ws_inner_done: "ws_flusher w = AtGather \<Longrightarrow> ws_done w \<Longrightarrow> ws_step chunk w (w\<lparr>ws_flusher := AtFlush True\<rparr>)"
| ws_inner_now: "ws_flusher w = AtGather \<Longrightarrow> ws_flushNow w
    \<Longrightarrow> ws_step chunk w (w\<lparr>ws_flushNow := False, ws_flusher := AtFlush False\<rparr>)"
| ws_inner_timer: "ws_flusher w = AtGather \<Longrightarrow> ws_step chunk w (w\<lparr>ws_flusher := AtFlush False\<rparr>)"
| ws_flush: "ws_flusher w = AtFlush final \<Longrightarrow> ws_step chunk w (flush_locked final w)"
| ws_written: "ws_flusher w = InWrite out final \<Longrightarrow> ws_step chunk w (write_end ok out final w)"
| ws_failure: "ws_flusher w = AfterFailure \<Longrightarrow> ws_step chunk w (w\<lparr>ws_closed := True, ws_flusher := Stopped\<rparr>)"

inductive ws_reachable :: "nat \<Rightarrow> webSocketConsole \<Rightarrow> bool" for chunk where
  ws_start: "ws_reachable chunk newWebSocketConsole"
| ws_more: "ws_reachable chunk w \<Longrightarrow> ws_step chunk w w' \<Longrightarrow> ws_reachable chunk w'"

subsection \<open>Invariant\<close>

text \<open>What a write in progress holds.\<close>

fun in_flight :: "flusher \<Rightarrow> bytes" where
  "in_flight (InWrite out final) = out"
| "in_flight _ = []"

text \<open>
  Nothing is lost or reordered while no write has failed; buffer and frames are bounded; bytes in the buffer
  are announced unless the loop is already on its way to them; and the loop ends only after \<^verbatim>\<open>done\<close>
  is closed, with nothing left in the buffer.
\<close>

definition announced :: "webSocketConsole \<Rightarrow> bool" where
  "announced w \<longleftrightarrow> ws_wake w \<or> (\<exists>large. NotifyWake large \<in> set (ws_notifiers w))"

definition ends_empty :: "webSocketConsole \<Rightarrow> bool" where
  "ends_empty w \<longleftrightarrow> (case ws_flusher w of InWrite out final \<Rightarrow> final \<longrightarrow> ws_done w \<and> ws_buf w = []
     | AtFlush final \<Rightarrow> final \<longrightarrow> ws_done w | Stopped \<Rightarrow> \<not> ws_failed w \<longrightarrow> ws_done w \<and> ws_buf w = []
     | AfterFailure \<Rightarrow> ws_failed w | _ \<Rightarrow> True)"

definition ws_inv :: "nat \<Rightarrow> webSocketConsole \<Rightarrow> bool" where
  "ws_inv chunk w \<longleftrightarrow>
     (if ws_failed w then \<exists>rest. ws_accepted w = concat (ws_sent w) @ rest
      else ws_accepted w = concat (ws_sent w) @ in_flight (ws_flusher w) @ ws_buf w)
   \<and> length (ws_buf w) < webConsoleBufferLimit + chunk
   \<and> (\<forall>f\<in>set (ws_sent w). f \<noteq> [] \<and> length f < webConsoleBufferLimit + chunk)
   \<and> (\<forall>out final. ws_flusher w = InWrite out final \<longrightarrow> out \<noteq> [] \<and> length out < webConsoleBufferLimit + chunk)
   \<and> (ws_buf w \<noteq> [] \<longrightarrow> ws_flusher w = AtWake \<or> is_InWrite (ws_flusher w) \<longrightarrow> announced w)
   \<and> (ws_done w \<longrightarrow> ws_closed w) \<and> (ws_closer w = NotClosing \<or> ws_closed w)
   \<and> (ws_failed w \<longrightarrow> ws_flusher w = AfterFailure \<or> ws_flusher w = Stopped)
   \<and> (ws_closer w = Returned \<longrightarrow> ws_flusher w = Stopped)
   \<and> ends_empty w"

lemmas ws_parts = ws_inv_def announced_def ends_empty_def

lemma ws_inv_start: "ws_inv chunk newWebSocketConsole"
  by (simp add: ws_parts newWebSocketConsole_def webConsoleBufferLimit_def)

lemma inv_write:
  assumes "ws_inv chunk w" "length p \<le> chunk" "Write_locked p w = Some (r, w')"
  shows "ws_inv chunk w'"
proof (cases "ws_closed w")
  case True
  then show ?thesis using assms(1,3) by (auto simp: Write_locked_def)
next
  case False
  have "length (ws_buf w) < webConsoleBufferLimit" using assms(3) False by (auto simp: Write_locked_def split: if_splits)
  then have len: "length (ws_buf w @ p) < webConsoleBufferLimit + chunk" using assms(2) by simp
  define large where "large = (webConsoleFlushMaxBytes \<le> length (ws_buf w @ p))"
  have w': "w' = w\<lparr>ws_buf := ws_buf w @ p, ws_accepted := ws_accepted w @ p, ws_notifiers := NotifyWake large # ws_notifiers w\<rparr>"
    using assms(3) False by (simp add: Write_locked_def Let_def large_def split: if_splits)
  have "ws_failed w \<Longrightarrow> \<exists>rest. ws_accepted w @ p = concat (ws_sent w) @ rest" using assms(1) by (auto simp: ws_inv_def)
  moreover have "announced w'" by (auto simp: w' announced_def)
  moreover have "\<not> ws_done w" using assms(1) False by (simp add: ws_inv_def)
  ultimately show ?thesis using assms(1) False len
    unfolding ws_inv_def by (cases "ws_flusher w") (auto simp: w' ends_empty_def)
qed

lemma inv_notify:
  assumes "ws_inv chunk w" "n \<in> set (ws_notifiers w)"
  shows "ws_inv chunk (notify_step n w)"
proof (cases n)
  case (NotifyWake large)
  then show ?thesis using assms by (cases "ws_flusher w") (auto simp: notify_step_def ws_parts Let_def)
next
  case NotifyNow
  have "NotifyWake large \<in> set (remove1 NotifyNow (ws_notifiers w)) \<longleftrightarrow> NotifyWake large \<in> set (ws_notifiers w)" for large
    by (simp add: in_set_remove1)
  then show ?thesis using assms NotifyNow by (cases "ws_flusher w") (auto simp: notify_step_def ws_parts Let_def)
qed

lemma inv_flush:
  assumes "ws_inv chunk w" "ws_flusher w = AtFlush final"
  shows "ws_inv chunk (flush_locked final w)"
  using assms by (auto simp: flush_locked_def ws_parts)

lemma inv_written:
  assumes "ws_inv chunk w" "ws_flusher w = InWrite out final"
  shows "ws_inv chunk (write_end ok out final w)"
  using assms by (cases ok) (auto simp: write_end_def ws_parts)

lemma ws_inv_step: "ws_step chunk w w' \<Longrightarrow> ws_inv chunk w \<Longrightarrow> ws_inv chunk w'"
proof (induction rule: ws_step.induct)
  case (ws_write p w r w')
  then show ?case by (blast intro: inv_write)
next
  case (ws_notify n w)
  then show ?case by (blast intro: inv_notify)
next
  case (ws_close w)
  then show ?case by (cases "ws_flusher w") (auto simp: ws_parts)
next
  case (ws_close_done w)
  then show ?case by (cases "ws_flusher w") (auto simp: ws_parts)
next
  case (ws_close_end w)
  then show ?case by (auto simp: ws_parts)
next
  case (ws_flush w final)
  then show ?case by (blast intro: inv_flush)
next
  case (ws_written w out final ok)
  then show ?case by (blast intro: inv_written)
qed (auto simp: ws_parts)

lemma ws_inv_reachable: "ws_reachable chunk w \<Longrightarrow> ws_inv chunk w"
  by (induction rule: ws_reachable.induct) (blast intro: ws_inv_start ws_inv_step)+

subsection \<open>Draining\<close>

text \<open>Steps of the notifications and of the flush loop only, with a WebSocket that takes what it is given.\<close>

inductive drains :: "webSocketConsole \<Rightarrow> webSocketConsole \<Rightarrow> bool" where
  drained: "drains w w"
| drain_notify: "n \<in> set (ws_notifiers w) \<Longrightarrow> drains (notify_step n w) w' \<Longrightarrow> drains w w'"
| drain_done: "ws_flusher w = AtWake \<Longrightarrow> ws_done w \<Longrightarrow> drains (w\<lparr>ws_flusher := AtFlush True\<rparr>) w' \<Longrightarrow> drains w w'"
| drain_wake: "ws_flusher w = AtWake \<Longrightarrow> ws_wake w \<Longrightarrow> drains (w\<lparr>ws_wake := False, ws_flusher := AtGather\<rparr>) w' \<Longrightarrow> drains w w'"
| drain_timer: "ws_flusher w = AtGather \<Longrightarrow> drains (w\<lparr>ws_flusher := AtFlush False\<rparr>) w' \<Longrightarrow> drains w w'"
| drain_flush: "ws_flusher w = AtFlush final \<Longrightarrow> drains (flush_locked final w) w' \<Longrightarrow> drains w w'"
| drain_written: "ws_flusher w = InWrite out final \<Longrightarrow> drains (write_end True out final w) w' \<Longrightarrow> drains w w'"

text \<open>The loop comes from wherever it is to a state in which the buffer is empty and no write is under way.\<close>

definition delivered :: "webSocketConsole \<Rightarrow> bool" where
  "delivered w \<longleftrightarrow> concat (ws_sent w) = ws_accepted w"

lemma drain_from_flush:
  assumes "ws_inv chunk w" "ws_flusher w = AtFlush final"
  shows "\<exists>w'. drains w w' \<and> delivered w' \<and> ws_accepted w' = ws_accepted w"
proof (cases "ws_buf w = []")
  case True
  then have "delivered w" using assms by (auto simp: ws_inv_def delivered_def)
  then show ?thesis by (blast intro: drained)
next
  case False
  let ?w = "write_end True (ws_buf w) final (flush_locked final w)"
  have "ws_flusher (flush_locked final w) = InWrite (ws_buf w) final" using False by (simp add: flush_locked_def)
  then have "drains w ?w" by (rule drain_flush [OF assms(2) drain_written [OF _ drained]])
  moreover have "delivered ?w \<and> ws_accepted ?w = ws_accepted w"
    using assms False by (auto simp: delivered_def flush_locked_def write_end_def ws_inv_def)
  ultimately show ?thesis by blast
qed

lemma drain_from_gather:
  assumes "ws_inv chunk w" "ws_flusher w = AtGather"
  shows "\<exists>w'. drains w w' \<and> delivered w' \<and> ws_accepted w' = ws_accepted w"
proof -
  have "ws_inv chunk (w\<lparr>ws_flusher := AtFlush False\<rparr>)" using ws_inv_step [OF ws_inner_timer [OF assms(2)] assms(1)] .
  from drain_from_flush [OF this] show ?thesis using drain_timer [OF assms(2)] by fastforce
qed

lemma drain_from_wake:
  assumes "ws_inv chunk w" "ws_flusher w = AtWake"
  shows "\<exists>w'. drains w w' \<and> delivered w' \<and> ws_accepted w' = ws_accepted w"
proof -
  consider "ws_buf w = []" | "ws_buf w \<noteq> []" "ws_wake w" | large where "ws_buf w \<noteq> []" "NotifyWake large \<in> set (ws_notifiers w)"
    using assms unfolding ws_inv_def announced_def by blast
  then show ?thesis
  proof cases
    case 1
    then have "delivered w" using assms by (auto simp: ws_inv_def delivered_def)
    then show ?thesis by (blast intro: drained)
  next
    case 2
    have "ws_inv chunk (w\<lparr>ws_wake := False, ws_flusher := AtGather\<rparr>)" using ws_inv_step [OF ws_outer_wake [OF assms(2) 2(2)] assms(1)] .
    from drain_from_gather [OF this] show ?thesis using drain_wake [OF assms(2) 2(2)] by fastforce
  next
    case 3
    let ?n = "notify_step (NotifyWake large) w"
    let ?g = "?n\<lparr>ws_wake := False, ws_flusher := AtGather\<rparr>"
    have n: "ws_inv chunk ?n" "ws_flusher ?n = AtWake" "ws_wake ?n" "ws_accepted ?n = ws_accepted w"
      using inv_notify [OF assms(1) 3(2)] assms(2) by (simp_all add: notify_step_def Let_def)
    have "ws_inv chunk ?g" using ws_inv_step [OF ws_outer_wake [OF n(2,3)] n(1)] .
    from drain_from_gather [OF this] obtain w' where w': "drains ?g w'" "delivered w'" "ws_accepted w' = ws_accepted w"
      using n(4) by auto
    have "drains w w'" by (rule drain_notify [OF 3(2) drain_wake [OF n(2,3) w'(1)]])
    with w' show ?thesis by blast
  qed
qed

text \<open>
  C33. The output of a web console arrives as it was written. In every state the pumps, the flush loop, the
  notifications and the close can reach together, for writes of any size up to \<open>chunk\<close>: the frames sent are
  a prefix of what was written, in order; no frame is empty and buffer and frames stay below the limit plus
  one write; unless the WebSocket has failed, the missing part is exactly what is in flight and in the buffer,
  and the loop can always deliver it without any further write; and when \<^verbatim>\<open>Close\<close> has returned, everything has
  been delivered.
\<close>

theorem console_output_exact:
  assumes "ws_reachable chunk w"
  shows "(\<exists>rest. ws_accepted w = concat (ws_sent w) @ rest)
    \<and> length (ws_buf w) < 2 ^ 20 + chunk \<and> (\<forall>f\<in>set (ws_sent w). f \<noteq> [] \<and> length f < 2 ^ 20 + chunk)
    \<and> (\<not> ws_failed w \<longrightarrow> ws_accepted w = concat (ws_sent w) @ in_flight (ws_flusher w) @ ws_buf w
        \<and> (\<exists>w'. drains w w' \<and> concat (ws_sent w') = ws_accepted w)
        \<and> (ws_closer w = Returned \<longrightarrow> concat (ws_sent w) = ws_accepted w))"
proof (intro conjI impI)
  note inv = ws_inv_reachable [OF assms]
  show "\<exists>rest. ws_accepted w = concat (ws_sent w) @ rest" "length (ws_buf w) < 2 ^ 20 + chunk"
    "\<forall>f\<in>set (ws_sent w). f \<noteq> [] \<and> length f < 2 ^ 20 + chunk"
    using inv by (auto simp: ws_inv_def webConsoleBufferLimit_def split: if_splits)
  assume ok: "\<not> ws_failed w"
  then show acc: "ws_accepted w = concat (ws_sent w) @ in_flight (ws_flusher w) @ ws_buf w" using inv by (simp add: ws_inv_def)
  show "concat (ws_sent w) = ws_accepted w" if "ws_closer w = Returned"
  proof -
    have "ws_flusher w = Stopped" "ends_empty w" using inv that by (simp_all add: ws_inv_def)
    then show ?thesis using ok acc by (simp add: ends_empty_def)
  qed
  have "\<exists>w'. drains w w' \<and> delivered w' \<and> ws_accepted w' = ws_accepted w"
  proof (cases "ws_flusher w")
    case (InWrite out final)
    have e: "drains (write_end True out final w) w' \<Longrightarrow> drains w w'" for w' by (rule drain_written [OF InWrite])
    show ?thesis
    proof (cases final)
      case True
      then have "delivered (write_end True out final w) \<and> ws_accepted (write_end True out final w) = ws_accepted w"
        using inv InWrite acc by (simp add: delivered_def write_end_def ws_inv_def ends_empty_def)
      then show ?thesis using e drained by blast
    next
      case False
      have "ws_flusher (write_end True out final w) = AtWake" "ws_accepted (write_end True out final w) = ws_accepted w"
        using False by (simp_all add: write_end_def)
      then show ?thesis using drain_from_wake [OF inv_written [OF inv InWrite, of True]] e by metis
    qed
  next
    case Stopped
    then have "delivered w" using inv ok acc by (simp add: delivered_def ws_inv_def ends_empty_def)
    then show ?thesis by (blast intro: drained)
  next
    case AfterFailure
    then show ?thesis using inv ok by (simp add: ws_inv_def ends_empty_def)
  qed (use inv drain_from_wake drain_from_gather drain_from_flush in blast)+
  then show "\<exists>w'. drains w w' \<and> concat (ws_sent w') = ws_accepted w" by (auto simp: delivered_def)
qed

lemma console_output_exact_witness:
  "\<exists>w. ws_reachable 2 w \<and> ws_accepted w = ''hi'' \<and> ws_sent w = [] \<and> (\<exists>w'. drains w w' \<and> concat (ws_sent w') = ''hi'')"
proof -
  let ?w = "newWebSocketConsole\<lparr>ws_buf := ''hi'', ws_accepted := ''hi'', ws_notifiers := [NotifyWake False]\<rparr>"
  have "Write_locked ''hi'' newWebSocketConsole = Some (True, ?w)"
    by (simp add: Write_locked_def newWebSocketConsole_def webConsoleBufferLimit_def webConsoleFlushMaxBytes_def Let_def)
  then have r: "ws_reachable 2 ?w" by (intro ws_more [OF ws_start ws_write [of "''hi''"]]) simp_all
  have e: "\<not> ws_failed ?w" "ws_accepted ?w = ''hi''" "ws_sent ?w = []" by (simp_all add: newWebSocketConsole_def)
  have "\<exists>w'. drains ?w w' \<and> concat (ws_sent w') = ws_accepted ?w"
    using console_output_exact [OF r] e(1) by blast
  with r e(2,3) show ?thesis by (intro exI [of _ ?w]) simp
qed

text \<open>
  The loop of a console that is neither written to nor closed never ends: none of its steps is enabled.
\<close>

lemma untouched_console_never_stops: "drains newWebSocketConsole w \<longleftrightarrow> w = newWebSocketConsole"
proof
  assume "drains newWebSocketConsole w"
  then show "w = newWebSocketConsole" by cases (simp_all add: newWebSocketConsole_def)
qed (simp add: drained)

subsection \<open>Input\<close>

text \<open>
  \<^verbatim>\<open>Read\<close> into a slice of \<open>n\<close> bytes: the rest of the last message, or the next one, as much as fits. The
  state is the rest and the messages still to come; \<open>None\<close> is the error of a closed connection.
\<close>

definition ws_Read :: "nat \<Rightarrow> bytes \<times> bytes list \<Rightarrow> (bytes \<times> bytes \<times> bytes list) option" where
  "ws_Read n st = (case st of (rest, messages) \<Rightarrow>
     if rest = [] then (case messages of [] \<Rightarrow> None | data # messages \<Rightarrow> Some (take n data, drop n data, messages))
     else Some (take n rest, drop n rest, messages))"

fun ws_Reads :: "nat list \<Rightarrow> bytes \<times> bytes list \<Rightarrow> bytes \<times> bytes \<times> bytes list" where
  "ws_Reads [] st = ([], st)"
| "ws_Reads (n # ns) st = (case ws_Read n st of None \<Rightarrow> ([], st)
     | Some (p, st) \<Rightarrow> (case ws_Reads ns st of (ps, st) \<Rightarrow> (p @ ps, st)))"

lemma ws_Reads_lossless:
  "ws_Reads ns (rest, messages) = (got, rest', messages') \<Longrightarrow> got @ rest' @ concat messages' = rest @ concat messages"
proof (induction ns arbitrary: rest messages got)
  case (Cons n ns)
  show ?case
  proof (cases "ws_Read n (rest, messages)")
    case (Some x)
    then obtain p r m where x: "ws_Read n (rest, messages) = Some (p, r, m)" by (metis prod_cases3)
    then have piece: "p @ r @ concat m = rest @ concat messages"
      by (auto simp: ws_Read_def split: if_splits list.splits)
    obtain ps where "ws_Reads ns (r, m) = (ps, rest', messages')" "got = p @ ps"
      using Cons.prems x by (auto split: prod.splits)
    with Cons.IH [of r m ps] piece show ?thesis by (metis append.assoc)
  qed (use Cons.prems in simp)
qed simp

end
