(* ===== verification/Web_Console.thy ===== *)
theory Web_Console
  imports Access_Service Host_Keys Console_Stream
begin

text \<open>
  The web console over HTTP, the rest of \<^verbatim>\<open>internal/domain/access/handler.go\<close>: the check of the WebSocket's
  origin, the URL a console is offered at, the relay of one console and the handler that joins them. The
  stream of a console is in \<open>Console_Stream\<close>, the trust in host keys in \<open>Host_Keys\<close>.
\<close>

subsection \<open>URLs and origins\<close>

text \<open>\<^verbatim>\<open>net/url\<close>: parsing, the parts that are used, and the text of a URL.\<close>

record 'u url_lib =
  ul_Parse :: "bytes \<Rightarrow> 'u option"
  ul_Scheme :: "'u \<Rightarrow> bytes"
  ul_Host :: "'u \<Rightarrow> bytes"
  ul_WithScheme :: "bytes \<Rightarrow> 'u \<Rightarrow> 'u"
  ul_make :: "bytes \<Rightarrow> bytes \<Rightarrow> 'u"
  ul_String :: "'u \<Rightarrow> bytes"

text \<open>Of a request: its host, the \<^verbatim>\<open>Origin\<close> header, whether it came over TLS, and the token.\<close>

record console_request =
  cr_Host :: bytes
  cr_Origin :: bytes
  cr_TLS :: bool
  cr_token :: bytes

definition configuredWebConsoleBaseURL :: "'u url_lib \<Rightarrow> (bytes \<Rightarrow> bytes) \<Rightarrow> bytes" where
  "configuredWebConsoleBaseURL ul getenv = (let rawURL = TrimSpace (getenv ''RCP_WEB_CONSOLE_BASE_URL'') in
     if rawURL = [] then []
     else (case ul_Parse ul rawURL of None \<Rightarrow> TrimRight CHR ''/'' rawURL
       | Some u \<Rightarrow> if ul_Host ul u = [] then TrimRight CHR ''/'' rawURL
           else TrimRight CHR ''/'' (ul_String ul
             (if ul_Scheme ul u = ''http'' then ul_WithScheme ul ''ws'' u
              else if ul_Scheme ul u = ''https'' then ul_WithScheme ul ''wss'' u else u))))"

definition websocketBaseURL :: "'u url_lib \<Rightarrow> (bytes \<Rightarrow> bytes) \<Rightarrow> bytes \<Rightarrow> console_request \<Rightarrow> bytes" where
  "websocketBaseURL ul getenv basePath req = (let baseURL = configuredWebConsoleBaseURL ul getenv in
     if baseURL \<noteq> [] then baseURL @ basePath
     else (if cr_TLS req then ''wss'' else ''ws'') @ ''://'' @ cr_Host req @ basePath)"

definition normalizeOrigin :: "'u url_lib \<Rightarrow> 'u \<Rightarrow> 'u option" where
  "normalizeOrigin ul u = (if ul_Scheme ul u = [] \<or> ul_Host ul u = [] then None
     else Some (ul_make ul (ToLower (ul_Scheme ul u)) (ToLower (ul_Host ul u))))"

text \<open>\<open>None\<close> when the header is missing, \<open>Some None\<close> for a header that is no origin.\<close>

definition websocketOrigin :: "'u url_lib \<Rightarrow> console_request \<Rightarrow> 'u option option" where
  "websocketOrigin ul req = (let rawOrigin = TrimSpace (cr_Origin req) in
     if rawOrigin = [] then None
     else Some (case ul_Parse ul rawOrigin of None \<Rightarrow> None | Some u \<Rightarrow> normalizeOrigin ul u))"

definition allowed_origin_entry :: "'u url_lib \<Rightarrow> bytes \<Rightarrow> bytes option" where
  "allowed_origin_entry ul raw = (let origin = TrimSpace raw in
     if origin = [] then None else if origin = ''*'' then Some origin
     else (case ul_Parse ul origin of None \<Rightarrow> None | Some u \<Rightarrow> map_option (ul_String ul) (normalizeOrigin ul u)))"

definition configuredWebConsoleAllowedOrigins :: "'u url_lib \<Rightarrow> (bytes \<Rightarrow> bytes) \<Rightarrow> bytes list" where
  "configuredWebConsoleAllowedOrigins ul getenv = (let rawOrigins = TrimSpace (getenv ''RCP_WEB_CONSOLE_ALLOWED_ORIGINS'') in
     if rawOrigins = [] then [] else List.map_filter (allowed_origin_entry ul) (split_on CHR '','' rawOrigins))"

definition splitHostPort :: "bytes \<Rightarrow> bytes \<times> bytes \<times> bool" where
  "splitHostPort raw = (let host = ToLower (TrimSpace raw) in
     if host = [] then ([], [], False)
     else (case SplitHostPort host of Some (h, p) \<Rightarrow> (h, p, True) | None \<Rightarrow> (host, [], False)))"

definition sameHost :: "bytes \<Rightarrow> bytes \<Rightarrow> bool" where
  "sameHost left right = (case (splitHostPort left, splitHostPort right) of
     ((leftHost, leftPort, leftHasPort), (rightHost, rightPort, rightHasPort)) \<Rightarrow>
       if leftHost \<noteq> rightHost then False else if leftHasPort \<noteq> rightHasPort then False
       else \<not> leftHasPort \<or> leftPort = rightPort)"

definition isWebSocketOriginAllowed :: "'u url_lib \<Rightarrow> (bytes \<Rightarrow> bytes) \<Rightarrow> console_request \<Rightarrow> bool" where
  "isWebSocketOriginAllowed ul getenv req = (case websocketOrigin ul req of
     None \<Rightarrow> True | Some None \<Rightarrow> False
   | Some (Some origin) \<Rightarrow> (let allowedOrigins = configuredWebConsoleAllowedOrigins ul getenv in
       if allowedOrigins \<noteq> [] then list_ex (\<lambda>a. a = ''*'' \<or> a = ul_String ul origin) allowedOrigins
       else sameHost (ul_Host ul origin) (cr_Host req)))"

subsection \<open>The relay\<close>

text \<open>
  What happens to one relay: the dial through the proxy, the key the VM shows and what becomes of writing it down, the
  rest of the SSH handshake, the six calls that set the session up, what the other requests do to the
  store while the session runs, how it ends, and what \<^verbatim>\<open>Wait\<close> returns. A session ends by itself, or by the
  cancellation of its context, with a verdict of the liveness check or without.
\<close>

datatype relay_end = SessionEnded | Cancelled "bytes option"

record ('key, 'sig) relay_run =
  rn_dial :: "bytes option"
  rn_hostkey :: 'key
  rn_trust_io :: "bytes option"
  rn_handshake :: "bytes option"
  rn_setup :: "bytes option list"
  rn_meanwhile :: "'sig consoleSessionStore \<Rightarrow> 'sig consoleSessionStore"
  rn_end :: relay_end
  rn_wait :: "bytes option"

datatype relay_err = RDial bytes | RHostKey hostkey_err | RHandshake bytes | RSetup bytes | RWait bytes | RLiveness bytes

definition svc_DeleteAuthorizedKey :: "bytes \<Rightarrow> bytes \<Rightarrow> bytes \<Rightarrow> 'sig consoleSessionStore \<Rightarrow> 'sig consoleSessionStore" where
  "svc_DeleteAuthorizedKey instanceID username key = DeleteAuthorizedKey (TrimSpace instanceID) (TrimSpace username) key"

definition JoinHostPort :: "bytes \<Rightarrow> bytes \<Rightarrow> bytes" where
  "JoinHostPort host port = (if CHR '':'' \<in> set host then ''['' @ host @ '']:'' @ port else host @ '':'' @ port)"

definition vmHostKeyCallbackForAddress :: "bytes \<Rightarrow> (bytes \<Rightarrow> 'key \<Rightarrow> 'f \<Rightarrow> hostkey_err option \<times> 'f) \<Rightarrow> 'key \<Rightarrow> 'f
    \<Rightarrow> hostkey_err option \<times> 'f" where
  "vmHostKeyCallbackForAddress address cb key f = (case SplitHostPort address of
     None \<Rightarrow> (Some (KeyError ''address''), f)
   | Some (host, port) \<Rightarrow> (case Atoi port of None \<Rightarrow> (Some (KeyError ''port''), f) | Some _ \<Rightarrow> cb address key f))"

fun first_error :: "bytes option list \<Rightarrow> bytes option" where
  "first_error [] = None"
| "first_error (None # es) = first_error es"
| "first_error (Some e # es) = Some e"

text \<open>The result: the error, and whether the client was closed.\<close>

definition relayConsole :: "('f, 'key) known_hosts \<Rightarrow> bytes \<Rightarrow> ('key, 'sig) relay_run \<Rightarrow> 'sig consoleSession
    \<Rightarrow> 'sig consoleSessionStore \<times> 'f \<Rightarrow> (relay_err option \<times> bool) \<times> 'sig consoleSessionStore \<times> 'f" where
  "relayConsole lib path rn console = (\<lambda>(s, f).
     let sshAddress = JoinHostPort (cs_Host console) ''22'';
         drop = svc_DeleteAuthorizedKey (cs_InstanceID console) (cs_Username console) (cs_AuthorizedKey console) in
     case rn_dial rn of Some e \<Rightarrow> ((Some (RDial e), False), s, f)
     | None \<Rightarrow> (case vmHostKeyCallbackForAddress sshAddress (reloadingVMHostKeyCallback lib path (rn_trust_io rn)) (rn_hostkey rn) f of
         (Some e, f) \<Rightarrow> ((Some (RHostKey e), False), s, f)
       | (None, f) \<Rightarrow> (case rn_handshake rn of Some e \<Rightarrow> ((Some (RHandshake e), False), s, f)
         | None \<Rightarrow> (let s = drop s in
             case first_error (rn_setup rn) of Some e \<Rightarrow> ((Some (RSetup e), False), s, f)
             | None \<Rightarrow> (let err = (case rn_end rn of Cancelled (Some cause) \<Rightarrow> Some (RLiveness cause)
                   | _ \<Rightarrow> map_option RWait (rn_wait rn)) in
                 ((err, True), drop (rn_meanwhile rn s), f))))))"

text \<open>
  The handler: its answer, if it gives one itself, and the result of the relay, if it comes to it.
  \<open>accept\<close> is the outcome of \<^verbatim>\<open>websocket.Accept\<close>.
\<close>

definition WebConsole :: "('f, 'key) known_hosts \<Rightarrow> bytes \<Rightarrow> 'u url_lib \<Rightarrow> (bytes \<Rightarrow> bytes) \<Rightarrow> int \<Rightarrow> bool \<Rightarrow> ('key, 'sig) relay_run
    \<Rightarrow> console_request \<Rightarrow> 'sig consoleSessionStore \<times> 'f
    \<Rightarrow> ((nat \<times> bytes) option \<times> (relay_err option \<times> bool) option) \<times> 'sig consoleSessionStore \<times> 'f" where
  "WebConsole lib path ul getenv now accept rn req = (\<lambda>(s, f). case Take now (cr_token req) s of
     (None, s) \<Rightarrow> ((Some (401, ''invalid console token''), None), s, f)
   | (Some session, s) \<Rightarrow>
       if \<not> isWebSocketOriginAllowed ul getenv req then ((Some (403, ''websocket origin is not allowed''), None), s, f)
       else if \<not> accept then ((None, None), s, f)
       else (case relayConsole lib path rn session (s, f) of (r, sf) \<Rightarrow> ((None, Some r), sf)))"

text \<open>What the VMs fetch: the keys that are authorized now.\<close>

definition h_GetAuthorizedKeys :: "(bytes list \<Rightarrow> bytes list) \<Rightarrow> int \<Rightarrow> bytes \<Rightarrow> bytes \<Rightarrow> 'sig consoleSessionStore
    \<Rightarrow> (unit, bytes) response \<times> 'sig consoleSessionStore" where
  "h_GetAuthorizedKeys perm now instanceID uname s = (case svc_AuthorizedKeys perm now instanceID uname s of
     (keys, s) \<Rightarrow> ((200, Json keys), s))"

subsection \<open>What a console may do\<close>

lemma Take_Some:
  assumes "Take now token s = (Some c, s')"
  shows "sessions s token = Some c \<and> \<not> cs_ExpiresAt c < now \<and> sessions s' token = None"
  using assms by (auto simp: Take_def deleteExpiredLocked_def Let_def split: option.splits if_splits)

text \<open>The origins that are accepted, spelt out.\<close>

definition trusted_console_origin :: "'u url_lib \<Rightarrow> (bytes \<Rightarrow> bytes) \<Rightarrow> console_request \<Rightarrow> bool" where
  "trusted_console_origin ul getenv req \<longleftrightarrow> (\<exists>u. ul_Parse ul (TrimSpace (cr_Origin req)) = Some u
     \<and> ul_Scheme ul u \<noteq> [] \<and> ul_Host ul u \<noteq> []
     \<and> (let origin = ul_make ul (ToLower (ul_Scheme ul u)) (ToLower (ul_Host ul u));
            allowed = configuredWebConsoleAllowedOrigins ul getenv in
        if allowed = [] then sameHost (ul_Host ul origin) (cr_Host req)
        else ''*'' \<in> set allowed \<or> ul_String ul origin \<in> set allowed))"

lemma origin_allowed_iff:
  "isWebSocketOriginAllowed ul getenv req \<longleftrightarrow> TrimSpace (cr_Origin req) = [] \<or> trusted_console_origin ul getenv req"
proof (cases "TrimSpace (cr_Origin req) = []")
  case True
  then show ?thesis by (simp add: isWebSocketOriginAllowed_def websocketOrigin_def)
next
  case False
  show ?thesis
  proof (cases "ul_Parse ul (TrimSpace (cr_Origin req))")
    case None
    then show ?thesis using False by (simp add: isWebSocketOriginAllowed_def websocketOrigin_def trusted_console_origin_def Let_def)
  next
    case (Some u)
    then show ?thesis using False
      by (auto simp: isWebSocketOriginAllowed_def websocketOrigin_def trusted_console_origin_def normalizeOrigin_def
        Let_def list_ex_iff)
  qed
qed

lemma drop_key: "key_expiry (svc_DeleteAuthorizedKey i u k s) (TrimSpace i, TrimSpace u) k = None"
  by (simp add: svc_DeleteAuthorizedKey_def delete_key_expiry)

text \<open>The outcomes of a relay.\<close>

lemma relayConsole_cases:
  assumes "relayConsole lib path rn c (s, f) = ((err, closed), s', f')"
  shows "(closed = False \<and> s' = s \<and> (\<exists>e. err = Some (RDial e) \<or> err = Some (RHandshake e)))
    \<or> (closed = False \<and> s' = s \<and> (\<exists>e. err = Some (RHostKey e)))
    \<or> (rn_dial rn = None \<and> rn_handshake rn = None
        \<and> fst (vmHostKeyCallbackForAddress (JoinHostPort (cs_Host c) ''22'')
            (reloadingVMHostKeyCallback lib path (rn_trust_io rn)) (rn_hostkey rn) f) = None
        \<and> closed = (first_error (rn_setup rn) = None)
        \<and> (\<exists>t. s' = svc_DeleteAuthorizedKey (cs_InstanceID c) (cs_Username c) (cs_AuthorizedKey c) t))"
proof -
  obtain k f1 where k: "vmHostKeyCallbackForAddress (JoinHostPort (cs_Host c) ''22'')
      (reloadingVMHostKeyCallback lib path (rn_trust_io rn)) (rn_hostkey rn) f = (k, f1)" by force
  show ?thesis
    using assms by (cases "rn_dial rn"; cases k; cases "rn_handshake rn"; cases "first_error (rn_setup rn)")
      (auto simp: relayConsole_def k Let_def)
qed


text \<open>
  A relay that fails before the shell leaves the client open: the handler then closes the connection itself, but
  not the stream, whose flush loop waits on (\<open>untouched_console_never_stops\<close>).
\<close>

lemma relay_leaves_stream_open:
  assumes "relayConsole lib path rn c (s, f) = ((err, closed), s', f')"
    and "rn_dial rn \<noteq> None \<or> rn_handshake rn \<noteq> None \<or> first_error (rn_setup rn) \<noteq> None"
  shows "\<not> closed"
  using relayConsole_cases [OF assms(1)] assms(2) by auto

definition example_console :: "unit consoleSession" where
  "example_console = \<lparr>cs_Token = ''t'', cs_OwnerID = 2, cs_InstanceID = ''vm'', cs_Host = ''h'', cs_Username = ''u'',
     cs_Signer = (), cs_AuthorizedKey = ''k'', cs_ExpiresAt = 9\<rparr>"

definition example_console_store :: "unit consoleSessionStore" where
  "example_console_store = \<lparr>ttl = 9, sessions = [''t'' \<mapsto> example_console], authorizedKeys = [(''vm'', ''u'') \<mapsto> [(''k'', 9)]]\<rparr>"

definition example_urls :: "(bytes \<times> bytes) url_lib" where
  "example_urls = \<lparr>ul_Parse = (\<lambda>s. None), ul_Scheme = fst, ul_Host = snd, ul_WithScheme = (\<lambda>sc u. (sc, snd u)),
     ul_make = Pair, ul_String = (\<lambda>u. fst u @ ''://'' @ snd u)\<rparr>"

definition example_relay :: "(nat, unit) relay_run" where
  "example_relay = \<lparr>rn_dial = None, rn_hostkey = 5, rn_trust_io = None, rn_handshake = None, rn_setup = replicate 6 None,
     rn_meanwhile = (\<lambda>s. example_console_store), rn_end = SessionEnded, rn_wait = None\<rparr>"

definition example_console_request :: console_request where
  "example_console_request = \<lparr>cr_Host = ''rcp'', cr_Origin = [], cr_TLS = True, cr_token = ''t''\<rparr>"


end
