(* ===== verification/Ssh_Relay.thy ===== *)
theory Ssh_Relay
  imports Ssh_Server Web_Console
begin

text \<open>
  The relay of an SSH session, \<^verbatim>\<open>cmd/ssh-gateway/relay.go\<close>: the connection to the VM through the namespace
  proxy, the inner SSH handshake, and \<^verbatim>\<open>pipeSession\<close> with its three copying goroutines, the two waits with
  their timers and the order in which everything is closed. SSH, SOCKS and the sockets are parameters.
\<close>

subsection \<open>Connections and deadlines\<close>

text \<open>Times are in nanoseconds. Of a connection only its deadline is kept.\<close>

record net_conn =
  nc_deadline :: "int option"

definition socks5HandshakeTimeout :: int where "socks5HandshakeTimeout = 15 * 1000000000"

text \<open>
  \<open>dial\<close> is the connection to the Unix socket under a context with the given deadline: an error, or a
  connection and the time at which it was made.
\<close>

definition earliest :: "int option \<Rightarrow> int \<Rightarrow> int option" where
  "earliest ctx t = (case ctx of None \<Rightarrow> Some t | Some c \<Rightarrow> Some (min c t))"

definition unix_DialContext :: "(int option \<Rightarrow> bytes + int) \<Rightarrow> int \<Rightarrow> int option \<Rightarrow> int \<Rightarrow> bytes + net_conn" where
  "unix_DialContext dial timeout ctx now =
     (case dial (if 0 < timeout then earliest ctx (now + timeout) else ctx) of
        Err e \<Rightarrow> Err e
      | Ok later \<Rightarrow> Ok \<lparr>nc_deadline = Some (case ctx of None \<Rightarrow> later + socks5HandshakeTimeout | Some c \<Rightarrow> c)\<rparr>)"

text \<open>
  \<open>socks\<close> is the SOCKS client: it gets the outcome of its forwarding dialer and returns a
  connection, an error, or both.
\<close>

definition nsProxy_Dial :: "(bytes + net_conn \<Rightarrow> bytes \<Rightarrow> net_conn option \<times> bytes option) \<Rightarrow> bytes + net_conn
    \<Rightarrow> bytes \<Rightarrow> bytes \<Rightarrow> net_conn option \<times> bytes option" where
  "nsProxy_Dial socks forward host port = (case socks forward (JoinHostPort host port) of
     (conn, err) \<Rightarrow> (map_option (\<lambda>c. c\<lparr>nc_deadline := None\<rparr>) conn, err))"

text \<open>The handshake runs under a deadline, and the stream that follows it under none.\<close>

lemma deadline_only_for_handshake:
  "unix_DialContext dial timeout ctx now = Ok c \<Longrightarrow> nc_deadline c \<noteq> None"
  "nsProxy_Dial socks forward host port = (Some c', err) \<Longrightarrow> nc_deadline c' = None"
  by (auto simp: unix_DialContext_def nsProxy_Dial_def split: sum.splits prod.splits)

definition innerHostKeyCallbackForAddress :: "bytes \<Rightarrow> (bytes \<Rightarrow> 'key \<Rightarrow> 'f \<Rightarrow> hostkey_err option \<times> 'f) \<Rightarrow> 'key \<Rightarrow> 'f
    \<Rightarrow> hostkey_err option \<times> 'f" where
  "innerHostKeyCallbackForAddress address cb key f = (case SplitHostPort address of
     None \<Rightarrow> (Some (KeyError ''address''), f)
   | Some (host, port) \<Rightarrow> (case Atoi port of None \<Rightarrow> (Some (KeyError ''port''), f) | Some _ \<Rightarrow> cb address key f))"

text \<open>
  The inner handshake: \<open>key\<close> is what the VM shows, \<open>rest\<close> the outcome of the handshake once the key is
  accepted.
\<close>

datatype inner_err = InnerHostKey hostkey_err | InnerHandshake bytes

definition dialInnerSSH :: "(bytes \<Rightarrow> 'key \<Rightarrow> 'f \<Rightarrow> hostkey_err option \<times> 'f) \<Rightarrow> 'key \<Rightarrow> bytes option \<Rightarrow> int option \<Rightarrow> bytes
    \<Rightarrow> net_conn \<times> 'f \<Rightarrow> inner_err option \<times> net_conn \<times> 'f" where
  "dialInnerSSH cb key rest ctx addr = (\<lambda>(raw, f).
     let after = (case ctx of None \<Rightarrow> raw | Some _ \<Rightarrow> raw\<lparr>nc_deadline := None\<rparr>) in
     case innerHostKeyCallbackForAddress addr cb key f of
       (Some e, f) \<Rightarrow> (Some (InnerHostKey e), after, f)
     | (None, f) \<Rightarrow> (map_option InnerHandshake rest, after, f))"

subsection \<open>Window changes\<close>

text \<open>
  What the forwarding goroutine does with a request of the outer client: the rows and columns it sets at
  the VM, and its reply, if one is wanted.
\<close>

definition forward_request :: "ssh_request \<Rightarrow> bool \<Rightarrow> (nat \<times> nat) option \<times> bool option" where
  "forward_request req wantReply = (if rq_Type req = ''window-change''
     then (if 16 \<le> length (rq_Payload req)
           then Some (BigEndian_Uint32 (sub (rq_Payload req) 4 8), BigEndian_Uint32 (sub (rq_Payload req) 0 4)) else None,
         if wantReply then Some True else None)
     else (None, if wantReply then Some False else None))"

subsection \<open>A copying goroutine\<close>

text \<open>
  \<^verbatim>\<open>io.Copy\<close> from one side to the other: what has arrived and is not read, whether the source is at its end, where
  the goroutine is, what the source has sent and what the sink has taken, and whether a write has failed.
\<close>

datatype copier = CRead | CWrite bytes | CEnded

record pump =
  pu_in :: bytes
  pu_eof :: bool
  pu_copier :: copier
  pu_sent :: bytes
  pu_got :: bytes
  pu_failed :: bool

definition new_pump :: pump where
  "new_pump = \<lparr>pu_in = [], pu_eof = False, pu_copier = CRead, pu_sent = [], pu_got = [], pu_failed = False\<rparr>"

definition copyBufferSize :: nat where "copyBufferSize = 32 * 1024"

inductive pump_step :: "bool \<Rightarrow> pump \<Rightarrow> pump \<Rightarrow> bool" for sink_open where
  pu_arrive: "\<not> pu_eof p \<Longrightarrow> pump_step sink_open p (p\<lparr>pu_in := pu_in p @ bs, pu_sent := pu_sent p @ bs\<rparr>)"
| pu_end: "\<not> pu_eof p \<Longrightarrow> pump_step sink_open p (p\<lparr>pu_eof := True\<rparr>)"
| pu_read: "pu_copier p = CRead \<Longrightarrow> 0 < n \<Longrightarrow> n \<le> length (pu_in p) \<Longrightarrow> n \<le> copyBufferSize
    \<Longrightarrow> pump_step sink_open p (p\<lparr>pu_in := drop n (pu_in p), pu_copier := CWrite (take n (pu_in p))\<rparr>)"
| pu_finish: "pu_copier p = CRead \<Longrightarrow> pu_in p = [] \<Longrightarrow> pu_eof p \<Longrightarrow> pump_step sink_open p (p\<lparr>pu_copier := CEnded\<rparr>)"
| pu_write: "pu_copier p = CWrite c \<Longrightarrow> sink_open \<Longrightarrow> pump_step sink_open p (p\<lparr>pu_got := pu_got p @ c, pu_copier := CRead\<rparr>)"
| pu_write_error: "pu_copier p = CWrite c \<Longrightarrow> pump_step sink_open p (p\<lparr>pu_copier := CEnded, pu_failed := True\<rparr>)"

text \<open>Nothing is lost, doubled or reordered before a write fails.\<close>

definition pump_ok :: "pump \<Rightarrow> bool" where
  "pump_ok p \<longleftrightarrow> (case pu_copier p of
     CRead \<Rightarrow> pu_sent p = pu_got p @ pu_in p \<and> \<not> pu_failed p
   | CWrite c \<Rightarrow> pu_sent p = pu_got p @ c @ pu_in p \<and> \<not> pu_failed p
   | CEnded \<Rightarrow> (\<exists>lost. pu_sent p = pu_got p @ lost \<and> (\<not> pu_failed p \<longrightarrow> lost = [] \<and> pu_eof p)))"

lemma pump_ok_new [simp]: "pump_ok new_pump"
  by (simp add: pump_ok_def new_pump_def)

lemma pump_ok_step: "pump_step sink p p' \<Longrightarrow> pump_ok p \<Longrightarrow> pump_ok p'"
  by (induction rule: pump_step.induct) (auto simp: pump_ok_def split: copier.splits)

lemma pump_ok_eof: "pump_ok p \<Longrightarrow> pump_ok (p\<lparr>pu_eof := True\<rparr>)"
  by (auto simp: pump_ok_def split: copier.splits)

lemma pump_prefix: "pump_ok p \<Longrightarrow> \<exists>rest. pu_sent p = pu_got p @ rest"
  by (cases "pu_copier p") (auto simp: pump_ok_def)

lemma pump_complete: "pump_ok p \<Longrightarrow> pu_copier p = CEnded \<Longrightarrow> \<not> pu_failed p \<Longrightarrow> pu_got p = pu_sent p"
  by (auto simp: pump_ok_def)

text \<open>What a goroutine still has to do once its source has ended.\<close>

definition pump_work :: "pump \<Rightarrow> nat" where
  "pump_work p = 2 * length (pu_in p) + (case pu_copier p of CRead \<Rightarrow> 1 | CWrite c \<Rightarrow> 2 | CEnded \<Rightarrow> 0)"

lemma pump_work_step: "pump_step sink p p' \<Longrightarrow> pu_eof p \<Longrightarrow> pump_work p' < pump_work p \<and> pu_eof p'"
  by (induction rule: pump_step.induct) (auto simp: pump_work_def)

subsection \<open>The session\<close>

text \<open>
  Where \<^verbatim>\<open>pipeSession\<close> is: at the first select, at the second one with the time its timer ends, before
  the closing of the outer side, waiting for the copies with the time that timer ends, or back in its caller,
  with whether the copies had ended. Times are milliseconds since the start of the session.
\<close>

datatype relay_main = RWaiting | RWaitInner nat | RClosing | RDraining nat | RReturned bool

definition innerExitTimeout :: nat where "innerExitTimeout = 5000"

definition copyDrainTimeout :: nat where "copyDrainTimeout = 1000"

text \<open>
  \<open>rl_in\<close> is the copy from the outer client to the VM, \<open>rl_out\<close> and \<open>rl_err\<close> those back. \<open>rl_exited\<close> says that
  \<^verbatim>\<open>innerSess.Wait\<close> has returned; the other channel of the select, \<^verbatim>\<open>outerInputDone\<close>, is closed when the copy of the
  input has ended. \<open>rl_since\<close> remembers when one of the two happened first.
\<close>

record relay =
  rl_clock :: nat
  rl_in :: pump
  rl_out :: pump
  rl_err :: pump
  rl_exited :: bool
  rl_stdin_open :: bool
  rl_outer_open :: bool
  rl_inner_open :: bool
  rl_main :: relay_main
  rl_since :: "nat option"

definition new_relay :: relay where
  "new_relay = \<lparr>rl_clock = 0, rl_in = new_pump, rl_out = new_pump, rl_err = new_pump, rl_exited = False, rl_stdin_open = True,
     rl_outer_open = True, rl_inner_open = True, rl_main = RWaiting, rl_since = None\<rparr>"

definition input_done :: "relay \<Rightarrow> bool" where
  "input_done s \<longleftrightarrow> pu_copier (rl_in s) = CEnded"

text \<open>Closing the inner side ends the output of the VM, closing the outer side ends the input.\<close>

definition close_inner :: "relay \<Rightarrow> relay" where
  "close_inner s = s\<lparr>rl_inner_open := False, rl_stdin_open := False, rl_out := (rl_out s)\<lparr>pu_eof := True\<rparr>, rl_err := (rl_err s)\<lparr>pu_eof := True\<rparr>\<rparr>"

definition close_outer :: "relay \<Rightarrow> relay" where
  "close_outer s = s\<lparr>rl_stdin_open := False, rl_outer_open := False, rl_in := (rl_in s)\<lparr>pu_eof := True\<rparr>\<rparr>"

definition copies_done :: "relay \<Rightarrow> bool" where
  "copies_done s \<longleftrightarrow> pu_copier (rl_in s) = CEnded \<and> pu_copier (rl_out s) = CEnded \<and> pu_copier (rl_err s) = CEnded"

text \<open>
  The steps of \<^verbatim>\<open>pipeSession\<close> itself, after \<^verbatim>\<open>waitForInnerOrOuter\<close> and \<^verbatim>\<open>waitForCopyDone\<close>. On return the deferred
  \<^verbatim>\<open>innerSess.Close\<close> runs, and the \<^verbatim>\<open>inner.Close\<close> its caller has deferred.
\<close>

inductive main_step :: "relay \<Rightarrow> relay \<Rightarrow> bool" where
  rm_exited: "rl_main s = RWaiting \<Longrightarrow> rl_exited s \<Longrightarrow> main_step s (s\<lparr>rl_main := RClosing\<rparr>)"
| rm_outer_done: "rl_main s = RWaiting \<Longrightarrow> input_done s
    \<Longrightarrow> main_step s (close_inner s\<lparr>rl_main := RWaitInner (rl_clock s + innerExitTimeout)\<rparr>)"
| rm_exited_after: "rl_main s = RWaitInner until \<Longrightarrow> rl_exited s \<Longrightarrow> main_step s (s\<lparr>rl_main := RClosing\<rparr>)"
| rm_exit_timeout: "rl_main s = RWaitInner until \<Longrightarrow> until \<le> rl_clock s \<Longrightarrow> main_step s (s\<lparr>rl_main := RClosing\<rparr>)"
| rm_close: "rl_main s = RClosing \<Longrightarrow> main_step s (close_outer s\<lparr>rl_main := RDraining (rl_clock s + copyDrainTimeout)\<rparr>)"
| rm_drained: "rl_main s = RDraining until \<Longrightarrow> copies_done s \<Longrightarrow> main_step s (close_inner s\<lparr>rl_main := RReturned True\<rparr>)"
| rm_drain_timeout: "rl_main s = RDraining until \<Longrightarrow> until \<le> rl_clock s \<Longrightarrow> main_step s (close_inner s\<lparr>rl_main := RReturned False\<rparr>)"

definition mark_since :: "relay \<Rightarrow> relay" where
  "mark_since s = (if rl_since s = None \<and> (rl_exited s \<or> input_done s) then s\<lparr>rl_since := Some (rl_clock s)\<rparr> else s)"

lemma mark_since_same [simp]:
  "rl_clock (mark_since s) = rl_clock s" "rl_in (mark_since s) = rl_in s" "rl_out (mark_since s) = rl_out s"
  "rl_err (mark_since s) = rl_err s" "rl_exited (mark_since s) = rl_exited s" "rl_main (mark_since s) = rl_main s"
  "rl_outer_open (mark_since s) = rl_outer_open s" "rl_inner_open (mark_since s) = rl_inner_open s"
  by (simp_all add: mark_since_def)

text \<open>
  All steps. The clock advances only while \<^verbatim>\<open>pipeSession\<close> has nothing to do: it is taken to be scheduled at once
  when one of its channels is ready or its timer has ended.
\<close>

inductive relay_step :: "relay \<Rightarrow> relay \<Rightarrow> bool" where
  rs_in: "pump_step (rl_stdin_open s) (rl_in s) p \<Longrightarrow> relay_step s (mark_since (s\<lparr>rl_in := p\<rparr>))"
| rs_out: "pump_step (rl_outer_open s) (rl_out s) p \<Longrightarrow> relay_step s (s\<lparr>rl_out := p\<rparr>)"
| rs_err: "pump_step (rl_outer_open s) (rl_err s) p \<Longrightarrow> relay_step s (s\<lparr>rl_err := p\<rparr>)"
| rs_exit: "\<not> rl_exited s \<Longrightarrow> relay_step s (mark_since (s\<lparr>rl_exited := True\<rparr>))"
| rs_main: "main_step s s' \<Longrightarrow> relay_step s s'"
| rs_tick: "\<nexists>s'. main_step s s' \<Longrightarrow> \<forall>b. rl_main s \<noteq> RReturned b \<Longrightarrow> relay_step s (s\<lparr>rl_clock := Suc (rl_clock s)\<rparr>)"

inductive relay_reachable :: "relay \<Rightarrow> bool" where
  relay_start: "relay_reachable new_relay"
| relay_more: "relay_reachable s \<Longrightarrow> relay_step s s' \<Longrightarrow> relay_reachable s'"

text \<open>
  Before that, the session is set up; \<open>calls\<close> are the outcomes of the five calls it always makes, \<open>pty\<close> that of
  replaying the terminal request of the outer client, if there was one.
\<close>

record pipe_calls =
  pc_NewSession :: "bytes option"
  pc_RequestPty :: "pendingPty \<Rightarrow> bytes option"
  pc_StdinPipe :: "bytes option"
  pc_StdoutPipe :: "bytes option"
  pc_StderrPipe :: "bytes option"
  pc_Shell :: "bytes option"

definition pipeSession_start :: "pipe_calls \<Rightarrow> pendingPty \<Rightarrow> bytes + relay" where
  "pipeSession_start calls pty = (case first_error ([pc_NewSession calls] @ (if pty_set pty then [pc_RequestPty calls pty] else [])
       @ [pc_StdinPipe calls, pc_StdoutPipe calls, pc_StderrPipe calls, pc_Shell calls]) of
     Some e \<Rightarrow> Err e | None \<Rightarrow> Ok new_relay)"

subsection \<open>It returns in time and leaves nothing behind\<close>

text \<open>What is true of the times, of the ends and of the copies in every state.\<close>

definition relay_times :: "relay \<Rightarrow> bool" where
  "relay_times s \<longleftrightarrow> (case rl_main s of
     RWaiting \<Rightarrow> (case rl_since s of None \<Rightarrow> \<not> rl_exited s \<and> \<not> input_done s
       | Some t \<Rightarrow> rl_clock s = t \<and> (rl_exited s \<or> input_done s))
   | RWaitInner until \<Rightarrow> (\<exists>t. rl_since s = Some t \<and> rl_clock s \<le> until \<and> until \<le> t + innerExitTimeout)
   | RClosing \<Rightarrow> (\<exists>t. rl_since s = Some t \<and> rl_clock s \<le> t + innerExitTimeout)
   | RDraining until \<Rightarrow> (\<exists>t. rl_since s = Some t \<and> rl_clock s \<le> until \<and> until \<le> t + innerExitTimeout + copyDrainTimeout)
   | RReturned b \<Rightarrow> (\<exists>t. rl_since s = Some t \<and> rl_clock s \<le> t + innerExitTimeout + copyDrainTimeout))"

definition relay_ends :: "relay \<Rightarrow> bool" where
  "relay_ends s \<longleftrightarrow> (case rl_main s of
     RDraining until \<Rightarrow> \<not> rl_outer_open s \<and> pu_eof (rl_in s)
   | RReturned b \<Rightarrow> \<not> rl_outer_open s \<and> \<not> rl_inner_open s \<and> \<not> rl_stdin_open s
        \<and> pu_eof (rl_in s) \<and> pu_eof (rl_out s) \<and> pu_eof (rl_err s)
   | _ \<Rightarrow> True)"

definition relay_inv :: "relay \<Rightarrow> bool" where
  "relay_inv s \<longleftrightarrow> pump_ok (rl_in s) \<and> pump_ok (rl_out s) \<and> pump_ok (rl_err s) \<and> relay_times s \<and> relay_ends s"

lemma main_step_enabled:
  "(\<exists>s'. main_step s s') \<longleftrightarrow> (case rl_main s of RWaiting \<Rightarrow> rl_exited s \<or> input_done s
     | RWaitInner until \<Rightarrow> rl_exited s \<or> until \<le> rl_clock s | RClosing \<Rightarrow> True
     | RDraining until \<Rightarrow> copies_done s \<or> until \<le> rl_clock s | RReturned b \<Rightarrow> False)"
  by (cases "rl_main s") (auto elim: main_step.cases intro: main_step.intros)

lemma relay_inv_main:
  assumes "main_step s s'" "relay_inv s" shows "relay_inv s'"
  using assms by (induction rule: main_step.induct)
    (auto simp: relay_inv_def relay_times_def relay_ends_def close_inner_def close_outer_def pump_ok_eof innerExitTimeout_def
      copyDrainTimeout_def input_done_def split: option.splits)

lemma pump_step_eof: "pump_step sink p p' \<Longrightarrow> pu_eof p \<Longrightarrow> pu_eof p'"
  using pump_work_step by blast

lemma input_stays_done: "pump_step sink p p' \<Longrightarrow> pu_copier p = CEnded \<Longrightarrow> pu_copier p' = CEnded"
  by (induction rule: pump_step.induct) auto

lemma relay_inv_step: "relay_step s s' \<Longrightarrow> relay_inv s \<Longrightarrow> relay_inv s'"
proof (induction rule: relay_step.induct)
  case (rs_in s p)
  have "pump_ok p" using pump_ok_step [OF rs_in(1)] rs_in(2) by (simp add: relay_inv_def)
  then show ?case using rs_in(2) input_stays_done [OF rs_in(1)] pump_step_eof [OF rs_in(1)]
    by (cases "rl_main s"; cases "rl_since s")
      (auto simp: relay_inv_def relay_times_def relay_ends_def mark_since_def input_done_def)
next
  case (rs_out s p)
  have "pump_ok p" using pump_ok_step [OF rs_out(1)] rs_out(2) by (simp add: relay_inv_def)
  then show ?case using rs_out(2) pump_step_eof [OF rs_out(1)]
    by (cases "rl_main s"; cases "rl_since s") (auto simp: relay_inv_def relay_times_def relay_ends_def input_done_def)
next
  case (rs_err s p)
  have "pump_ok p" using pump_ok_step [OF rs_err(1)] rs_err(2) by (simp add: relay_inv_def)
  then show ?case using rs_err(2) pump_step_eof [OF rs_err(1)]
    by (cases "rl_main s"; cases "rl_since s") (auto simp: relay_inv_def relay_times_def relay_ends_def input_done_def)
next
  case (rs_exit s)
  then show ?case by (cases "rl_main s"; cases "rl_since s")
      (auto simp: relay_inv_def relay_times_def relay_ends_def mark_since_def input_done_def)
next
  case (rs_main s s')
  then show ?case by (blast intro: relay_inv_main)
next
  case (rs_tick s)
  then have "\<not> (\<exists>s'. main_step s s')" by blast
  with rs_tick(2,3) show ?case unfolding main_step_enabled
    by (cases "rl_main s"; cases "rl_since s") (auto simp: relay_inv_def relay_times_def relay_ends_def input_done_def)
qed

lemma relay_inv_reachable: "relay_reachable s \<Longrightarrow> relay_inv s"
proof (induction rule: relay_reachable.induct)
  case relay_start
  show ?case by (simp add: relay_inv_def relay_times_def relay_ends_def new_relay_def input_done_def)
    (simp add: new_pump_def)
qed (rule relay_inv_step)

text \<open>The steps that bring the end nearer: those of \<^verbatim>\<open>pipeSession\<close> itself and the passing of time.\<close>

definition progresses :: "relay \<Rightarrow> relay \<Rightarrow> bool" where
  "progresses s s' \<longleftrightarrow> main_step s s' \<or> rl_clock s' = Suc (rl_clock s)"

definition main_rank :: "relay_main \<Rightarrow> nat" where
  "main_rank m = (case m of RWaiting \<Rightarrow> 4 | RWaitInner u \<Rightarrow> 3 | RClosing \<Rightarrow> 2 | RDraining u \<Rightarrow> 1 | RReturned b \<Rightarrow> 0)"

definition time_left :: "nat \<Rightarrow> relay \<Rightarrow> nat" where
  "time_left t s = main_rank (rl_main s) + (t + innerExitTimeout + copyDrainTimeout - rl_clock s)"

lemma clock_bound:
  assumes "relay_inv s" "rl_since s = Some t"
  shows "rl_clock s \<le> t + innerExitTimeout + copyDrainTimeout"
  using assms by (cases "rl_main s") (auto simp: relay_inv_def relay_times_def)

lemma main_step_rank:
  "main_step s s' \<Longrightarrow> main_rank (rl_main s') < main_rank (rl_main s) \<and> rl_clock s' = rl_clock s \<and> rl_since s' = rl_since s"
  by (induction rule: main_step.induct) (auto simp: main_rank_def close_inner_def close_outer_def)

lemma relay_step_time:
  assumes "relay_step s s'" "relay_inv s" "rl_since s = Some t"
  shows "rl_since s' = Some t \<and> time_left t s' \<le> time_left t s \<and> (progresses s s' \<longrightarrow> time_left t s' < time_left t s)"
proof -
  have after: "relay_inv s'" by (rule relay_inv_step [OF assms(1,2)])
  have tick: "time_left t s' < time_left t s" if "rl_main s' = rl_main s" "rl_clock s' = Suc (rl_clock s)" "rl_since s' = Some t"
    using clock_bound [OF after that(3)] that by (simp add: time_left_def)
  have main: "time_left t s' < time_left t s" if "main_step s s'"
    using main_step_rank [OF that] by (simp add: time_left_def)
  have "rl_since s' = Some t \<and> time_left t s' \<le> time_left t s
      \<and> (main_step s s' \<or> rl_main s' = rl_main s)"
    using assms(1,3) tick main main_step_rank
    by (induction rule: relay_step.induct) (auto simp: mark_since_def time_left_def less_imp_le)
  then show ?thesis using tick main unfolding progresses_def by blast
qed

inductive relay_run :: "nat \<Rightarrow> relay \<Rightarrow> relay \<Rightarrow> bool" where
  run_none: "relay_run 0 s s"
| run_step: "relay_run n s s' \<Longrightarrow> relay_step s' s'' \<Longrightarrow> relay_run (if progresses s' s'' then Suc n else n) s s''"

lemma relay_run_bound:
  assumes "relay_run n s s'" "relay_inv s" "rl_since s = Some t"
  shows "relay_inv s' \<and> rl_since s' = Some t \<and> n + time_left t s' \<le> time_left t s"
  using assms
proof (induction rule: relay_run.induct)
  case (run_step n s s' s'')
  then have ih: "relay_inv s'" "rl_since s' = Some t" "n + time_left t s' \<le> time_left t s" by blast+
  show ?case using relay_inv_step [OF run_step(2) ih(1)] relay_step_time [OF run_step(2) ih(1,2)] ih(3) by auto
qed simp

text \<open>What the goroutines of a session that has returned still have to do.\<close>

definition relay_work :: "relay \<Rightarrow> nat" where
  "relay_work s = pump_work (rl_in s) + pump_work (rl_out s) + pump_work (rl_err s) + (if rl_exited s then 0 else 1)"

lemma returned_work:
  assumes "relay_step s s'" "relay_inv s" "rl_main s = RReturned b"
  shows "relay_work s' < relay_work s"
proof -
  have eof: "pu_eof (rl_in s)" "pu_eof (rl_out s)" "pu_eof (rl_err s)"
    using assms(2,3) by (simp_all add: relay_inv_def relay_ends_def)
  have no: "\<not> main_step s s''" for s'' using assms(3) by (auto elim: main_step.cases)
  from assms(1) show ?thesis
  proof cases
    case (rs_in p)
    then show ?thesis using pump_work_step [OF rs_in(2) eof(1)] by (simp add: relay_work_def mark_since_def)
  next
    case (rs_out p)
    then show ?thesis using pump_work_step [OF rs_out(2) eof(2)] by (simp add: relay_work_def)
  next
    case (rs_err p)
    then show ?thesis using pump_work_step [OF rs_err(2) eof(3)] by (simp add: relay_work_def)
  qed (use no assms(3) in \<open>auto simp: relay_work_def mark_since_def\<close>)
qed

text \<open>
  C36. A relayed session ends. Once the outer client is done or the session at the VM has exited, at time \<open>t\<close>,
  \<^verbatim>\<open>pipeSession\<close> is never stuck, every run has at most 6004 steps of its own and of the clock before it has
  returned, and the clock never passes \<open>t\<close> plus 6 seconds before that, whatever the two sides and the copies
  do; when it has returned, both sides are closed and no goroutine copies for ever. In every state, what each side
  received is a prefix of what the other sent, and all of it if its copy ended without a failed write.
\<close>

theorem ssh_relay_returns:
  assumes "relay_reachable s" "rl_since s = Some t"
  shows "rl_clock s \<le> t + 6000 \<and> (\<forall>n s'. relay_run n s s' \<longrightarrow> n \<le> 6004)
    \<and> (if \<exists>b. rl_main s = RReturned b
       then \<not> rl_outer_open s \<and> \<not> rl_inner_open s \<and> (\<forall>s'. relay_step s s' \<longrightarrow> relay_work s' < relay_work s)
       else \<exists>s'. relay_step s s' \<and> progresses s s')
    \<and> (\<forall>p\<in>{rl_in s, rl_out s, rl_err s}. (\<exists>rest. pu_sent p = pu_got p @ rest)
        \<and> (pu_copier p = CEnded \<and> \<not> pu_failed p \<longrightarrow> pu_got p = pu_sent p))"
proof (intro conjI)
  note inv = relay_inv_reachable [OF assms(1)]
  have six: "innerExitTimeout + copyDrainTimeout = 6000" by (simp add: innerExitTimeout_def copyDrainTimeout_def)
  show "rl_clock s \<le> t + 6000" using clock_bound [OF inv assms(2)] six by simp
  have start: "t \<le> rl_clock s"
    using assms by (induction arbitrary: t rule: relay_reachable.induct)
      (auto simp: new_relay_def mark_since_def close_inner_def close_outer_def elim!: relay_step.cases main_step.cases split: if_splits)
  then have "time_left t s \<le> 6004" using six by (cases "rl_main s") (auto simp: time_left_def main_rank_def)
  then show "\<forall>n s'. relay_run n s s' \<longrightarrow> n \<le> 6004" using relay_run_bound [OF _ inv assms(2)] by fastforce
  show "if \<exists>b. rl_main s = RReturned b
     then \<not> rl_outer_open s \<and> \<not> rl_inner_open s \<and> (\<forall>s'. relay_step s s' \<longrightarrow> relay_work s' < relay_work s)
     else \<exists>s'. relay_step s s' \<and> progresses s s'"
  proof (cases "\<exists>b. rl_main s = RReturned b")
    case True
    then show ?thesis using inv returned_work by (auto simp: relay_inv_def relay_ends_def)
  next
    case False
    have "\<exists>s'. relay_step s s' \<and> progresses s s'"
    proof (cases "\<exists>s'. main_step s s'")
      case True
      then show ?thesis unfolding progresses_def by (blast intro: rs_main)
    next
      case no: False
      have "relay_step s (s\<lparr>rl_clock := Suc (rl_clock s)\<rparr>)" using no False by (intro rs_tick) auto
      then show ?thesis unfolding progresses_def by fastforce
    qed
    with False show ?thesis by simp
  qed
  have "pump_ok p" if "p \<in> {rl_in s, rl_out s, rl_err s}" for p using that inv by (auto simp: relay_inv_def)
  then show "\<forall>p\<in>{rl_in s, rl_out s, rl_err s}. (\<exists>rest. pu_sent p = pu_got p @ rest)
      \<and> (pu_copier p = CEnded \<and> \<not> pu_failed p \<longrightarrow> pu_got p = pu_sent p)"
    using pump_prefix pump_complete by blast
qed

lemma ssh_relay_returns_witness:
  "\<exists>s s'. relay_reachable s \<and> rl_since s = Some 0 \<and> rl_clock s \<le> 6000 \<and> relay_step s s' \<and> progresses s s'"
proof -
  let ?s = "mark_since (new_relay\<lparr>rl_exited := True\<rparr>)"
  have r: "relay_reachable ?s" by (rule relay_more [OF relay_start rs_exit]) (simp add: new_relay_def)
  have t: "rl_since ?s = Some 0" "\<nexists>b. rl_main ?s = RReturned b" by (simp_all add: mark_since_def new_relay_def)
  have "rl_clock ?s \<le> 6000 \<and> (\<exists>s'. relay_step ?s s' \<and> progresses ?s s')" using ssh_relay_returns [OF r t(1)] t(2) by simp
  then show ?thesis using r t(1) by blast
qed

text \<open>
  The output at the end of a session can be lost: the VM sends its last line and exits, \<^verbatim>\<open>pipeSession\<close> closes the
  outer side as soon as \<^verbatim>\<open>Wait\<close> returns, and the copy, which it waits for only afterwards, cannot write the
  line any more. The outer client has done nothing.
\<close>

lemma output_cut_off:
  "\<exists>s. relay_reachable s \<and> \<not> rl_outer_open s \<and> pu_sent (rl_in s) = [] \<and> pu_sent (rl_out s) = ''bye'' \<and> pu_got (rl_out s) = []
     \<and> (\<forall>s' n. relay_run n s s' \<longrightarrow> pu_got (rl_out s') = [])"
proof -
  let ?a = "new_relay\<lparr>rl_out := new_pump\<lparr>pu_in := ''bye'', pu_sent := ''bye''\<rparr>\<rparr>"
  let ?b = "mark_since (?a\<lparr>rl_exited := True\<rparr>)"
  let ?c = "?b\<lparr>rl_main := RClosing\<rparr>"
  let ?d = "close_outer ?c\<lparr>rl_main := RDraining (rl_clock ?c + copyDrainTimeout)\<rparr>"
  have "relay_step new_relay ?a"
    using rs_out [of new_relay "new_pump\<lparr>pu_in := ''bye'', pu_sent := ''bye''\<rparr>"] pu_arrive [of new_pump True "''bye''"]
    by (simp add: new_relay_def) (simp add: new_pump_def)
  then have a: "relay_reachable ?a" by (rule relay_more [OF relay_start])
  have b: "relay_reachable ?b" by (rule relay_more [OF a rs_exit]) (simp add: new_relay_def)
  have c: "relay_reachable ?c" by (rule relay_more [OF b rs_main [OF rm_exited]]) (simp_all add: mark_since_def new_relay_def)
  have d: "relay_reachable ?d" by (rule relay_more [OF c rs_main [OF rm_close]]) simp
  have closed: "\<not> rl_outer_open s' \<and> pu_got (rl_out s') = pu_got (rl_out s)"
    if "relay_step s s'" "\<not> rl_outer_open s" for s s'
    using that
  proof (induction rule: relay_step.induct)
    case (rs_out s p)
    from rs_out(1) have "pu_got p = pu_got (rl_out s)" by cases (use rs_out(2) in auto)
    then show ?case using rs_out(2) by simp
  next
    case (rs_main s s')
    then show ?case by (auto simp: close_inner_def close_outer_def elim!: main_step.cases)
  qed simp_all
  have "\<not> rl_outer_open s' \<and> pu_got (rl_out s') = pu_got (rl_out s)" if "relay_run n s s'" "\<not> rl_outer_open s" for n s s'
    using that closed by (induction rule: relay_run.induct) metis+
  then have "\<forall>s' n. relay_run n ?d s' \<longrightarrow> pu_got (rl_out s') = []"
    by (fastforce simp: close_outer_def mark_since_def new_relay_def new_pump_def)
  with d show ?thesis
    by (intro exI [of _ ?d]) (simp add: close_outer_def mark_since_def new_relay_def input_done_def new_pump_def)
qed

end
