(* ===== verification/Gateway_Dial.thy ===== *)
theory Gateway_Dial
  imports App_Gateway Ssh_Relay
begin

text \<open>
  How the app gateway reaches a VM: the addresses it reads from OpenStack (\<^verbatim>\<open>cmd/app-gateway/resolver.go\<close>), the
  connection it makes through the namespace proxy while the request may be cancelled, and the request it
  sends (\<^verbatim>\<open>proxy.go\<close>).
\<close>

subsection \<open>The resolver\<close>

text \<open>\<open>get\<close> is the request for a server, with its addresses.\<close>

definition app_ResolveFixedIPv4 :: "(bytes \<Rightarrow> bytes + (bytes \<times> any) list) \<Rightarrow> bytes \<Rightarrow> bytes \<Rightarrow> bytes + bytes" where
  "app_ResolveFixedIPv4 get fixedNetwork openstackID = (case get openstackID of
     Err e \<Rightarrow> Err e
   | Ok addresses \<Rightarrow> (case fixedIPv4FromAddresses addresses (TrimSpace fixedNetwork) of
       None \<Rightarrow> Err ''no single fixed IPv4 address'' | Some ip \<Rightarrow> Ok ip))"

subsection \<open>The dial\<close>

text \<open>
  \<^verbatim>\<open>DialContext\<close> of the transport: a goroutine dials and puts its result into a channel of one element;
  the caller takes the result or, when its context is done, starts a goroutine that takes it and closes
  the connection.
\<close>

type_synonym dial_result = "net_conn option \<times> bytes option"

datatype dial_caller = Selecting | GaveUp | Got dial_result

datatype dial_cleaner = NoCleaner | Cleaning | Cleaned

text \<open>The connection itself: not there, open with its deadline, or closed.\<close>

datatype conn_state = NoConn | OpenConn net_conn | ClosedConn

record dial_race =
  dr_dialing :: bool
  dr_ch :: "dial_result option"
  dr_ctx_done :: bool
  dr_caller :: dial_caller
  dr_cleaner :: dial_cleaner
  dr_conn :: conn_state

definition new_dial :: dial_race where
  "new_dial = \<lparr>dr_dialing = True, dr_ch = None, dr_ctx_done = False, dr_caller = Selecting, dr_cleaner = NoCleaner, dr_conn = NoConn\<rparr>"

text \<open>What the caller returns: a connection without a deadline, if there is one.\<close>

definition handed :: "dial_result \<Rightarrow> dial_result" where
  "handed r = (map_option (\<lambda>c. c\<lparr>nc_deadline := None\<rparr>) (fst r), snd r)"

definition conn_of :: "dial_result \<Rightarrow> conn_state" where
  "conn_of r = (case fst r of None \<Rightarrow> NoConn | Some c \<Rightarrow> OpenConn c)"

inductive dial_step :: "dial_race \<Rightarrow> dial_race \<Rightarrow> bool" where
  dr_dialed: "dr_dialing s \<Longrightarrow> dr_ch s = None \<Longrightarrow> dial_step s (s\<lparr>dr_dialing := False, dr_ch := Some r, dr_conn := conn_of r\<rparr>)"
| dr_cancelled: "\<not> dr_ctx_done s \<Longrightarrow> dial_step s (s\<lparr>dr_ctx_done := True\<rparr>)"
| dr_give_up: "dr_caller s = Selecting \<Longrightarrow> dr_ctx_done s \<Longrightarrow> dial_step s (s\<lparr>dr_caller := GaveUp, dr_cleaner := Cleaning\<rparr>)"
| dr_take: "dr_caller s = Selecting \<Longrightarrow> dr_ch s = Some r
    \<Longrightarrow> dial_step s (s\<lparr>dr_ch := None, dr_caller := Got (handed r), dr_conn := conn_of (handed r)\<rparr>)"
| dr_clean: "dr_cleaner s = Cleaning \<Longrightarrow> dr_ch s = Some r
    \<Longrightarrow> dial_step s (s\<lparr>dr_ch := None, dr_cleaner := Cleaned, dr_conn := (if fst r = None then NoConn else ClosedConn)\<rparr>)"

inductive dial_reachable :: "nat \<Rightarrow> dial_race \<Rightarrow> bool" where
  dial_start: "dial_reachable 0 new_dial"
| dial_more: "dial_reachable n s \<Longrightarrow> dial_step s s' \<Longrightarrow> dial_reachable (Suc n) s'"

text \<open>The six situations a dial can be in.\<close>

inductive dial_inv :: "dial_race \<Rightarrow> bool" where
  inv_dialing: "dr_dialing s \<Longrightarrow> dr_ch s = None \<Longrightarrow> dr_caller s = Selecting \<Longrightarrow> dr_cleaner s = NoCleaner \<Longrightarrow> dr_conn s = NoConn \<Longrightarrow> dial_inv s"
| inv_abandoned: "dr_dialing s \<Longrightarrow> dr_ch s = None \<Longrightarrow> dr_caller s = GaveUp \<Longrightarrow> dr_cleaner s = Cleaning \<Longrightarrow> dr_conn s = NoConn
    \<Longrightarrow> dr_ctx_done s \<Longrightarrow> dial_inv s"
| inv_ready: "\<not> dr_dialing s \<Longrightarrow> dr_ch s = Some r \<Longrightarrow> dr_caller s = Selecting \<Longrightarrow> dr_cleaner s = NoCleaner \<Longrightarrow> dr_conn s = conn_of r \<Longrightarrow> dial_inv s"
| inv_late: "\<not> dr_dialing s \<Longrightarrow> dr_ch s = Some r \<Longrightarrow> dr_caller s = GaveUp \<Longrightarrow> dr_cleaner s = Cleaning \<Longrightarrow> dr_conn s = conn_of r
    \<Longrightarrow> dr_ctx_done s \<Longrightarrow> dial_inv s"
| inv_got: "\<not> dr_dialing s \<Longrightarrow> dr_ch s = None \<Longrightarrow> dr_caller s = Got r \<Longrightarrow> dr_cleaner s = NoCleaner \<Longrightarrow> dr_conn s = conn_of r
    \<Longrightarrow> pred_option (\<lambda>c. nc_deadline c = None) (fst r) \<Longrightarrow> dial_inv s"
| inv_cleaned: "\<not> dr_dialing s \<Longrightarrow> dr_ch s = None \<Longrightarrow> dr_caller s = GaveUp \<Longrightarrow> dr_cleaner s = Cleaned \<Longrightarrow> \<forall>c. dr_conn s \<noteq> OpenConn c
    \<Longrightarrow> dr_ctx_done s \<Longrightarrow> dial_inv s"

lemma handed_deadline [simp]: "pred_option (\<lambda>c. nc_deadline c = None) (fst (handed r))"
  by (cases "fst r") (simp_all add: handed_def)

lemma dial_inv_step:
  assumes "dial_step s s'" "dial_inv s" shows "dial_inv s'"
  using assms(2)
proof cases
  case inv_dialing
  from assms(1) show ?thesis
    by cases (use inv_dialing in \<open>auto intro: dial_inv.intros\<close>)
next
  case inv_abandoned
  from assms(1) show ?thesis
    by cases (use inv_abandoned in \<open>auto intro: dial_inv.intros\<close>)
next
  case (inv_ready r)
  from assms(1) show ?thesis
    by cases (use inv_ready in \<open>auto intro: dial_inv.intros\<close>)
next
  case (inv_late r)
  from assms(1) show ?thesis
    by cases (use inv_late in \<open>auto intro: dial_inv.intros\<close>)
next
  case (inv_got r)
  from assms(1) show ?thesis
    by cases (use inv_got in \<open>auto intro: dial_inv.intros\<close>)
next
  case inv_cleaned
  from assms(1) show ?thesis
    by cases (use inv_cleaned in \<open>auto intro: dial_inv.intros\<close>)
qed

lemma dial_inv_reachable: "dial_reachable n s \<Longrightarrow> dial_inv s"
proof (induction rule: dial_reachable.induct)
  case dial_start
  show ?case by (rule inv_dialing) (simp_all add: new_dial_def)
qed (rule dial_inv_step)

text \<open>Every goroutine has a bounded number of steps left.\<close>

definition dial_work :: "dial_race \<Rightarrow> nat" where
  "dial_work s = (if dr_dialing s then 1 else 0) + (if dr_ctx_done s then 0 else 1)
     + (case dr_caller s of Selecting \<Rightarrow> 2 | _ \<Rightarrow> 0) + (case dr_cleaner s of Cleaning \<Rightarrow> 1 | _ \<Rightarrow> 0)"

lemma dial_work_step:
  assumes "dial_step s s'" "dial_inv s" shows "dial_work s' < dial_work s"
  using assms(1)
proof cases
  case dr_clean
  then show ?thesis by (auto simp: dial_work_def)
next
  case dr_give_up
  with assms(2) have "dr_cleaner s = NoCleaner" by cases auto
  then show ?thesis using dr_give_up by (simp add: dial_work_def)
next
  case (dr_take r)
  then show ?thesis by (simp add: dial_work_def)
qed (simp_all add: dial_work_def)

lemma dial_steps_bound: "dial_reachable n s \<Longrightarrow> n + dial_work s \<le> 4"
proof (induction rule: dial_reachable.induct)
  case dial_start
  show ?case by (simp add: dial_work_def new_dial_def)
next
  case (dial_more n s s')
  then show ?case using dial_work_step [OF dial_more(2) dial_inv_reachable [OF dial_more(1)]] by simp
qed

text \<open>
  C37. A dial of the app gateway ends and leaks nothing. Whatever the order in which the dial completes and the
  request is cancelled, there are at most four steps; no goroutine is stuck before the dial is done and the caller
  has its answer; and when nothing is left to do, the connection is closed unless the caller has it, and
  then it is open without the deadline of the handshake.
\<close>

theorem app_dial_ends:
  assumes "dial_reachable n s"
  shows "n \<le> 4 \<and> (dr_dialing s \<or> dr_caller s = Selecting \<or> dr_cleaner s = Cleaning \<longrightarrow> (\<exists>s'. dial_step s s'))
    \<and> ((\<nexists>s'. dial_step s s') \<longrightarrow> (case dr_caller s of
          Selecting \<Rightarrow> False
        | GaveUp \<Rightarrow> (\<forall>c. dr_conn s \<noteq> OpenConn c)
        | Got (Some c, e) \<Rightarrow> dr_conn s = OpenConn c \<and> nc_deadline c = None
        | Got (None, e) \<Rightarrow> dr_conn s = NoConn))"
proof (intro conjI)
  have inv: "dial_inv s" by (rule dial_inv_reachable [OF assms])
  show "n \<le> 4" using dial_steps_bound [OF assms] by simp
  have busy: "\<exists>s'. dial_step s s'" if b: "dr_dialing s \<or> dr_caller s = Selecting \<or> dr_cleaner s = Cleaning"
    using inv
  proof cases
    case inv_dialing
    then show ?thesis using dr_dialed by blast
  next
    case inv_abandoned
    then show ?thesis using dr_dialed by blast
  next
    case (inv_ready r)
    then show ?thesis using dr_take by blast
  next
    case (inv_late r)
    then show ?thesis using dr_clean by blast
  qed (use b in auto)
  then show "dr_dialing s \<or> dr_caller s = Selecting \<or> dr_cleaner s = Cleaning \<longrightarrow> (\<exists>s'. dial_step s s')" by blast
  have quiet: "\<not> dr_dialing s \<and> dr_caller s \<noteq> Selecting \<and> dr_cleaner s \<noteq> Cleaning" if "\<nexists>s'. dial_step s s'" using busy that by blast
  show "(\<nexists>s'. dial_step s s') \<longrightarrow> (case dr_caller s of
          Selecting \<Rightarrow> False
        | GaveUp \<Rightarrow> (\<forall>c. dr_conn s \<noteq> OpenConn c)
        | Got (Some c, e) \<Rightarrow> dr_conn s = OpenConn c \<and> nc_deadline c = None
        | Got (None, e) \<Rightarrow> dr_conn s = NoConn)"
  proof (intro impI)
    assume "\<nexists>s'. dial_step s s'"
    then have q: "\<not> dr_dialing s" "dr_caller s \<noteq> Selecting" "dr_cleaner s \<noteq> Cleaning" using quiet by blast+
    from inv show "case dr_caller s of
          Selecting \<Rightarrow> False
        | GaveUp \<Rightarrow> (\<forall>c. dr_conn s \<noteq> OpenConn c)
        | Got (Some c, e) \<Rightarrow> dr_conn s = OpenConn c \<and> nc_deadline c = None
        | Got (None, e) \<Rightarrow> dr_conn s = NoConn"
    proof cases
      case (inv_got r)
      then show ?thesis by (cases r; cases "fst r") (auto simp: conn_of_def)
    qed (use q in simp_all)
  qed
qed

lemma app_dial_ends_witness:
  "\<exists>s. dial_reachable 4 s \<and> dr_caller s = GaveUp \<and> dr_conn s = ClosedConn \<and> (\<nexists>s'. dial_step s s')"
proof -
  let ?c = "\<lparr>nc_deadline = Some 15\<rparr>"
  let ?a = "new_dial\<lparr>dr_ctx_done := True\<rparr>"
  let ?b = "?a\<lparr>dr_caller := GaveUp, dr_cleaner := Cleaning\<rparr>"
  let ?d = "?b\<lparr>dr_dialing := False, dr_ch := Some (Some ?c, None), dr_conn := OpenConn ?c\<rparr>"
  let ?e = "?d\<lparr>dr_ch := None, dr_cleaner := Cleaned, dr_conn := ClosedConn\<rparr>"
  have "dial_step new_dial ?a" by (rule dr_cancelled) (simp add: new_dial_def)
  moreover have "dial_step ?a ?b" by (rule dr_give_up) (simp_all add: new_dial_def)
  moreover have "dial_step ?b ?d" using dr_dialed [of ?b "(Some ?c, None)"] by (simp add: new_dial_def conn_of_def)
  moreover have "dial_step ?d ?e" using dr_clean [of ?d "(Some ?c, None)"] by (simp add: new_dial_def)
  ultimately have r: "dial_reachable (Suc (Suc (Suc (Suc 0)))) ?e" by (blast intro: dial_reachable.intros)
  moreover have "Suc (Suc (Suc (Suc 0))) = (4 :: nat)" by simp
  ultimately have four: "dial_reachable 4 ?e" by (simp only:)
  have e: "\<nexists>s'. dial_step ?e s'"
  proof
    assume "\<exists>s'. dial_step ?e s'"
    then obtain s' where "dial_step ?e s'" by blast
    then have "dial_reachable (Suc (Suc (Suc (Suc (Suc 0))))) s'" using r dial_more by blast
    from app_dial_ends [OF this] show False by simp
  qed
  show ?thesis by (rule exI [of _ ?e]) (use four e in \<open>simp add: new_dial_def\<close>)
qed

subsection \<open>The request to the VM\<close>

text \<open>
  A request as \<^verbatim>\<open>httputil.ReverseProxy\<close> handles it: the address of the URL, path and \<^verbatim>\<open>Host\<close>, the headers by
  their canonical names, the address of the client and whether it came over TLS. Before \<^verbatim>\<open>Rewrite\<close> the library takes
  the forwarding headers of the incoming request out.
\<close>

record proxy_request =
  px_Address :: bytes
  px_Path :: bytes
  px_Host :: bytes
  px_Header :: "bytes \<Rightarrow> bytes list"
  px_RemoteIP :: "bytes option"
  px_TLS :: bool

definition forwarding_headers :: "bytes list" where
  "forwarding_headers = [''Forwarded'', ''X-Forwarded-For'', ''X-Forwarded-Host'', ''X-Forwarded-Proto'']"

definition strip_forwarding :: "proxy_request \<Rightarrow> proxy_request" where
  "strip_forwarding r = r\<lparr>px_Header := (\<lambda>h. if h \<in> set forwarding_headers then [] else px_Header r h)\<rparr>"

definition singleJoiningSlash :: "bytes \<Rightarrow> bytes \<Rightarrow> bytes" where
  "singleJoiningSlash a b = (let aslash = HasSuffix a ''/''; bslash = HasPrefix b ''/'' in
     if aslash \<and> bslash then a @ drop 1 b else if \<not> aslash \<and> \<not> bslash then a @ ''/'' @ b else a @ b)"

definition SetURL :: "bytes \<Rightarrow> proxy_request \<Rightarrow> proxy_request" where
  "SetURL address out = out\<lparr>px_Address := address, px_Path := singleJoiningSlash [] (px_Path out), px_Host := []\<rparr>"

definition SetXForwarded :: "proxy_request \<Rightarrow> proxy_request \<Rightarrow> proxy_request" where
  "SetXForwarded inc out = out\<lparr>px_Header := (px_Header out)(
     ''X-Forwarded-For'' := (case px_RemoteIP inc of None \<Rightarrow> [] | Some ip \<Rightarrow> [concat (map (\<lambda>p. p @ '', '') (px_Header out ''X-Forwarded-For'')) @ ip]),
     ''X-Forwarded-Host'' := [px_Host inc], ''X-Forwarded-Proto'' := [if px_TLS inc then ''https'' else ''http''])\<rparr>"

definition newReverseProxy :: "bytes \<Rightarrow> bytes \<Rightarrow> proxy_request \<Rightarrow> proxy_request" where
  "newReverseProxy fixedIP targetPort inc = (let out = SetURL (JoinHostPort fixedIP targetPort) (strip_forwarding inc) in
     SetXForwarded inc (out\<lparr>px_Host := px_Host inc\<rparr>))"

text \<open>
  The app sees the host it is called by and the address of the client as the gateway sees it, whatever the
  client writes into the forwarding headers, and the request goes to the address of the VM.
\<close>

lemma forwarded_request:
  "px_Address (newReverseProxy ip port r) = JoinHostPort ip port"
  "px_Host (newReverseProxy ip port r) = px_Host r"
  "px_RemoteIP r = Some client \<Longrightarrow> px_Header (newReverseProxy ip port r) ''X-Forwarded-For'' = [client]"
  "px_Header (newReverseProxy ip port r) ''Forwarded'' = []"
  "h \<notin> set forwarding_headers \<Longrightarrow> px_Header (newReverseProxy ip port r) h = px_Header r h"
  by (simp_all add: newReverseProxy_def SetURL_def SetXForwarded_def strip_forwarding_def Let_def forwarding_headers_def)

end
