(* ===== verification/Function_Builder.thy ===== *)
theory Function_Builder
  imports Functions_Service
begin

text \<open>
  The service that compiles functions, \<^verbatim>\<open>cmd/function-builder\<close>: a request names a language and carries a source;
  the source is compiled in a container that sees two directories of its own, and the module it leaves is the
  answer. Docker and the file system of the host are parameters; what is stated of Docker is what its
  manual says of the options the code passes.
\<close>

subsection \<open>The file system\<close>

datatype host_file = Regular bytes | Directory | OtherFile

type_synonym files = "bytes \<rightharpoonup> host_file"

definition below :: "bytes \<Rightarrow> bytes \<Rightarrow> bool" where
  "below dir p \<longleftrightarrow> p = dir \<or> HasPrefix p (dir @ ''/'')"

definition RemoveAll :: "bytes \<Rightarrow> files \<Rightarrow> files" where
  "RemoveAll dir fs = (\<lambda>p. if below dir p then None else fs p)"

definition maxWasm :: nat where "maxWasm = 32 * 2 ^ 20"

definition maxSource :: nat where "maxSource = 256 * 2 ^ 10"

text \<open>\<open>io\<close> is the outcome of opening and reading the file.\<close>

definition readLimited :: "(bytes \<Rightarrow> bytes option) \<Rightarrow> bytes \<Rightarrow> files \<Rightarrow> bytes + bytes" where
  "readLimited io path fs = (case fs path of
     None \<Rightarrow> Err ''no such file''
   | Some (Regular content) \<Rightarrow> (case io path of Some e \<Rightarrow> Err e
       | None \<Rightarrow> let b = take (maxWasm + 1) content in
           if b = [] \<or> maxWasm < length b then Err ''invalid WASM output size'' else Ok b)
   | Some _ \<Rightarrow> Err ''WASM output must be a regular file'')"

subsection \<open>Output of the compiler\<close>

definition bounded_Write :: "bytes \<Rightarrow> bytes \<Rightarrow> bytes" where
  "bounded_Write buf p = (let remaining = 16 * 2 ^ 10 - length buf in if 0 < remaining then buf @ take remaining p else buf)"

lemma bounded_output: "foldl bounded_Write [] chunks = take (16 * 2 ^ 10) (concat chunks)"
proof (induction chunks rule: rev_induct)
  case (snoc p chunks)
  let ?n = "16 * 2 ^ 10 :: nat"
  show ?case
  proof (cases "length (concat chunks) < ?n")
    case True
    then show ?thesis using snoc by (simp add: bounded_Write_def Let_def)
  next
    case False
    then show ?thesis using snoc by (simp add: bounded_Write_def Let_def)
  qed
qed simp

subsection \<open>The container\<close>

record toolchain =
  tc_image :: bytes
  tc_filename :: bytes
  tc_command :: "bytes list"

definition toolchains :: "bytes \<rightharpoonup> toolchain" where
  "toolchains = [
     ''rust'' \<mapsto> \<lparr>tc_image = ''rcp-wasm-rust:1'', tc_filename = ''main.rs'',
        tc_command = [''rustc'', ''--target'', ''wasm32-wasip1'', ''-O'', ''-o'', ''/out/function.wasm'', ''/src/main.rs'']\<rparr>,
     ''go'' \<mapsto> \<lparr>tc_image = ''rcp-wasm-go:1'', tc_filename = ''main.go'',
        tc_command = [''go'', ''build'', ''-o'', ''/out/function.wasm'', ''/src/main.go'']\<rparr>,
     ''javascript'' \<mapsto> \<lparr>tc_image = ''rcp-wasm-javy:1'', tc_filename = ''main.js'',
        tc_command = [''javy'', ''build'', ''/src/main.js'', ''-o'', ''/out/function.wasm'']\<rparr>,
     ''python'' \<mapsto> \<lparr>tc_image = ''python:3.11-slim'', tc_filename = ''main.py'',
        tc_command = [''python'', ''-c'', ''import ast; ast.parse(open('/src/main.py', encoding='utf-8').read())'']\<rparr>]"

text \<open>
  The options of \<^verbatim>\<open>docker run\<close>; \<open>dir\<close> is the directory of the job, which also names the container.
\<close>

fun Base :: "bytes \<Rightarrow> bytes" where
  "Base p = rev (takeWhile (\<lambda>c. c \<noteq> CHR ''/'') (rev p))"

definition run_options :: "bytes \<Rightarrow> bytes \<Rightarrow> bytes list" where
  "run_options dir user = [''run'', ''--rm'', ''--name'', Base dir, ''--network'', ''none'', ''--read-only'', ''--cap-drop'', ''ALL'',
     ''--security-opt'', ''no-new-privileges'', ''--pids-limit'', ''128'', ''--memory'', ''1g'', ''--cpus'', ''1'', ''--user'', user,
     ''--tmpfs'', ''/tmp:rw,nosuid,nodev,size=256m'', ''-e'', ''HOME=/tmp'', ''-e'', ''GOCACHE=/tmp/go-cache'', ''-e'', ''GOPATH=/tmp/go'',
     ''-v'', dir @ ''/src:/src:ro'', ''-v'', dir @ ''/out:/out:rw'']"

definition run_args :: "bytes \<Rightarrow> bytes \<Rightarrow> toolchain \<Rightarrow> bytes list" where
  "run_args dir user tc = run_options dir user @ [tc_image tc] @ tc_command tc"

text \<open>What a run of Docker comes to: what it writes, how it ends, whether the time ran out, and the files after it.\<close>

record docker_run =
  dk_output :: "bytes list"
  dk_err :: "bytes option"
  dk_timeout :: bool
  dk_files :: files

text \<open>
  The surroundings of a build: the outcomes of making the directories and writing the source, user and group of the
  process, the configured Python runtime, Docker, and reading files.
\<close>

record build_env =
  be_MkdirTemp :: "bytes + bytes"
  be_Mkdir :: "bytes \<Rightarrow> bytes option"
  be_WriteFile :: "bytes \<Rightarrow> bytes option"
  be_user :: bytes
  be_python :: bytes
  be_docker :: "bytes list \<Rightarrow> files \<Rightarrow> docker_run"
  be_read :: "bytes \<Rightarrow> bytes option"

definition build_in :: "build_env \<Rightarrow> bytes \<Rightarrow> toolchain \<Rightarrow> bytes \<Rightarrow> bytes \<Rightarrow> files \<Rightarrow> (bytes + bytes) \<times> files" where
  "build_in env dir tc language source fs =
     (case be_Mkdir env (dir @ ''/src'') of Some e \<Rightarrow> (Err e, fs) | None \<Rightarrow>
      let fs = fs(dir @ ''/src'' \<mapsto> Directory) in
      case be_Mkdir env (dir @ ''/out'') of Some e \<Rightarrow> (Err e, fs) | None \<Rightarrow>
      let fs = fs(dir @ ''/out'' \<mapsto> Directory); src = dir @ ''/src/'' @ tc_filename tc in
      case be_WriteFile env src of Some e \<Rightarrow> (Err e, fs) | None \<Rightarrow>
      let fs = fs(src \<mapsto> Regular source); dr = be_docker env (run_args dir (be_user env) tc) fs; fs = dk_files dr in
      if dk_timeout dr then (Err ''build timed out'', fs)
      else case dk_err dr of
        Some e \<Rightarrow> (Err (e @ '': '' @ TrimSpace (foldl bounded_Write [] (dk_output dr))), fs)
      | None \<Rightarrow> (if language = ''python'' then
            (if be_python env = [] then Err ''RCP_PYTHON_WASM_PATH is required'' else readLimited (be_read env) (be_python env) fs)
          else readLimited (be_read env) (dir @ ''/out/function.wasm'') fs, fs))"

text \<open>\<^verbatim>\<open>build\<close>: the deferred \<^verbatim>\<open>os.RemoveAll\<close> runs on every way out.\<close>

definition build :: "build_env \<Rightarrow> bytes \<Rightarrow> bytes \<Rightarrow> files \<Rightarrow> (bytes + bytes) \<times> files" where
  "build env language source fs = (case toolchains language of
     None \<Rightarrow> (Err ''unsupported language'', fs)
   | Some tc \<Rightarrow> if source = [] \<or> maxSource < length source then (Err ''invalid source size'', fs)
      else (case be_MkdirTemp env of Err e \<Rightarrow> (Err e, fs)
        | Ok dir \<Rightarrow> (case build_in env dir tc language source (fs(dir \<mapsto> Directory)) of
            (r, fs) \<Rightarrow> (r, RemoveAll dir fs))))"

subsection \<open>The handler\<close>

text \<open>
  A request: method, path, the language of its query and its body, which may fail to be read. \<open>busy\<close> is the number of
  builds under way, of which there are at most two.
\<close>

record build_request =
  br_Method :: bytes
  br_Path :: bytes
  br_language :: bytes
  br_body :: "bytes option"

definition acquire :: "nat \<Rightarrow> nat option" where
  "acquire busy = (if busy < 2 then Some (Suc busy) else None)"

definition builder_ServeHTTP :: "build_env \<Rightarrow> nat \<Rightarrow> build_request \<Rightarrow> files \<Rightarrow> (nat \<times> bytes) \<times> files" where
  "builder_ServeHTTP env busy r fs =
     (if br_Method r \<noteq> ''POST'' \<or> br_Path r \<noteq> ''/build'' then ((404, ''404 page not found''), fs)
      else case acquire busy of None \<Rightarrow> ((429, ''builder busy''), fs)
      | Some _ \<Rightarrow> (case map_option (take (maxSource + 1)) (br_body r) of
          None \<Rightarrow> ((413, ''source too large''), fs)
        | Some body \<Rightarrow> if maxSource < length body then ((413, ''source too large''), fs)
            else (case build env (br_language r) body fs of
              (Err e, fs) \<Rightarrow> ((400, e), fs) | (Ok wasm, fs) \<Rightarrow> ((200, wasm), fs))))"

text \<open>The slots over time: requests that come in and requests that end, whichever way.\<close>

datatype slot_event = Arrives | Ends

fun slots_after :: "slot_event list \<Rightarrow> nat" where
  "slots_after [] = 0"
| "slots_after (Arrives # es) = (case acquire (slots_after es) of None \<Rightarrow> slots_after es | Some n \<Rightarrow> n)"
| "slots_after (Ends # es) = slots_after es - 1"

lemma at_most_two_builds: "slots_after es \<le> 2"
  by (induction es rule: slots_after.induct) (auto simp: acquire_def split: option.splits)

subsection \<open>A build is confined\<close>

text \<open>
  The options as Docker reads them: all that are passed take a value but two, and the first argument that is no
  option is the image.
\<close>

fun docker_options :: "bytes list \<Rightarrow> (bytes \<times> bytes) list" where
  "docker_options [] = []"
| "docker_options (a # rest) = (if \<not> HasPrefix a ''-'' then []
     else if a \<in> {''--rm'', ''--read-only''} then (a, []) # docker_options rest
     else case rest of [] \<Rightarrow> [] | v # rest \<Rightarrow> (a, v) # docker_options rest)"

definition known_options :: "bytes list" where
  "known_options = [''--rm'', ''--name'', ''--network'', ''--read-only'', ''--cap-drop'', ''--security-opt'', ''--pids-limit'', ''--memory'',
     ''--cpus'', ''--user'', ''--tmpfs'', ''-e'', ''-v'']"

text \<open>No network, no writable image, no capabilities, no new privileges, limits, and no option that gives anything back.\<close>

definition isolated :: "bytes list \<Rightarrow> bool" where
  "isolated args \<longleftrightarrow> (let os = docker_options (tl args) in hd args = ''run''
     \<and> {(''--network'', ''none''), (''--read-only'', []), (''--cap-drop'', ''ALL''), (''--security-opt'', ''no-new-privileges'')} \<subseteq> set os
     \<and> {''--pids-limit'', ''--memory'', ''--cpus'', ''--user''} \<subseteq> set (map fst os) \<and> set (map fst os) \<subseteq> set known_options)"

definition writable_mount :: "bytes \<times> bytes \<Rightarrow> bytes option" where
  "writable_mount = (\<lambda>(a, v). if a = ''-v'' \<and> \<not> HasSuffix v '':ro'' then Some (takeWhile (\<lambda>c. c \<noteq> CHR '':'') v) else None)"

definition writable_mounts :: "bytes list \<Rightarrow> bytes list" where
  "writable_mounts args = List.map_filter writable_mount (docker_options (tl args))"

text \<open>An isolated container changes no file of the host outside what is mounted writable.\<close>

definition lawful_docker :: "(bytes list \<Rightarrow> files \<Rightarrow> docker_run) \<Rightarrow> bool" where
  "lawful_docker docker \<longleftrightarrow> (\<forall>args fs p. isolated args \<and> (\<forall>m\<in>set (writable_mounts args). \<not> below m p)
     \<longrightarrow> dk_files (docker args fs) p = fs p)"

lemma run_args_options:
  assumes "toolchains language = Some tc"
  shows "docker_options (tl (run_args dir user tc)) = [(''--rm'', []), (''--name'', Base dir), (''--network'', ''none''),
     (''--read-only'', []), (''--cap-drop'', ''ALL''), (''--security-opt'', ''no-new-privileges''), (''--pids-limit'', ''128''),
     (''--memory'', ''1g''), (''--cpus'', ''1''), (''--user'', user), (''--tmpfs'', ''/tmp:rw,nosuid,nodev,size=256m''), (''-e'', ''HOME=/tmp''),
     (''-e'', ''GOCACHE=/tmp/go-cache''), (''-e'', ''GOPATH=/tmp/go''), (''-v'', dir @ ''/src:/src:ro''), (''-v'', dir @ ''/out:/out:rw'')]"
proof -
  have "\<not> HasPrefix (tc_image tc) ''-''"
    using assms by (auto simp: toolchains_def HasPrefix_def split: if_splits)
  then have "docker_options (tc_image tc # tc_command tc) = []" by simp
  then show ?thesis by (simp add: run_args_def run_options_def HasPrefix_def del: Base.simps)
qed

lemma run_args_isolated: "toolchains language = Some tc \<Longrightarrow> isolated (run_args dir user tc)"
  unfolding isolated_def run_args_options Let_def
  by (simp add: run_args_options known_options_def del: Base.simps) (simp add: run_args_def run_options_def)

lemma run_args_mounts:
  assumes "toolchains language = Some tc" "CHR '':'' \<notin> set dir"
  shows "writable_mounts (run_args dir user tc) = [dir @ ''/out'']"
proof -
  have "takeWhile (\<lambda>c. c \<noteq> CHR '':'') (dir @ ''/out:/out:rw'') = dir @ ''/out''"
    using assms(2) by (subst takeWhile_append2) auto
  moreover have "HasSuffix (dir @ ''/src:/src:ro'') '':ro''" "\<not> HasSuffix (dir @ ''/out:/out:rw'') '':ro''"
    by (simp_all add: HasSuffix_def HasPrefix_def)
  ultimately show ?thesis
    unfolding writable_mounts_def run_args_options [OF assms(1)] by (simp add: writable_mount_def List.map_filter_def del: Base.simps)
qed

lemma below_trans: "below (dir @ ''/out'') p \<Longrightarrow> below dir p"
  by (auto simp: below_def HasPrefix_iff)

lemma docker_keeps:
  assumes "lawful_docker docker" "toolchains language = Some tc" "CHR '':'' \<notin> set dir" "\<not> below dir p"
  shows "dk_files (docker (run_args dir user tc) fs) p = fs p"
proof -
  have "isolated (run_args dir user tc)" by (rule run_args_isolated [OF assms(2)])
  moreover have "\<forall>m\<in>set (writable_mounts (run_args dir user tc)). \<not> below m p"
    using run_args_mounts [OF assms(2,3)] assms(4) below_trans by auto
  ultimately show ?thesis using assms(1) unfolding lawful_docker_def by blast
qed

lemma readLimited_Ok:
  assumes "readLimited io path fs = Ok b"
  shows "fs path = Some (Regular b) \<and> b \<noteq> [] \<and> length b \<le> maxWasm"
  using assms by (auto simp: readLimited_def Let_def split: option.splits host_file.splits if_splits)

text \<open>Outside its directory a build leaves the files as they are, and what it returns was read from one of two places.\<close>

lemma build_in_effect:
  assumes "lawful_docker (be_docker env)" "toolchains language = Some tc" "CHR '':'' \<notin> set dir"
    and "build_in env dir tc language source fs = (r, fs')"
  shows "(\<forall>p. \<not> below dir p \<longrightarrow> fs' p = fs p)
    \<and> (\<forall>b. r = Ok b \<longrightarrow> b \<noteq> [] \<and> length b \<le> maxWasm
        \<and> fs' (if language = ''python'' then be_python env else dir @ ''/out/function.wasm'') = Some (Regular b))"
proof -
  let ?fs = "fs(dir @ ''/src'' \<mapsto> Directory, dir @ ''/out'' \<mapsto> Directory, dir @ ''/src/'' @ tc_filename tc \<mapsto> Regular source)"
  let ?dr = "be_docker env (run_args dir (be_user env) tc) ?fs"
  have own: "below dir (dir @ ''/src'')" "below dir (dir @ ''/out'')" "below dir (dir @ ''/src/'' @ tc_filename tc)"
    by (auto simp: below_def HasPrefix_iff)
  then have eq: "\<not> below dir p \<Longrightarrow> ?fs p = fs p" for p by auto
  have dk: "\<not> below dir p \<Longrightarrow> dk_files ?dr p = fs p" for p
    using docker_keeps [OF assms(1-3)] eq by simp
  consider (early) e where "r = Err e" "fs' = fs \<or> fs' = fs(dir @ ''/src'' \<mapsto> Directory)
      \<or> fs' = fs(dir @ ''/src'' \<mapsto> Directory, dir @ ''/out'' \<mapsto> Directory)"
    | (ran) "fs' = dk_files ?dr" "\<forall>b. r = Ok b \<longrightarrow> readLimited (be_read env)
        (if language = ''python'' then be_python env else dir @ ''/out/function.wasm'') (dk_files ?dr) = Ok b"
    using assms(4) unfolding build_in_def Let_def by (auto split: option.splits if_splits)
  then show ?thesis
  proof cases
    case early
    then show ?thesis using own by (auto simp: fun_upd_apply)
  next
    case ran
    then show ?thesis using dk readLimited_Ok by blast
  qed
qed


text \<open>A Docker that leaves one file in the first directory that is mounted writable.\<close>

definition small_docker :: "bytes list \<Rightarrow> files \<Rightarrow> docker_run" where
  "small_docker args fs = \<lparr>dk_output = [], dk_err = None, dk_timeout = False,
     dk_files = (case writable_mounts args of m # _ \<Rightarrow> fs(m @ ''/function.wasm'' \<mapsto> Regular ''asm'') | [] \<Rightarrow> fs)\<rparr>"

lemma small_docker_lawful: "lawful_docker small_docker"
proof (unfold lawful_docker_def, intro allI impI)
  fix args fs p
  assume "isolated args \<and> (\<forall>m\<in>set (writable_mounts args). \<not> below m p)"
  moreover have "below m (m @ ''/function.wasm'')" for m by (auto simp: below_def HasPrefix_iff)
  ultimately show "dk_files (small_docker args fs) p = fs p"
    by (cases "writable_mounts args") (auto simp: small_docker_def)
qed

definition small_build_env :: build_env where
  "small_build_env = \<lparr>be_MkdirTemp = Ok ''/tmp/b1'', be_Mkdir = (\<lambda>_. None), be_WriteFile = (\<lambda>_. None), be_user = ''7:7'',
     be_python = ''/opt/py.wasm'', be_docker = small_docker, be_read = (\<lambda>_. None)\<rparr>"

definition small_build_request :: build_request where
  "small_build_request = \<lparr>br_Method = ''POST'', br_Path = ''/build'', br_language = ''go'', br_body = Some ''package main''\<rparr>"

lemma small_build:
  "\<exists>fs'. builder_ServeHTTP small_build_env 1 small_build_request (\<lambda>_. None) = ((200, ''asm''), fs')"
proof -
  obtain tc where tc: "toolchains ''go'' = Some tc" by (simp add: toolchains_def)
  have "writable_mounts (run_args ''/tmp/b1'' ''7:7'' tc) = [''/tmp/b1'' @ ''/out'']"
    by (rule run_args_mounts [OF tc]) simp
  then have m: "writable_mounts (run_args ''/tmp/b1'' ''7:7'' tc) = [''/tmp/b1/out'']" by simp
  obtain fs' where "build_in small_build_env ''/tmp/b1'' tc ''go'' ''package main'' ((\<lambda>_. None)(''/tmp/b1'' \<mapsto> Directory)) = (Ok ''asm'', fs')"
    by (simp add: build_in_def small_build_env_def small_docker_def m readLimited_def maxWasm_def Let_def)
  then have "\<exists>fs'. build small_build_env ''go'' ''package main'' (\<lambda>_. None) = (Ok ''asm'', fs')"
    by (simp add: build_def tc maxSource_def) (simp add: small_build_env_def)
  then show ?thesis by (auto simp: builder_ServeHTTP_def small_build_request_def acquire_def maxSource_def)
qed


subsection \<open>The builder behind the functions service\<close>

text \<open>The exchange of \<^verbatim>\<open>SocketBuilder.Build\<close> with the builder over its socket. The files of the builder's host are the world.\<close>

definition post_build :: "build_env \<Rightarrow> nat \<Rightarrow> bytes \<Rightarrow> bytes \<Rightarrow> files \<Rightarrow> build_reply \<times> files" where
  "post_build env busy language source fs = (case builder_ServeHTTP env busy
       \<lparr>br_Method = ''POST'', br_Path = ''/build'', br_language = language, br_body = Some source\<rparr> fs of
     ((status, body), fs) \<Rightarrow> (Reply status body, fs))"

lemma build_Ok:
  assumes "build env language source fs = (Ok wasm, fs')"
  obtains tc dir fs2 where "build_in env dir tc language source (fs(dir \<mapsto> Directory)) = (Ok wasm, fs2)"
proof (cases "toolchains language")
  case None
  then show thesis using assms by (simp add: build_def)
next
  case (Some tc)
  show thesis
  proof (cases "be_MkdirTemp env")
    case (Inl e)
    from assms [unfolded build_def Inl] show thesis using Some by (simp split: if_splits)
  next
    case (Inr dir)
    from assms [unfolded build_def Inr] show thesis using Some that by (auto split: if_splits prod.splits)
  qed
qed

text \<open>
  The limits of the two programs agree: for a language and a source the service sends, the builder has no complaint
  of its own, and the service takes every module the builder answers. So the service gets exactly the outcome of
  \<^verbatim>\<open>build\<close>, and every failure of the builder, its own ones included, as a failed build.
\<close>

lemma Build_end_to_end:
  assumes "language \<in> {''rust'', ''go'', ''javascript'', ''python''}" "source \<noteq> []" "length source \<le> MaxSourceBytes"
  shows "Build (post_build env busy) language source fs =
    (if 2 \<le> busy then (Err ErrBuildFailed, fs)
     else (case build env language source fs of (Err e, fs') \<Rightarrow> (Err ErrBuildFailed, fs') | (Ok wasm, fs') \<Rightarrow> (Ok wasm, fs')))"
proof (cases "2 \<le> busy")
  case True
  then show ?thesis by (simp add: Build_def post_build_def builder_ServeHTTP_def acquire_def)
next
  case False
  have src: "length source \<le> maxSource" using assms(3) by (simp add: MaxSourceBytes_def maxSource_def)
  obtain x fs' where b: "build env language source fs = (x, fs')" by force
  have big: "length wasm \<le> MaxWasmBytes" if w: "x = Ok wasm" for wasm
  proof -
    obtain tc dir fs2 where "build_in env dir tc language source (fs(dir \<mapsto> Directory)) = (Ok wasm, fs2)"
      using b [unfolded w] by (rule build_Ok)
    then have "\<exists>path fs3. readLimited (be_read env) path fs3 = Ok wasm"
      by (auto simp: build_in_def Let_def split: option.splits if_splits)
    then show ?thesis using readLimited_Ok by (fastforce simp: maxWasm_def MaxWasmBytes_def)
  qed
  show ?thesis
    using False src b big by (cases x) (auto simp: Build_def post_build_def builder_ServeHTTP_def acquire_def)
qed

end
