(* ===== verification/Http_Router.thy ===== *)
theory Http_Router
  imports Auth_Service
begin

text \<open>
  The API as one HTTP server: \<^verbatim>\<open>internal/server\<close> (\<^verbatim>\<open>router.go\<close>, \<^verbatim>\<open>cors.go\<close>) with the routes every domain
  registers in its \<^verbatim>\<open>InitRoutes\<close>, and \<^verbatim>\<open>internal/api\<close>. Which handler a request reaches, and behind
  which filters, is stated here; what the handlers do is in the theories of the domains. The matching of
  paths is gin's, a parameter.
\<close>

subsection \<open>Routes\<close>

text \<open>The filters a route stands behind: none, \<^verbatim>\<open>AuthRequired\<close>, or \<^verbatim>\<open>AuthRequired\<close> and \<^verbatim>\<open>AdminRequired\<close>.\<close>

datatype guard = Open | UserGuard | AdminGuard

record route =
  rt_Method :: bytes
  rt_Path :: bytes
  rt_guard :: guard
  rt_handler :: bytes

text \<open>A group: the path of its routes and the filters it uses.\<close>

record router_group =
  rg_path :: bytes
  rg_guard :: guard

definition joinPaths :: "bytes \<Rightarrow> bytes \<Rightarrow> bytes" where
  "joinPaths absolute relative = (if relative = [] then absolute else TrimRight CHR ''/'' absolute @ relative)"

definition Group :: "router_group \<Rightarrow> bytes \<Rightarrow> router_group" where
  "Group rg path = rg\<lparr>rg_path := joinPaths (rg_path rg) path\<rparr>"

definition register :: "router_group \<Rightarrow> bytes \<times> bytes \<times> bytes \<Rightarrow> route" where
  "register rg = (\<lambda>(m, path, h). \<lparr>rt_Method = m, rt_Path = joinPaths (rg_path rg) path, rt_guard = rg_guard rg, rt_handler = h\<rparr>)"

definition auth_InitRoutes :: "router_group \<Rightarrow> route list" where
  "auth_InitRoutes rg = (let authGroup = Group rg ''/auth''; oauthGroup = Group authGroup ''/oauth/google'' in
     map (register authGroup) [(''GET'', ''/me'', ''auth.Me''), (''POST'', ''/refresh'', ''auth.Refresh''), (''POST'', ''/logout'', ''auth.Logout'')]
     @ map (register oauthGroup) [(''GET'', [], ''auth.Login''), (''GET'', ''/callback'', ''auth.Callback'')])"

definition access_InitPublicRoutes :: "router_group \<Rightarrow> route list" where
  "access_InitPublicRoutes rg = map (register (Group rg ''/access'')) [(''GET'', ''/console/ws'', ''access.WebConsole'')]"

definition access_InitInternalRoutes :: "router_group \<Rightarrow> route list" where
  "access_InitInternalRoutes rg = map (register (Group rg ''/internal/ssh''))
     [(''GET'', ''/authorized-keys'', ''access.GetAuthorizedKeys''), (''POST'', ''/ephemeral-keys'', ''access.AddEphemeralAuthorizedKey''),
      (''DELETE'', ''/ephemeral-keys'', ''access.DeleteEphemeralAuthorizedKey'')]"

definition access_InitRoutes :: "router_group \<Rightarrow> route list" where
  "access_InitRoutes rg = map (register (Group rg ''/access''))
     [(''GET'', ''/keypairs'', ''access.ListKeyPairs''), (''POST'', ''/keypairs'', ''access.CreateKeyPair''),
      (''GET'', ''/keypairs/:name'', ''access.GetKeyPair''), (''DELETE'', ''/keypairs/:name'', ''access.DeleteKeyPair''),
      (''POST'', ''/instances/:id/console-sessions'', ''access.CreateConsoleSession'')]"

definition admin_InitRoutes :: "router_group \<Rightarrow> route list" where
  "admin_InitRoutes rg = map (register (Group rg ''/admin''))
     [(''GET'', ''/summary'', ''admin.Summary''), (''GET'', ''/users'', ''admin.Users''), (''GET'', ''/users/:id/resources'', ''admin.UserResources''),
      (''GET'', ''/instances'', ''admin.Instances''), (''GET'', ''/instances/:id'', ''admin.Instance''),
      (''GET'', ''/containers'', ''admin.Containers''), (''GET'', ''/containers/:id'', ''admin.Container''), (''GET'', ''/system'', ''admin.System'')]"

definition apps_InitRoutes :: "router_group \<Rightarrow> route list" where
  "apps_InitRoutes rg = map (register (Group rg ''/compute''))
     [(''POST'', ''/instances/:id/app'', ''apps.RegisterApp''), (''DELETE'', ''/instances/:id/app'', ''apps.DeleteApp'')]"

definition blockstorage_InitRoutes :: "router_group \<Rightarrow> route list" where
  "blockstorage_InitRoutes rg = map (register (Group rg ''/block-storage''))
     [(''GET'', ''/volumes'', ''blockstorage.ListVolumes''), (''POST'', ''/volumes'', ''blockstorage.CreateVolume''),
      (''GET'', ''/volumes/:id'', ''blockstorage.GetVolume''), (''PATCH'', ''/volumes/:id'', ''blockstorage.UpdateVolume''),
      (''DELETE'', ''/volumes/:id'', ''blockstorage.DeleteVolume''), (''POST'', ''/volumes/:id/attachments'', ''blockstorage.AttachVolume''),
      (''DELETE'', ''/volumes/:id/attachments/:instanceId'', ''blockstorage.DetachVolume''),
      (''GET'', ''/snapshots'', ''blockstorage.ListSnapshots''), (''POST'', ''/volumes/:id/snapshots'', ''blockstorage.CreateSnapshot''),
      (''DELETE'', ''/snapshots/:id'', ''blockstorage.DeleteSnapshot'')]"

definition compute_InitRoutes :: "router_group \<Rightarrow> route list" where
  "compute_InitRoutes rg = map (register (Group rg ''/compute''))
     [(''GET'', ''/flavors'', ''compute.GetFlavors''), (''GET'', ''/instances'', ''compute.GetInstances''),
      (''GET'', ''/instances/:id'', ''compute.GetInstanceDetail''), (''POST'', ''/instances'', ''compute.CreateInstance''),
      (''PATCH'', ''/instances/:id'', ''compute.UpdateInstance''), (''POST'', ''/instances/:id/pause'', ''compute.PauseInstance''),
      (''POST'', ''/instances/:id/unpause'', ''compute.UnpauseInstance''), (''DELETE'', ''/instances/:id'', ''compute.DeleteInstance'')]"

definition storage_InitRoutes :: "router_group \<Rightarrow> route list" where
  "storage_InitRoutes rg = map (register (Group rg ''/storage''))
     [(''GET'', ''/containers'', ''storage.ListContainers''), (''POST'', ''/containers'', ''storage.CreateContainer''),
      (''DELETE'', ''/containers/:name'', ''storage.DeleteContainer''), (''GET'', ''/containers/:name/objects'', ''storage.ListObjects''),
      (''GET'', ''/containers/:name/archive'', ''storage.ArchiveObjects''), (''POST'', ''/containers/:name/objects/*key'', ''storage.UploadObject''),
      (''GET'', ''/containers/:name/objects/*key'', ''storage.DownloadObject''), (''DELETE'', ''/containers/:name/objects/*key'', ''storage.DeleteObject'')]"

definition functions_InitPublicRoutes :: "router_group \<Rightarrow> route list" where
  "functions_InitPublicRoutes rg = map (\<lambda>m. register rg (m, ''/run/:id/*path'', ''functions.publicHTTP''))
     [''GET'', ''HEAD'', ''POST'', ''PUT'', ''PATCH'', ''DELETE'', ''OPTIONS'']"

definition functions_InitRoutes :: "router_group \<Rightarrow> route list" where
  "functions_InitRoutes rg = map (register (Group rg ''/databases''))
     [(''GET'', [], ''functions.listDatabases''), (''POST'', [], ''functions.createDatabase''),
      (''DELETE'', ''/:db_id'', ''functions.deleteDatabase''), (''POST'', ''/:db_id/query'', ''functions.queryDatabase'')]
   @ map (register (Group rg ''/functions''))
     [(''GET'', [], ''functions.list''), (''POST'', [], ''functions.create''), (''PUT'', ''/:id'', ''functions.update''),
      (''DELETE'', ''/:id'', ''functions.delete''), (''POST'', ''/:id/invoke'', ''functions.invoke''), (''POST'', ''/:id/key'', ''functions.issueKey''),
      (''DELETE'', ''/:id/key'', ''functions.revokeKey''), (''GET'', ''/:id/databases'', ''functions.listBindings''),
      (''PUT'', ''/:id/databases/:alias'', ''functions.bindDatabase''), (''DELETE'', ''/:id/databases/:alias'', ''functions.unbindDatabase''),
      (''GET'', ''/:id/data/:collection'', ''functions.listData''), (''GET'', ''/:id/data/:collection/:key'', ''functions.getData''),
      (''PUT'', ''/:id/data/:collection/:key'', ''functions.putData''), (''DELETE'', ''/:id/data/:collection/:key'', ''functions.deleteData'')]"

text \<open>\<^verbatim>\<open>NewRouter\<close> for the app that \<^verbatim>\<open>NewApp\<close> makes, in which every handler is set.\<close>

definition BasePath :: bytes where "BasePath = ''/api/v1''"

definition NewRouter :: "route list" where
  "NewRouter = (let v1 = \<lparr>rg_path = BasePath, rg_guard = Open\<rparr>; protected = Group v1 ''/''\<lparr>rg_guard := UserGuard\<rparr>;
       adminGroup = Group v1 ''/''\<lparr>rg_guard := AdminGuard\<rparr> in
     auth_InitRoutes v1 @ access_InitPublicRoutes v1 @ access_InitInternalRoutes v1 @ functions_InitPublicRoutes v1
     @ access_InitRoutes protected @ apps_InitRoutes protected @ blockstorage_InitRoutes protected @ compute_InitRoutes protected
     @ storage_InitRoutes protected @ functions_InitRoutes protected @ admin_InitRoutes adminGroup)"

subsection \<open>Matching\<close>

text \<open>
  What gin documents of a pattern: \<open>:name\<close> stands for one segment of the path, \<open>*name\<close> for the rest of it.
\<close>

datatype pattern_seg = Lit bytes | Param | CatchAll

definition seg_of :: "bytes \<Rightarrow> pattern_seg" where
  "seg_of s = (if HasPrefix s '':'' then Param else if HasPrefix s ''*'' then CatchAll else Lit s)"

definition pattern_of :: "bytes \<Rightarrow> pattern_seg list" where
  "pattern_of path = map seg_of (split_on CHR ''/'' path)"

fun matches_segs :: "pattern_seg list \<Rightarrow> bytes list \<Rightarrow> bool" where
  "matches_segs [] [] = True"
| "matches_segs (CatchAll # ps) (s # ss) = True"
| "matches_segs (Lit l # ps) (s # ss) = (l = s \<and> matches_segs ps ss)"
| "matches_segs (Param # ps) (s # ss) = matches_segs ps ss"
| "matches_segs _ _ = False"

definition route_matches :: "route \<Rightarrow> bytes \<Rightarrow> bytes \<Rightarrow> bool" where
  "route_matches r m path \<longleftrightarrow> rt_Method r = m \<and> matches_segs (pattern_of (rt_Path r)) (split_on CHR ''/'' path)"

definition lawful_lookup :: "(route list \<Rightarrow> bytes \<Rightarrow> bytes \<Rightarrow> route option) \<Rightarrow> bool" where
  "lawful_lookup lookup \<longleftrightarrow> (\<forall>rs m path r. lookup rs m path = Some r \<longrightarrow> r \<in> set rs \<and> route_matches r m path)"

text \<open>No two routes of the API match the same request, so that gin's order of precedence does not matter.\<close>

fun overlap :: "pattern_seg list \<Rightarrow> pattern_seg list \<Rightarrow> bool" where
  "overlap [] [] = True"
| "overlap (CatchAll # ps) (q # qs) = True"
| "overlap (p # ps) (CatchAll # qs) = True"
| "overlap (Lit a # ps) (Lit b # qs) = (a = b \<and> overlap ps qs)"
| "overlap (p # ps) (q # qs) = overlap ps qs"
| "overlap _ _ = False"

lemma matches_overlap: "matches_segs p s \<Longrightarrow> matches_segs q s \<Longrightarrow> overlap p q"
proof (induction p q arbitrary: s rule: overlap.induct)
qed (force elim: matches_segs.elims)+

fun unambiguous :: "(bytes \<times> pattern_seg list) list \<Rightarrow> bool" where
  "unambiguous [] = True"
| "unambiguous ((m, p) # rs) = (list_all (\<lambda>(m', q). m = m' \<longrightarrow> \<not> overlap p q) rs \<and> unambiguous rs)"

lemma unambiguous_unique:
  assumes "unambiguous (map (\<lambda>r. (rt_Method r, pattern_of (rt_Path r))) rs)" "r \<in> set rs" "r' \<in> set rs"
    and "route_matches r m path" "route_matches r' m path"
  shows "r = r'"
  using assms(1-3)
proof (induction rs)
  case (Cons x rs)
  have clash: "\<not> (route_matches x m path \<and> route_matches y m path)" if "y \<in> set rs" for y
    using Cons.prems(1) that matches_overlap unfolding route_matches_def by (fastforce simp: list_all_iff)
  show ?case using Cons.IH Cons.prems clash assms(4,5) by auto
qed simp

lemma routes_unambiguous_table: "unambiguous (map (\<lambda>r. (rt_Method r, pattern_of (rt_Path r))) NewRouter)"
  by code_simp

text \<open>The handlers that stand behind no filter.\<close>

definition public_handlers :: "bytes list" where
  "public_handlers = [''auth.Me'', ''auth.Refresh'', ''auth.Logout'', ''auth.Login'', ''auth.Callback'', ''access.WebConsole'',
     ''access.GetAuthorizedKeys'', ''access.AddEphemeralAuthorizedKey'', ''access.DeleteEphemeralAuthorizedKey'', ''functions.publicHTTP'']"

lemma route_guards_table:
  "list_all (\<lambda>r. rt_guard r = (if rt_handler r \<in> set public_handlers then Open else if HasPrefix (rt_handler r) ''admin.'' then AdminGuard else UserGuard)
     \<and> (rt_Method r = ''OPTIONS'' \<longrightarrow> rt_handler r = ''functions.publicHTTP'')) NewRouter"
  by code_simp

subsection \<open>Cross-origin requests\<close>

text \<open>\<open>regexp\<close> is \<^verbatim>\<open>regexp.Compile\<close>, giving the test of a compiled pattern.\<close>

definition parseAllowedOrigins :: "bytes \<Rightarrow> bytes list" where
  "parseAllowedOrigins rawOrigins = filter (\<lambda>o1. o1 \<noteq> []) (map TrimSpace (split_on CHR '','' rawOrigins))"

definition compileAllowedOriginPattern :: "(bytes \<Rightarrow> (bytes \<Rightarrow> bool) option) \<Rightarrow> bytes \<Rightarrow> (bytes \<Rightarrow> bool) option" where
  "compileAllowedOriginPattern regexp raw = (let pattern = TrimSpace raw in if pattern = [] then None else regexp pattern)"

definition isOriginAllowed :: "bytes \<Rightarrow> bytes list \<Rightarrow> (bytes \<Rightarrow> bool) option \<Rightarrow> bool" where
  "isOriginAllowed origin allowedOrigins pattern = (if origin \<in> set allowedOrigins then True
     else case pattern of None \<Rightarrow> False | Some test \<Rightarrow> test origin)"

record api_request =
  hq_Method :: bytes
  hq_Path :: bytes
  hq_Origin :: bytes
  hq_auth :: auth_req

text \<open>The headers the middleware sets, and whether it answers the request itself.\<close>

definition corsMiddleware :: "(bytes \<Rightarrow> (bytes \<Rightarrow> bool) option) \<Rightarrow> (bytes \<Rightarrow> bytes) \<Rightarrow> api_request \<Rightarrow> (bytes \<times> bytes) list \<times> bool" where
  "corsMiddleware regexp getenv q =
     (let allowedOrigins = parseAllowedOrigins (getenv ''RCP_ALLOWED_ORIGINS'');
          pattern = compileAllowedOriginPattern regexp (getenv ''RCP_ALLOWED_ORIGIN_PATTERN'') in
      if HasPrefix (hq_Path q) ''/api/v1/run/'' then ([], False)
      else let origin = TrimSpace (hq_Origin q) in
        (if origin \<noteq> [] \<and> isOriginAllowed origin allowedOrigins pattern
         then [(''Access-Control-Allow-Origin'', origin), (''Access-Control-Allow-Credentials'', ''true''),
               (''Access-Control-Allow-Headers'', ''Authorization, Content-Type''),
               (''Access-Control-Allow-Methods'', ''GET, POST, PUT, PATCH, DELETE, OPTIONS''), (''Vary'', ''Origin'')] else [],
         hq_Method q = ''OPTIONS''))"

subsection \<open>Serving a request\<close>

text \<open>
  What becomes of a request: the answer to a preflight, no route, the answer of a filter, or the handler
  it reaches with the user in its context.
\<close>

datatype served = Preflight | Unmatched | Refused nat auth_body | Reached bytes "User option"

definition run_guard :: "auth_env \<Rightarrow> int \<Rightarrow> api_request \<Rightarrow> guard \<Rightarrow> db \<Rightarrow> ((nat \<times> auth_body) + User option) \<times> db" where
  "run_guard env now q g d = (case g of Open \<Rightarrow> (Ok None, d)
     | UserGuard \<Rightarrow> (case AuthRequired env now (hq_auth q) d of (Err e, d) \<Rightarrow> (Err e, d) | (Ok user, d) \<Rightarrow> (Ok (Some user), d))
     | AdminGuard \<Rightarrow> (case AuthRequired env now (hq_auth q) d of (Err e, d) \<Rightarrow> (Err e, d)
         | (Ok user, d) \<Rightarrow> (case AdminRequired (ae_getenv env) (Some user) of Err e \<Rightarrow> (Err e, d) | Ok user \<Rightarrow> (Ok (Some user), d))))"

definition router_ServeHTTP :: "(route list \<Rightarrow> bytes \<Rightarrow> bytes \<Rightarrow> route option) \<Rightarrow> (bytes \<Rightarrow> (bytes \<Rightarrow> bool) option) \<Rightarrow> auth_env \<Rightarrow> int
    \<Rightarrow> api_request \<Rightarrow> db \<Rightarrow> served \<times> (bytes \<times> bytes) list \<times> db" where
  "router_ServeHTTP lookup regexp env now q d = (case corsMiddleware regexp (ae_getenv env) q of
     (headers, True) \<Rightarrow> (Preflight, headers, d)
   | (headers, False) \<Rightarrow> (case lookup NewRouter (hq_Method q) (hq_Path q) of
       None \<Rightarrow> (Unmatched, headers, d)
     | Some r \<Rightarrow> (case run_guard env now q (rt_guard r) d of
         (Err (status, body), d) \<Rightarrow> (Refused status body, headers, d)
       | (Ok user, d) \<Rightarrow> (Reached (rt_handler r) user, headers, d))))"

text \<open>\<^verbatim>\<open>api.OwnerID\<close> and \<^verbatim>\<open>MustOwnerID\<close>: the owner the handlers work for.\<close>

definition OwnerID :: "User option \<Rightarrow> nat option" where
  "OwnerID stored = map_option usr_ID stored"

definition MustOwnerID :: "User option \<Rightarrow> (nat \<times> auth_body) + nat" where
  "MustOwnerID stored = (case OwnerID stored of None \<Rightarrow> Err (401, AuthMsg ''unauthorized'') | Some i \<Rightarrow> Ok i)"

text \<open>A user whose valid access token the request carries.\<close>

definition presents_token_of :: "auth_env \<Rightarrow> int \<Rightarrow> auth_req \<Rightarrow> db \<Rightarrow> User \<Rightarrow> bool" where
  "presents_token_of env now req d user \<longleftrightarrow> (\<exists>token claims u. accessTokenFromRequest req = Ok token
     \<and> ValidateToken (ae_ts env) now token = Some claims \<and> cl_Type claims = ''access''
     \<and> u \<in> set (users d) \<and> u_email u = cl_Email claims \<and> user = row_to_User u)"

lemma run_guard_user:
  assumes "ae_getenv env ''RCP_DEV_AUTH_BYPASS'' \<noteq> ''1''" "run_guard env now q g d = (r, d')"
  shows "same_tables d d' \<and> (\<forall>stored. r = Ok stored \<longrightarrow> (case g of Open \<Rightarrow> stored = None
    | UserGuard \<Rightarrow> \<exists>user. stored = Some user \<and> presents_token_of env now (hq_auth q) d user
    | AdminGuard \<Rightarrow> \<exists>user. stored = Some user \<and> presents_token_of env now (hq_auth q) d user \<and> IsAdminEmail (ae_getenv env) (usr_Email user)))"
proof (cases g)
  case Open
  then show ?thesis using assms(2) by (auto simp: run_guard_def same_tables_def)
next
  case UserGuard
  obtain x d1 where a: "AuthRequired env now (hq_auth q) d = (x, d1)" by force
  show ?thesis using AuthRequired_passes [OF assms(1) a] assms(2) UserGuard a
    by (cases x) (auto simp: run_guard_def presents_token_of_def)
next
  case AdminGuard
  obtain x d1 where a: "AuthRequired env now (hq_auth q) d = (x, d1)" by force
  show ?thesis using AuthRequired_passes [OF assms(1) a] assms(2) AdminGuard a
    by (cases x) (auto simp: run_guard_def presents_token_of_def AdminRequired_def split: if_splits)
qed

lemma route_guards:
  assumes "r \<in> set NewRouter"
  shows "rt_guard r = (if rt_handler r \<in> set public_handlers then Open else if HasPrefix (rt_handler r) ''admin.'' then AdminGuard else UserGuard)"
    and "rt_Method r = ''OPTIONS'' \<Longrightarrow> rt_handler r = ''functions.publicHTTP''"
  using route_guards_table assms by (simp_all only: list_all_iff)

lemma cors_headers:
  assumes "corsMiddleware regexp getenv q = (headers, aborted)" "(''Access-Control-Allow-Origin'', v) \<in> set headers"
  shows "v = TrimSpace (hq_Origin q) \<and> v \<noteq> [] \<and> \<not> HasPrefix (hq_Path q) ''/api/v1/run/''
    \<and> isOriginAllowed v (parseAllowedOrigins (getenv ''RCP_ALLOWED_ORIGINS''))
        (compileAllowedOriginPattern regexp (getenv ''RCP_ALLOWED_ORIGIN_PATTERN''))"
  using assms by (auto simp: corsMiddleware_def Let_def split: if_splits)


text \<open>A router that takes the first route that matches.\<close>

definition first_match :: "route list \<Rightarrow> bytes \<Rightarrow> bytes \<Rightarrow> route option" where
  "first_match rs m path = find (\<lambda>r. route_matches r m path) rs"

lemma first_match_lawful: "lawful_lookup first_match"
  by (auto simp: lawful_lookup_def first_match_def find_Some_iff)

lemma first_match_flavors:
  "first_match NewRouter ''GET'' ''/api/v1/compute/flavors''
     = Some \<lparr>rt_Method = ''GET'', rt_Path = ''/api/v1/compute/flavors'', rt_guard = UserGuard, rt_handler = ''compute.GetFlavors''\<rparr>"
  by code_simp

definition example_api_request :: api_request where
  "example_api_request = \<lparr>hq_Method = ''GET'', hq_Path = ''/api/v1/compute/flavors'', hq_Origin = [],
     hq_auth = \<lparr>ar_query = (\<lambda>_. []), ar_cookie = (\<lambda>_. Some ''t''), ar_authorization = []\<rparr>\<rparr>"


end
