(* ===== verification/Gateway_Keys.thy ===== *)
theory Gateway_Keys
  imports Ssh_Server
begin

text \<open>
  The ephemeral keys of the SSH gateway from end to end: the client that registers and removes them
  (\<^verbatim>\<open>cmd/ssh-gateway/ephemeral_key_client.go, ephemeral_key.go\<close>) against the endpoints of the API
  (\<^verbatim>\<open>internal/domain/access/handler.go\<close>) and the list the VMs fetch.
\<close>

subsection \<open>The client\<close>

text \<open>
  \<open>gen\<close> is the generation of a key with its signer, \<open>marshal\<close> its line for an \<^verbatim>\<open>authorized_keys\<close> file.
\<close>

definition gateway_generateEphemeralSSHKey :: "'signer option \<Rightarrow> ('signer \<Rightarrow> bytes) \<Rightarrow> ('signer \<times> bytes) option" where
  "gateway_generateEphemeralSSHKey gen marshal = (case gen of None \<Rightarrow> None | Some signer \<Rightarrow> Some (signer, TrimSpace (marshal signer)))"

definition signHMAC :: "(bytes \<Rightarrow> bytes \<Rightarrow> bytes) \<Rightarrow> bytes \<Rightarrow> bytes \<Rightarrow> bytes" where
  "signHMAC mac secret content = hex_EncodeToString (mac secret content)"

record key_client =
  kc_baseURL :: bytes
  kc_secret :: bytes

definition newEphemeralKeyClient :: "bytes \<Rightarrow> bytes \<Rightarrow> key_client" where
  "newEphemeralKeyClient baseURL secret = \<lparr>kc_baseURL = TrimRight CHR ''/'' (TrimSpace baseURL), kc_secret = secret\<rparr>"

text \<open>
  \<open>encode\<close> is \<^verbatim>\<open>json.Marshal\<close>; \<open>Do url method content sig\<close> is the exchange with the API, an error or the status and
  the body of the answer.
\<close>

type_synonym 'w key_exchange = "bytes \<Rightarrow> bytes \<Rightarrow> bytes \<Rightarrow> bytes \<Rightarrow> 'w \<Rightarrow> (bytes + nat \<times> bytes) \<times> 'w"

definition send :: "(bytes \<Rightarrow> bytes \<Rightarrow> bytes) \<Rightarrow> (EphemeralAuthorizedKeyRequest \<Rightarrow> bytes option) \<Rightarrow> key_client \<Rightarrow> 'w key_exchange
    \<Rightarrow> bytes \<Rightarrow> EphemeralAuthorizedKeyRequest \<Rightarrow> nat \<Rightarrow> 'w \<Rightarrow> bytes option \<times> 'w" where
  "send mac encode c Do meth payload wantStatus w = (case encode payload of
     None \<Rightarrow> (Some ''marshal'', w)
   | Some content \<Rightarrow> (case Do (kc_baseURL c @ ''/api/v1/internal/ssh/ephemeral-keys'') meth content (signHMAC mac (kc_secret c) content) w of
       (Inl e, w) \<Rightarrow> (Some (''ephemeral key: '' @ e), w)
     | (Inr (status, answer), w) \<Rightarrow> if status \<noteq> wantStatus then (Some (''ephemeral key: status, body='' @ take 1024 answer), w) else (None, w)))"

definition Register :: "(bytes \<Rightarrow> bytes \<Rightarrow> bytes) \<Rightarrow> (EphemeralAuthorizedKeyRequest \<Rightarrow> bytes option) \<Rightarrow> key_client \<Rightarrow> 'w key_exchange
    \<Rightarrow> EphemeralAuthorizedKeyRequest \<Rightarrow> 'w \<Rightarrow> bytes option \<times> 'w" where
  "Register mac encode c Do req = send mac encode c Do ''POST'' req 201"

definition key_Delete :: "(bytes \<Rightarrow> bytes \<Rightarrow> bytes) \<Rightarrow> (EphemeralAuthorizedKeyRequest \<Rightarrow> bytes option) \<Rightarrow> key_client \<Rightarrow> 'w key_exchange
    \<Rightarrow> EphemeralAuthorizedKeyRequest \<Rightarrow> 'w \<Rightarrow> bytes option \<times> 'w" where
  "key_Delete mac encode c Do req = send mac encode c Do ''DELETE'' req 204"

text \<open>The other end: the two endpoints of the API on its store; \<open>t1\<close> and \<open>t2\<close> are the times it reads.\<close>

definition api_exchange :: "(bytes \<Rightarrow> bytes \<Rightarrow> bytes) \<Rightarrow> (bytes \<Rightarrow> EphemeralAuthorizedKeyRequest option) \<Rightarrow> (bytes \<Rightarrow> bool) \<Rightarrow> bytes
    \<Rightarrow> int \<Rightarrow> int \<Rightarrow> 'sig consoleSessionStore key_exchange" where
  "api_exchange mac decode valid_key secret t1 t2 url meth content sig s =
     (if \<not> HasSuffix url ''/api/v1/internal/ssh/ephemeral-keys'' then (Inr (404, []), s)
      else if meth = ''POST'' then (case h_AddEphemeralAuthorizedKey mac decode valid_key secret t1 t2 (Some content) sig s of
        ((status, answer), s) \<Rightarrow> (Inr (status, []), s))
      else if meth = ''DELETE'' then (case h_DeleteEphemeralAuthorizedKey mac decode secret (Some content) sig s of
        ((status, answer), s) \<Rightarrow> (Inr (status, []), s))
      else (Inr (404, []), s))"

subsection \<open>A key from registration to removal\<close>

text \<open>A request that JSON carries and that needs no trimming.\<close>

definition clean_key_request :: "EphemeralAuthorizedKeyRequest \<Rightarrow> bool" where
  "clean_key_request q \<longleftrightarrow> (\<forall>f\<in>{ek_InstanceID q, ek_Username q, ek_AuthorizedKey q}. f \<noteq> [] \<and> TrimSpace f = f)"

definition carries_key :: "(EphemeralAuthorizedKeyRequest \<Rightarrow> bytes option) \<Rightarrow> (bytes \<Rightarrow> EphemeralAuthorizedKeyRequest option)
    \<Rightarrow> EphemeralAuthorizedKeyRequest \<Rightarrow> bool" where
  "carries_key encode decode q \<longleftrightarrow> (case encode q of None \<Rightarrow> False
     | Some content \<Rightarrow> length content \<le> 65536 \<and> decode content = Some q)"

interpretation api_link: signed_channel mac "signHMAC mac" "verifyInternalHMAC mac" "\<lambda>secret. secret \<noteq> []" for mac
  by unfold_locales (auto simp: signHMAC_def verifyInternalHMAC_def split: option.splits)

lemma readSignedJSON_signed:
  assumes "length content \<le> 65536" "decode content = Some q" "secret \<noteq> []"
  shows "readSignedJSON mac decode secret (Some content) (signHMAC mac secret' content)
    = (if mac secret content = mac secret' content then Ok q else Err (401, ErrMsg ''invalid signature''))"
  using assms by (auto simp: readSignedJSON_def api_link.verify_sign)

lemma AddAuthorizedKey_expiry:
  assumes "store_wf s"
  shows "key_expiry (AddAuthorizedKey t1 t2 i u k s) sc k'
      = (if sc = (i, u) \<and> k' = k then Some (t2 + ttl s) else unexpired t1 (key_expiry s sc k'))"
    and "store_wf (AddAuthorizedKey t1 t2 i u k s)"
  using assms by (simp_all add: AddAuthorizedKey_def Let_def add_key_expiry expire_key add_key_wf expire_wf)

lemma AuthorizedKeys_lists:
  assumes "store_wf s" "\<forall>ks. set (perm ks) = set ks"
  shows "\<exists>ks. fst (AuthorizedKeys perm now i u s) = concat (map (\<lambda>k. k @ [CHR 0x0A]) ks)
    \<and> set ks = {k. unexpired now (key_expiry s (i, u) k) \<noteq> None}"
proof (cases "authorizedKeys (deleteExpiredLocked now s) (i, u)")
  case None
  then have "unexpired now (key_expiry s (i, u) k) = None" for k
    using expire_key [OF assms(1), of now "(i, u)" k] by (simp add: key_expiry_def)
  then show ?thesis using None by (intro exI [of _ "[]"]) (simp add: AuthorizedKeys_def Let_def)
next
  case (Some ks)
  have "(k \<in> fst ` set ks) = (unexpired now (key_expiry s (i, u) k) \<noteq> None)" for k
  proof -
    have "unexpired now (key_expiry s (i, u) k) = map_of ks k"
      using expire_key [OF assms(1), of now "(i, u)" k] Some by (simp add: key_expiry_def)
    then show ?thesis using map_of_eq_None_iff [of ks k] by (simp del: not_None_eq)
  qed
  then have "set (perm (map fst ks)) = {k. unexpired now (key_expiry s (i, u) k) \<noteq> None}" using assms(2) by auto
  moreover have "ks \<noteq> []" using expire_wf [OF assms(1), of now] Some by (auto simp: store_wf_def)
  ultimately show ?thesis using Some
    by (intro exI [of _ "perm (map fst ks)"]) (simp add: AuthorizedKeys_def Let_def)
qed

text \<open>
  C39. A key of the SSH gateway is in force exactly from its registration to its removal. For a key the API takes for
  valid, a gateway and an API with the same secret, and JSON that carries the request: the registration
  succeeds, the list the VM then fetches has the key until the lifetime of the store has passed, no other key's grant
  changes but by expiring, and the removal, whatever happened to the store in between, succeeds and takes away
  this key and nothing else. A gateway whose secret signs differently gets an error from both and changes
  nothing.
\<close>

theorem gateway_key_lifecycle:
  fixes s :: "'sig consoleSessionStore"
  assumes "store_wf s" "secret \<noteq> []" "carries_key encode decode q" "clean_key_request q" "valid_key (ek_AuthorizedKey q)"
    and "\<forall>ks. set (perm ks) = set ks"
  shows "(\<exists>s1. Register mac encode (newEphemeralKeyClient url secret) (api_exchange mac decode valid_key secret t1 t2) q s = (None, s1) \<and> store_wf s1
      \<and> (\<forall>now. \<exists>ks. fst (svc_AuthorizedKeys perm now (ek_InstanceID q) (ek_Username q) s1) = concat (map (\<lambda>k. k @ [CHR 0x0A]) ks)
          \<and> (ek_AuthorizedKey q \<in> set ks \<longleftrightarrow> now \<le> t2 + ttl s))
      \<and> (\<forall>sc' k. (sc', k) \<noteq> ((ek_InstanceID q, ek_Username q), ek_AuthorizedKey q) \<longrightarrow> key_expiry s1 sc' k = unexpired t1 (key_expiry s sc' k)))
    \<and> (\<forall>s2 :: 'sig consoleSessionStore. \<exists>s3. key_Delete mac encode (newEphemeralKeyClient url secret) (api_exchange mac decode valid_key secret t1 t2) q s2 = (None, s3)
        \<and> (\<forall>sc' k. key_expiry s3 sc' k = (if (sc', k) = ((ek_InstanceID q, ek_Username q), ek_AuthorizedKey q) then None else key_expiry s2 sc' k)))
    \<and> (\<forall>other. \<forall>s2 :: 'sig consoleSessionStore. mac other (the (encode q)) \<noteq> mac secret (the (encode q)) \<longrightarrow>
        (\<exists>e1 e2. Register mac encode (newEphemeralKeyClient url other) (api_exchange mac decode valid_key secret t1 t2) q s2 = (Some e1, s2)
          \<and> key_Delete mac encode (newEphemeralKeyClient url other) (api_exchange mac decode valid_key secret t1 t2) q s2 = (Some e2, s2)))"
proof -
  obtain content where c: "encode q = Some content" "length content \<le> 65536" "decode content = Some q"
    using assms(3) by (auto simp: carries_key_def split: option.splits)
  have trim: "TrimSpace (ek_InstanceID q) = ek_InstanceID q" "TrimSpace (ek_Username q) = ek_Username q"
      "TrimSpace (ek_AuthorizedKey q) = ek_AuthorizedKey q" "ek_InstanceID q \<noteq> []" "ek_Username q \<noteq> []" "ek_AuthorizedKey q \<noteq> []"
    using assms(4) by (simp_all add: clean_key_request_def)
  have url: "HasSuffix (b @ ''/api/v1/internal/ssh/ephemeral-keys'') ''/api/v1/internal/ssh/ephemeral-keys''" for b
    unfolding HasSuffix_iff by blast
  note signed = readSignedJSON_signed [where decode = decode, OF c(2,3) assms(2)]
  let ?s1 = "AddAuthorizedKey t1 t2 (ek_InstanceID q) (ek_Username q) (ek_AuthorizedKey q) s"
  have reg: "Register mac encode (newEphemeralKeyClient url secret) (api_exchange mac decode valid_key secret t1 t2) q s = (None, ?s1)"
    using assms(5) trim by (simp add: Register_def send_def api_exchange_def c url newEphemeralKeyClient_def
      h_AddEphemeralAuthorizedKey_def signed AddEphemeralAuthorizedKey_def Let_def)
  have del: "key_Delete mac encode (newEphemeralKeyClient url secret) (api_exchange mac decode valid_key secret t1 t2) q s2
      = (None, DeleteAuthorizedKey (ek_InstanceID q) (ek_Username q) (ek_AuthorizedKey q) s2)" for s2 :: "'sig consoleSessionStore"
    using trim by (simp add: key_Delete_def send_def api_exchange_def c url newEphemeralKeyClient_def
      h_DeleteEphemeralAuthorizedKey_def signed DeleteEphemeralAuthorizedKey_def Let_def)
  have bad: "\<exists>e1 e2. Register mac encode (newEphemeralKeyClient url other) (api_exchange mac decode valid_key secret t1 t2) q s2 = (Some e1, s2)
      \<and> key_Delete mac encode (newEphemeralKeyClient url other) (api_exchange mac decode valid_key secret t1 t2) q s2 = (Some e2, s2)"
    if "mac other content \<noteq> mac secret content" for other and s2 :: "'sig consoleSessionStore"
    using that by (simp add: Register_def key_Delete_def send_def api_exchange_def c url newEphemeralKeyClient_def
      h_AddEphemeralAuthorizedKey_def h_DeleteEphemeralAuthorizedKey_def signed)
  note added = AddAuthorizedKey_expiry [OF assms(1)]
  have listed: "\<exists>ks. fst (svc_AuthorizedKeys perm now (ek_InstanceID q) (ek_Username q) ?s1) = concat (map (\<lambda>k. k @ [CHR 0x0A]) ks)
      \<and> (ek_AuthorizedKey q \<in> set ks \<longleftrightarrow> now \<le> t2 + ttl s)" for now
  proof -
    obtain ks where ks: "fst (AuthorizedKeys perm now (ek_InstanceID q) (ek_Username q) ?s1) = concat (map (\<lambda>k. k @ [CHR 0x0A]) ks)"
        "set ks = {k. unexpired now (key_expiry ?s1 (ek_InstanceID q, ek_Username q) k) \<noteq> None}"
      using AuthorizedKeys_lists [OF added(2) assms(6)] by blast
    have "ek_AuthorizedKey q \<in> set ks \<longleftrightarrow> now \<le> t2 + ttl s" unfolding ks(2) by (auto simp: added(1) unexpired_def)
    with ks(1) show ?thesis by (intro exI [of _ ks]) (simp add: svc_AuthorizedKeys_def trim)
  qed
  show ?thesis
  proof (intro conjI allI)
    show "\<exists>s1. Register mac encode (newEphemeralKeyClient url secret) (api_exchange mac decode valid_key secret t1 t2) q s = (None, s1) \<and> store_wf s1
      \<and> (\<forall>now. \<exists>ks. fst (svc_AuthorizedKeys perm now (ek_InstanceID q) (ek_Username q) s1) = concat (map (\<lambda>k. k @ [CHR 0x0A]) ks)
          \<and> (ek_AuthorizedKey q \<in> set ks \<longleftrightarrow> now \<le> t2 + ttl s))
      \<and> (\<forall>sc' k. (sc', k) \<noteq> ((ek_InstanceID q, ek_Username q), ek_AuthorizedKey q) \<longrightarrow> key_expiry s1 sc' k = unexpired t1 (key_expiry s sc' k))"
      using reg listed added by (intro exI [of _ ?s1]) auto
    show "\<exists>s3. key_Delete mac encode (newEphemeralKeyClient url secret) (api_exchange mac decode valid_key secret t1 t2) q s2 = (None, s3)
        \<and> (\<forall>sc' k. key_expiry s3 sc' k = (if (sc', k) = ((ek_InstanceID q, ek_Username q), ek_AuthorizedKey q) then None else key_expiry s2 sc' k))" for s2 :: "'sig consoleSessionStore"
      by (intro exI [of _ "DeleteAuthorizedKey (ek_InstanceID q) (ek_Username q) (ek_AuthorizedKey q) s2"]) (auto simp: del delete_key_expiry)
    show "mac other (the (encode q)) \<noteq> mac secret (the (encode q)) \<longrightarrow>
        (\<exists>e1 e2. Register mac encode (newEphemeralKeyClient url other) (api_exchange mac decode valid_key secret t1 t2) q s2 = (Some e1, s2)
          \<and> key_Delete mac encode (newEphemeralKeyClient url other) (api_exchange mac decode valid_key secret t1 t2) q s2 = (Some e2, s2))"
      for other and s2 :: "'sig consoleSessionStore" unfolding c(1) option.sel using bad by blast
  qed
qed

text \<open>A request whose encoding is its key, and a signature that shows the secret.\<close>

definition small_key_request :: EphemeralAuthorizedKeyRequest where
  "small_key_request = \<lparr>ek_InstanceID = ''vm'', ek_Username = ''u'', ek_AuthorizedKey = ''k''\<rparr>"

lemma gateway_key_lifecycle_witness:
  "\<exists>s1. Register (\<lambda>k m. k @ m) (\<lambda>q. Some (ek_AuthorizedKey q)) (newEphemeralKeyClient ''http://api'' ''s'')
       (api_exchange (\<lambda>k m. k @ m) (\<lambda>_. Some small_key_request) (\<lambda>_. True) ''s'' 10 10) small_key_request
       (newConsoleSessionStore 120 :: unit consoleSessionStore) = (None, s1)
     \<and> (\<exists>ks. fst (svc_AuthorizedKeys (\<lambda>ks. ks) 130 ''vm'' ''u'' s1) = concat (map (\<lambda>k. k @ [CHR 0x0A]) ks) \<and> ''k'' \<in> set ks)"
proof -
  let ?s = "newConsoleSessionStore 120 :: unit consoleSessionStore"
  have wf: "store_wf ?s" "ttl ?s = 120" by (simp_all add: store_wf_def newConsoleSessionStore_def)
  have carried: "carries_key (\<lambda>q. Some (ek_AuthorizedKey q)) (\<lambda>_. Some small_key_request) small_key_request"
    by (simp add: carries_key_def) (simp add: small_key_request_def)
  have "TrimSpace ''vm'' = ''vm''" "TrimSpace ''u'' = ''u''" "TrimSpace ''k'' = ''k''" by (simp_all add: trim_eval)
  then have clean: "clean_key_request small_key_request" by (simp add: clean_key_request_def small_key_request_def)
  have perm: "\<forall>ks. set ((\<lambda>ks. ks) ks) = set ks" by simp
  have fields: "ek_InstanceID small_key_request = ''vm''" "ek_Username small_key_request = ''u''" "ek_AuthorizedKey small_key_request = ''k''"
    by (simp_all add: small_key_request_def)
  have secret: "''s'' \<noteq> []" by simp
  note l = gateway_key_lifecycle [where mac = "\<lambda>k m. k @ m" and decode = "\<lambda>_. Some small_key_request" and ?t1.0 = 10 and ?t2.0 = 10
      and url = "''http://api''" and valid_key = "\<lambda>_. True" and perm = "\<lambda>ks. ks", OF wf(1) secret carried clean _ perm, unfolded fields]
  from conjunct1 [OF l] show ?thesis using wf(2) by fastforce
qed

end
