(* ===== verification/Ssh_Accept.thy ===== *)
theory Ssh_Accept
  imports Ns_Proxy
begin

text \<open>
  The accept loop of the SSH gateway, \<^verbatim>\<open>Serve\<close> and \<^verbatim>\<open>handle\<close> of \<^verbatim>\<open>cmd/ssh-gateway/server.go\<close>: the limit on
  connections, their counters, and the sessions that run on them. It is built like the loop of the namespace
  proxy, whose program points and back-off it shares, but a connection has sessions of its own here, each
  in a goroutine that the connection does not wait for.
\<close>

subsection \<open>The loop\<close>

text \<open>
  \<open>ga_handling\<close> counts the connections in \<^verbatim>\<open>handle\<close>, \<open>ga_released\<close> and \<open>ga_finished\<close> those in the deferred calls after
  it, \<open>ga_sessions\<close> the goroutines in \<^verbatim>\<open>handleSession\<close>.
\<close>

record ssh_accept =
  ga_max :: int
  ga_sem :: int
  ga_active :: int
  ga_denied :: int
  ga_wg :: int
  ga_delay :: int
  ga_closed :: bool
  ga_pc :: serve_pc
  ga_handling :: int
  ga_released :: int
  ga_finished :: int
  ga_sessions :: int

definition new_accept :: "int \<Rightarrow> ssh_accept" where
  "new_accept maxConns = \<lparr>ga_max = maxConns, ga_sem = 0, ga_active = 0, ga_denied = 0, ga_wg = 0, ga_delay = 0, ga_closed = False,
     ga_pc = AtAccept, ga_handling = 0, ga_released = 0, ga_finished = 0, ga_sessions = 0\<rparr>"

text \<open>A channel of a connection: only sessions are accepted.\<close>

definition accepts_channel :: "bytes \<Rightarrow> bool" where
  "accepts_channel channelType \<longleftrightarrow> channelType = ''session''"

inductive accept_step :: "ssh_accept \<Rightarrow> ssh_accept \<Rightarrow> bool" where
  ga_error: "ga_pc s = AtAccept \<Longrightarrow> accept_step s (s\<lparr>ga_delay := backoff (ga_delay s)\<rparr>)"
| ga_listener_closed: "ga_pc s = AtAccept \<Longrightarrow> ga_closed s \<Longrightarrow> accept_step s (s\<lparr>ga_pc := Draining\<rparr>)"
| ga_slot: "ga_pc s = AtAccept \<Longrightarrow> ga_sem s < ga_max s \<Longrightarrow> accept_step s (s\<lparr>ga_pc := GotSlot, ga_sem := ga_sem s + 1, ga_delay := 0\<rparr>)"
| ga_deny: "ga_pc s = AtAccept \<Longrightarrow> \<not> ga_sem s < ga_max s \<Longrightarrow> accept_step s (s\<lparr>ga_denied := ga_denied s + 1, ga_delay := 0\<rparr>)"
| ga_count: "ga_pc s = GotSlot \<Longrightarrow> accept_step s (s\<lparr>ga_pc := ActiveCounted, ga_active := ga_active s + 1\<rparr>)"
| ga_wg_add: "ga_pc s = ActiveCounted \<Longrightarrow> accept_step s (s\<lparr>ga_pc := WgAdded, ga_wg := ga_wg s + 1\<rparr>)"
| ga_spawn: "ga_pc s = WgAdded \<Longrightarrow> accept_step s (s\<lparr>ga_pc := AtAccept, ga_handling := ga_handling s + 1\<rparr>)"
| ga_session: "ga_handling s > 0 \<Longrightarrow> accepts_channel ch \<Longrightarrow> accept_step s (s\<lparr>ga_sessions := ga_sessions s + 1\<rparr>)"
| ga_session_end: "ga_sessions s > 0 \<Longrightarrow> accept_step s (s\<lparr>ga_sessions := ga_sessions s - 1\<rparr>)"
| ga_release: "ga_handling s > 0 \<Longrightarrow>
    accept_step s (s\<lparr>ga_handling := ga_handling s - 1, ga_sem := ga_sem s - 1, ga_released := ga_released s + 1\<rparr>)"
| ga_uncount: "ga_released s > 0 \<Longrightarrow>
    accept_step s (s\<lparr>ga_released := ga_released s - 1, ga_active := ga_active s - 1, ga_finished := ga_finished s + 1\<rparr>)"
| ga_done: "ga_finished s > 0 \<Longrightarrow> accept_step s (s\<lparr>ga_finished := ga_finished s - 1, ga_wg := ga_wg s - 1\<rparr>)"
| ga_wait: "ga_pc s = Draining \<Longrightarrow> ga_wg s = 0 \<Longrightarrow> accept_step s (s\<lparr>ga_pc := Returned\<rparr>)"
| ga_shutdown: "accept_step s (s\<lparr>ga_closed := True\<rparr>)"

inductive accept_reachable :: "int \<Rightarrow> ssh_accept \<Rightarrow> bool" for maxConns where
  accept_init: "accept_reachable maxConns (new_accept maxConns)"
| accept_next: "accept_reachable maxConns s \<Longrightarrow> accept_step s s' \<Longrightarrow> accept_reachable maxConns s'"

subsection \<open>Limits\<close>

definition accept_inv :: "ssh_accept \<Rightarrow> bool" where
  "accept_inv s \<longleftrightarrow> 0 \<le> ga_handling s \<and> 0 \<le> ga_released s \<and> 0 \<le> ga_finished s \<and> 0 \<le> ga_sessions s
     \<and> ga_sem s = ga_handling s + own_slot (ga_pc s) \<and> ga_sem s \<le> ga_max s
     \<and> ga_active s = ga_handling s + ga_released s + own_count (ga_pc s)
     \<and> ga_wg s = ga_handling s + ga_released s + ga_finished s + own_wg (ga_pc s)
     \<and> 0 \<le> ga_delay s \<and> ga_delay s \<le> second
     \<and> (ga_pc s = Returned \<longrightarrow> ga_wg s = 0) \<and> (ga_pc s \<in> {Draining, Returned} \<longrightarrow> ga_closed s)"

lemma accept_inv_step: "accept_step s s' \<Longrightarrow> accept_inv s \<Longrightarrow> accept_inv s' \<and> ga_max s' = ga_max s"
proof (induction rule: accept_step.induct)
  case (ga_error s)
  then have "0 \<le> backoff (ga_delay s)" "backoff (ga_delay s) \<le> second"
    by (auto simp: accept_inv_def backoff_def second_def Let_def)
  with ga_error show ?case by (simp add: accept_inv_def)
next
  case (ga_session s ch)
  then show ?case by (auto simp: accept_inv_def)
next
  case (ga_session_end s)
  then show ?case by (auto simp: accept_inv_def)
next
  case (ga_release s)
  then show ?case using own_nonneg(3) [of "ga_pc s"] by (auto simp: accept_inv_def)
next
  case (ga_uncount s)
  then show ?case using own_nonneg(3) [of "ga_pc s"] by (auto simp: accept_inv_def)
next
  case (ga_done s)
  then show ?case using own_nonneg(3) [of "ga_pc s"] by (auto simp: accept_inv_def)
next
  case (ga_shutdown s)
  then show ?case by (auto simp: accept_inv_def)
qed (simp_all add: accept_inv_def second_def)

lemma accept_limits:
  assumes "accept_reachable maxConns s" "0 < maxConns"
  shows "ga_handling s \<le> maxConns \<and> ga_handling s \<le> ga_active s \<and> ga_delay s \<le> second
    \<and> (ga_pc s = Returned \<longrightarrow> ga_closed s \<and> ga_handling s = 0 \<and> ga_active s = 0)"
proof -
  have "accept_inv s \<and> ga_max s = maxConns"
    using assms by (induction rule: accept_reachable.induct)
      (auto simp: accept_inv_def new_accept_def second_def dest: accept_inv_step)
  then show ?thesis using own_nonneg [of "ga_pc s"] by (auto simp: accept_inv_def)
qed

text \<open>
  The sessions are not waited for: \<^verbatim>\<open>Serve\<close> can have returned, and the process ended, while a session still
  runs and has its ephemeral key to remove.
\<close>

lemma sessions_outlive_drain: "\<exists>s. accept_reachable 1 s \<and> ga_pc s = Returned \<and> ga_sessions s = 1"
proof -
  let ?n = "new_accept 1"
  let ?a = "?n\<lparr>ga_pc := GotSlot, ga_sem := 1, ga_delay := 0\<rparr>"
  let ?b = "?a\<lparr>ga_pc := ActiveCounted, ga_active := 1\<rparr>"
  let ?c = "?b\<lparr>ga_pc := WgAdded, ga_wg := 1\<rparr>"
  let ?d = "?c\<lparr>ga_pc := AtAccept, ga_handling := 1\<rparr>"
  let ?e = "?d\<lparr>ga_sessions := 1\<rparr>"
  let ?f = "?e\<lparr>ga_handling := 0, ga_sem := 0, ga_released := 1\<rparr>"
  let ?g = "?f\<lparr>ga_released := 0, ga_active := 0, ga_finished := 1\<rparr>"
  let ?h = "?g\<lparr>ga_finished := 0, ga_wg := 0\<rparr>"
  let ?i = "?h\<lparr>ga_closed := True\<rparr>"
  let ?j = "?i\<lparr>ga_pc := Draining\<rparr>"
  have a: "accept_reachable 1 ?a" using accept_next [OF accept_init ga_slot [of ?n]] by (simp add: new_accept_def)
  have b: "accept_reachable 1 ?b" using accept_next [OF a ga_count] by (simp add: new_accept_def)
  have c: "accept_reachable 1 ?c" using accept_next [OF b ga_wg_add] by (simp add: new_accept_def)
  have d: "accept_reachable 1 ?d" using accept_next [OF c ga_spawn] by (simp add: new_accept_def)
  have e: "accept_reachable 1 ?e" using accept_next [OF d ga_session [of _ "''session''"]] by (simp add: new_accept_def accepts_channel_def)
  have f: "accept_reachable 1 ?f" using accept_next [OF e ga_release] by (simp add: new_accept_def)
  have g: "accept_reachable 1 ?g" using accept_next [OF f ga_uncount] by (simp add: new_accept_def)
  have h: "accept_reachable 1 ?h" using accept_next [OF g ga_done] by (simp add: new_accept_def)
  have i: "accept_reachable 1 ?i" by (rule accept_next [OF h ga_shutdown])
  have j: "accept_reachable 1 ?j" by (rule accept_next [OF i ga_listener_closed]) (simp_all add: new_accept_def)
  have "accept_reachable 1 (?j\<lparr>ga_pc := Returned\<rparr>)"
    by (rule accept_next [OF j ga_wait]) (simp_all add: new_accept_def)
  then show ?thesis by (intro exI [of _ "?j\<lparr>ga_pc := Returned\<rparr>"]) (simp add: new_accept_def)
qed

end
