(* ===== verification/Openstack_Clients.thy ===== *)
theory Openstack_Clients
  imports Compute_Service Storage_Http
begin

text \<open>
  The clients of the domains around gophercloud: \<^verbatim>\<open>client.go\<close> of \<^verbatim>\<open>internal/domain/compute\<close>, \<^verbatim>\<open>access\<close> and
  \<^verbatim>\<open>storage\<close> (that of \<^verbatim>\<open>blockstorage\<close> is in \<open>Block_Storage\<close>). Gophercloud is a parameter; what is shown is that the
  clients keep the promises the services rest on, given the documented behaviour of the OpenStack
  services.
\<close>

subsection \<open>Errors\<close>

text \<open>
  Errors of gophercloud: one of its types for a status code (\<^verbatim>\<open>ErrDefault404\<close> and so on), another unexpected status
  code, or anything else.
\<close>

datatype gc_err = GcDefault nat bytes | GcUnexpected nat bytes | GcOther bytes

fun gc_text :: "gc_err \<Rightarrow> bytes" where
  "gc_text (GcDefault c m) = m" | "gc_text (GcUnexpected c m) = m" | "gc_text (GcOther m) = m"

fun isGophercloudStatus :: "gc_err \<Rightarrow> nat \<Rightarrow> bool" where
  "isGophercloudStatus (GcDefault c m) code = (c = code)"
| "isGophercloudStatus (GcUnexpected c m) code = (c = code)"
| "isGophercloudStatus (GcOther m) code = False"

definition toStatusError :: "gc_err \<Rightarrow> os_err" where
  "toStatusError e = (case find (isGophercloudStatus e) [400, 403, 404, 409, 500] of
     Some c \<Rightarrow> StatusError c (gc_text e) | None \<Rightarrow> OtherErr (gc_text e))"

text \<open>The other clients pass the error on; the services ask it only whether it is an \<^verbatim>\<open>ErrDefault404\<close>.\<close>

fun raw_os_err :: "gc_err \<Rightarrow> os_err" where
  "raw_os_err (GcDefault c m) = StatusError c m"
| "raw_os_err e = OtherErr (gc_text e)"

lemma toStatusError_code: "hasStatusCode (toStatusError e) code \<longleftrightarrow> code \<in> {400, 403, 404, 409, 500} \<and> isGophercloudStatus e code"
  by (cases e) (auto simp: toStatusError_def hasStatusCode_def)

text \<open>A result with its error converted, and a call behind the making of a service client.\<close>

definition conv_result :: "(gc_err \<Rightarrow> os_err) \<Rightarrow> ('a \<Rightarrow> 'b) \<Rightarrow> (gc_err + 'a) \<times> 'w \<Rightarrow> (os_err + 'b) \<times> 'w" where
  "conv_result ce f r = (case r of (Err e, w) \<Rightarrow> (Err (ce e), w) | (Ok x, w) \<Rightarrow> (Ok (f x), w))"

definition conv_error :: "(gc_err \<Rightarrow> os_err) \<Rightarrow> gc_err option \<times> 'w \<Rightarrow> os_err option \<times> 'w" where
  "conv_error ce r = (case r of (e, w) \<Rightarrow> (map_option ce e, w))"

type_synonym 'w gc_auth = "'w \<Rightarrow> gc_err option \<times> 'w"

definition with_service :: "'w gc_auth \<Rightarrow> (gc_err \<Rightarrow> os_err) \<Rightarrow> ('a \<Rightarrow> 'b) \<Rightarrow> ('w \<Rightarrow> (gc_err + 'a) \<times> 'w) \<Rightarrow> 'w \<Rightarrow> (os_err + 'b) \<times> 'w" where
  "with_service serviceClient ce f act w = (case serviceClient w of
     (Some e, w) \<Rightarrow> (Err (OtherErr (gc_text e)), w) | (None, w) \<Rightarrow> conv_result ce f (act w))"

definition with_service_unit :: "'w gc_auth \<Rightarrow> (gc_err \<Rightarrow> os_err) \<Rightarrow> ('w \<Rightarrow> gc_err option \<times> 'w) \<Rightarrow> 'w \<Rightarrow> os_err option \<times> 'w" where
  "with_service_unit serviceClient ce act w = (case serviceClient w of
     (Some e, w) \<Rightarrow> (Some (OtherErr (gc_text e)), w) | (None, w) \<Rightarrow> conv_error ce (act w))"

subsection \<open>Compute\<close>

text \<open>The options of a server as gophercloud takes them, with the extension for the key pair.\<close>

record server_create =
  gs_Name :: bytes
  gs_ImageRef :: bytes
  gs_FlavorRef :: bytes
  gs_SecurityGroups :: "bytes list"
  gs_Networks :: "bytes list"
  gs_KeyName :: bytes

record 'w nova =
  nv_auth :: "'w gc_auth"
  nv_flavors :: "'w \<Rightarrow> (gc_err + Flavor list) \<times> 'w"
  nv_quota :: "bytes \<Rightarrow> 'w \<Rightarrow> (gc_err + QuotaDetailSet) \<times> 'w"
  nv_create :: "server_create \<Rightarrow> 'w \<Rightarrow> (gc_err + Server) \<times> 'w"
  nv_list :: "'w \<Rightarrow> (gc_err + Server list) \<times> 'w"
  nv_get :: "bytes \<Rightarrow> 'w \<Rightarrow> (gc_err + Server) \<times> 'w"
  nv_diagnostics :: "bytes \<Rightarrow> 'w \<Rightarrow> (gc_err + (bytes \<times> any) list) \<times> 'w"
  nv_update :: "bytes \<Rightarrow> bytes \<Rightarrow> 'w \<Rightarrow> (gc_err + Server) \<times> 'w"
  nv_pause :: "bytes \<Rightarrow> 'w \<Rightarrow> gc_err option \<times> 'w"
  nv_unpause :: "bytes \<Rightarrow> 'w \<Rightarrow> gc_err option \<times> 'w"
  nv_delete :: "bytes \<Rightarrow> 'w \<Rightarrow> gc_err option \<times> 'w"
  nv_keypair_create :: "bytes \<Rightarrow> bytes \<Rightarrow> 'w \<Rightarrow> (gc_err + KeyPair) \<times> 'w"
  nv_keypair_get :: "bytes \<Rightarrow> 'w \<Rightarrow> (gc_err + KeyPair) \<times> 'w"
  nv_keypair_list :: "'w \<Rightarrow> (gc_err + KeyPair list) \<times> 'w"
  nv_keypair_delete :: "bytes \<Rightarrow> 'w \<Rightarrow> gc_err option \<times> 'w"

text \<open>What is copied of a server that is read, and of one that is made.\<close>

definition read_server :: "Server \<Rightarrow> Server" where
  "read_server s = s\<lparr>sv_Image := [], sv_Flavor := [], sv_SecurityGroups := []\<rparr>"

definition made_server :: "Server \<Rightarrow> Server" where
  "made_server s = s\<lparr>sv_Created := zero_time\<rparr>"

definition createServerWithServiceClient :: "'w nova \<Rightarrow> CreateServerOpts \<Rightarrow> 'w \<Rightarrow> (gc_err + Server) \<times> 'w" where
  "createServerWithServiceClient nv opts = nv_create nv \<lparr>gs_Name = co_Name opts, gs_ImageRef = co_ImageRef opts, gs_FlavorRef = co_FlavorRef opts,
     gs_SecurityGroups = co_SecurityGroups opts, gs_Networks = co_Networks opts, gs_KeyName = co_KeyName opts\<rparr>"

definition cl_FetchFlavors :: "'w nova \<Rightarrow> 'w \<Rightarrow> (os_err + Flavor list) \<times> 'w" where
  "cl_FetchFlavors nv = with_service (nv_auth nv) raw_os_err (\<lambda>fs. fs) (nv_flavors nv)"

definition cl_GetComputeQuota :: "'w nova \<Rightarrow> bytes \<Rightarrow> 'w \<Rightarrow> (os_err + QuotaDetailSet) \<times> 'w" where
  "cl_GetComputeQuota nv projectID = with_service (nv_auth nv) raw_os_err (\<lambda>q. q) (nv_quota nv projectID)"

definition cl_CreateServer :: "'w nova \<Rightarrow> CreateServerOpts \<Rightarrow> 'w \<Rightarrow> (os_err + Server) \<times> 'w" where
  "cl_CreateServer nv opts = with_service (nv_auth nv) raw_os_err made_server (createServerWithServiceClient nv opts)"

definition cl_FetchInstances :: "'w nova \<Rightarrow> 'w \<Rightarrow> (os_err + Server list) \<times> 'w" where
  "cl_FetchInstances nv = with_service (nv_auth nv) raw_os_err (map read_server) (nv_list nv)"

definition cl_FetchInstance :: "'w nova \<Rightarrow> bytes \<Rightarrow> 'w \<Rightarrow> (os_err + Server) \<times> 'w" where
  "cl_FetchInstance nv i = with_service (nv_auth nv) raw_os_err read_server (nv_get nv i)"

definition cl_FetchDiagnostics :: "'w nova \<Rightarrow> bytes \<Rightarrow> 'w \<Rightarrow> (os_err + (bytes \<times> any) list) \<times> 'w" where
  "cl_FetchDiagnostics nv i = with_service (nv_auth nv) raw_os_err (\<lambda>m. m) (nv_diagnostics nv i)"

definition cl_UpdateServerName :: "'w nova \<Rightarrow> bytes \<Rightarrow> bytes \<Rightarrow> 'w \<Rightarrow> (os_err + Server) \<times> 'w" where
  "cl_UpdateServerName nv i name = with_service (nv_auth nv) raw_os_err read_server (nv_update nv i name)"

definition cl_PauseServer :: "'w nova \<Rightarrow> bytes \<Rightarrow> 'w \<Rightarrow> os_err option \<times> 'w" where
  "cl_PauseServer nv i = with_service_unit (nv_auth nv) raw_os_err (nv_pause nv i)"

definition cl_UnpauseServer :: "'w nova \<Rightarrow> bytes \<Rightarrow> 'w \<Rightarrow> os_err option \<times> 'w" where
  "cl_UnpauseServer nv i = with_service_unit (nv_auth nv) raw_os_err (nv_unpause nv i)"

definition cl_DeleteServer :: "'w nova \<Rightarrow> bytes \<Rightarrow> 'w \<Rightarrow> os_err option \<times> 'w" where
  "cl_DeleteServer nv i = with_service_unit (nv_auth nv) raw_os_err (nv_delete nv i)"

definition compute_client :: "'w nova \<Rightarrow> 'w computeClient" where
  "compute_client nv = \<lparr>cc_FetchFlavors = cl_FetchFlavors nv, cc_GetComputeQuota = cl_GetComputeQuota nv, cc_CreateServer = cl_CreateServer nv,
     cc_UpdateServerName = (\<lambda>i n w. case cl_UpdateServerName nv i n w of (Err e, w) \<Rightarrow> (Some e, w) | (Ok _, w) \<Rightarrow> (None, w)),
     cc_PauseServer = cl_PauseServer nv, cc_UnpauseServer = cl_UnpauseServer nv, cc_DeleteServer = cl_DeleteServer nv,
     cc_FetchInstances = cl_FetchInstances nv, cc_FetchInstance = cl_FetchInstance nv, cc_FetchDiagnostics = cl_FetchDiagnostics nv\<rparr>"

subsection \<open>Key pairs\<close>

definition cl_GetKeyPair :: "'w nova \<Rightarrow> bytes \<Rightarrow> 'w \<Rightarrow> (os_err + KeyPair) \<times> 'w" where
  "cl_GetKeyPair nv name = with_service (nv_auth nv) toStatusError (\<lambda>k. k) (nv_keypair_get nv name)"

definition cl_ListKeyPairs :: "'w nova \<Rightarrow> 'w \<Rightarrow> (os_err + KeyPair list) \<times> 'w" where
  "cl_ListKeyPairs nv = with_service (nv_auth nv) toStatusError (\<lambda>ks. ks) (nv_keypair_list nv)"

definition cl_CreateKeyPair :: "'w nova \<Rightarrow> bytes \<Rightarrow> bytes \<Rightarrow> 'w \<Rightarrow> (os_err + KeyPair) \<times> 'w" where
  "cl_CreateKeyPair nv name publicKey = with_service (nv_auth nv) toStatusError (\<lambda>k. k) (nv_keypair_create nv name publicKey)"

definition cl_DeleteKeyPair :: "'w nova \<Rightarrow> bytes \<Rightarrow> 'w \<Rightarrow> os_err option \<times> 'w" where
  "cl_DeleteKeyPair nv name = with_service_unit (nv_auth nv) toStatusError (nv_keypair_delete nv name)"

text \<open>\<open>decode\<close> is the passage of one network's addresses through JSON, nothing when it fails.\<close>

definition access_decodeServerAddresses :: "(any \<Rightarrow> serverAddress list option) \<Rightarrow> any \<Rightarrow> serverAddress list" where
  "access_decodeServerAddresses decode raw = (if raw = ANull then [] else case decode raw of None \<Rightarrow> [] | Some as \<Rightarrow> as)"

definition cl_GetInstance :: "'w nova \<Rightarrow> (any \<Rightarrow> serverAddress list option) \<Rightarrow> bytes \<Rightarrow> 'w \<Rightarrow> (os_err + ConsoleInstance) \<times> 'w" where
  "cl_GetInstance nv decode i = with_service (nv_auth nv) toStatusError (\<lambda>server.
     case extractServerIPs (map (\<lambda>(n, raw). access_decodeServerAddresses decode raw) (sv_Addresses server)) (sv_AccessIPv4 server) of
       (fixedIP, floatingIP) \<Rightarrow> \<lparr>ci_ID = sv_ID server, ci_Name = sv_Name server, ci_FixedIP = fixedIP, ci_FloatingIP = floatingIP\<rparr>) (nv_get nv i)"

definition keypair_client :: "'w nova \<Rightarrow> (any \<Rightarrow> serverAddress list option) \<Rightarrow> 'w keyPairClient" where
  "keypair_client nv decode = \<lparr>kc_CreateKeyPair = cl_CreateKeyPair nv, kc_DeleteKeyPair = cl_DeleteKeyPair nv, kc_GetInstance = cl_GetInstance nv decode\<rparr>"

subsection \<open>Object storage\<close>

record swift_object =
  so_Name :: bytes
  so_ContentType :: bytes
  so_Bytes :: int
  so_LastModified :: int

record 'w swift =
  sw_auth :: "'w gc_auth"
  sw_create :: "nat \<Rightarrow> 'w \<Rightarrow> gc_err option \<times> 'w"
  sw_delete :: "nat \<Rightarrow> 'w \<Rightarrow> gc_err option \<times> 'w"
  sw_list :: "nat \<Rightarrow> 'w \<Rightarrow> (gc_err + swift_object list) \<times> 'w"
  sw_put :: "nat \<Rightarrow> bytes \<Rightarrow> reader \<Rightarrow> bytes \<Rightarrow> 'w \<Rightarrow> gc_err option \<times> 'w"
  sw_get :: "nat \<Rightarrow> bytes \<Rightarrow> 'w \<Rightarrow> (gc_err + (bytes \<Rightarrow> bytes) \<times> bytes \<times> bytes option) \<times> 'w"
  sw_remove :: "nat \<Rightarrow> bytes \<Rightarrow> 'w \<Rightarrow> gc_err option \<times> 'w"
  sw_bulk :: "nat \<Rightarrow> bytes list \<Rightarrow> 'w \<Rightarrow> gc_err option \<times> 'w"

definition cl_CreateContainer :: "'w swift \<Rightarrow> nat \<Rightarrow> 'w \<Rightarrow> os_err option \<times> 'w" where
  "cl_CreateContainer sw name = with_service_unit (sw_auth sw) raw_os_err (sw_create sw name)"

definition cl_DeleteContainer :: "'w swift \<Rightarrow> nat \<Rightarrow> 'w \<Rightarrow> os_err option \<times> 'w" where
  "cl_DeleteContainer sw name = with_service_unit (sw_auth sw) raw_os_err (sw_delete sw name)"

definition cl_ListObjects :: "'w swift \<Rightarrow> nat \<Rightarrow> 'w \<Rightarrow> (os_err + ObjectInfo list) \<times> 'w" where
  "cl_ListObjects sw containerName = with_service (sw_auth sw) raw_os_err
     (map (\<lambda>ob. \<lparr>ob_Name = so_Name ob, ob_ContentType = so_ContentType ob, ob_SizeBytes = so_Bytes ob, ob_LastModified = so_LastModified ob\<rparr>))
     (sw_list sw containerName)"

definition cl_UploadObject :: "'w swift \<Rightarrow> nat \<Rightarrow> bytes \<Rightarrow> reader \<Rightarrow> bytes \<Rightarrow> 'w \<Rightarrow> os_err option \<times> 'w" where
  "cl_UploadObject sw containerName objectName r contentType = with_service_unit (sw_auth sw) raw_os_err (sw_put sw containerName objectName r contentType)"

definition cl_DownloadObject :: "mime_lib \<Rightarrow> 'w swift \<Rightarrow> nat \<Rightarrow> bytes \<Rightarrow> writer \<Rightarrow> 'w \<Rightarrow> os_err option \<times> writer \<times> 'w" where
  "cl_DownloadObject lib sw = client_DownloadObject lib (\<lambda>containerName objectName. with_service (sw_auth sw) raw_os_err (\<lambda>x. x) (sw_get sw containerName objectName))"

definition cl_DeleteObject :: "'w swift \<Rightarrow> nat \<Rightarrow> bytes \<Rightarrow> 'w \<Rightarrow> os_err option \<times> 'w" where
  "cl_DeleteObject sw containerName objectName = with_service_unit (sw_auth sw) raw_os_err (sw_remove sw containerName objectName)"

definition cl_BulkDeleteObjects :: "'w swift \<Rightarrow> nat \<Rightarrow> bytes list \<Rightarrow> 'w \<Rightarrow> os_err option \<times> 'w" where
  "cl_BulkDeleteObjects sw containerName names = with_service_unit (sw_auth sw) raw_os_err (sw_bulk sw containerName names)"

definition storage_client :: "mime_lib \<Rightarrow> 'w swift \<Rightarrow> 'w storageClient" where
  "storage_client lib sw = \<lparr>sc_CreateContainer = cl_CreateContainer sw, sc_DeleteContainer = cl_DeleteContainer sw, sc_ListObjects = cl_ListObjects sw,
     sc_UploadObject = cl_UploadObject sw, sc_DownloadObject = cl_DownloadObject lib sw, sc_DeleteObject = cl_DeleteObject sw,
     sc_BulkDeleteObjects = cl_BulkDeleteObjects sw\<rparr>"

subsection \<open>The promises of the services\<close>

text \<open>
  A call keeps a part \<open>a\<close> of the cloud when it does not succeed, or always; authentication always does.
  These are all that is asked of the OpenStack services, beside what a successful call does.
\<close>

definition auth_keeps :: "'w gc_auth \<Rightarrow> ('w \<Rightarrow> 'a) \<Rightarrow> bool" where
  "auth_keeps au a \<longleftrightarrow> (\<forall>w. a (snd (au w)) = a w)"

definition lawful_nova :: "'w nova \<Rightarrow> ('w \<Rightarrow> bytes set) \<Rightarrow> ('w \<Rightarrow> bytes set) \<Rightarrow> bool" where
  "lawful_nova nv servers keys \<longleftrightarrow> auth_keeps (nv_auth nv) servers \<and> auth_keeps (nv_auth nv) keys
   \<and> (\<forall>opts w. case nv_create nv opts w of (Ok srv, w') \<Rightarrow> sv_ID srv \<notin> servers w \<and> servers w' = insert (sv_ID srv) (servers w)
        | (Err e, w') \<Rightarrow> servers w' = servers w)
   \<and> (\<forall>i w. case nv_delete nv i w of (None, w') \<Rightarrow> servers w' = servers w - {i} | (Some e, w') \<Rightarrow> servers w' = servers w)
   \<and> (\<forall>n p w. case nv_keypair_create nv n p w of (Ok kp, w') \<Rightarrow> kp_Name kp = n \<and> n \<notin> keys w \<and> keys w' = insert n (keys w)
        | (Err e, w') \<Rightarrow> keys w' = keys w)
   \<and> (\<forall>n w. case nv_keypair_delete nv n w of (None, w') \<Rightarrow> keys w' = keys w - {n} | (Some e, w') \<Rightarrow> keys w' = keys w)"

text \<open>Of Swift also that its 404, which gophercloud gives as \<^verbatim>\<open>ErrDefault404\<close>, means that there is no such container.\<close>

definition lawful_swift_service :: "'w swift \<Rightarrow> ('w \<Rightarrow> nat set) \<Rightarrow> bool" where
  "lawful_swift_service sw cont \<longleftrightarrow> auth_keeps (sw_auth sw) cont
   \<and> (\<forall>n w. case sw_create sw n w of (None, w') \<Rightarrow> cont w' = insert n (cont w) | (Some e, w') \<Rightarrow> cont w' = cont w)
   \<and> (\<forall>n w. case sw_delete sw n w of (None, w') \<Rightarrow> cont w' = cont w - {n}
        | (Some e, w') \<Rightarrow> cont w' = cont w \<and> (\<forall>m. e = GcDefault 404 m \<longrightarrow> n \<notin> cont w))
   \<and> (\<forall>n w. cont (snd (sw_list sw n w)) = cont w)
   \<and> (\<forall>n ns w. cont (snd (sw_bulk sw n ns w)) = cont w)"

text \<open>What a call behind the making of a service client comes to.\<close>

lemma with_service_keeps:
  assumes "auth_keeps au a" and "with_service au ce f act w = (r, w')"
  obtains (refused) e where "r = Err e" "a w' = a w"
  | (ran) w1 x where "a w1 = a w" "act w1 = (x, w')" "r = (case x of Err e \<Rightarrow> Err (ce e) | Ok y \<Rightarrow> Ok (f y))"
proof -
  obtain q w1 where q: "au w = (q, w1)" by force
  have a: "a w1 = a w" using assms(1) q unfolding auth_keeps_def by (metis snd_conv)
  show thesis
  proof (cases q)
    case None
    obtain x w2 where "act w1 = (x, w2)" by force
    with assms(2) q None a show thesis by (cases x) (auto simp: with_service_def conv_result_def intro: ran)
  next
    case (Some e)
    with assms(2) q a show thesis by (auto simp: with_service_def intro: refused)
  qed
qed

lemma with_service_unit_keeps:
  assumes "auth_keeps au a" and "with_service_unit au ce act w = (r, w')"
  obtains (refused) m where "r = Some (OtherErr m)" "a w' = a w"
  | (ran) w1 x where "a w1 = a w" "act w1 = (x, w')" "r = map_option ce x"
proof -
  obtain q w1 where q: "au w = (q, w1)" by force
  have a: "a w1 = a w" using assms(1) q unfolding auth_keeps_def by (metis snd_conv)
  show thesis
  proof (cases q)
    case None
    obtain x w2 where "act w1 = (x, w2)" by force
    with assms(2) q None a show thesis by (auto simp: with_service_unit_def conv_error_def intro: ran)
  next
    case (Some e)
    with assms(2) q a show thesis by (auto simp: with_service_unit_def intro: refused)
  qed
qed

lemma compute_client_lawful:
  assumes "lawful_nova nv servers keys"
  shows "lawful_compute_client (compute_client nv) servers"
proof -
  have au: "auth_keeps (nv_auth nv) servers"
    and create: "\<And>opts w. case nv_create nv opts w of (Ok srv, w') \<Rightarrow> sv_ID srv \<notin> servers w \<and> servers w' = insert (sv_ID srv) (servers w)
        | (Err e, w') \<Rightarrow> servers w' = servers w"
    and delete: "\<And>i w. case nv_delete nv i w of (None, w') \<Rightarrow> servers w' = servers w - {i} | (Some e, w') \<Rightarrow> servers w' = servers w"
    using assms by (simp_all only: lawful_nova_def simp_thms)
  have "case r of Ok srv \<Rightarrow> sv_ID srv \<notin> servers w \<and> servers w' = insert (sv_ID srv) (servers w) | Err e \<Rightarrow> servers w' = servers w"
    if "cl_CreateServer nv opts w = (r, w')" for opts w r w'
    using au that unfolding cl_CreateServer_def
  proof (cases rule: with_service_keeps)
    case (ran w1 x)
    then show ?thesis using create [where w = w1]
      by (cases x) (simp_all add: createServerWithServiceClient_def made_server_def, (metis (mono_tags, lifting) case_prod_conv sum.case)+)
  qed simp
  moreover have "case r of None \<Rightarrow> servers w' = servers w - {i} | Some e \<Rightarrow> servers w' = servers w"
    if "cl_DeleteServer nv i w = (r, w')" for i w r w'
    using au that unfolding cl_DeleteServer_def
  proof (cases rule: with_service_unit_keeps)
    case (ran w1 x)
    then show ?thesis using delete [where i = i and w = w1] by (cases x) simp_all
  qed simp
  ultimately show ?thesis unfolding lawful_compute_client_def by (fastforce simp: compute_client_def)
qed

lemma keypair_client_lawful:
  assumes "lawful_nova nv servers keys"
  shows "lawful_keypair_client (keypair_client nv decode) keys"
proof -
  have au: "auth_keeps (nv_auth nv) keys"
    and create: "\<And>n p w. case nv_keypair_create nv n p w of (Ok kp, w') \<Rightarrow> kp_Name kp = n \<and> n \<notin> keys w \<and> keys w' = insert n (keys w)
        | (Err e, w') \<Rightarrow> keys w' = keys w"
    and delete: "\<And>n w. case nv_keypair_delete nv n w of (None, w') \<Rightarrow> keys w' = keys w - {n} | (Some e, w') \<Rightarrow> keys w' = keys w"
    using assms by (simp_all only: lawful_nova_def simp_thms)
  have "case r of Ok kp \<Rightarrow> kp_Name kp = n \<and> n \<notin> keys w \<and> keys w' = insert n (keys w) | Err e \<Rightarrow> keys w' = keys w"
    if "cl_CreateKeyPair nv n p w = (r, w')" for n p w r w'
    using au that unfolding cl_CreateKeyPair_def
  proof (cases rule: with_service_keeps)
    case (ran w1 x)
    then show ?thesis using create [where n = n and p = p and w = w1] by (cases x) simp_all
  qed simp
  moreover have "case r of None \<Rightarrow> keys w' = keys w - {n} | Some e \<Rightarrow> keys w' = keys w"
    if "cl_DeleteKeyPair nv n w = (r, w')" for n w r w'
    using au that unfolding cl_DeleteKeyPair_def
  proof (cases rule: with_service_unit_keeps)
    case (ran w1 x)
    then show ?thesis using delete [where n = n and w = w1] by (cases x) simp_all
  qed simp
  ultimately show ?thesis unfolding lawful_keypair_client_def by (fastforce simp: keypair_client_def)
qed

lemma raw_os_err_404: "isSwiftNotFound (raw_os_err e) \<longleftrightarrow> (\<exists>m. e = GcDefault 404 m)"
  by (cases e) (auto simp: isSwiftNotFound_def hasStatusCode_def)

lemma storage_client_lawful:
  assumes "lawful_swift_service sw cont"
  shows "lawful_swift (storage_client lib sw) cont"
proof -
  have au: "auth_keeps (sw_auth sw) cont"
    and create: "\<And>n w. case sw_create sw n w of (None, w') \<Rightarrow> cont w' = insert n (cont w) | (Some e, w') \<Rightarrow> cont w' = cont w"
    and delete: "\<And>n w. case sw_delete sw n w of (None, w') \<Rightarrow> cont w' = cont w - {n}
        | (Some e, w') \<Rightarrow> cont w' = cont w \<and> (\<forall>m. e = GcDefault 404 m \<longrightarrow> n \<notin> cont w)"
    and list: "\<And>n w. cont (snd (sw_list sw n w)) = cont w"
    and bulk: "\<And>n ns w. cont (snd (sw_bulk sw n ns w)) = cont w"
    using assms by (simp_all only: lawful_swift_service_def simp_thms)
  have "case r of None \<Rightarrow> cont w' = insert n (cont w) | Some e \<Rightarrow> cont w' = cont w"
    if "cl_CreateContainer sw n w = (r, w')" for n w r w'
    using au that unfolding cl_CreateContainer_def
  proof (cases rule: with_service_unit_keeps)
    case (ran w1 x)
    then show ?thesis using create [where n = n and w = w1] by (cases x) simp_all
  qed simp
  moreover have "case r of None \<Rightarrow> cont w' = cont w - {n} | Some e \<Rightarrow> cont w' = cont w \<and> (isSwiftNotFound e \<longrightarrow> n \<notin> cont w)"
    if "cl_DeleteContainer sw n w = (r, w')" for n w r w'
    using au that unfolding cl_DeleteContainer_def
  proof (cases rule: with_service_unit_keeps)
    case refused
    then show ?thesis by (simp add: isSwiftNotFound_def hasStatusCode_def)
  next
    case (ran w1 x)
    then show ?thesis using delete [where n = n and w = w1] by (cases x) (auto simp: raw_os_err_404)
  qed
  moreover have "cont w' = cont w" if "cl_ListObjects sw n w = (r, w')" for n w r w'
    using au that unfolding cl_ListObjects_def
  proof (cases rule: with_service_keeps)
    case (ran w1 x)
    then show ?thesis using list [where n = n and w = w1] by simp
  qed
  moreover have "cont w' = cont w" if "cl_BulkDeleteObjects sw n ns w = (r, w')" for n ns w r w'
    using au that unfolding cl_BulkDeleteObjects_def
  proof (cases rule: with_service_unit_keeps)
    case (ran w1 x)
    then show ?thesis using bulk [where n = n and ns = ns and w = w1] by simp
  qed
  ultimately show ?thesis unfolding lawful_swift_def by (fastforce simp: storage_client_def)
qed

end
