(* ===== verification/Startup.thy ===== *)
theory Startup
  imports Ns_Proxy Ssh_Login
begin

text \<open>
  The start of the programs: \<^verbatim>\<open>cmd/api/main.go\<close>, \<^verbatim>\<open>internal/server/app.go\<close>, \<^verbatim>\<open>internal/infrastructure\<close> and the \<^verbatim>\<open>Init\<close>
  functions of the domains, with what the \<^verbatim>\<open>main\<close> functions of the other programs do to the settings. Each program
  reads the environment on its own; what is shown is that they come to the same sockets, secret and database.
\<close>

subsection \<open>Infrastructure\<close>

text \<open>Loading \<^verbatim>\<open>.env\<close>: the file need not be there.\<close>

datatype dotenv_err = EnvNotExist | EnvOther bytes

definition loadLocalEnv :: "dotenv_err option \<Rightarrow> bytes option" where
  "loadLocalEnv r = (case r of Some (EnvOther m) \<Rightarrow> Some m | _ \<Rightarrow> None)"

text \<open>The clients add the service token of Cloudflare to a copy of each request; header names are in canonical form.\<close>

definition defaultTimeout :: int where "defaultTimeout = 5 * minute"

definition RoundTrip :: "bytes \<Rightarrow> bytes \<Rightarrow> (bytes \<Rightarrow> bytes) \<Rightarrow> bytes \<Rightarrow> bytes" where
  "RoundTrip clientID clientSecret h = h(''Cf-Access-Client-Id'' := clientID, ''Cf-Access-Client-Secret'' := clientSecret)"

record ProviderConfig =
  pv_AuthURL :: bytes
  pv_Username :: bytes
  pv_Password :: bytes
  pv_ProjectName :: bytes
  pv_DomainName :: bytes
  pv_CFClientID :: bytes
  pv_CFSecret :: bytes

text \<open>
  \<open>new_client\<close> checks the endpoint and \<open>authenticate\<close> logs in, over a client whose requests pass \<open>RoundTrip\<close>; each
  gives its error, if any.
\<close>

definition NewProviderClient :: "(bytes \<Rightarrow> bytes option) \<Rightarrow> (((bytes \<Rightarrow> bytes) \<Rightarrow> bytes \<Rightarrow> bytes) \<Rightarrow> ProviderConfig \<Rightarrow> bytes option)
    \<Rightarrow> ProviderConfig \<Rightarrow> bytes option" where
  "NewProviderClient new_client authenticate cfg = (case new_client (pv_AuthURL cfg) of
     Some e \<Rightarrow> Some e | None \<Rightarrow> authenticate (RoundTrip (pv_CFClientID cfg) (pv_CFSecret cfg)) cfg)"

record db_client =
  dc_Driver :: bytes
  dc_DSN :: bytes
  dc_MaxOpenConns :: "nat option"

definition OpenEntClient :: "(bytes \<Rightarrow> bytes \<Rightarrow> bytes option) \<Rightarrow> bytes \<Rightarrow> bytes \<Rightarrow> bytes + db_client" where
  "OpenEntClient sql_Open driver dsn = (case sql_Open driver dsn of
     Some e \<Rightarrow> Err (''failed to open database: '' @ e)
   | None \<Rightarrow> Ok \<lparr>dc_Driver = driver, dc_DSN = dsn,
       dc_MaxOpenConns = (if driver = ''sqlite3'' \<and> \<not> Contains dsn ''mode=ro'' then Some 1 else None)\<rparr>)"

definition NewEntClient :: "(bytes \<Rightarrow> bytes \<Rightarrow> bytes option) \<Rightarrow> (db_client \<Rightarrow> bytes option) \<Rightarrow> bytes \<Rightarrow> bytes \<Rightarrow> bytes + db_client" where
  "NewEntClient sql_Open migrate driver dsn = rbind (OpenEntClient sql_Open driver dsn) (\<lambda>client.
     case migrate client of Some e \<Rightarrow> Err (''failed to run schema migration: '' @ e) | None \<Rightarrow> Ok client)"

record oauth_config =
  oc_ClientID :: bytes
  oc_ClientSecret :: bytes
  oc_RedirectURL :: bytes
  oc_Scopes :: "bytes list"

definition NewGoogleConfig :: "bytes \<Rightarrow> bytes \<Rightarrow> bytes \<Rightarrow> oauth_config option" where
  "NewGoogleConfig clientID clientSecret redirectURL = (if clientID = [] \<or> clientSecret = [] then None
     else Some \<lparr>oc_ClientID = clientID, oc_ClientSecret = clientSecret, oc_RedirectURL = redirectURL,
       oc_Scopes = [''https://www.googleapis.com/auth/userinfo.email'', ''https://www.googleapis.com/auth/userinfo.profile'', ''openid'']\<rparr>)"

text \<open>The level of a logger; the configurations admit only the four names.\<close>

datatype slog_level = LevelDebug | LevelInfo | LevelWarn | LevelError

definition newLogger :: "bytes \<Rightarrow> slog_level" where
  "newLogger level = (let l = ToLower level in
     if l = ''debug'' then LevelDebug else if l = ''warn'' then LevelWarn else if l = ''error'' then LevelError else LevelInfo)"

subsection \<open>The API\<close>

definition resolveFrontendBaseURL :: "getenv \<Rightarrow> bytes" where
  "resolveFrontendBaseURL get =
     (if TrimSpace (get ''FRONTEND_URL'') \<noteq> [] then TrimRight CHR ''/'' (TrimSpace (get ''FRONTEND_URL''))
      else if TrimSpace (get ''RCP_FRONTEND_BASE_URL'') \<noteq> [] then TrimRight CHR ''/'' (TrimSpace (get ''RCP_FRONTEND_BASE_URL''))
      else [])"

definition resolveAppGatewayAddress :: "getenv \<Rightarrow> bytes" where
  "resolveAppGatewayAddress get = (let port = TrimSpace (get ''APP_GATEWAY_PORT''); port = (if port = [] then ''18080'' else port) in
     if HasPrefix port '':'' then ''127.0.0.1'' @ port else if Contains port '':'' then port else ''127.0.0.1:'' @ port)"

definition resolveDBConfig :: "getenv \<Rightarrow> bytes \<times> bytes" where
  "resolveDBConfig get = (let driver = TrimSpace (get ''DB_DRIVER''); driver = (if driver = [] then ''sqlite3'' else driver);
       dsn = TrimSpace (get ''DB_DSN'');
       dsn = (if dsn = [] then ''file:rcp.db?cache=shared&_pragma=foreign_keys(1)&_pragma=busy_timeout(5000)'' else dsn) in (driver, dsn))"

record AppDeps =
  ad_db :: db_client
  ad_OAuthConfig :: oauth_config
  ad_OpenStackProject :: bytes
  ad_DefaultNetworkID :: bytes
  ad_JWTSecret :: bytes
  ad_SSHGatewaySock :: bytes
  ad_SSHGatewaySecret :: bytes
  ad_NSProxySock :: bytes
  ad_HTTPProxyAddress :: bytes
  ad_FrontendBaseURL :: bytes

text \<open>
  The SSH service is its notify client, a socket and a secret. It reaches the handlers as an interface value,
  which is nil itself, or holds a pointer that may be nil; \<^verbatim>\<open>h.ssh == nil\<close> asks for the former.
\<close>

datatype ssh_handler = NilInterface | SSHServicePtr "(bytes \<times> bytes) option"

definition InitSSH :: "bytes \<Rightarrow> bytes \<Rightarrow> bytes \<times> bytes" where
  "InitSSH notifySockPath notifySecret = (notifySockPath, notifySecret)"

record server_App =
  ap_ssh :: ssh_handler
  ap_internal_secret :: bytes
  ap_frontend :: bytes
  ap_data_dir :: bytes
  ap_builder_path :: bytes

definition BuilderFromEnv :: "(bytes \<Rightarrow> bytes option) \<Rightarrow> getenv \<Rightarrow> bytes + bytes" where
  "BuilderFromEnv stat_err get = (let path = get ''RCP_FUNCTION_BUILDER_SOCKET'';
       path = (if path = [] then ''/run/rcp-function-builder/builder.sock'' else path) in
     case stat_err path of Some e \<Rightarrow> Err e | None \<Rightarrow> Ok path)"

text \<open>
  \<open>runtime\<close> is the error of making the WebAssembly runtime, \<open>stat_err\<close> that of \<^verbatim>\<open>os.Stat\<close> other than that there is no
  such file, and \<open>open_data\<close> that of opening the data directory.
\<close>

definition functions_Init :: "bytes option \<Rightarrow> (bytes \<Rightarrow> bytes option) \<Rightarrow> (bytes \<Rightarrow> bytes option) \<Rightarrow> getenv \<Rightarrow> bytes + bytes \<times> bytes" where
  "functions_Init runtime stat_err open_data get = (case runtime of Some e \<Rightarrow> Err e
     | None \<Rightarrow> rbind (BuilderFromEnv stat_err get) (\<lambda>path.
         let dir = get ''RCP_FUNCTION_DATA_DIR''; dir = (if dir = [] then ''function-data'' else dir) in
         case open_data dir of Some e \<Rightarrow> Err e | None \<Rightarrow> Ok (path, dir)))"

definition NewApp :: "(bytes + bytes \<times> bytes) \<Rightarrow> AppDeps \<Rightarrow> bytes + server_App" where
  "NewApp fns deps = (let sshSvc = (if ad_SSHGatewaySock deps \<noteq> [] \<and> ad_SSHGatewaySecret deps \<noteq> []
         then Some (InitSSH (ad_SSHGatewaySock deps) (ad_SSHGatewaySecret deps)) else None) in
     case fns of Err e \<Rightarrow> Err (''failed to initialize functions: '' @ e)
     | Ok (path, dir) \<Rightarrow> Ok \<lparr>ap_ssh = SSHServicePtr sshSvc, ap_internal_secret = ad_SSHGatewaySecret deps,
         ap_frontend = TrimRight CHR ''/'' (TrimSpace (ad_FrontendBaseURL deps)), ap_data_dir = dir, ap_builder_path = path\<rparr>)"

text \<open>The outcomes of what \<^verbatim>\<open>main\<close> calls outside the program.\<close>

record startup_env =
  su_dotenv :: "dotenv_err option"
  su_new_client :: "bytes \<Rightarrow> bytes option"
  su_authenticate :: "((bytes \<Rightarrow> bytes) \<Rightarrow> bytes \<Rightarrow> bytes) \<Rightarrow> ProviderConfig \<Rightarrow> bytes option"
  su_sql_Open :: "bytes \<Rightarrow> bytes \<Rightarrow> bytes option"
  su_migrate :: "db_client \<Rightarrow> bytes option"
  su_runtime :: "bytes option"
  su_stat_err :: "bytes \<Rightarrow> bytes option"
  su_open_data :: "bytes \<Rightarrow> bytes option"

datatype startup_err = EnvFileFailed bytes | OpenStackFailed bytes | DBFailed bytes | GoogleFailed | FrontendRequired | AppFailed bytes

definition provider_config :: "getenv \<Rightarrow> ProviderConfig" where
  "provider_config get = \<lparr>pv_AuthURL = get ''OS_AUTH_URL'', pv_Username = get ''OS_USERNAME'', pv_Password = get ''OS_PASSWORD'',
     pv_ProjectName = get ''OS_PROJECT_NAME'', pv_DomainName = get ''OS_USER_DOMAIN_NAME'', pv_CFClientID = get ''CF_ACCESS_CLIENT_ID'',
     pv_CFSecret = get ''CF_ACCESS_CLIENT_SECRET''\<rparr>"

text \<open>\<^verbatim>\<open>main\<close> of the API, up to serving the router: the dependencies, the application and the port, or why it exits.\<close>

definition api_main :: "startup_env \<Rightarrow> getenv \<Rightarrow> startup_err + AppDeps \<times> server_App \<times> bytes" where
  "api_main E get = (case loadLocalEnv (su_dotenv E) of Some m \<Rightarrow> Err (EnvFileFailed m) | None \<Rightarrow>
     (let jwtSecret = get ''RCP_JWT_SECRET''; jwtSecret = (if jwtSecret = [] then ''default-low-security-key-for-dev'' else jwtSecret) in
     case NewProviderClient (su_new_client E) (su_authenticate E) (provider_config get) of Some m \<Rightarrow> Err (OpenStackFailed m) | None \<Rightarrow>
     (case NewEntClient (su_sql_Open E) (su_migrate E) (fst (resolveDBConfig get)) (snd (resolveDBConfig get)) of Err m \<Rightarrow> Err (DBFailed m) | Ok client \<Rightarrow>
     (case NewGoogleConfig (get ''GG_OAUTH_CLIENT'') (get ''GG_OAUTH_SECRET'') (get ''GG_REDIRECT_URL'') of None \<Rightarrow> Err GoogleFailed | Some oauth \<Rightarrow>
     (let notifySock = TrimSpace (get ''RCP_SSH_GW_NOTIFY_SOCK''); notifySock = (if notifySock = [] then ''/run/rcp/ssh-gateway-notify.sock'' else notifySock);
          nsProxySock = TrimSpace (get ''RCP_NS_PROXY_SOCK''); nsProxySock = (if nsProxySock = [] then ''/run/rcp/ns-proxy.sock'' else nsProxySock);
          frontendBaseURL = resolveFrontendBaseURL get in
      if frontendBaseURL = [] then Err FrontendRequired
      else let deps = \<lparr>ad_db = client, ad_OAuthConfig = oauth, ad_OpenStackProject = get ''OS_PROJECT_ID'',
             ad_DefaultNetworkID = get ''RCP_DEFAULT_NETWORK_ID'', ad_JWTSecret = jwtSecret, ad_SSHGatewaySock = notifySock,
             ad_SSHGatewaySecret = TrimSpace (get ''RCP_SSH_GW_NOTIFY_SECRET''), ad_NSProxySock = nsProxySock,
             ad_HTTPProxyAddress = resolveAppGatewayAddress get, ad_FrontendBaseURL = frontendBaseURL\<rparr> in
        case NewApp (functions_Init (su_runtime E) (su_stat_err E) (su_open_data E) get) deps of
          Err m \<Rightarrow> Err (AppFailed m)
        | Ok app \<Rightarrow> Ok (deps, app, if get ''PORT'' = [] then ''8080'' else get ''PORT''))))))"

text \<open>The function builder takes its socket from the same variable, which it requires.\<close>

definition builder_socket :: "getenv \<Rightarrow> bytes option" where
  "builder_socket get = (if get ''RCP_FUNCTION_BUILDER_SOCKET'' = [] then None else Some (get ''RCP_FUNCTION_BUILDER_SOCKET''))"

subsection \<open>Agreement\<close>

text \<open>What a loaded configuration takes from the environment.\<close>

definition or_default :: "bytes \<Rightarrow> bytes \<Rightarrow> bytes" where
  "or_default v def = (if v = [] then def else v)"

lemma EnvSockPath_value: "EnvSockPath get key def = Ok v \<Longrightarrow> v = or_default (TrimSpace (get key)) def"
  by (auto simp: EnvSockPath_def or_default_def Let_def split: if_splits)

lemma ssh_loaded:
  assumes "ssh_LoadConfig fp get = Ok c"
  shows "EnvSockPath get ''RCP_SSH_GW_NOTIFY_SOCK'' ''/run/rcp/ssh-gateway-notify.sock'' = Ok (sc_NotifySock c)
    \<and> EnvSockPath get ''RCP_NS_PROXY_SOCK'' ''/run/rcp/ns-proxy.sock'' = Ok (sc_NsProxySock c)
    \<and> sc_NotifySecret c = TrimSpace (get ''RCP_SSH_GW_NOTIFY_SECRET'') \<and> sc_NotifySecret c \<noteq> []
    \<and> ssh_db_settings get = Ok (sc_DBDSN c, sc_DBPath c)
    \<and> sc_DBDriver c = (if TrimSpace (get ''DB_DRIVER'') = [] then ''sqlite3'' else TrimSpace (get ''DB_DRIVER''))"
  using assms unfolding ssh_LoadConfig_def Let_def
  by (elim rbind_OkE) (auto elim!: rbind_OkE)

lemma ssh_db_settings_DSN: "ssh_db_settings get = Ok (dsn, path) \<Longrightarrow> TrimSpace (get ''DB_DSN'') \<noteq> [] \<Longrightarrow> dsn = TrimSpace (get ''DB_DSN'')"
  by (simp add: ssh_db_settings_def Let_def)

lemma ssh_config_values:
  assumes "ssh_LoadConfig fp get = Ok c"
  shows "sc_NotifySock c = or_default (TrimSpace (get ''RCP_SSH_GW_NOTIFY_SOCK'')) ''/run/rcp/ssh-gateway-notify.sock''"
    and "sc_NsProxySock c = or_default (TrimSpace (get ''RCP_NS_PROXY_SOCK'')) ''/run/rcp/ns-proxy.sock''"
    and "sc_NotifySecret c = TrimSpace (get ''RCP_SSH_GW_NOTIFY_SECRET'')" and "sc_NotifySecret c \<noteq> []"
    and "sc_NotifySock c \<noteq> []"
    and "sc_DBDriver c = or_default (TrimSpace (get ''DB_DRIVER'')) ''sqlite3''"
    and "TrimSpace (get ''DB_DSN'') \<noteq> [] \<Longrightarrow> sc_DBDSN c = TrimSpace (get ''DB_DSN'')"
proof -
  note L = ssh_loaded [OF assms]
  show "sc_NotifySock c = or_default (TrimSpace (get ''RCP_SSH_GW_NOTIFY_SOCK'')) ''/run/rcp/ssh-gateway-notify.sock''"
    using L EnvSockPath_value by blast
  then show "sc_NotifySock c \<noteq> []" by (simp add: or_default_def)
  show "sc_NsProxySock c = or_default (TrimSpace (get ''RCP_NS_PROXY_SOCK'')) ''/run/rcp/ns-proxy.sock''"
    using L EnvSockPath_value by blast
  show "sc_NotifySecret c = TrimSpace (get ''RCP_SSH_GW_NOTIFY_SECRET'')" "sc_NotifySecret c \<noteq> []" using L by blast+
  show "sc_DBDriver c = or_default (TrimSpace (get ''DB_DRIVER'')) ''sqlite3''" using L by (simp add: or_default_def)
  show "sc_DBDSN c = TrimSpace (get ''DB_DSN'')" if "TrimSpace (get ''DB_DSN'') \<noteq> []"
    using L that ssh_db_settings_DSN by blast
qed

lemma NewEntClient_values: "NewEntClient sql_Open migrate driver dsn = Ok client \<Longrightarrow> dc_Driver client = driver \<and> dc_DSN client = dsn"
  by (auto simp: NewEntClient_def OpenEntClient_def rbind_Ok split: option.splits)

lemma proxy_config_values:
  "proxy_LoadConfig fp get = Ok c \<Longrightarrow> pc_SockPath c = or_default (TrimSpace (get ''RCP_NS_PROXY_SOCK'')) ''/run/rcp/ns-proxy.sock''"
  unfolding proxy_LoadConfig_def by (elim rbind_OkE) (auto dest!: EnvSockPath_value)

lemma app_config_values:
  assumes "app_LoadConfig fp get = Ok c"
  shows "ag_NsProxySock c = or_default (TrimSpace (get ''RCP_NS_PROXY_SOCK'')) ''/run/rcp/ns-proxy.sock''"
    and "ag_DBDriver c = or_default (TrimSpace (get ''DB_DRIVER'')) ''sqlite3''"
    and "TrimSpace (get ''DB_DSN'') \<noteq> [] \<Longrightarrow> ag_DBDSN c = TrimSpace (get ''DB_DSN'')"
    and "ag_Listen c = (let port = or_default (TrimSpace (get ''APP_GATEWAY_PORT'')) ''18080'' in
      if Contains port '':'' then port else '':'' @ TrimPrefix port '':'')"
  using assms unfolding app_LoadConfig_def Let_def
  by (elim rbind_OkE; auto dest!: EnvSockPath_value simp: or_default_def)+

lemma app_address:
  "resolveAppGatewayAddress get = (let listen = (let port = or_default (TrimSpace (get ''APP_GATEWAY_PORT'')) ''18080'' in
      if Contains port '':'' then port else '':'' @ TrimPrefix port '':'') in
    if HasPrefix listen '':'' then ''127.0.0.1'' @ listen else listen)"
proof -
  have h: "HasPrefix p '':'' \<Longrightarrow> Contains p '':''" for p
    by (metis Contains_iff HasPrefix_def append_Nil append_take_drop_id)
  show ?thesis using h by (auto simp: resolveAppGatewayAddress_def or_default_def Let_def TrimPrefix_def HasPrefix_def)
qed

lemma api_main_started:
  assumes "api_main E get = Ok (deps, app, port)"
  obtains path dir where "functions_Init (su_runtime E) (su_stat_err E) (su_open_data E) get = Ok (path, dir)"
    and "NewApp (Ok (path, dir)) deps = Ok app"
    and "NewEntClient (su_sql_Open E) (su_migrate E) (fst (resolveDBConfig get)) (snd (resolveDBConfig get)) = Ok (ad_db deps)"
    and "ad_SSHGatewaySock deps = or_default (TrimSpace (get ''RCP_SSH_GW_NOTIFY_SOCK'')) ''/run/rcp/ssh-gateway-notify.sock''"
    and "ad_SSHGatewaySecret deps = TrimSpace (get ''RCP_SSH_GW_NOTIFY_SECRET'')"
    and "ad_NSProxySock deps = or_default (TrimSpace (get ''RCP_NS_PROXY_SOCK'')) ''/run/rcp/ns-proxy.sock''"
    and "ad_HTTPProxyAddress deps = resolveAppGatewayAddress get"
proof -
  obtain path dir where f: "functions_Init (su_runtime E) (su_stat_err E) (su_open_data E) get = Ok (path, dir)"
    using assms by (auto simp: api_main_def NewApp_def Let_def split: option.splits sum.splits if_splits)
  show thesis
    by (rule that [OF f]) (use assms in \<open>auto simp: api_main_def f Let_def or_default_def
      split: option.splits sum.splits if_splits\<close>)
qed

lemma builder_path: "functions_Init rt st od get = Ok (path, dir) \<Longrightarrow> builder_socket get = Some p \<Longrightarrow> path = p"
  by (auto simp: functions_Init_def BuilderFromEnv_def builder_socket_def Let_def rbind_Ok split: option.splits if_splits)


definition quiet_startup :: startup_env where
  "quiet_startup = \<lparr>su_dotenv = Some EnvNotExist, su_new_client = (\<lambda>_. None), su_authenticate = (\<lambda>_ _. None), su_sql_Open = (\<lambda>_ _. None),
     su_migrate = (\<lambda>_. None), su_runtime = None, su_stat_err = (\<lambda>_. None), su_open_data = (\<lambda>_. None)\<rparr>"

definition shared_env :: getenv where
  "shared_env k = (case map_of [(''GG_OAUTH_CLIENT'', ''c''), (''GG_OAUTH_SECRET'', ''s''), (''FRONTEND_URL'', ''https://a''),
     (''RCP_NS_PROXY_ALLOW_CIDR'', ''10.0.0.0/8'')] k of Some v \<Rightarrow> v | None \<Rightarrow> example_env k)"


subsection \<open>SSH logins without a secret\<close>

text \<open>
  A call of the SSH service through the interface. With a nil pointer the guards still pass, and then reading the
  notifier of the service panics: nothing comes back.
\<close>

definition ssh_is_nil :: "ssh_handler \<Rightarrow> bool" where
  "ssh_is_nil h \<longleftrightarrow> h = NilInterface"

definition call_HandleSSHCallback :: "(bytes \<times> bytes \<Rightarrow> bytes \<Rightarrow> bytes \<Rightarrow> bytes \<Rightarrow> 'w \<Rightarrow> bytes option \<times> 'w) \<Rightarrow> ssh_handler
    \<Rightarrow> bytes \<Rightarrow> bytes \<Rightarrow> bytes \<Rightarrow> 'w \<Rightarrow> (ssh_callback_err option \<times> 'w) option" where
  "call_HandleSSHCallback notifier h nonce code userEmail w = (case h of
     SSHServicePtr (Some svc) \<Rightarrow> Some (HandleSSHCallback (notifier svc) nonce code userEmail w)
   | SSHServicePtr None \<Rightarrow> (if nonce = [] \<or> code = [] \<or> userEmail = []
       then Some (HandleSSHCallback (\<lambda>_ _ _ w. (None, w)) nonce code userEmail w) else None)
   | NilInterface \<Rightarrow> None)"

text \<open>
  The check \<^verbatim>\<open>h.ssh == nil\<close> that is to switch SSH logins off never holds, as \<^verbatim>\<open>NewApp\<close> passes a typed pointer: without
  the secret, a callback with a nonce, a code and a verified email panics.
\<close>

lemma ssh_logins_never_off:
  assumes "NewApp fns deps = Ok app" and "ad_SSHGatewaySecret deps = []"
  shows "\<not> ssh_is_nil (ap_ssh app)"
    and "nonce \<noteq> [] \<Longrightarrow> code \<noteq> [] \<Longrightarrow> userEmail \<noteq> [] \<Longrightarrow> call_HandleSSHCallback notifier (ap_ssh app) nonce code userEmail w = None"
  using assms by (auto simp: NewApp_def ssh_is_nil_def call_HandleSSHCallback_def Let_def split: sum.splits)

end
